(* ===== verification/Prelude.thy ===== *)
theory Prelude
  imports Main "HOL-Library.Word" "HOL-Library.Monad_Syntax"
begin

text \<open>
  Shared vocabulary of the development: the machine integers of the Go code as words of
  their width, run-time panics as the value \<open>None\<close> of an \<open>option\<close>, checked reads,
  writes and slices of Go slices, the serial-number arithmetic that RTP sequence numbers
  obey, and the arithmetic of a ring of slots addressed backwards from a write position,
  which both \<^verbatim>\<open>pkg/buffer/rtpstats.go\<close> and \<^verbatim>\<open>pkg/rtc/sequencer.go\<close> use.
\<close>

unbundle bit_operations_syntax

section \<open>Machine integers\<close>

type_synonym u8 = "8 word"
type_synonym u16 = "16 word"
type_synonym u32 = "32 word"
type_synonym u64 = "64 word"

text \<open>
  Go's \<open>int\<close> is an \<open>int\<close> here wherever its values are indices and lengths, far from the
  64-bit limits; where the code can overflow it, the wrap-around is written out with
  \<open>wrap64\<close>.
\<close>

definition wrap64 :: "int \<Rightarrow> int" where
  "wrap64 x = sint (word_of_int x :: u64)"

named_theorems masks \<open>bit masks of the code as truncations\<close>
named_theorems ring_simps \<open>facts on slots of a ring\<close>
named_theorems go_mem \<open>checked accesses to Go slices\<close>

lemma and_1 [masks]: "x AND 1 = take_bit 1 (x :: 'a :: len word)"
  by (simp add: take_bit_eq_mask)

lemma and_3 [masks]: "x AND 3 = take_bit 2 (x :: 'a :: len word)"
  by (simp add: take_bit_eq_mask mask_eq_exp_minus_1)

lemma and_31 [masks]: "x AND 31 = take_bit 5 (x :: 'a :: len word)"
  by (simp add: take_bit_eq_mask mask_eq_exp_minus_1)

lemma and_127 [masks]: "x AND 127 = take_bit 7 (x :: 'a :: len word)"
  by (simp add: take_bit_eq_mask mask_eq_exp_minus_1)

lemma and_255 [masks]: "x AND 255 = take_bit 8 (x :: 'a :: len word)"
  by (simp add: take_bit_eq_mask mask_eq_exp_minus_1)

lemma and_32767 [masks]: "x AND 32767 = take_bit 15 (x :: 'a :: len word)"
  by (simp add: take_bit_eq_mask mask_eq_exp_minus_1)

lemma int_and_2047 [masks]: "(x :: int) AND 2047 = x mod 2048"
proof -
  have "x AND mask 11 = take_bit 11 x"
    by (simp only: take_bit_eq_mask)
  then show ?thesis
    by (simp add: take_bit_eq_mod mask_eq_exp_minus_1)
qed

section \<open>Bits of words\<close>

lemma and_bit_pos: "0 < (x :: u8) AND push_bit n 1 \<longleftrightarrow> bit x n"
proof -
  have "x AND push_bit n 1 = 0 \<longleftrightarrow> \<not> bit x n"
    by (simp add: and_exp_eq_0_iff_not_bit push_bit_eq_mult)
  then show ?thesis by (simp add: word_gt_0)
qed

lemma flag_bits:
  "0 < (x :: u8) AND 0x80 \<longleftrightarrow> bit x 7" "0 < x AND 0x40 \<longleftrightarrow> bit x 6"
  "0 < x AND 0x20 \<longleftrightarrow> bit x 5" "0 < x AND 0x10 \<longleftrightarrow> bit x 4"
  using and_bit_pos [of x 7] and_bit_pos [of x 6] and_bit_pos [of x 5] and_bit_pos [of x 4]
  by simp_all

lemmas word_bits = bit_and_iff bit_or_iff bit_push_bit_iff bit_drop_bit_eq bit_take_bit_iff
  bit_unsigned_iff possible_bit_word

lemma word_less_bits:
  assumes "x < 2 ^ n" and "bit (x :: 'a :: len word) k"
  shows "k < n"
proof -
  have "take_bit n x = x"
    using assms(1) less_mask_eq [of x n] by (simp add: take_bit_eq_mask)
  then have "bit (take_bit n x) k" using assms(2) by simp
  then show ?thesis by (simp add: bit_take_bit_iff)
qed

lemma bit_pow8: "k < 8 \<Longrightarrow> bit (push_bit k 1 :: u8) n \<longleftrightarrow> n = k"
  by (simp only: bit_push_bit_iff bit_1_iff possible_bit_word) auto

lemma bit_const8:
  "bit (128 :: u8) n \<longleftrightarrow> n = 7" "bit (64 :: u8) n \<longleftrightarrow> n = 6"
  "bit (32 :: u8) n \<longleftrightarrow> n = 5" "bit (16 :: u8) n \<longleftrightarrow> n = 4"
proof -
  have "(128 :: u8) = push_bit 7 1" "(64 :: u8) = push_bit 6 1" "(32 :: u8) = push_bit 5 1"
    "(16 :: u8) = push_bit 4 1" by simp_all
  then show "bit (128 :: u8) n \<longleftrightarrow> n = 7" "bit (64 :: u8) n \<longleftrightarrow> n = 6"
    "bit (32 :: u8) n \<longleftrightarrow> n = 5" "bit (16 :: u8) n \<longleftrightarrow> n = 4"
    by (simp_all only: bit_pow8)
qed

lemma word_take_bit_less: "take_bit n (x :: 'a :: len word) < 2 ^ n" if "n < LENGTH('a)"
  using that by (simp add: take_bit_eq_mask and_mask_less')

section \<open>Run-time panics and checked accesses\<close>

text \<open>
  An expression that may panic at run time (an index or a slice out of range) has type
  \<open>'a option\<close>, with \<open>None\<close> the panic; sequencing is the option monad.
\<close>

definition go_index :: "'a list \<Rightarrow> int \<Rightarrow> 'a option" where
  "go_index xs i = (if 0 \<le> i \<and> i < int (length xs) then Some (xs ! nat i) else None)"

definition go_update :: "'a list \<Rightarrow> int \<Rightarrow> 'a \<Rightarrow> 'a list option" where
  "go_update xs i v = (if 0 \<le> i \<and> i < int (length xs) then Some (xs[nat i := v]) else None)"

text \<open>\<open>xs[lo:hi]\<close>; the code only writes it with \<open>hi\<close> at most the length.\<close>

definition go_slice :: "'a list \<Rightarrow> int \<Rightarrow> int \<Rightarrow> 'a list option" where
  "go_slice xs lo hi =
     (if 0 \<le> lo \<and> lo \<le> hi \<and> hi \<le> int (length xs)
      then Some (take (nat (hi - lo)) (drop (nat lo) xs)) else None)"

lemma go_index_Some [go_mem]:
  "0 \<le> i \<Longrightarrow> i < int (length xs) \<Longrightarrow> go_index xs i = Some (xs ! nat i)"
  by (simp add: go_index_def)

lemma go_index_eq_Some_iff:
  "go_index xs i = Some x \<longleftrightarrow> 0 \<le> i \<and> i < int (length xs) \<and> x = xs ! nat i"
  by (auto simp: go_index_def)

lemma go_update_Some [go_mem]:
  "0 \<le> i \<Longrightarrow> i < int (length xs) \<Longrightarrow> go_update xs i v = Some (xs[nat i := v])"
  by (simp add: go_update_def)

lemma go_update_eq_Some_iff:
  "go_update xs i v = Some ys \<longleftrightarrow> 0 \<le> i \<and> i < int (length xs) \<and> ys = xs[nat i := v]"
  by (auto simp: go_update_def)

lemma go_slice_Some [go_mem]:
  "0 \<le> lo \<Longrightarrow> lo \<le> hi \<Longrightarrow> hi \<le> int (length xs) \<Longrightarrow>
   go_slice xs lo hi = Some (take (nat (hi - lo)) (drop (nat lo) xs))"
  by (simp add: go_slice_def)

lemma go_index_unat:
  assumes "unat j < length xs"
  shows "go_index xs (uint j) = Some (xs ! unat j)"
proof -
  have "int (unat j) < int (length xs)" using assms by (simp only: of_nat_less_iff)
  then show ?thesis by (simp add: go_index_def)
qed

lemma go_update_unat:
  assumes "unat j < length xs"
  shows "go_update xs (uint j) x = Some (xs[unat j := x])"
proof -
  have "int (unat j) < int (length xs)" using assms by (simp only: of_nat_less_iff)
  then show ?thesis by (simp add: go_update_def)
qed

lemma length_go_slice:
  "go_slice xs lo hi = Some ys \<Longrightarrow> int (length ys) = hi - lo"
  by (auto simp: go_slice_def split: if_splits)

section \<open>Results that are a value, an error or a panic\<close>

text \<open>
  A call that returns a value, returns an error (with whatever it has written by then), or
  panics. \<open>go_bind\<close> runs the rest of the code after a normal return, and \<open>go_read\<close> after
  a checked read.
\<close>

datatype ('e, 'a) go_res = Panic | Err 'e | Ok 'a

fun go_bind :: "('e, 'a) go_res \<Rightarrow> ('a \<Rightarrow> ('e, 'b) go_res) \<Rightarrow> ('e, 'b) go_res" where
  "go_bind Panic f = Panic"
| "go_bind (Err e) f = Err e"
| "go_bind (Ok x) f = f x"

definition go_read :: "'b list \<Rightarrow> int \<Rightarrow> ('b \<Rightarrow> ('e, 'a) go_res) \<Rightarrow> ('e, 'a) go_res" where
  "go_read xs i f = (case go_index xs i of None \<Rightarrow> Panic | Some x \<Rightarrow> f x)"

lemma go_read_in [go_mem]:
  "0 \<le> i \<Longrightarrow> i < int (length xs) \<Longrightarrow> go_read xs i f = f (xs ! nat i)"
  by (simp add: go_read_def go_index_def)

lemma go_bind_eq_Ok: "go_bind r f = Ok y \<longleftrightarrow> (\<exists>x. r = Ok x \<and> f x = Ok y)"
  by (cases r) simp_all

lemma go_bind_no_Panic:
  "r \<noteq> Panic \<Longrightarrow> (\<And>x. r = Ok x \<Longrightarrow> f x \<noteq> Panic) \<Longrightarrow> go_bind r f \<noteq> Panic"
  by (cases r) simp_all

section \<open>Serial-number arithmetic\<close>

text \<open>
  Sequence numbers are compared by their 16-bit difference: \<open>sn - head\<close> is zero for a
  duplicate, above \<open>2 ^ 15\<close> for a packet from behind, and in between for one ahead.
  \<open>age\<close> is how far a number is behind the head.
\<close>

definition sn_behind :: "u16 \<Rightarrow> u16 \<Rightarrow> bool" where
  "sn_behind head sn \<longleftrightarrow> sn - head > 2 ^ 15"

definition age :: "u16 \<Rightarrow> u16 \<Rightarrow> nat" where
  "age head sn = unat (head - sn)"

lemma u16_bound: "unat (x :: u16) < 65536"
  using unsigned_less [of x, where 'a = nat] by simp

lemma age_less: "age head sn < 65536"
  by (simp only: age_def u16_bound)

lemma age_self [simp]: "age head head = 0"
  by (simp add: age_def)

lemma unat_minus16:
  "unat (a - b :: u16) = (if unat b \<le> unat a then unat a - unat b
     else unat a + 65536 - unat b)"
  by (simp add: unat_sub_if_size word_le_nat_alt word_size)

lemma unat_neg_diff16:
  "a \<noteq> b \<Longrightarrow> unat (a - b :: u16) + unat (b - a) = 65536"
  using u16_bound [of a] u16_bound [of b]
  by (auto simp: unat_minus16 word_unat_eq_iff)

lemma age_eq_0_iff: "age head sn = 0 \<longleftrightarrow> sn = head"
  by (auto simp: age_def unat_eq_0)

lemma age_inj: "age head a = age head b \<Longrightarrow> a = b"
  by (simp add: age_def word_unat_eq_iff [symmetric])

lemma sn_behind_age: "sn_behind head sn \<longleftrightarrow> 0 < age head sn \<and> age head sn < 2 ^ 15"
proof (cases "sn = head")
  case True
  then show ?thesis by (simp add: sn_behind_def)
next
  case False
  then have "unat (sn - head) + age head sn = 65536"
    by (simp add: age_def unat_neg_diff16)
  moreover have "sn - head > 2 ^ 15 \<longleftrightarrow> unat (sn - head) > 2 ^ 15"
    by (simp add: word_less_nat_alt)
  ultimately show ?thesis
    using u16_bound [of "sn - head"] by (auto simp: sn_behind_def)
qed

text \<open>Moving the head forward by \<open>d\<close> makes every older number \<open>d\<close> older.\<close>

lemma age_advance:
  assumes "unat d \<le> age (head + d) sn"
  shows "age head sn = age (head + d) sn - unat d"
proof -
  have "head - sn = (head + d - sn) - d" by simp
  moreover have "d \<le> head + d - sn"
    using assms by (simp add: age_def word_le_nat_alt)
  ultimately show ?thesis
    unfolding age_def by (metis unat_sub)
qed

section \<open>A ring of slots\<close>

text \<open>
  A ring of \<open>N\<close> slots with write position \<open>wp\<close>: the entry written \<open>k\<close> entries before
  the newest one is in slot \<open>(wp - k - 1) mod N\<close>.
\<close>

definition back_slot :: "int \<Rightarrow> int \<Rightarrow> int \<Rightarrow> int" where
  "back_slot N wp k = (wp - k - 1) mod N"

lemma back_slot_range [ring_simps]:
  "0 < N \<Longrightarrow> 0 \<le> back_slot N wp k" "0 < N \<Longrightarrow> back_slot N wp k < N"
  by (simp_all add: back_slot_def)

lemma back_slot_advance [ring_simps]:
  "back_slot N ((wp + d) mod N) (k + d) = back_slot N wp k"
  by (simp add: back_slot_def mod_simps algebra_simps)

lemma back_slot_newest [ring_simps]:
  "0 \<le> wp \<Longrightarrow> wp < N \<Longrightarrow> back_slot N ((wp + 1) mod N) 0 = wp"
  by (simp add: back_slot_def mod_simps)

lemma mod_eq_small_diff:
  fixes a b N :: int
  assumes "a mod N = b mod N" and "\<bar>a - b\<bar> < N"
  shows "a = b"
proof -
  have "N dvd a - b" using assms(1) by (simp add: mod_eq_dvd_iff)
  with assms(2) show ?thesis
    using zdvd_imp_le [of N "\<bar>a - b\<bar>"] by fastforce
qed

lemma back_slot_inj:
  assumes "back_slot N wp k = back_slot N wp k'" and "\<bar>k - k'\<bar> < N"
  shows "k = k'"
  using mod_eq_small_diff [of "wp - k - 1" N "wp - k' - 1"] assms
  by (simp add: back_slot_def abs_minus_commute)

lemma nat_mod_inj:
  "0 < (N :: int) \<Longrightarrow> nat (a mod N) = nat (b mod N) \<longleftrightarrow> a mod N = b mod N"
  using eq_nat_nat_iff pos_mod_sign by blast

section \<open>Lists and options\<close>

lemma list_update_other: "i \<noteq> j \<Longrightarrow> (xs[i := v]) ! j = xs ! j"
  by simp

lemma set_list_update_subset_iff:
  "set xs \<subseteq> A \<Longrightarrow> x \<in> A \<Longrightarrow> set (xs[i := x]) \<subseteq> A"
  by (rule set_update_subsetI)

lemma list_all_update: "list_all P xs \<Longrightarrow> P x \<Longrightarrow> list_all P (xs[i := x])"
  by (metis list_all_length length_list_update nth_list_update_eq nth_list_update_neq)

lemma option_bind_eq_Some [simp]:
  "Option.bind m f = Some y \<longleftrightarrow> (\<exists>x. m = Some x \<and> f x = Some y)"
  by (cases m) simp_all

lemma neg_less_uint: "x < 0 \<Longrightarrow> x < uint w"
  using unsigned_greater_eq [of w, where 'a = int] by linarith

lemma unat_ucast_16_32 [simp]: "unat (ucast (x :: u16) :: u32) = unat x"
  by (simp add: unsigned_ucast_eq take_bit_nat_eq_self_iff u16_bound order_less_trans [OF u16_bound])

end
