(* ===== verification/Interfaces.thy ===== *)
theory Interfaces
  imports Prelude
begin

text \<open>
  The contracts that several components of the program share, as locales: a format with a
  reader and a writer that invert each other, a stateful component whose operations keep an
  invariant, one whose operations may panic and do not, and an identifier source. Each
  component interprets them on its own definitions.
\<close>

section \<open>Formats\<close>

text \<open>
  \<open>enc\<close> writes a value, \<open>dec\<close> reads one back, and the two invert each other on the
  values that satisfy \<open>wf\<close>.
\<close>

locale format =
  fixes enc :: "'a \<Rightarrow> 'b"
    and dec :: "'b \<Rightarrow> 'a option"
    and wf :: "'a \<Rightarrow> bool"
  assumes dec_enc: "wf x \<Longrightarrow> dec (enc x) = Some x"
begin

lemma enc_inj: "wf x \<Longrightarrow> wf y \<Longrightarrow> enc x = enc y \<Longrightarrow> x = y"
  by (metis dec_enc option.inject)

lemma enc_inj_on: "inj_on enc {x. wf x}"
  by (auto intro!: inj_onI enc_inj)

end

section \<open>Stateful components\<close>

text \<open>
  A component whose operations \<open>step e\<close>, called where \<open>ok e\<close> holds, keep the invariant
  \<open>inv\<close>: then every run of such operations keeps it.
\<close>

locale component =
  fixes step :: "'e \<Rightarrow> 's \<Rightarrow> 's"
    and ok :: "'e \<Rightarrow> bool"
    and inv :: "'s \<Rightarrow> bool"
  assumes step_inv: "inv s \<Longrightarrow> ok e \<Longrightarrow> inv (step e s)"
begin

lemma run_inv: "inv s \<Longrightarrow> list_all ok es \<Longrightarrow> inv (fold step es s)"
  by (induction es arbitrary: s) (simp_all add: step_inv)

end

text \<open>The same where an operation may panic (\<open>None\<close>): under the invariant it does not.\<close>

fun run_panic :: "('e \<Rightarrow> 's \<Rightarrow> 's option) \<Rightarrow> 'e list \<Rightarrow> 's \<Rightarrow> 's option" where
  "run_panic step [] s = Some s"
| "run_panic step (e # es) s = Option.bind (step e s) (run_panic step es)"

lemma run_panic_append: "run_panic f (xs @ ys) s = Option.bind (run_panic f xs s) (run_panic f ys)"
proof (induction xs arbitrary: s)
  case (Cons a xs)
  then show ?case by (cases "f a s") simp_all
qed simp

locale panic_free =
  fixes pstep :: "'e \<Rightarrow> 's \<Rightarrow> 's option"
    and ok :: "'e \<Rightarrow> bool"
    and inv :: "'s \<Rightarrow> bool"
  assumes pstep_ok: "inv s \<Longrightarrow> ok e \<Longrightarrow> \<exists>s'. pstep e s = Some s' \<and> inv s'"
begin

lemma run_total: "inv s \<Longrightarrow> list_all ok es \<Longrightarrow> \<exists>s'. run_panic pstep es s = Some s' \<and> inv s'"
proof (induction es arbitrary: s)
  case (Cons e es)
  from Cons.prems obtain s1 where "pstep e s = Some s1" and "inv s1"
    using pstep_ok by fastforce
  with Cons show ?case by simp
qed simp

end

text \<open>A component that never panics is one in the second sense too.\<close>

sublocale component \<subseteq> total: panic_free "\<lambda>e s. Some (step e s)" ok inv
  by unfold_locales (auto intro: step_inv)

section \<open>Identifier sources\<close>

text \<open>
  \<open>fresh\<close> draws an identifier, or panics when none is left; \<open>issued\<close> is the set of the
  identifiers drawn so far. The contract is that a drawn identifier is new.
\<close>

fun draw_many :: "('s \<Rightarrow> ('i \<times> 's) option) \<Rightarrow> nat \<Rightarrow> 's \<Rightarrow> ('i list \<times> 's) option" where
  "draw_many fresh 0 s = Some ([], s)"
| "draw_many fresh (Suc n) s = do {
     (i, s1) \<leftarrow> fresh s;
     (is, s2) \<leftarrow> draw_many fresh n s1;
     Some (i # is, s2) }"

locale id_source =
  fixes fresh :: "'s \<Rightarrow> ('i \<times> 's) option"
    and issued :: "'s \<Rightarrow> 'i set"
    and ok :: "'s \<Rightarrow> bool"
  assumes fresh_new: "ok s \<Longrightarrow> fresh s = Some (i, s') \<Longrightarrow> i \<notin> issued s"
    and fresh_issued: "ok s \<Longrightarrow> fresh s = Some (i, s') \<Longrightarrow> issued s' = insert i (issued s)"
    and fresh_ok: "ok s \<Longrightarrow> fresh s = Some (i, s') \<Longrightarrow> ok s'"
begin

lemma draw_many_new:
  "ok s \<Longrightarrow> draw_many fresh n s = Some (is, s') \<Longrightarrow>
   distinct is \<and> set is \<inter> issued s = {} \<and> issued s' = set is \<union> issued s \<and> length is = n \<and> ok s'"
proof (induction n arbitrary: s "is")
  case (Suc n)
  from Suc.prems(2) obtain i s1 js where f: "fresh s = Some (i, s1)"
    and rest: "draw_many fresh n s1 = Some (js, s')" and "is": "is = i # js"
    by auto
  from Suc.IH [OF fresh_ok [OF Suc.prems(1) f] rest] show ?case
    using fresh_new [OF Suc.prems(1) f] fresh_issued [OF Suc.prems(1) f] by (auto simp: "is")
qed simp

text \<open>Sources that never run dry below a bound give as many identifiers.\<close>

lemma draw_many_total:
  assumes "\<And>s. ok s \<Longrightarrow> fresh s = None \<longleftrightarrow> left s = 0" and "\<And>s i s'. ok s \<Longrightarrow> fresh s = Some (i, s') \<Longrightarrow> left s = Suc (left s')"
  shows "ok s \<Longrightarrow> draw_many fresh n s = None \<longleftrightarrow> left s < n"
proof (induction n arbitrary: s)
  case (Suc n)
  show ?case
  proof (cases "fresh s")
    case None
    then show ?thesis using assms(1) [OF Suc.prems] by simp
  next
    case (Some p)
    obtain i s1 where f: "fresh s = Some (i, s1)" using Some by (metis prod.collapse)
    have "draw_many fresh (Suc n) s = None \<longleftrightarrow> draw_many fresh n s1 = None"
      by (cases "draw_many fresh n s1") (simp_all add: f split_beta)
    then show ?thesis using Suc.IH [OF fresh_ok [OF Suc.prems f]] assms(2) [OF Suc.prems f] by simp
  qed
qed simp

end

section \<open>A window of recent entries\<close>

text \<open>
  A store that keeps the last \<open>N\<close> entries pushed, addressed by how long ago they were pushed
  (\<open>0\<close> is the newest), and lets each of them be replaced.
\<close>

locale window =
  fixes N :: nat
    and push :: "'x \<Rightarrow> 's \<Rightarrow> 's"
    and put :: "nat \<Rightarrow> 'x \<Rightarrow> 's \<Rightarrow> 's"
    and get :: "nat \<Rightarrow> 's \<Rightarrow> 'x"
    and ok :: "'s \<Rightarrow> bool"
  assumes ok_push: "ok s \<Longrightarrow> ok (push x s)"
    and ok_put: "ok s \<Longrightarrow> ok (put k x s)"
    and get_push_0: "ok s \<Longrightarrow> get 0 (push x s) = x"
    and get_push_Suc: "ok s \<Longrightarrow> Suc k < N \<Longrightarrow> get (Suc k) (push x s) = get k s"
    and get_put: "ok s \<Longrightarrow> j < N \<Longrightarrow> k < N \<Longrightarrow> get k (put j x s) = (if k = j then x else get k s)"
begin

lemma get_push: "ok s \<Longrightarrow> k < N \<Longrightarrow> get k (push x s) = (if k = 0 then x else get (k - 1) s)"
  by (cases k) (simp_all add: get_push_0 get_push_Suc)

lemma ok_push_many: "ok s \<Longrightarrow> ok (fold push xs s)"
  by (induction xs arbitrary: s) (simp_all add: ok_push)

text \<open>After pushing a list, its elements are the newest entries and the rest has aged.\<close>

lemma get_push_many:
  assumes "ok s" and "k < N"
  shows "get k (fold push xs s) =
    (if k < length xs then xs ! (length xs - 1 - k) else get (k - length xs) s)"
  using assms
proof (induction xs arbitrary: k rule: rev_induct)
  case (snoc x xs)
  show ?case
  proof (cases k)
    case 0
    then show ?thesis by (simp add: get_push_0 ok_push_many snoc.prems)
  next
    case (Suc m)
    then have "get k (fold push (xs @ [x]) s) = get m (fold push xs s)"
      using snoc.prems by (simp add: get_push_Suc ok_push_many)
    then show ?thesis
      using snoc.IH [of m] snoc.prems Suc by (auto simp: nth_append)
  qed
qed simp

end

section \<open>Rings as windows\<close>

text \<open>A ring of \<open>n\<close> slots and its write position, the implementation both stores share.\<close>

definition ring_ok :: "nat \<Rightarrow> 'x list \<times> int \<Rightarrow> bool" where
  "ring_ok n = (\<lambda>(xs, wp). length xs = n \<and> 0 \<le> wp \<and> wp < int n)"

definition ring_push :: "nat \<Rightarrow> 'x \<Rightarrow> 'x list \<times> int \<Rightarrow> 'x list \<times> int" where
  "ring_push n x = (\<lambda>(xs, wp). (xs[nat wp := x], (wp + 1) mod int n))"

definition ring_put :: "nat \<Rightarrow> nat \<Rightarrow> 'x \<Rightarrow> 'x list \<times> int \<Rightarrow> 'x list \<times> int" where
  "ring_put n k x = (\<lambda>(xs, wp). (xs[nat (back_slot (int n) wp (int k)) := x], wp))"

definition ring_get :: "nat \<Rightarrow> nat \<Rightarrow> 'x list \<times> int \<Rightarrow> 'x" where
  "ring_get n k = (\<lambda>(xs, wp). xs ! nat (back_slot (int n) wp (int k)))"

lemma back_slot_nat_inj:
  assumes "j < n" "k < n" "nat (back_slot (int n) wp (int j)) = nat (back_slot (int n) wp (int k))"
  shows "j = k"
proof -
  have "back_slot (int n) wp (int j) = back_slot (int n) wp (int k)"
    using assms by (simp add: back_slot_def nat_mod_inj)
  then show ?thesis using back_slot_inj [of "int n" wp "int j" "int k"] assms by simp
qed

lemma ring_get_push_0: "ring_ok n s \<Longrightarrow> ring_get n 0 (ring_push n x s) = x"
  by (auto simp: ring_ok_def ring_push_def ring_get_def back_slot_newest split: prod.splits)

lemma ring_get_push_Suc:
  assumes "ring_ok n s" and "Suc k < n"
  shows "ring_get n (Suc k) (ring_push n x s) = ring_get n k s"
proof -
  obtain xs wp where s: "s = (xs, wp)" by force
  have b: "back_slot (int n) ((wp + 1) mod int n) (int (Suc k)) = back_slot (int n) wp (int k)"
    using back_slot_advance [of "int n" wp 1 "int k"] by (simp add: add.commute)
  have r: "0 \<le> wp" "wp < int n" "length xs = n" using assms by (simp_all add: s ring_ok_def)
  have "back_slot (int n) wp (int k) \<noteq> wp"
  proof
    assume "back_slot (int n) wp (int k) = wp"
    then have "(wp - int k - 1) mod int n = wp" by (simp only: back_slot_def)
    also have "wp = wp mod int n" by (rule mod_pos_pos_trivial [symmetric]) (rule r)+
    finally have "wp - int k - 1 = wp" by (rule mod_eq_small_diff) (use assms(2) in simp)
    then show False by simp
  qed
  moreover have "0 \<le> back_slot (int n) wp (int k)" using assms(2) by (intro back_slot_range) simp
  ultimately have "nat wp \<noteq> nat (back_slot (int n) wp (int k))"
    using r(1) eq_nat_nat_iff by metis
  then show ?thesis
    by (simp only: s ring_get_def ring_push_def b prod.case list_update_other not_False_eq_True)
qed

lemma ring_get_put:
  assumes "ring_ok n s" "j < n" "k < n"
  shows "ring_get n k (ring_put n j x s) = (if k = j then x else ring_get n k s)"
proof -
  obtain xs wp where s: "s = (xs, wp)" by force
  have r: "length xs = n" using assms by (simp add: s ring_ok_def)
  have "0 \<le> back_slot (int n) wp (int j)" "back_slot (int n) wp (int j) < int n"
    using assms(2) by (simp_all add: back_slot_range)
  then have "nat (back_slot (int n) wp (int j)) < n" by linarith
  moreover have "nat (back_slot (int n) wp (int j)) = nat (back_slot (int n) wp (int k)) \<longleftrightarrow> k = j"
    using back_slot_nat_inj [OF assms(2,3), of wp] by auto
  ultimately show ?thesis
    using r by (simp add: s ring_get_def ring_put_def nth_list_update del: nat_eq_iff)
qed

interpretation ring: window n "ring_push n" "ring_put n" "ring_get n" "ring_ok n" for n
proof
  show "ring_ok n (ring_push n x s)" if "ring_ok n s" for x :: 'x and s
    using that by (auto simp: ring_ok_def ring_push_def intro!: pos_mod_sign pos_mod_bound)
  show "ring_ok n (ring_put n k x s)" if "ring_ok n s" for k and x :: 'x and s
    using that by (auto simp: ring_ok_def ring_put_def)
qed (simp_all add: ring_get_push_0 ring_get_push_Suc ring_get_put)

end
