(* ===== verification/Vp8.thy ===== *)
theory Vp8
  imports Prelude Interfaces
begin

text \<open>
  The VP8 payload descriptor of \<^verbatim>\<open>pkg/buffer/helpers.go\<close>: the struct \<open>VP8\<close>, its parser
  \<open>Unmarshal\<close> and its writer \<open>MarshalTo\<close>. Every read and write of a byte slice is checked,
  so that an index out of range is the value \<open>Panic\<close> (or \<open>None\<close>) of the model. The
  parser writes into its receiver as it goes, so an error carries the struct as far as it
  was filled. \<open>vp8_header\<close> is the descriptor as a byte string, the specification of both.
\<close>

section \<open>The struct and the parser\<close>

datatype vp8_error = errShortPacket | errNilPacket | errInvalidPacket

record vp8 =
  FirstByte :: u8
  PictureIDPresent :: int
  PictureID :: u16
  MBit :: bool
  TL0PICIDXPresent :: int
  TL0PICIDX :: u8
  TIDPresent :: int
  TID :: u8
  YBit :: u8
  KEYIDXPresent :: int
  KEYIDX :: u8
  HeaderSize :: int
  IsKeyFrame :: bool

definition vp8_zero :: vp8 where
  "vp8_zero = \<lparr>FirstByte = 0, PictureIDPresent = 0, PictureID = 0, MBit = False,
     TL0PICIDXPresent = 0, TL0PICIDX = 0, TIDPresent = 0, TID = 0, YBit = 0,
     KEYIDXPresent = 0, KEYIDX = 0, HeaderSize = 0, IsKeyFrame = False\<rparr>"

type_synonym 'a vp8_res = "(vp8 \<times> vp8_error, 'a) go_res"

text \<open>\<^verbatim>\<open>if I { ... }\<close>: the picture id, one byte or two.\<close>

definition vp8_read_picture_id :: "u8 list \<Rightarrow> bool \<Rightarrow> vp8 \<times> int \<Rightarrow> (vp8 \<times> int) vp8_res" where
  "vp8_read_picture_id p I s = (case s of (v, idx) \<Rightarrow>
     if I then
       let idx = idx + 1 in
       if int (length p) < idx + 1 then Err (v, errShortPacket)
       else let v = v\<lparr>PictureIDPresent := 1\<rparr> in
         go_read p idx (\<lambda>b.
           let pid = b AND 0x7f in
           if b AND 0x80 > 0 then
             let idx = idx + 1 in
             if int (length p) < idx + 1 then Err (v, errShortPacket)
             else go_read p idx (\<lambda>b2.
               Ok (v\<lparr>MBit := True, PictureID := push_bit 8 (ucast pid) OR ucast b2\<rparr>, idx))
           else Ok (v\<lparr>PictureID := ucast pid\<rparr>, idx))
     else Ok (v, idx))"

text \<open>\<^verbatim>\<open>if L { ... }\<close>: the temporal level zero index.\<close>

definition vp8_read_tl0 :: "u8 list \<Rightarrow> bool \<Rightarrow> vp8 \<times> int \<Rightarrow> (vp8 \<times> int) vp8_res" where
  "vp8_read_tl0 p L s = (case s of (v, idx) \<Rightarrow>
     if L then
       let idx = idx + 1 in
       if int (length p) < idx + 1 then Err (v, errShortPacket)
       else let v = v\<lparr>TL0PICIDXPresent := 1\<rparr> in
         if idx \<ge> int (length p) then Err (v, errShortPacket)
         else go_read p idx (\<lambda>b. Ok (v\<lparr>TL0PICIDX := b\<rparr>, idx))
     else Ok (v, idx))"

text \<open>\<^verbatim>\<open>if T || K { ... }\<close>: the temporal layer and key-frame index.\<close>

definition vp8_read_tk :: "u8 list \<Rightarrow> bool \<Rightarrow> bool \<Rightarrow> vp8 \<times> int \<Rightarrow> (vp8 \<times> int) vp8_res" where
  "vp8_read_tk p T K s = (case s of (v, idx) \<Rightarrow>
     if T \<or> K then
       let idx = idx + 1 in
       if int (length p) < idx + 1 then Err (v, errShortPacket)
       else go_read p idx (\<lambda>b.
         let v = (if T then v\<lparr>TIDPresent := 1, TID := drop_bit 6 (b AND 0xc0),
                               YBit := drop_bit 5 (b AND 0x20)\<rparr> else v);
             v = (if K then v\<lparr>KEYIDXPresent := 1, KEYIDX := b AND 0x1f\<rparr> else v)
         in Ok (v, idx))
     else Ok (v, idx))"

text \<open>The key-frame bit is the first one of the VP8 payload, which must be there.\<close>

definition vp8_read_keyframe :: "u8 list \<Rightarrow> bool \<Rightarrow> vp8 \<times> int \<Rightarrow> vp8 vp8_res" where
  "vp8_read_keyframe p S s = (case s of (v, idx) \<Rightarrow>
     if idx \<ge> int (length p) then Err (v, errShortPacket)
     else let idx = idx + 1 in
       if int (length p) < idx + 1 then Err (v, errShortPacket)
       else go_read p idx (\<lambda>b.
         Ok (v\<lparr>IsKeyFrame := (b AND 1 = 0 \<and> S), HeaderSize := idx\<rparr>)))"

definition vp8_unmarshal :: "vp8 \<Rightarrow> u8 list option \<Rightarrow> vp8 vp8_res" where
  "vp8_unmarshal v payload = (case payload of None \<Rightarrow> Err (v, errNilPacket) | Some p \<Rightarrow>
     if int (length p) < 1 then Err (v, errShortPacket)
     else go_read p 0 (\<lambda>b0.
       let v = v\<lparr>FirstByte := b0\<rparr>; S = (b0 AND 0x10 > 0) in
       if b0 AND 0x80 > 0 then
         if int (length p) < 1 + 1 then Err (v, errShortPacket)
         else go_read p 1 (\<lambda>b1.
           let I = (b1 AND 0x80 > 0); L = (b1 AND 0x40 > 0);
               T = (b1 AND 0x20 > 0); K = (b1 AND 0x10 > 0) in
           if L \<and> \<not> T then Err (v, errInvalidPacket)
           else
             go_bind (vp8_read_picture_id p I (v, 1)) (\<lambda>s.
             go_bind (vp8_read_tl0 p L s) (\<lambda>s.
             go_bind (vp8_read_tk p T K s)
               (vp8_read_keyframe p S))))
       else
         if int (length p) < 1 + 1 then Err (v, errShortPacket)
         else go_read p 1 (\<lambda>b.
           Ok (v\<lparr>IsKeyFrame := (b AND 1 = 0 \<and> S), HeaderSize := 1\<rparr>))))"

section \<open>The writer\<close>

definition vp8_write_picture_id :: "vp8 \<Rightarrow> u8 list \<times> int \<Rightarrow> (u8 list \<times> int) option" where
  "vp8_write_picture_id v s = (case s of (buf, idx) \<Rightarrow>
     if PictureIDPresent v = 1 then
       if MBit v then do {
         buf \<leftarrow> go_update buf idx (0x80 OR ucast (drop_bit 8 (PictureID v) AND 0x7f));
         buf \<leftarrow> go_update buf (idx + 1) (ucast (PictureID v AND 0xff));
         Some (buf, idx + 2) }
       else do {
         buf \<leftarrow> go_update buf idx (ucast (PictureID v));
         Some (buf, idx + 1) }
     else Some (buf, idx))"

definition vp8_write_tl0 :: "vp8 \<Rightarrow> u8 list \<times> int \<Rightarrow> (u8 list \<times> int) option" where
  "vp8_write_tl0 v s = (case s of (buf, idx) \<Rightarrow>
     if TL0PICIDXPresent v = 1 then do {
       buf \<leftarrow> go_update buf idx (TL0PICIDX v);
       Some (buf, idx + 1) }
     else Some (buf, idx))"

definition vp8_write_tk :: "vp8 \<Rightarrow> u8 list \<times> int \<Rightarrow> (u8 list \<times> int) option" where
  "vp8_write_tk v s = (case s of (buf, idx) \<Rightarrow>
     if TIDPresent v = 1 \<or> KEYIDXPresent v = 1 then do {
       buf \<leftarrow> go_update buf idx 0;
       buf \<leftarrow> (if TIDPresent v = 1
               then go_update buf idx (push_bit 6 (TID v) OR push_bit 5 (YBit v)) else Some buf);
       buf \<leftarrow> (if KEYIDXPresent v = 1 then do {
                 b \<leftarrow> go_index buf idx;
                 go_update buf idx (b OR (KEYIDX v AND 0x1f)) }
               else Some buf);
       Some (buf, idx + 1) }
     else Some (buf, idx))"

text \<open>\<^verbatim>\<open>byte(x << n)\<close> of an \<open>int\<close> field.\<close>

definition flag_byte :: "int \<Rightarrow> nat \<Rightarrow> u8" where
  "flag_byte x n = word_of_int (push_bit n x)"

definition vp8_marshal_to :: "vp8 \<Rightarrow> u8 list \<Rightarrow> (vp8_error + u8 list) option" where
  "vp8_marshal_to v buf =
     (if int (length buf) < HeaderSize v then Some (Inl errShortPacket)
      else do {
        buf \<leftarrow> go_update buf 0 (FirstByte v);
        if PictureIDPresent v + TL0PICIDXPresent v + TIDPresent v + KEYIDXPresent v \<noteq> 0 then do {
          b \<leftarrow> go_index buf 0;
          buf \<leftarrow> go_update buf 0 (b OR 0x80);
          buf \<leftarrow> go_update buf 1 (flag_byte (PictureIDPresent v) 7 OR
                   flag_byte (TL0PICIDXPresent v) 6 OR flag_byte (TIDPresent v) 5 OR
                   flag_byte (KEYIDXPresent v) 4);
          s \<leftarrow> vp8_write_picture_id v (buf, 2);
          s \<leftarrow> vp8_write_tl0 v s;
          s \<leftarrow> vp8_write_tk v s;
          Some (Inr (fst s)) }
        else do {
          b \<leftarrow> go_index buf 0;
          buf \<leftarrow> go_update buf 0 (b AND NOT 0x80);
          Some (Inr buf) } })"

definition vp8_picture_id_size_diff :: "bool \<Rightarrow> bool \<Rightarrow> int" where
  "vp8_picture_id_size_diff mBit1 mBit2 =
     (if mBit1 = mBit2 then 0 else if mBit1 then 1 else -1)"

section \<open>The parser: no panic, and the bounds of the header\<close>

lemma vp8_read_picture_id_cases:
  assumes "0 \<le> idx"
  shows "vp8_read_picture_id p I (v, idx) \<noteq> Panic"
    and "vp8_read_picture_id p I (v, idx) = Ok (v', idx') \<Longrightarrow>
         idx \<le> idx' \<and> idx' \<le> idx + 2 \<and> (idx < int (length p) \<longrightarrow> idx' < int (length p))"
  using assms
  by (auto simp: vp8_read_picture_id_def go_mem Let_def split: if_splits)

lemma vp8_read_tl0_cases:
  assumes "0 \<le> idx"
  shows "vp8_read_tl0 p L (v, idx) \<noteq> Panic"
    and "vp8_read_tl0 p L (v, idx) = Ok (v', idx') \<Longrightarrow>
         idx \<le> idx' \<and> idx' \<le> idx + 1 \<and> (idx < int (length p) \<longrightarrow> idx' < int (length p))"
  using assms
  by (auto simp: vp8_read_tl0_def go_mem Let_def split: if_splits)

lemma vp8_read_tk_cases:
  assumes "0 \<le> idx"
  shows "vp8_read_tk p T K (v, idx) \<noteq> Panic"
    and "vp8_read_tk p T K (v, idx) = Ok (v', idx') \<Longrightarrow>
         idx \<le> idx' \<and> idx' \<le> idx + 1 \<and> (idx < int (length p) \<longrightarrow> idx' < int (length p))"
  using assms
  by (auto simp: vp8_read_tk_def go_mem Let_def split: if_splits)

lemma vp8_read_keyframe_cases:
  assumes "0 \<le> idx"
  shows "vp8_read_keyframe p S (v, idx) \<noteq> Panic"
    and "vp8_read_keyframe p S (v, idx) = Ok v' \<Longrightarrow>
         HeaderSize v' = idx + 1 \<and> idx + 1 < int (length p)"
  using assms by (auto simp: vp8_read_keyframe_def go_mem Let_def split: if_splits)

lemmas vp8_read_no_panic = vp8_read_picture_id_cases(1) vp8_read_tl0_cases(1)
  vp8_read_tk_cases(1) vp8_read_keyframe_cases(1)

lemmas vp8_read_idx = vp8_read_picture_id_cases(2) vp8_read_tl0_cases(2)
  vp8_read_tk_cases(2) vp8_read_keyframe_cases(2)

lemma vp8_read_pos:
  "0 \<le> i \<Longrightarrow> vp8_read_picture_id p I (v, i) = Ok (v', i') \<Longrightarrow> 0 \<le> i'"
  "0 \<le> i \<Longrightarrow> vp8_read_tl0 p L (v, i) = Ok (v', i') \<Longrightarrow> 0 \<le> i'"
  "0 \<le> i \<Longrightarrow> vp8_read_tk p T K (v, i) = Ok (v', i') \<Longrightarrow> 0 \<le> i'"
  using vp8_read_idx(1) [of i p I v v' i'] vp8_read_idx(2) [of i p L v v' i']
    vp8_read_idx(3) [of i p T K v v' i'] by simp_all

text \<open>The extended part as a whole: it does not panic, and its index stays in bounds.\<close>

lemma vp8_read_ext_no_panic:
  "go_bind (vp8_read_picture_id p I (w, 1)) (\<lambda>s. go_bind (vp8_read_tl0 p L s)
     (\<lambda>s. go_bind (vp8_read_tk p T K s) (vp8_read_keyframe p S))) \<noteq> Panic"
proof (intro go_bind_no_Panic)
  show "vp8_read_picture_id p I (w, 1) \<noteq> Panic"
    by (simp add: vp8_read_no_panic)
  fix s1 assume 1: "vp8_read_picture_id p I (w, 1) = Ok s1"
  then obtain w1 i1 where s1: "s1 = (w1, i1)" "0 \<le> i1"
    by (cases s1) (use vp8_read_pos(1) [of 1] in auto)
  then show "vp8_read_tl0 p L s1 \<noteq> Panic" by (simp add: vp8_read_no_panic)
  fix s2 assume 2: "vp8_read_tl0 p L s1 = Ok s2"
  with s1 obtain w2 i2 where s2: "s2 = (w2, i2)" "0 \<le> i2"
    by (cases s2) (use vp8_read_pos(2) [of i1] in auto)
  then show "vp8_read_tk p T K s2 \<noteq> Panic" by (simp add: vp8_read_no_panic)
  fix s3 assume 3: "vp8_read_tk p T K s2 = Ok s3"
  with s2 obtain w3 i3 where s3: "s3 = (w3, i3)" "0 \<le> i3"
    by (cases s3) (use vp8_read_pos(3) [of i2] in auto)
  then show "vp8_read_keyframe p S s3 \<noteq> Panic" by (simp add: vp8_read_no_panic)
qed

lemma vp8_read_ext_bounds:
  assumes "go_bind (vp8_read_picture_id p I (w, 1)) (\<lambda>s. go_bind (vp8_read_tl0 p L s)
     (\<lambda>s. go_bind (vp8_read_tk p T K s) (vp8_read_keyframe p S))) = Ok v"
  shows "2 \<le> HeaderSize v \<and> HeaderSize v \<le> 6 \<and> HeaderSize v < int (length p)"
proof -
  from assms obtain w1 i1 w2 i2 w3 i3 where
      1: "vp8_read_picture_id p I (w, 1) = Ok (w1, i1)" and
      2: "vp8_read_tl0 p L (w1, i1) = Ok (w2, i2)" and
      3: "vp8_read_tk p T K (w2, i2) = Ok (w3, i3)" and
      4: "vp8_read_keyframe p S (w3, i3) = Ok v"
    by (auto simp: go_bind_eq_Ok)
  show ?thesis
    using vp8_read_idx(1) [OF _ 1] vp8_read_idx(2) [OF _ 2] vp8_read_idx(3) [OF _ 3]
      vp8_read_idx(4) [OF _ 4]
    by linarith
qed

lemma vp8_unmarshal_total: "vp8_unmarshal v payload \<noteq> Panic"
  by (cases payload)
    (auto simp: vp8_unmarshal_def go_mem Let_def vp8_read_ext_no_panic simp del: go_bind.simps)

lemma vp8_unmarshal_bounds:
  assumes "vp8_unmarshal v (Some p) = Ok w"
  shows "1 \<le> HeaderSize w \<and> HeaderSize w \<le> 6 \<and> HeaderSize w < int (length p)"
  using assms
  by (auto simp: vp8_unmarshal_def go_mem Let_def split: if_splits dest!: vp8_read_ext_bounds)

section \<open>The descriptor as a byte string\<close>

definition vp8_any :: "vp8 \<Rightarrow> bool" where
  "vp8_any v \<longleftrightarrow> PictureIDPresent v = 1 \<or> TL0PICIDXPresent v = 1 \<or> TIDPresent v = 1 \<or>
     KEYIDXPresent v = 1"

definition vp8_flags :: "vp8 \<Rightarrow> u8" where
  "vp8_flags v = (if PictureIDPresent v = 1 then 0x80 else 0) OR
     (if TL0PICIDXPresent v = 1 then 0x40 else 0) OR
     (if TIDPresent v = 1 then 0x20 else 0) OR (if KEYIDXPresent v = 1 then 0x10 else 0)"

definition vp8_pid_bytes :: "vp8 \<Rightarrow> u8 list" where
  "vp8_pid_bytes v =
     (if PictureIDPresent v = 1 then
        if MBit v then [0x80 OR ucast (drop_bit 8 (PictureID v) AND 0x7f),
                        ucast (PictureID v AND 0xff)]
        else [ucast (PictureID v)]
      else [])"

definition vp8_tl0_bytes :: "vp8 \<Rightarrow> u8 list" where
  "vp8_tl0_bytes v = (if TL0PICIDXPresent v = 1 then [TL0PICIDX v] else [])"

definition vp8_tk_byte :: "vp8 \<Rightarrow> u8" where
  "vp8_tk_byte v = (if TIDPresent v = 1 then push_bit 6 (TID v) OR push_bit 5 (YBit v) else 0) OR
     (if KEYIDXPresent v = 1 then KEYIDX v AND 0x1f else 0)"

definition vp8_tk_bytes :: "vp8 \<Rightarrow> u8 list" where
  "vp8_tk_bytes v = (if TIDPresent v = 1 \<or> KEYIDXPresent v = 1 then [vp8_tk_byte v] else [])"

definition vp8_header :: "vp8 \<Rightarrow> u8 list" where
  "vp8_header v =
     (if vp8_any v then [FirstByte v OR 0x80, vp8_flags v] @ vp8_pid_bytes v @ vp8_tl0_bytes v @
        vp8_tk_bytes v
      else [FirstByte v AND NOT 0x80])"

text \<open>The structs that describe a descriptor: every field in its range, absent ones zero.\<close>

definition vp8_wf :: "vp8 \<Rightarrow> bool" where
  "vp8_wf v \<longleftrightarrow>
     PictureIDPresent v \<in> {0, 1} \<and> TL0PICIDXPresent v \<in> {0, 1} \<and> TIDPresent v \<in> {0, 1} \<and>
     KEYIDXPresent v \<in> {0, 1} \<and>
     (bit (FirstByte v) 7 \<longleftrightarrow> vp8_any v) \<and> (TL0PICIDXPresent v = 1 \<longrightarrow> TIDPresent v = 1) \<and>
     PictureID v < (if MBit v then 32768 else 128) \<and>
     (PictureIDPresent v = 0 \<longrightarrow> PictureID v = 0 \<and> \<not> MBit v) \<and>
     (TL0PICIDXPresent v = 0 \<longrightarrow> TL0PICIDX v = 0) \<and>
     TID v < 4 \<and> YBit v < 2 \<and> (TIDPresent v = 0 \<longrightarrow> TID v = 0 \<and> YBit v = 0) \<and>
     KEYIDX v < 32 \<and> (KEYIDXPresent v = 0 \<longrightarrow> KEYIDX v = 0) \<and>
     HeaderSize v = int (length (vp8_header v))"

subsection \<open>The writer writes the descriptor\<close>

lemma go_update_at [simp]:
  "go_update (pre @ x # post) (int (length pre)) y = Some (pre @ y # post)"
  by (simp add: go_update_def list_update_append)

lemma go_update_at_Suc:
  "go_update (pre @ a # x # post) (int (length pre) + 1) y = Some (pre @ a # y # post)"
  using go_update_at [of "pre @ [a]"] by (simp add: algebra_simps)

lemma go_index_at [simp]: "go_index (pre @ x # post) (int (length pre)) = Some x"
  by (simp add: go_index_def nth_append)

lemma go_read_at [simp]: "go_read (pre @ x # post) (int (length pre)) f = f x"
  by (simp add: go_read_def)

lemma flag_byte_bit: "x \<in> {0, 1} \<Longrightarrow> n < 8 \<Longrightarrow> flag_byte x n = (if x = 1 then push_bit n 1 else 0)"
  by (auto simp: flag_byte_def push_bit_eq_mult)

lemma vp8_flags_code:
  assumes "vp8_wf v"
  shows "flag_byte (PictureIDPresent v) 7 OR flag_byte (TL0PICIDXPresent v) 6 OR
     flag_byte (TIDPresent v) 5 OR flag_byte (KEYIDXPresent v) 4 = vp8_flags v"
  using assms by (simp add: vp8_wf_def vp8_flags_def flag_byte_bit)

lemma vp8_write_picture_id_bytes:
  assumes "length (vp8_pid_bytes v) \<le> length rest"
  shows "vp8_write_picture_id v (pre @ rest, int (length pre)) =
     Some (pre @ vp8_pid_bytes v @ drop (length (vp8_pid_bytes v)) rest,
           int (length pre + length (vp8_pid_bytes v)))"
proof (cases "PictureIDPresent v = 1 \<and> MBit v")
  case True
  with assms obtain a b post where "rest = a # b # post"
    by (cases rest; cases "tl rest") (auto simp: vp8_pid_bytes_def)
  with True show ?thesis
    by (simp add: vp8_write_picture_id_def vp8_pid_bytes_def go_update_at_Suc)
next
  case False
  with assms show ?thesis
    by (cases rest) (auto simp: vp8_write_picture_id_def vp8_pid_bytes_def)
qed

lemma vp8_write_tl0_bytes:
  assumes "length (vp8_tl0_bytes v) \<le> length rest"
  shows "vp8_write_tl0 v (pre @ rest, int (length pre)) =
     Some (pre @ vp8_tl0_bytes v @ drop (length (vp8_tl0_bytes v)) rest,
           int (length pre + length (vp8_tl0_bytes v)))"
  using assms by (cases rest) (auto simp: vp8_write_tl0_def vp8_tl0_bytes_def)

lemma vp8_write_tk_bytes:
  assumes "length (vp8_tk_bytes v) \<le> length rest"
  shows "vp8_write_tk v (pre @ rest, int (length pre)) =
     Some (pre @ vp8_tk_bytes v @ drop (length (vp8_tk_bytes v)) rest,
           int (length pre + length (vp8_tk_bytes v)))"
  using assms
  by (cases rest) (auto simp: vp8_write_tk_def vp8_tk_bytes_def vp8_tk_byte_def)

lemma vp8_wf_flags:
  assumes "vp8_wf v"
  shows "(PictureIDPresent v = 0 \<or> PictureIDPresent v = 1) \<and>
     (TL0PICIDXPresent v = 0 \<or> TL0PICIDXPresent v = 1) \<and>
     (TIDPresent v = 0 \<or> TIDPresent v = 1) \<and> (KEYIDXPresent v = 0 \<or> KEYIDXPresent v = 1)"
  using assms unfolding vp8_wf_def by blast

lemma vp8_any_sum:
  "vp8_wf v \<Longrightarrow>
   PictureIDPresent v + TL0PICIDXPresent v + TIDPresent v + KEYIDXPresent v \<noteq> 0 \<longleftrightarrow> vp8_any v"
  using vp8_wf_flags [of v] by (auto simp: vp8_any_def)

lemma vp8_marshal_to_header:
  assumes wf: "vp8_wf v" and len: "length (vp8_header v) \<le> length buf"
  shows "vp8_marshal_to v buf =
     Some (Inr (vp8_header v @ drop (length (vp8_header v)) buf))"
proof -
  have hs: "\<not> int (length buf) < HeaderSize v"
    using wf len by (simp add: vp8_wf_def)
  have 0: "go_update (x # xs) 0 y = Some (y # xs)" "go_index (x # xs) 0 = Some x"
    for x y :: u8 and xs by (simp_all add: go_update_def go_index_def)
  have 1: "go_update (x # y # xs) 1 z = Some (x # z # xs)" for x y z :: u8 and xs
    by (simp add: go_update_def)
  show ?thesis
  proof (cases "vp8_any v")
    case True
    with len obtain b0 b1 rest where buf: "buf = b0 # b1 # rest"
      by (cases buf; cases "tl buf") (auto simp: vp8_header_def)
    let ?pid = "vp8_pid_bytes v" and ?tl0 = "vp8_tl0_bytes v" and ?tk = "vp8_tk_bytes v"
    let ?pre = "[FirstByte v OR 0x80, vp8_flags v]"
    have l: "length ?pid + length ?tl0 + length ?tk \<le> length rest"
      using len True buf by (simp add: vp8_header_def)
    have "vp8_write_picture_id v (?pre @ rest, int (length ?pre)) =
        Some (?pre @ ?pid @ drop (length ?pid) rest, int (length ?pre + length ?pid))"
      by (rule vp8_write_picture_id_bytes) (use l in simp)
    moreover have "vp8_write_tl0 v ((?pre @ ?pid) @ drop (length ?pid) rest,
          int (length (?pre @ ?pid))) =
        Some ((?pre @ ?pid) @ ?tl0 @ drop (length ?tl0) (drop (length ?pid) rest),
          int (length (?pre @ ?pid) + length ?tl0))"
      by (rule vp8_write_tl0_bytes) (use l in simp)
    moreover have "vp8_write_tk v ((?pre @ ?pid @ ?tl0) @ drop (length ?tl0 + length ?pid) rest,
          int (length (?pre @ ?pid @ ?tl0))) =
        Some ((?pre @ ?pid @ ?tl0) @ ?tk @ drop (length ?tk) (drop (length ?tl0 + length ?pid) rest),
          int (length (?pre @ ?pid @ ?tl0) + length ?tk))"
      by (rule vp8_write_tk_bytes) (use l in simp)
    moreover have "PictureIDPresent v + TL0PICIDXPresent v + TIDPresent v + KEYIDXPresent v \<noteq> 0"
      using vp8_any_sum [OF wf] True by blast
    ultimately show ?thesis
      using True hs vp8_flags_code [OF wf]
      by (simp add: vp8_marshal_to_def buf 0 1 vp8_header_def add_ac)
  next
    case False
    with len obtain b0 rest where "buf = b0 # rest"
      by (cases buf) (auto simp: vp8_header_def)
    with False hs show ?thesis
      by (simp add: vp8_marshal_to_def vp8_any_sum [OF wf] 0 vp8_header_def)
  qed
qed

subsection \<open>The parser reads the descriptor\<close>

lemma pid_long_bytes:
  assumes "(x :: u16) < 32768"
  shows "bit (0x80 OR ucast (drop_bit 8 x AND 0x7f) :: u8) 7"
    and "push_bit 8 (ucast ((0x80 OR ucast (drop_bit 8 x AND 0x7f) :: u8) AND 0x7f)) OR
         ucast (ucast (x AND 0xff) :: u8) = x"
proof -
  show "bit (0x80 OR ucast (drop_bit 8 x AND 0x7f) :: u8) 7"
    by (simp add: bit_or_iff bit_const8)
  have b: "\<And>n. bit x n \<Longrightarrow> n < 15" using word_less_bits [of x 15] assms by simp
  then show "push_bit 8 (ucast ((0x80 OR ucast (drop_bit 8 x AND 0x7f) :: u8) AND 0x7f)) OR
         ucast (ucast (x AND 0xff) :: u8) = x"
    by (intro bit_word_eqI) (auto simp: masks word_bits bit_const8 dest: b)
qed

lemma pid_short_byte:
  assumes "(x :: u16) < 128"
  shows "\<not> bit (ucast x :: u8) 7" and "ucast ((ucast x :: u8) AND 0x7f) = x"
proof -
  have b: "\<And>n. bit x n \<Longrightarrow> n < 7" using word_less_bits [of x 7] assms by simp
  then show "\<not> bit (ucast x :: u8) 7" by (auto simp: word_bits)
  from b show "ucast ((ucast x :: u8) AND 0x7f) = x"
    by (intro bit_word_eqI) (auto simp: masks word_bits dest: b)
qed

lemma and_c0_bit: "bit ((x :: u8) AND 0xc0) n \<longleftrightarrow> (n = 6 \<or> n = 7) \<and> bit x n"
proof -
  have "(0xc0 :: u8) = 0x80 OR 0x40" by simp
  then show ?thesis by (simp only: bit_and_iff bit_or_iff bit_const8) auto
qed

lemma and_20_bit: "bit ((x :: u8) AND 0x20) n \<longleftrightarrow> n = 5 \<and> bit x n"
  by (simp only: bit_and_iff bit_const8) auto

lemma tk_byte_fields:
  assumes "(t :: u8) < 4" and "y < 2" and "k < 32"
  shows "drop_bit 6 ((push_bit 6 t OR push_bit 5 y OR k) AND 0xc0) = t"
    and "drop_bit 5 ((push_bit 6 t OR push_bit 5 y OR k) AND 0x20) = y"
    and "(push_bit 6 t OR push_bit 5 y OR k) AND 0x1f = k"
proof -
  have t: "\<And>n. bit t n \<Longrightarrow> n < 2" and y: "\<And>n. bit y n \<Longrightarrow> n < 1"
    and k: "\<And>n. bit k n \<Longrightarrow> n < 5"
    using word_less_bits [of t 2] word_less_bits [of y 1] word_less_bits [of k 5] assms by simp_all
  show "drop_bit 6 ((push_bit 6 t OR push_bit 5 y OR k) AND 0xc0) = t"
  proof (rule bit_word_eqI)
    fix n assume "n < LENGTH(8)"
    show "bit (drop_bit 6 ((push_bit 6 t OR push_bit 5 y OR k) AND 0xc0)) n = bit t n"
      by (simp only: bit_drop_bit_eq o_def and_c0_bit bit_or_iff bit_push_bit_iff)
        (auto dest: t y k)
  qed
  show "drop_bit 5 ((push_bit 6 t OR push_bit 5 y OR k) AND 0x20) = y"
  proof (rule bit_word_eqI)
    fix n assume "n < LENGTH(8)"
    show "bit (drop_bit 5 ((push_bit 6 t OR push_bit 5 y OR k) AND 0x20)) n = bit y n"
      by (simp only: bit_drop_bit_eq o_def and_20_bit bit_or_iff bit_push_bit_iff)
        (auto dest: t y k)
  qed
  show "(push_bit 6 t OR push_bit 5 y OR k) AND 0x1f = k"
    by (intro bit_word_eqI) (auto simp: and_31 word_bits dest: t y k)
qed

lemma vp8_flags_bits:
  "bit (vp8_flags v) 7 \<longleftrightarrow> PictureIDPresent v = 1" "bit (vp8_flags v) 6 \<longleftrightarrow> TL0PICIDXPresent v = 1"
  "bit (vp8_flags v) 5 \<longleftrightarrow> TIDPresent v = 1" "bit (vp8_flags v) 4 \<longleftrightarrow> KEYIDXPresent v = 1"
  by (simp_all add: vp8_flags_def bit_or_iff bit_const8)


text \<open>Each reading step consumes the bytes its writing step produced.\<close>

lemma vp8_read_picture_id_bytes:
  assumes "PictureID v < (if MBit v then 32768 else 128)" and "rest \<noteq> []"
  shows "vp8_read_picture_id (pre @ vp8_pid_bytes v @ rest) (PictureIDPresent v = 1)
       (w, int (length pre) - 1) =
     Ok (if PictureIDPresent v = 1
         then w\<lparr>PictureIDPresent := 1, MBit := MBit w \<or> MBit v, PictureID := PictureID v\<rparr> else w,
         int (length pre + length (vp8_pid_bytes v)) - 1)"
proof -
  have at1: "go_read (pre @ a # b # xs) (int (length pre) + 1) f = f b"
    for a b :: u8 and xs and f :: "u8 \<Rightarrow> (vp8 \<times> int) vp8_res"
    using go_read_at [of "pre @ [a]" b xs f] by (simp add: algebra_simps)
  show ?thesis
    using assms pid_long_bytes [of "PictureID v"] pid_short_byte [of "PictureID v"]
    by (auto simp: vp8_read_picture_id_def vp8_pid_bytes_def flag_bits at1 Let_def)
qed

lemma vp8_read_tl0_bytes:
  assumes "rest \<noteq> []"
  shows "vp8_read_tl0 (pre @ vp8_tl0_bytes v @ rest) (TL0PICIDXPresent v = 1)
       (w, int (length pre) - 1) =
     Ok (if TL0PICIDXPresent v = 1 then w\<lparr>TL0PICIDXPresent := 1, TL0PICIDX := TL0PICIDX v\<rparr> else w,
         int (length pre + length (vp8_tl0_bytes v)) - 1)"
  using assms by (auto simp: vp8_read_tl0_def vp8_tl0_bytes_def)

lemma vp8_read_tk_bytes:
  assumes "TID v < 4" and "YBit v < 2" and "KEYIDX v < 32"
  shows "vp8_read_tk (pre @ vp8_tk_bytes v @ rest) (TIDPresent v = 1) (KEYIDXPresent v = 1)
       (w, int (length pre) - 1) =
     Ok (let w1 = (if TIDPresent v = 1
                   then w\<lparr>TIDPresent := 1, TID := TID v, YBit := YBit v\<rparr> else w)
         in if KEYIDXPresent v = 1 then w1\<lparr>KEYIDXPresent := 1, KEYIDX := KEYIDX v\<rparr> else w1,
         int (length pre + length (vp8_tk_bytes v)) - 1)"
proof -
  have k: "KEYIDX v AND 0x1f = KEYIDX v"
    using tk_byte_fields(3) [of 0 0 "KEYIDX v"] assms(3) by simp
  show ?thesis
    using assms tk_byte_fields [of "TID v" "YBit v" "KEYIDX v"]
      tk_byte_fields [of "TID v" "YBit v" 0]
    by (auto simp: vp8_read_tk_def vp8_tk_bytes_def vp8_tk_byte_def Let_def k or.assoc)
qed

lemma vp8_read_keyframe_bytes:
  "vp8_read_keyframe (pre @ b # rest) S (w, int (length pre) - 1) =
     Ok (w\<lparr>IsKeyFrame := (b AND 1 = 0 \<and> S), HeaderSize := int (length pre)\<rparr>)"
  by (simp add: vp8_read_keyframe_def)

lemma set_bit7: "bit (x :: u8) 7 \<Longrightarrow> x OR 0x80 = x"
  by (rule bit_word_eqI, simp only: bit_or_iff bit_const8) auto

lemma clear_bit7: "\<not> bit (x :: u8) 7 \<Longrightarrow> x AND NOT 0x80 = x"
  by (rule bit_word_eqI, simp only: bit_and_iff bit_not_iff bit_const8) auto

lemma set_bit7_bits: "bit ((x :: u8) OR 0x80) 7" "n \<noteq> 7 \<Longrightarrow> bit (x OR 0x80) n = bit x n"
  by (simp_all only: bit_or_iff bit_const8) auto

lemma vp8_wfD:
  assumes "vp8_wf v"
  shows "bit (FirstByte v) 7 \<longleftrightarrow> vp8_any v" and "TL0PICIDXPresent v = 1 \<Longrightarrow> TIDPresent v = 1"
    and "PictureID v < (if MBit v then 32768 else 128)"
    and "PictureIDPresent v = 0 \<Longrightarrow> PictureID v = 0 \<and> \<not> MBit v"
    and "TL0PICIDXPresent v = 0 \<Longrightarrow> TL0PICIDX v = 0"
    and "TID v < 4" and "YBit v < 2" and "TIDPresent v = 0 \<Longrightarrow> TID v = 0 \<and> YBit v = 0"
    and "KEYIDX v < 32" and "KEYIDXPresent v = 0 \<Longrightarrow> KEYIDX v = 0"
    and "HeaderSize v = int (length (vp8_header v))"
  using assms unfolding vp8_wf_def by blast+

text \<open>A struct rebuilt field by field from zero, as the reading steps do.\<close>

lemma vp8_rebuild:
  assumes wf: "vp8_wf v" and key: "IsKeyFrame v = key" and hs: "HeaderSize v = hs"
  shows "(let w = vp8_zero\<lparr>FirstByte := FirstByte v\<rparr>;
      w = (if PictureIDPresent v = 1
           then w\<lparr>PictureIDPresent := 1, MBit := MBit w \<or> MBit v, PictureID := PictureID v\<rparr> else w);
      w = (if TL0PICIDXPresent v = 1 then w\<lparr>TL0PICIDXPresent := 1, TL0PICIDX := TL0PICIDX v\<rparr> else w);
      w = (if TIDPresent v = 1 then w\<lparr>TIDPresent := 1, TID := TID v, YBit := YBit v\<rparr> else w);
      w = (if KEYIDXPresent v = 1 then w\<lparr>KEYIDXPresent := 1, KEYIDX := KEYIDX v\<rparr> else w)
     in w\<lparr>IsKeyFrame := key, HeaderSize := hs\<rparr>) = v"
  using vp8_wf_flags [OF wf] vp8_wfD(4,5,8,10) [OF wf] key hs
  by (cases v) (auto simp: vp8_zero_def)

text \<open>
  The decoder of the format: a descriptor followed by a payload, read into a zero struct.
\<close>

lemma vp8_unmarshal_header:
  assumes wf: "vp8_wf v" and key: "IsKeyFrame v \<longleftrightarrow> b AND 1 = 0 \<and> bit (FirstByte v) 4"
  shows "vp8_unmarshal vp8_zero (Some (vp8_header v @ b # rest)) = Ok v"
proof (cases "vp8_any v")
  case True
  let ?pid = "vp8_pid_bytes v" and ?tl0 = "vp8_tl0_bytes v" and ?tk = "vp8_tk_bytes v"
  let ?pre = "[FirstByte v OR 0x80, vp8_flags v]"
  have fb: "FirstByte v OR 0x80 = FirstByte v"
    using set_bit7 vp8_wfD(1) [OF wf] True by blast
  have bf: "bit (FirstByte v) 7"
    using vp8_wfD(1) [OF wf] True by blast
  have hs: "HeaderSize v = int (length (?pre @ ?pid @ ?tl0 @ ?tk))"
    using vp8_wfD(11) [OF wf] True by (simp add: vp8_header_def)
  note 1 = vp8_read_picture_id_bytes [OF vp8_wfD(3) [OF wf], of "?tl0 @ ?tk @ b # rest" ?pre]
  note 2 = vp8_read_tl0_bytes [of "?tk @ b # rest" "?pre @ ?pid" v]
  note 3 = vp8_read_tk_bytes [OF vp8_wfD(6,7,9) [OF wf], of "?pre @ ?pid @ ?tl0" "b # rest"]
  note 4 = vp8_read_keyframe_bytes [of "?pre @ ?pid @ ?tl0 @ ?tk" b rest]
  show ?thesis
    using 1 2 3 4 vp8_rebuild [OF wf key hs] vp8_wfD(2) [OF wf] True bf
    by (simp add: vp8_unmarshal_def vp8_header_def fb go_mem flag_bits vp8_flags_bits Let_def)
next
  case False
  have "FirstByte v AND NOT 0x80 = FirstByte v"
    using clear_bit7 vp8_wfD(1) [OF wf] False by blast
  with False have hd: "vp8_header v = [FirstByte v]"
    by (simp only: vp8_header_def if_False)
  show ?thesis
    using vp8_rebuild [OF wf key vp8_wfD(11) [OF wf]] vp8_wfD(1) [OF wf] False
    by (simp add: vp8_unmarshal_def hd go_mem flag_bits Let_def vp8_any_def)
qed

subsection \<open>What the parser accepts is well-formed\<close>

lemma u16_join_less:
  "push_bit 8 (ucast (b AND 0x7f)) OR ucast c < (32768 :: u16)" for b c :: u8
proof -
  have "push_bit 8 (ucast (b AND 0x7f)) OR ucast c =
      take_bit 15 (push_bit 8 (ucast (b AND 0x7f)) OR ucast c :: u16)"
    by (rule bit_word_eqI) (auto simp: masks word_bits dest: bit_imp_le_length)
  then show ?thesis using word_take_bit_less [of 15 "push_bit 8 (ucast (b AND 0x7f)) OR ucast c :: u16"]
    by simp
qed

lemma u16_byte_less: "ucast (b AND 0x7f) < (128 :: u16)" for b :: u8
proof -
  have "(ucast (b AND 0x7f) :: u16) = take_bit 7 (ucast b)"
    by (rule bit_word_eqI) (auto simp: masks word_bits)
  then show ?thesis using word_take_bit_less [of 7 "ucast b :: u16"] by simp
qed

lemma u8_field_less:
  "drop_bit 6 (b AND 0xc0) < (4 :: u8)" "drop_bit 5 (b AND 0x20) < (2 :: u8)"
  "b AND 0x1f < (32 :: u8)" for b :: u8
proof -
  have "drop_bit 6 (b AND 0xc0) = take_bit 2 (drop_bit 6 b)"
    by (rule bit_word_eqI, simp only: bit_drop_bit_eq o_def and_c0_bit bit_take_bit_iff) auto
  then show "drop_bit 6 (b AND 0xc0) < (4 :: u8)"
    using word_take_bit_less [of 2 "drop_bit 6 b"] by simp
  have "drop_bit 5 (b AND 0x20) = take_bit 1 (drop_bit 5 b)"
    by (rule bit_word_eqI, simp only: bit_drop_bit_eq o_def and_20_bit bit_take_bit_iff) auto
  then show "drop_bit 5 (b AND 0x20) < (2 :: u8)"
    using word_take_bit_less [of 1 "drop_bit 5 b"] by simp
  show "b AND 0x1f < (32 :: u8)"
    using word_take_bit_less [of 5 b] by (simp add: and_31)
qed

lemma vp8_read_picture_id_Ok:
  assumes "vp8_read_picture_id p I (w, i) = Ok (w', i')"
  shows "(if I then \<exists>pid m. w' = w\<lparr>PictureIDPresent := 1, MBit := MBit w \<or> m, PictureID := pid\<rparr> \<and>
            pid < (if m then 32768 else 128) \<and> i' = i + (if m then 2 else 1)
          else w' = w \<and> i' = i)"
proof (cases I)
  case True
  with assms obtain b where b: "go_index p (i + 1) = Some b"
    by (auto simp: vp8_read_picture_id_def go_read_def Let_def split: option.splits if_splits)
  show ?thesis
  proof (cases "b AND 0x80 > 0")
    case m: True
    with assms True b show ?thesis
      by (auto simp: vp8_read_picture_id_def go_read_def Let_def u16_join_less
          split: option.splits if_splits intro!: exI [of _ True])
  next
    case m: False
    with assms True b show ?thesis
      by (auto simp: vp8_read_picture_id_def go_read_def Let_def u16_byte_less
          split: option.splits if_splits intro!: exI [of _ False])
  qed
next
  case False
  with assms show ?thesis by (simp add: vp8_read_picture_id_def)
qed

lemma vp8_read_tl0_Ok:
  assumes "vp8_read_tl0 p L (w, i) = Ok (w', i')"
  shows "(if L then \<exists>x. w' = w\<lparr>TL0PICIDXPresent := 1, TL0PICIDX := x\<rparr> \<and> i' = i + 1
          else w' = w \<and> i' = i)"
  using assms by (auto simp: vp8_read_tl0_def go_read_def Let_def split: option.splits if_splits)

lemma vp8_read_tk_Ok:
  assumes "vp8_read_tk p T K (w, i) = Ok (w', i')"
  shows "(if T \<or> K then \<exists>t y k. t < 4 \<and> y < 2 \<and> k < 32 \<and> i' = i + 1 \<and>
            w' = (let w1 = (if T then w\<lparr>TIDPresent := 1, TID := t, YBit := y\<rparr> else w)
                  in if K then w1\<lparr>KEYIDXPresent := 1, KEYIDX := k\<rparr> else w1)
          else w' = w \<and> i' = i)"
proof (cases "T \<or> K")
  case True
  with assms obtain b where "i' = i + 1" and
    "w' = (let w1 = (if T then w\<lparr>TIDPresent := 1, TID := drop_bit 6 (b AND 0xc0),
             YBit := drop_bit 5 (b AND 0x20)\<rparr> else w)
           in if K then w1\<lparr>KEYIDXPresent := 1, KEYIDX := b AND 0x1f\<rparr> else w1)"
    by (auto simp: vp8_read_tk_def go_read_def Let_def split: option.splits if_splits)
  with True u8_field_less [of b] show ?thesis by fastforce
next
  case False
  with assms show ?thesis by (simp add: vp8_read_tk_def)
qed

lemma vp8_read_keyframe_Ok:
  assumes "vp8_read_keyframe p S (w, i) = Ok v" and "0 \<le> i"
  shows "v = w\<lparr>IsKeyFrame := (p ! nat (i + 1) AND 1 = 0 \<and> S), HeaderSize := i + 1\<rparr>"
  using assms by (auto simp: vp8_read_keyframe_def go_mem Let_def split: if_splits)

text \<open>
  A parsed descriptor: well-formed, unless the X bit announces an extension with none of the
  four parts (a byte that the struct cannot remember).
\<close>

definition vp8_empty_extension :: "u8 list \<Rightarrow> bool" where
  "vp8_empty_extension p \<longleftrightarrow> bit (p ! 0) 7 \<and> p ! 1 AND 0xf0 = 0"

lemma and_f0_bits: "(x :: u8) AND 0xf0 = 0 \<longleftrightarrow> \<not> bit x 7 \<and> \<not> bit x 6 \<and> \<not> bit x 5 \<and> \<not> bit x 4"
proof -
  have "(0xf0 :: u8) = 0x80 OR 0x40 OR 0x20 OR 0x10" by simp
  then have "bit (0xf0 :: u8) n \<longleftrightarrow> n \<in> {4, 5, 6, 7}" for n
    by (simp only: bit_or_iff bit_const8) auto
  then have b: "bit (x AND 0xf0) n \<longleftrightarrow> bit x n \<and> n \<in> {4, 5, 6, 7}" for n
    by (simp only: bit_and_iff)
  show ?thesis
  proof
    assume "x AND 0xf0 = 0"
    with b show "\<not> bit x 7 \<and> \<not> bit x 6 \<and> \<not> bit x 5 \<and> \<not> bit x 4"
      by (metis bit_0_eq bot_apply bot_bool_def insert_iff)
  next
    assume "\<not> bit x 7 \<and> \<not> bit x 6 \<and> \<not> bit x 5 \<and> \<not> bit x 4"
    then show "x AND 0xf0 = 0"
      by (intro bit_word_eqI) (simp only: b, auto)
  qed
qed

lemma vp8_unmarshal_wf:
  assumes ok: "vp8_unmarshal vp8_zero (Some p) = Ok v" and ne: "\<not> vp8_empty_extension p"
  shows "vp8_wf v \<and> (IsKeyFrame v \<longleftrightarrow> p ! nat (HeaderSize v) AND 1 = 0 \<and> bit (FirstByte v) 4)"
proof (cases "bit (p ! 0) 7")
  case True
  define w where "w = vp8_zero\<lparr>FirstByte := p ! 0\<rparr>"
  let ?I = "bit (p ! 1) 7" and ?L = "bit (p ! 1) 6" and ?T = "bit (p ! 1) 5" and ?K = "bit (p ! 1) 4"
  have some: "?I \<or> ?L \<or> ?T \<or> ?K"
    using ne True by (simp add: vp8_empty_extension_def and_f0_bits)
  from ok True obtain w1 i1 w2 i2 w3 i3 where lt: "?L \<longrightarrow> ?T" and
      1: "vp8_read_picture_id p ?I (w, 1) = Ok (w1, i1)" and
      2: "vp8_read_tl0 p ?L (w1, i1) = Ok (w2, i2)" and
      3: "vp8_read_tk p ?T ?K (w2, i2) = Ok (w3, i3)" and
      4: "vp8_read_keyframe p (bit (p ! 0) 4) (w3, i3) = Ok v"
    by (auto simp: vp8_unmarshal_def go_mem flag_bits Let_def go_bind_eq_Ok w_def split: if_splits)
  have pos: "0 \<le> i3"
    using vp8_read_pos(1) [OF _ 1] vp8_read_pos(2) [OF _ 2] vp8_read_pos(3) [OF _ 3] by simp
  from vp8_read_picture_id_Ok [OF 1] obtain pid m where 1:
    "w1 = (if ?I then w\<lparr>PictureIDPresent := 1, MBit := m, PictureID := pid\<rparr> else w)"
    "i1 = (if ?I then if m then 3 else 2 else 1)" "pid < (if m then 32768 else 128)"
    by (cases ?I) (auto simp: w_def vp8_zero_def intro: that [of 0 False])
  from vp8_read_tl0_Ok [OF 2] obtain x where 2:
    "w2 = (if ?L then w1\<lparr>TL0PICIDXPresent := 1, TL0PICIDX := x\<rparr> else w1)"
    "i2 = (if ?L then i1 + 1 else i1)"
    by (cases ?L) auto
  from vp8_read_tk_Ok [OF 3] obtain t y k where 3: "t < 4" "y < 2" "k < 32"
    "w3 = (let w = (if ?T then w2\<lparr>TIDPresent := 1, TID := t, YBit := y\<rparr> else w2)
           in if ?K then w\<lparr>KEYIDXPresent := 1, KEYIDX := k\<rparr> else w)"
    "i3 = (if ?T \<or> ?K then i2 + 1 else i2)"
    by (cases "?T \<or> ?K") (auto simp: Let_def intro: that [of 0 0 0])
  note 4 = vp8_read_keyframe_Ok [OF 4 pos]
  have "vp8_wf v"
    using some lt True
    unfolding vp8_wf_def vp8_any_def vp8_header_def vp8_pid_bytes_def vp8_tl0_bytes_def
      vp8_tk_bytes_def 1(1,2) 2 3(4,5) 4 w_def vp8_zero_def Let_def
    using 1(3) 3(1-3)
    by (cases ?I; cases ?L; cases ?T; cases ?K; cases m) simp_all
  moreover have "IsKeyFrame v \<longleftrightarrow> p ! nat (HeaderSize v) AND 1 = 0 \<and> bit (FirstByte v) 4"
    unfolding 1(1) 2(1) 3(4) 4 w_def Let_def by simp
  ultimately show ?thesis by blast
next
  case False
  with ok show ?thesis
    by (auto simp: vp8_unmarshal_def go_mem flag_bits Let_def vp8_wf_def vp8_any_def vp8_header_def
        vp8_zero_def split: if_splits)
qed

section \<open>Properties\<close>

text \<open>
  The descriptor as a format: what is written is the header followed by the payload, what is
  read is the struct and the rest of the packet.
\<close>

definition vp8_encode :: "vp8 \<times> u8 list \<Rightarrow> u8 list" where
  "vp8_encode = (\<lambda>(v, payload).
     case vp8_marshal_to v (replicate (nat (HeaderSize v)) 0) of
       Some (Inr h) \<Rightarrow> h @ payload | _ \<Rightarrow> [])"

definition vp8_decode :: "u8 list \<Rightarrow> (vp8 \<times> u8 list) option" where
  "vp8_decode p = (case vp8_unmarshal vp8_zero (Some p) of
     Ok v \<Rightarrow> Some (v, drop (nat (HeaderSize v)) p) | _ \<Rightarrow> None)"

definition vp8_packet_wf :: "vp8 \<times> u8 list \<Rightarrow> bool" where
  "vp8_packet_wf = (\<lambda>(v, payload). vp8_wf v \<and> payload \<noteq> [] \<and>
     (IsKeyFrame v \<longleftrightarrow> hd payload AND 1 = 0 \<and> bit (FirstByte v) 4))"

interpretation vp8_format: format vp8_encode vp8_decode vp8_packet_wf
proof
  fix x assume "vp8_packet_wf x"
  moreover obtain v payload where "x = (v, payload)" by force
  ultimately obtain b rest where x: "x = (v, b # rest)" and wf: "vp8_wf v"
    and key: "IsKeyFrame v \<longleftrightarrow> b AND 1 = 0 \<and> bit (FirstByte v) 4"
    by (cases payload) (simp_all add: vp8_packet_wf_def)
  have hs: "HeaderSize v = int (length (vp8_header v))" by (rule vp8_wfD(11) [OF wf])
  have "vp8_encode x = vp8_header v @ b # rest"
    using vp8_marshal_to_header [OF wf, of "replicate (nat (HeaderSize v)) 0"]
    by (simp add: vp8_encode_def x hs)
  then show "vp8_decode (vp8_encode x) = Some x"
    using vp8_unmarshal_header [OF wf key, of rest] by (simp add: vp8_decode_def x hs)
qed

text \<open>
  C29: \<open>Unmarshal\<close> never panics, whatever bytes it is given; when it succeeds, the header it
  found has between one and six bytes and leaves at least one byte of payload.
\<close>

theorem vp8_unmarshal_safe:
  "case vp8_unmarshal v payload of
     Panic \<Rightarrow> False
   | Err (w, e) \<Rightarrow> True
   | Ok w \<Rightarrow> payload \<noteq> None \<and> 1 \<le> HeaderSize w \<and> HeaderSize w \<le> 6 \<and>
       HeaderSize w < int (length (the payload))"
proof (cases "vp8_unmarshal v payload")
  case Panic
  then show ?thesis using vp8_unmarshal_total by blast
next
  case (Ok w)
  then have "payload \<noteq> None" by (cases payload) (simp_all add: vp8_unmarshal_def)
  then show ?thesis using vp8_unmarshal_bounds Ok by fastforce
qed (auto split: prod.split)



text \<open>
  The exception is real: a descriptor whose extension byte announces nothing takes two
  bytes, but is written back as one, without the extension bit, and the second byte of the
  buffer stays what it was.
\<close>

theorem vp8_empty_extension_shrinks:
  "case vp8_unmarshal vp8_zero (Some [0x90, 0x00, 0x00]) of
     Ok v \<Rightarrow> HeaderSize v = 2 \<and> vp8_marshal_to v [0xAA, 0xBB] = Some (Inr [0x10, 0xBB])
   | _ \<Rightarrow> False"
  by code_simp

end
