(* ===== verification/Keyframe.thy ===== *)
theory Keyframe
  imports Prelude
begin

text \<open>
  The key-frame detectors of \<^verbatim>\<open>pkg/buffer/helpers.go\<close> for H.264 and AV1 payloads. They
  run on bytes from the network, so every access is a checked one and a run-time panic is
  the result \<open>None\<close>. A Go \<open>int\<close> is kept at 64 bits where the AV1 length field can
  overflow it.
\<close>

section \<open>H.264\<close>

text \<open>
  The aggregation-packet loop \<^verbatim>\<open>for i < len(payload) { ... }\<close>. Each round that goes on
  advances \<open>i\<close> by the two length bytes and at least one byte of a unit.
\<close>

function h264_units :: "u8 \<Rightarrow> u8 list \<Rightarrow> int \<Rightarrow> bool option" where
  "h264_units nalu payload i =
     (if i < int (length payload) then
        if i + 2 > int (length payload) then Some False
        else case (go_index payload i, go_index payload (i + 1)) of
          (Some b0, Some b1) \<Rightarrow>
            let len = push_bit 8 (ucast b0) OR (ucast b1 :: u16); i = i + 2 in
            if i + int (unat len) > int (length payload) then Some False
            else
              let offset = (if nalu = 26 then 3 else if nalu = 27 then 4 else 0 :: int) in
              if offset \<ge> int (unat len) then Some False
              else (case go_index payload (i + offset) of
                  None \<Rightarrow> None
                | Some b \<Rightarrow>
                    if b AND 0x1F = 7 then Some True
                    else h264_units nalu payload (i + int (unat len)))
        | _ \<Rightarrow> None
      else Some False)"
  by pat_completeness auto
termination
  by (relation "measure (\<lambda>(nalu, payload, i). nat (int (length payload) - i))", simp)
    (simp only: in_measure prod.case)

declare h264_units.simps [simp del]

definition is_h264_keyframe :: "u8 list \<Rightarrow> bool option" where
  "is_h264_keyframe payload =
     (if int (length payload) < 1 then Some False
      else do {
        b0 \<leftarrow> go_index payload 0;
        let nalu = b0 AND 0x1F;
        if nalu = 0 then Some False
        else if nalu \<le> 23 then Some (nalu = 7)
        else if nalu = 24 \<or> nalu = 25 \<or> nalu = 26 \<or> nalu = 27 then
          h264_units nalu payload (if nalu = 25 \<or> nalu = 26 \<or> nalu = 27 then 1 + 2 else 1)
        else if nalu = 28 \<or> nalu = 29 then
          if int (length payload) < 2 then Some False
          else do {
            b1 \<leftarrow> go_index payload 1;
            if b1 AND 0x80 = 0 then Some False else Some (b1 AND 0x1F = 7) }
        else Some False })"

section \<open>AV1\<close>

text \<open>
  The LEB128 loop of \<open>getObu\<close>: the length so far, as the 64-bit \<open>int\<close> it is, and the
  number of bytes read; \<open>None\<close> when the data ends inside the field. In Go a shift by 64 or
  more gives 0, as \<open>push_bit\<close> on a word does.
\<close>

fun leb128 :: "u8 list \<Rightarrow> nat \<Rightarrow> u64 \<Rightarrow> (u64 \<times> nat) option" where
  "leb128 [] offset len = None"
| "leb128 (l # data) offset len =
     (let len = len OR push_bit (offset * 7) (ucast (l AND 0x7f)) in
      if l AND 0x80 = 0 then Some (len, offset + 1) else leb128 data (offset + 1) len)"

text \<open>
  \<open>getObu\<close>: the unit, the bytes it takes, and whether it is truncated. \<open>None\<close> is the
  slice expression out of range. The sum \<^verbatim>\<open>offset + length\<close> wraps at 64 bits.
\<close>

definition get_obu :: "u8 list \<Rightarrow> bool \<Rightarrow> (u8 list \<times> int \<times> bool) option" where
  "get_obu data is_last =
     (if is_last then Some (data, int (length data), False)
      else case leb128 data 0 0 of
        None \<Rightarrow> Some ([], int (length data), length data > 0)
      | Some (len, offset) \<Rightarrow>
          let end = wrap64 (int offset + sint len) in
          if int (length data) < end then
            do { obu \<leftarrow> go_slice data (int offset) (int (length data));
                 Some (obu, int (length data), True) }
          else
            do { obu \<leftarrow> go_slice data (int offset) end;
                 Some (obu, end, False) })"

text \<open>
  The loop over the units. It ends by itself: the code returns when \<open>i\<close> reaches \<open>w\<close>.
\<close>

function av1_units :: "u8 \<Rightarrow> u8 list \<Rightarrow> int \<Rightarrow> nat \<Rightarrow> bool option" where
  "av1_units w payload offset i = do {
     data \<leftarrow> go_slice payload offset (int (length payload));
     (obu, len, truncated) \<leftarrow> get_obu data (unat w = i + 1);
     if length obu < 1 then Some False
     else do {
       b0 \<leftarrow> go_index obu 0;
       let tpe = drop_bit 3 (b0 AND 0x38);
       if i = 0 \<and> tpe \<noteq> 1 then Some False
       else if i \<noteq> 0 \<and> (tpe = 3 \<or> tpe = 6) then
         if length obu < 2 then Some False
         else do {
           b1 \<leftarrow> go_index obu 1;
           if b1 AND 0x80 \<noteq> 0 then Some False
           else Some (b1 AND 0x60 = 0) }
       else if truncated \<or> i \<ge> unat w then Some False
       else av1_units w payload (offset + len) (i + 1) } }"
  by pat_completeness auto
termination
  by (relation "measure (\<lambda>(w, payload, offset, i). Suc (unat w) - i)") auto

declare av1_units.simps [simp del]

definition is_av1_keyframe :: "u8 list \<Rightarrow> bool option" where
  "is_av1_keyframe payload =
     (if int (length payload) < 2 then Some False
      else do {
        b0 \<leftarrow> go_index payload 0;
        if b0 AND 0x88 \<noteq> 0x08 then Some False
        else av1_units (drop_bit 4 (b0 AND 0x30)) payload 1 0 })"

section \<open>The H.264 detector: no panic, and what it detects\<close>

definition h264_unit_len :: "u8 list \<Rightarrow> int \<Rightarrow> nat" where
  "h264_unit_len payload i =
     unat (push_bit 8 (ucast (payload ! nat i)) OR ucast (payload ! nat (i + 1)) :: u16)"

definition h264_unit_off :: "u8 \<Rightarrow> int" where
  "h264_unit_off nalu = (if nalu = 26 then 3 else if nalu = 27 then 4 else 0)"

text \<open>One round of the loop with its reads resolved.\<close>

lemma h264_units_round:
  assumes "0 \<le> i" and "i + 2 \<le> int (length payload)"
  shows "h264_units nalu payload i =
     (let len = int (h264_unit_len payload i); off = h264_unit_off nalu in
      if i + 2 + len > int (length payload) \<or> off \<ge> len then Some False
      else if payload ! nat (i + 2 + off) AND 0x1F = 7 then Some True
      else h264_units nalu payload (i + 2 + len))"
proof -
  have "i < int (length payload)" "\<not> int (length payload) < i + 2" "i + 1 < int (length payload)"
    "0 \<le> i + 1" using assms by linarith+
  then show ?thesis
    using assms
    by (subst h264_units.simps)
      (auto simp: h264_unit_len_def h264_unit_off_def go_index_def Let_def simp del: of_nat_unat)
qed

lemma h264_units_end: "i + 2 > int (length payload) \<Longrightarrow> h264_units nalu payload i = Some False"
  by (subst h264_units.simps) simp

lemma h264_units_total: "0 \<le> i \<Longrightarrow> \<exists>r. h264_units nalu payload i = Some r"
proof (induction "nat (int (length payload) - i)" arbitrary: i rule: less_induct)
  case less
  show ?case
  proof (cases "i + 2 \<le> int (length payload)")
    case True
    then show ?thesis
      using less.prems less.hyps [of "i + 2 + int (h264_unit_len payload i)"]
      by (auto simp: h264_units_round Let_def)
  next
    case False
    then show ?thesis by (auto simp: h264_units_end)
  qed
qed

lemma is_h264_keyframe_total: "\<exists>r. is_h264_keyframe payload = Some r"
  by (auto simp: is_h264_keyframe_def Let_def go_index_def h264_units_total
      split: option.splits if_splits)

text \<open>
  An aggregation packet: each unit preceded by its length in two bytes. In an MTAP the NAL
  unit itself starts 3 or 4 bytes into the unit, after its own decoding-order fields.
\<close>

definition h264_unit_bytes :: "u8 list \<Rightarrow> u8 list" where
  "h264_unit_bytes u = [word_of_nat (length u div 256), word_of_nat (length u)] @ u"

lemma unit_len_bytes:
  assumes "n < 65536"
  shows "unat (push_bit 8 (ucast (word_of_nat (n div 256) :: u8)) OR
            ucast (word_of_nat n :: u8) :: u16) = n"
proof -
  have "(word_of_nat n :: u16) = push_bit 8 (ucast (word_of_nat (n div 256) :: u8)) OR
            ucast (word_of_nat n :: u8)"
  proof (rule bit_word_eqI)
    fix k assume k: "k < LENGTH(16)"
    have d: "bit (n div 256) m = bit n (m + 8)" for m
      by (subst drop_bit_eq_div [of 8 n, symmetric, simplified])
        (simp only: bit_drop_bit_eq o_def add.commute)
    show "bit (word_of_nat n :: u16) k = bit (push_bit 8 (ucast (word_of_nat (n div 256) :: u8)) OR
            ucast (word_of_nat n :: u8) :: u16) k"
      unfolding bit_or_iff bit_push_bit_iff bit_unsigned_iff bit_of_nat_iff d
      using k by (cases "k < 8") (simp_all only: possible_bit_word, simp_all, arith)
  qed
  then have "unat (push_bit 8 (ucast (word_of_nat (n div 256) :: u8)) OR
            ucast (word_of_nat n :: u8) :: u16) = unat (word_of_nat n :: u16)" by simp
  also have "\<dots> = n" using assms by (simp add: unat_of_nat)
  finally show ?thesis .
qed


lemma length_unit_bytes: "length (h264_unit_bytes u) = length u + 2"
  by (simp add: h264_unit_bytes_def)

lemma h264_units_aggregate:
  assumes "\<forall>u \<in> set us. h264_unit_off nalu < int (length u) \<and> length u < 65536"
  shows "h264_units nalu (pre @ concat (map h264_unit_bytes us)) (int (length pre)) =
     Some (\<exists>u \<in> set us. u ! nat (h264_unit_off nalu) AND 0x1F = 7)"
  using assms
proof (induction us arbitrary: pre)
  case Nil
  then show ?case by (simp add: h264_units_end)
next
  case (Cons u us)
  let ?off = "h264_unit_off nalu"
  define rest where "rest = concat (map h264_unit_bytes us)"
  define p where "p = pre @ h264_unit_bytes u @ rest"
  have u: "?off < int (length u)" "length u < 65536" using Cons.prems by simp_all
  have off: "0 \<le> ?off" by (simp add: h264_unit_off_def)
  have "p ! length pre = word_of_nat (length u div 256)" "p ! (length pre + 1) = word_of_nat (length u)"
    by (simp_all add: p_def h264_unit_bytes_def nth_append)
  then have len: "h264_unit_len p (int (length pre)) = length u"
    using unit_len_bytes [OF u(2)] by (simp add: h264_unit_len_def nat_add_distrib)
  have "p ! nat (int (length pre) + 2 + ?off) = u ! nat ?off"
    using off u(1) by (auto simp: p_def h264_unit_bytes_def nth_append nat_add_distrib nat_less_iff)
  moreover have "int (length p) = int (length pre) + 2 + int (length u) + int (length rest)"
    by (simp add: p_def h264_unit_bytes_def)
  moreover have "h264_units nalu p (int (length pre) + 2 + int (length u)) =
      Some (\<exists>u \<in> set us. u ! nat ?off AND 0x1F = 7)"
    using Cons.IH [of "pre @ h264_unit_bytes u"] Cons.prems
    by (simp add: p_def rest_def length_unit_bytes add_ac)
  ultimately have "h264_units nalu p (int (length pre)) =
      Some (\<exists>u \<in> set (u # us). u ! nat ?off AND 0x1F = 7)"
    using u len by (auto simp: h264_units_round Let_def)
  then show ?case by (simp add: p_def rest_def)
qed

section \<open>The AV1 detector: where it panics and where it does not\<close>

text \<open>
  A payload in which no eight consecutive bytes have the continuation bit set: every length
  field in it ends within eight bytes.
\<close>

definition short_leb128 :: "u8 list \<Rightarrow> bool" where
  "short_leb128 p \<longleftrightarrow> list_all (\<lambda>k. length (takeWhile (\<lambda>b. bit b 7) (drop k p)) < 8) [0..<length p]"

lemma short_leb128_drop:
  assumes "short_leb128 p"
  shows "length (takeWhile (\<lambda>b. bit b 7) (drop k p)) < 8"
  using assms by (cases "k < length p") (simp_all add: short_leb128_def list_all_iff)

lemma and_128_0: "(l :: u8) AND 0x80 = 0 \<longleftrightarrow> \<not> bit l 7"
  using flag_bits(1) [of l] by (auto simp: word_gt_0)

lemma leb128_offset:
  "leb128 data off len = Some (len', off') \<Longrightarrow>
   off' = off + length (takeWhile (\<lambda>b. bit b 7) data) + 1 \<and> off' \<le> off + length data"
  by (induction data off len rule: leb128.induct)
    (auto simp: Let_def and_128_0 split: if_splits)

lemma leb128_len_bits:
  assumes "leb128 data off len = Some (len', off')" and "\<And>n. bit len n \<Longrightarrow> n < 7 * off"
  shows "bit len' n \<Longrightarrow> n < 7 * off'"
  using assms
proof (induction data off len rule: leb128.induct)
  case (2 l data off len)
  let ?len = "len OR push_bit (off * 7) (ucast (l AND 0x7f)) :: u64"
  have b: "m < 7 * (off + 1)" if "bit ?len m" for m
    using that "2.prems"(3) [of m]
    by (auto simp: bit_or_iff bit_push_bit_iff bit_unsigned_iff and_127 bit_take_bit_iff)
  show ?case
  proof (cases "l AND 0x80 = 0")
    case True
    with "2.prems" b show ?thesis by (simp add: Let_def)
  next
    case False
    with "2.prems"(2) have "leb128 data (off + 1) ?len = Some (len', off')" by (simp add: Let_def)
    with "2.IH" [OF refl False "2.prems"(1)] b show ?thesis by blast
  qed
qed simp

lemma bits_less: "(\<And>k. bit x k \<Longrightarrow> k < n) \<Longrightarrow> n < LENGTH('a) \<Longrightarrow> x < 2 ^ n"
  for x :: "'a :: len word"
proof -
  assume b: "\<And>k. bit x k \<Longrightarrow> k < n" and n: "n < LENGTH('a)"
  have "x = take_bit n x"
    by (rule bit_word_eqI) (use b in \<open>auto simp: bit_take_bit_iff\<close>)
  then show ?thesis using word_take_bit_less [OF n, of x] by simp
qed

lemma sint_small: "x < 2 ^ 56 \<Longrightarrow> sint (x :: u64) = uint x \<and> uint x < 2 ^ 56"
proof -
  assume x: "x < 2 ^ 56"
  then have "uint x < 2 ^ 56" by (simp add: word_less_def)
  moreover have "- (2 ^ 63) \<le> uint x"
    by (rule order_trans [OF _ unsigned_greater_eq]) simp
  ultimately have "sint x = uint x"
    by (simp add: sint_uint signed_take_bit_int_eq_self_iff)
  with \<open>uint x < 2 ^ 56\<close> show ?thesis by simp
qed

lemma wrap64_small: "0 \<le> x \<Longrightarrow> x < 2 ^ 63 \<Longrightarrow> wrap64 x = x"
  by (simp add: wrap64_def signed_of_int signed_take_bit_int_eq_self_iff)

lemma get_obu_total:
  assumes "length (takeWhile (\<lambda>b. bit b 7) data) < 8"
  shows "\<exists>obu len tr. get_obu data is_last = Some (obu, len, tr) \<and>
     0 \<le> len \<and> len \<le> int (length data)"
proof (cases "\<not> is_last \<and> leb128 data 0 0 \<noteq> None")
  case True
  then obtain len off where leb: "leb128 data 0 0 = Some (len, off)" by auto
  then have off: "off \<le> 8" "off \<le> length data" "0 < off"
    using assms leb128_offset [OF leb] by auto
  have "len < 2 ^ 56"
    by (rule bits_less) (use leb128_len_bits [OF leb] off in \<open>fastforce+\<close>)
  then have "sint len = uint len" "uint len < 2 ^ 56" using sint_small by blast+
  moreover from this have "wrap64 (int off + sint len) = int off + uint len"
    using off by (simp add: wrap64_small)
  ultimately show ?thesis
    using True off unsigned_greater_eq [of len, where 'a = int]
    by (auto simp: get_obu_def leb go_slice_def Let_def)
next
  case False
  then show ?thesis by (cases "leb128 data 0 0") (auto simp: get_obu_def)
qed

lemma av1_units_total:
  assumes "short_leb128 payload" and "0 \<le> offset" and "offset \<le> int (length payload)"
  shows "\<exists>r. av1_units w payload offset i = Some r"
  using assms
proof (induction "Suc (unat w) - i" arbitrary: offset i rule: less_induct)
  case less
  let ?data = "drop (nat offset) payload"
  have "go_slice payload offset (int (length payload)) = Some ?data"
    using less.prems by (simp add: go_slice_def nat_diff_distrib)
  moreover obtain obu len tr where obu: "get_obu ?data (unat w = i + 1) = Some (obu, len, tr)"
    and len: "0 \<le> len" "len \<le> int (length ?data)"
    using get_obu_total [OF short_leb128_drop [OF less.prems(1)]] by blast
  moreover have "\<exists>r. av1_units w payload (offset + len) (i + 1) = Some r" if "\<not> i \<ge> unat w"
    using that less.prems len by (intro less.hyps) auto
  ultimately show ?case
    by (subst av1_units.simps) (cases obu; auto simp: go_index_def Let_def)
qed


section \<open>Properties\<close>

text \<open>
  C31: the H.264 detector terminates without a panic on every payload, and on a
  well-formed aggregation packet (STAP-A, STAP-B, MTAP16, MTAP24) it says whether one of the
  aggregated units is a sequence parameter set (NAL type 7).
\<close>

theorem h264_keyframe_aggregate:
  assumes "hdr AND 0x1F = nalu" and "nalu \<in> {24, 25, 26, 27}"
    and "length don = (if nalu = 24 then 0 else 2)"
    and "\<forall>u \<in> set us. h264_unit_off nalu < int (length u) \<and> length u < 65536"
  shows "(\<forall>payload. is_h264_keyframe payload \<noteq> None) \<and>
     is_h264_keyframe (hdr # don @ concat (map h264_unit_bytes us)) =
       Some (\<exists>u \<in> set us. u ! nat (h264_unit_off nalu) AND 0x1F = 7)"
proof
  show "\<forall>payload. is_h264_keyframe payload \<noteq> None"
    using is_h264_keyframe_total by fastforce
  have "h264_units nalu ((hdr # don) @ concat (map h264_unit_bytes us)) (int (length (hdr # don))) =
      Some (\<exists>u \<in> set us. u ! nat (h264_unit_off nalu) AND 0x1F = 7)"
    by (rule h264_units_aggregate [OF assms(4)])
  then show "is_h264_keyframe (hdr # don @ concat (map h264_unit_bytes us)) =
       Some (\<exists>u \<in> set us. u ! nat (h264_unit_off nalu) AND 0x1F = 7)"
    using assms(1-3) by (auto simp: is_h264_keyframe_def go_index_def)
qed

theorem h264_keyframe_aggregate_witness:
  "is_h264_keyframe [0x78, 0, 1, 0x61, 0, 2, 0x67, 0x42] = Some True"
proof -
  have b: "\<forall>u \<in> set [[0x61], [0x67, 0x42 :: u8]]. h264_unit_off 24 < int (length u) \<and> length u < 65536"
    by (simp add: h264_unit_off_def)
  have "is_h264_keyframe (0x78 # [] @ concat (map h264_unit_bytes [[0x61], [0x67, 0x42]])) =
      Some (\<exists>u \<in> set [[0x61], [0x67, 0x42 :: u8]]. u ! nat (h264_unit_off 24) AND 0x1F = 7)"
    using h264_keyframe_aggregate [where hdr = "0x78" and nalu = "24" and don = "[]", OF _ _ _ b] by simp
  then show ?thesis by (simp add: h264_unit_bytes_def h264_unit_off_def)
qed



text \<open>
  The bound on the length fields is needed: a length field of ten bytes shifts a one
  into the sign bit of the 64-bit \<open>int\<close>, the comparison with the data's length passes, and
  the slice expression panics. One AV1 packet of eleven bytes brings the program down.
\<close>

theorem av1_keyframe_panics:
  "is_av1_keyframe ([0x08] @ replicate 9 0x80 @ [0x01]) = None"
  by code_simp

end
