(* ===== verification/GoRuntime.thy ===== *)
theory GoRuntime
  imports Prelude "HOL-Library.Log_Nat"
begin

text \<open>
  What the program uses of Go's run time: \<open>time.Time\<close> as nanoseconds, integer division
  towards zero, and IEEE 754 floating point as the language defines it: finite values are
  rationals rounded to nearest, ties to even, with the two formats' precision and range.
\<close>

section \<open>Time\<close>

text \<open>
  A \<open>time.Time\<close> is its wall clock in nanoseconds since the Unix epoch; the zero
  \<open>time.Time\<close> (what an unset field holds) is 1 January of year 1. Durations are
  nanoseconds, and \<open>Sub\<close> saturates at the range of \<open>int64\<close>.
\<close>

type_synonym gotime = int
type_synonym duration = int

definition zero_time :: gotime where
  "zero_time = - 62135596800 * 10 ^ 9"

definition is_zero_time :: "gotime \<Rightarrow> bool" where
  "is_zero_time t \<longleftrightarrow> t = zero_time"

definition time_sub :: "gotime \<Rightarrow> gotime \<Rightarrow> duration" where
  "time_sub t u = max (- (2 ^ 63)) (min (2 ^ 63 - 1) (t - u))"

definition unix_nano :: "gotime \<Rightarrow> int" where
  "unix_nano t = wrap64 t"

text \<open>Integer division truncates towards zero.\<close>

definition go_div :: "int \<Rightarrow> int \<Rightarrow> int" where
  "go_div a b = sgn a * sgn b * (\<bar>a\<bar> div \<bar>b\<bar>)"

definition go_mod :: "int \<Rightarrow> int \<Rightarrow> int" where
  "go_mod a b = a - b * go_div a b"

text \<open>\<open>Duration.Milliseconds\<close>.\<close>

definition milliseconds :: "duration \<Rightarrow> int" where
  "milliseconds d = go_div d (10 ^ 6)"

section \<open>Strings\<close>

text \<open>
  A Go string is the list of its bytes. \<^verbatim>\<open>strings.ToLower\<close>, \<^verbatim>\<open>strings.EqualFold\<close> and
  \<^verbatim>\<open>strings.HasPrefix\<close> on ASCII strings, which codec names are.
\<close>

definition lower_char :: "char \<Rightarrow> char" where
  "lower_char c = (let n = of_char c :: nat in if 65 \<le> n \<and> n \<le> 90 then char_of (n + 32) else c)"

definition to_lower :: "string \<Rightarrow> string" where
  "to_lower s = map lower_char s"

definition equal_fold :: "string \<Rightarrow> string \<Rightarrow> bool" where
  "equal_fold s t \<longleftrightarrow> to_lower s = to_lower t"

definition has_prefix :: "string \<Rightarrow> string \<Rightarrow> bool" where
  "has_prefix s t \<longleftrightarrow> take (length t) s = t"

section \<open>Floating point\<close>

datatype gofloat = Fin rat | PInf | NInf | NaN

datatype float_format = F32 | F64

fun precision :: "float_format \<Rightarrow> int" where
  "precision F32 = 24" | "precision F64 = 53"

fun min_exp :: "float_format \<Rightarrow> int" where
  "min_exp F32 = -149" | "min_exp F64 = -1074"

fun max_exp :: "float_format \<Rightarrow> nat" where
  "max_exp F32 = 128" | "max_exp F64 = 1024"

text \<open>Rounding a rational to an integer, ties to even.\<close>

definition round_even :: "rat \<Rightarrow> int" where
  "round_even x =
     (let f = \<lfloor>x\<rfloor>; r = x - of_int f in
      if r < 1 / 2 then f else if r > 1 / 2 then f + 1 else if even f then f else f + 1)"

text \<open>The exponent of a positive rational: the integer below its binary logarithm.\<close>

definition rat_exp :: "rat \<Rightarrow> int" where
  "rat_exp x = (case quotient_of x of (n, d) \<Rightarrow>
     let e = bitlen n - bitlen d in if 2 powi e \<le> x then e else e - 1)"

definition ulp :: "float_format \<Rightarrow> rat \<Rightarrow> rat" where
  "ulp fm x = 2 powi max (rat_exp \<bar>x\<bar> - (precision fm - 1)) (min_exp fm)"

definition rnd :: "float_format \<Rightarrow> rat \<Rightarrow> rat" where
  "rnd fm x = (if x = 0 then 0 else of_int (round_even (x / ulp fm x)) * ulp fm x)"

definition f_norm :: "float_format \<Rightarrow> rat \<Rightarrow> gofloat" where
  "f_norm fm x =
     (let r = rnd fm x in
      if r \<ge> 2 ^ max_exp fm then PInf else if r \<le> - (2 ^ max_exp fm) then NInf else Fin r)"

definition f_of_int :: "float_format \<Rightarrow> int \<Rightarrow> gofloat" where
  "f_of_int fm n = f_norm fm (of_int n)"

fun f_neg :: "gofloat \<Rightarrow> gofloat" where
  "f_neg (Fin a) = Fin (- a)"
| "f_neg PInf = NInf"
| "f_neg NInf = PInf"
| "f_neg NaN = NaN"

fun f_add :: "float_format \<Rightarrow> gofloat \<Rightarrow> gofloat \<Rightarrow> gofloat" where
  "f_add fm (Fin a) (Fin b) = f_norm fm (a + b)"
| "f_add fm NaN y = NaN"
| "f_add fm x NaN = NaN"
| "f_add fm PInf NInf = NaN"
| "f_add fm NInf PInf = NaN"
| "f_add fm PInf y = PInf"
| "f_add fm x PInf = PInf"
| "f_add fm NInf y = NInf"
| "f_add fm x NInf = NInf"

definition f_sub :: "float_format \<Rightarrow> gofloat \<Rightarrow> gofloat \<Rightarrow> gofloat" where
  "f_sub fm x y = f_add fm x (f_neg y)"

definition f_inf :: "bool \<Rightarrow> gofloat" where
  "f_inf positive = (if positive then PInf else NInf)"

fun f_mul :: "float_format \<Rightarrow> gofloat \<Rightarrow> gofloat \<Rightarrow> gofloat" where
  "f_mul fm (Fin a) (Fin b) = f_norm fm (a * b)"
| "f_mul fm NaN y = NaN"
| "f_mul fm x NaN = NaN"
| "f_mul fm (Fin a) y = (if a = 0 then NaN else f_inf ((a > 0) = (y = PInf)))"
| "f_mul fm x (Fin b) = (if b = 0 then NaN else f_inf ((b > 0) = (x = PInf)))"
| "f_mul fm x y = f_inf (x = y)"

text \<open>
  A zero divisor is the positive zero: the program only divides by converted integers and
  their differences, which are never the negative one.
\<close>

fun f_div :: "float_format \<Rightarrow> gofloat \<Rightarrow> gofloat \<Rightarrow> gofloat" where
  "f_div fm (Fin a) (Fin b) =
     (if b = 0 then if a = 0 then NaN else f_inf (a > 0) else f_norm fm (a / b))"
| "f_div fm NaN y = NaN"
| "f_div fm x NaN = NaN"
| "f_div fm (Fin a) y = Fin 0"
| "f_div fm x (Fin b) = f_inf ((b \<ge> 0) = (x = PInf))"
| "f_div fm x y = NaN"

fun f_less :: "gofloat \<Rightarrow> gofloat \<Rightarrow> bool" where
  "f_less (Fin a) (Fin b) = (a < b)"
| "f_less NaN y = False"
| "f_less x NaN = False"
| "f_less x PInf = (x \<noteq> PInf)"
| "f_less NInf y = (y \<noteq> NInf)"
| "f_less x y = False"

definition f_geq :: "gofloat \<Rightarrow> gofloat \<Rightarrow> bool" where
  "f_geq x y \<longleftrightarrow> f_less y x \<or> (x = y \<and> x \<noteq> NaN)"

text \<open>
  Conversion to an unsigned integer truncates; where the value does not fit, the language
  leaves the result to the implementation, here the parameter \<open>impl\<close>.
\<close>

definition trunc_rat :: "rat \<Rightarrow> int" where
  "trunc_rat a = (if a \<ge> 0 then \<lfloor>a\<rfloor> else \<lceil>a\<rceil>)"

definition f_to_word :: "(gofloat \<Rightarrow> 'n :: len word) \<Rightarrow> gofloat \<Rightarrow> 'n word" where
  "f_to_word impl x = (case x of
     Fin a \<Rightarrow> (let t = trunc_rat a in
       if 0 \<le> t \<and> t < 2 ^ LENGTH('n) then word_of_int t else impl x)
   | _ \<Rightarrow> impl x)"

section \<open>Rounding\<close>

lemma round_even_mono: "x \<le> y \<Longrightarrow> round_even x \<le> round_even y"
proof -
  assume xy: "x \<le> y"
  then have f: "\<lfloor>x\<rfloor> \<le> \<lfloor>y\<rfloor>" by (rule floor_mono)
  show ?thesis
  proof (cases "\<lfloor>x\<rfloor> = \<lfloor>y\<rfloor>")
    case True
    with xy show ?thesis by (auto simp: round_even_def Let_def)
  next
    case False
    with f show ?thesis by (auto simp: round_even_def Let_def)
  qed
qed

lemma round_even_of_int [simp]: "round_even (of_int n) = n"
  by (simp add: round_even_def)

lemma round_even_error: "\<bar>of_int (round_even x) - x\<bar> \<le> 1 / 2"
proof -
  have "of_int \<lfloor>x\<rfloor> \<le> x" "x < of_int \<lfloor>x\<rfloor> + 1" by linarith+
  then show ?thesis by (auto simp: round_even_def Let_def)
qed

lemma round_even_minus: "round_even (- x) = - round_even x"
proof (cases "x = of_int \<lfloor>x\<rfloor>")
  case True
  then show ?thesis using round_even_of_int [of "\<lfloor>x\<rfloor>"] round_even_of_int [of "- \<lfloor>x\<rfloor>"] by simp
next
  case False
  then have "\<lfloor>- x\<rfloor> = - \<lfloor>x\<rfloor> - 1" by linarith
  then show ?thesis by (auto simp: round_even_def Let_def)
qed

lemma powi_nat: "0 \<le> k \<Longrightarrow> (2 :: rat) powi k = of_int (2 ^ nat k)"
  by (simp add: power_int_nonneg_exp)

lemma rat_exp_bounds:
  assumes "0 < x"
  shows "2 powi rat_exp x \<le> x" and "x < 2 powi (rat_exp x + 1)"
proof -
  obtain n d where nd: "quotient_of x = (n, d)" by force
  then have x: "x = of_int n / of_int d" and d: "0 < d"
    by (simp_all add: quotient_of_div quotient_of_denom_pos)
  with assms have n: "0 < n" by (simp add: zero_less_divide_iff)
  let ?a = "bitlen n" and ?b = "bitlen d"
  have n2: "2 ^ nat (?a - 1) \<le> n \<and> n < 2 ^ nat ?a" and d2: "2 ^ nat (?b - 1) \<le> d \<and> d < 2 ^ nat ?b"
    using n d by (simp_all add: bitlen_bounds)
  have ab: "1 \<le> ?a" "1 \<le> ?b" using n d by (simp_all add: bitlen_ge_iff_power)
  have B: "(of_int n :: rat) < 2 powi ?a" "(2 :: rat) powi (?a - 1) \<le> of_int n"
    "(of_int d :: rat) < 2 powi ?b" "(2 :: rat) powi (?b - 1) \<le> of_int d"
    using n2 d2 ab by (simp_all only: powi_nat of_int_less_iff of_int_le_iff)
  have dpos: "(0 :: rat) < of_int d" using d by simp
  have "2 powi (?a - ?b - 1) = 2 powi (?a - 1) / (2 powi ?b :: rat)"
    by (simp add: power_int_diff)
  also have "\<dots> \<le> of_int n / of_int d"
    using B dpos n by (intro frac_le) simp_all
  finally have low: "2 powi (?a - ?b - 1) \<le> x" using x by simp
  have "x \<le> of_int n / 2 powi (?b - 1)"
    unfolding x using B dpos n by (intro frac_le) (simp_all add: less_imp_le)
  also have "\<dots> < 2 powi ?a / 2 powi (?b - 1)"
    using B by (simp add: divide_strict_right_mono)
  also have "\<dots> = 2 powi (?a - ?b + 1)"
    by (simp add: power_int_diff power_int_add_1)
  finally have high: "x < 2 powi (?a - ?b + 1)" .
  have e: "rat_exp x = (if 2 powi (?a - ?b) \<le> x then ?a - ?b else ?a - ?b - 1)"
    by (simp add: rat_exp_def nd Let_def)
  show "2 powi rat_exp x \<le> x" and "x < 2 powi (rat_exp x + 1)"
    using low high by (auto simp: e)
qed

lemma ulp_pos [simp]: "0 < ulp fm x"
  by (simp add: ulp_def)

lemma rnd_error: "\<bar>rnd fm x - x\<bar> \<le> ulp fm x / 2"
proof (cases "x = 0")
  case False
  have "rnd fm x - x = (of_int (round_even (x / ulp fm x)) - x / ulp fm x) * ulp fm x"
    using False less_imp_neq [OF ulp_pos [of fm x]] by (simp add: rnd_def left_diff_distrib)
  then show ?thesis
    using mult_right_mono [OF round_even_error [of "x / ulp fm x"] less_imp_le [OF ulp_pos [of fm x]]]
    by (simp add: abs_mult abs_of_pos [OF ulp_pos])
qed (simp add: rnd_def less_imp_le)

lemma rnd_minus: "rnd fm (- x) = - rnd fm x"
  by (simp add: rnd_def ulp_def round_even_minus)

lemma rat_exp_less: "0 < x \<Longrightarrow> x < 2 powi k \<Longrightarrow> rat_exp x < k"
proof (rule ccontr)
  assume "0 < x" "x < 2 powi k" and "\<not> rat_exp x < k"
  then have "(2 :: rat) powi k \<le> 2 powi rat_exp x" by (intro power_int_increasing) simp_all
  with rat_exp_bounds(1) [OF \<open>0 < x\<close>] \<open>x < 2 powi k\<close> show False by simp
qed

lemma ulp_le: "x \<noteq> 0 \<Longrightarrow> \<bar>x\<bar> < 2 powi k \<Longrightarrow> ulp fm x \<le> 2 powi max (k - precision fm) (min_exp fm)"
  using rat_exp_less [of "\<bar>x\<bar>" k] by (auto simp: ulp_def intro!: power_int_increasing)

lemma min_exp_neg: "min_exp fm < 0"
  by (cases fm) simp_all

lemma precision_pos: "1 < precision fm"
  by (cases fm) simp_all

text \<open>A power of two that is at least the unit is a whole number of units.\<close>

lemma ulp_dvd_pow:
  assumes "x \<noteq> 0" and "\<bar>x\<bar> \<le> 2 ^ k"
  shows "\<exists>m. 2 ^ k = of_int m * ulp fm x"
proof -
  have "(2 :: rat) powi (int k + 1) = 2 * 2 ^ k" by (simp add: power_int_add_1)
  moreover have "(0 :: rat) < 2 ^ k" by simp
  ultimately have "\<bar>x\<bar> < 2 powi (int k + 1)" using assms by linarith
  then have "rat_exp \<bar>x\<bar> < int k + 1" using assms by (intro rat_exp_less) simp_all
  then have e: "max (rat_exp \<bar>x\<bar> - (precision fm - 1)) (min_exp fm) \<le> int k" (is "?e \<le> _")
    using min_exp_neg [of fm] precision_pos [of fm] by simp
  have "(2 :: rat) ^ k = 2 powi (int k - ?e) * 2 powi ?e"
    by (simp flip: power_int_add)
  also have "(2 :: rat) powi (int k - ?e) = of_int (2 ^ nat (int k - ?e))"
    using e by (simp only: powi_nat)
  finally show ?thesis by (auto simp: ulp_def)
qed

lemma rnd_le_pow:
  assumes "x \<le> 2 ^ k"
  shows "rnd fm x \<le> 2 ^ k"
proof (cases "0 < x")
  case True
  with assms obtain m where m: "2 ^ k = of_int m * ulp fm x"
    using ulp_dvd_pow [of x k fm] by auto
  with assms have "x / ulp fm x \<le> of_int m"
    by (simp add: pos_divide_le_eq)
  then have "round_even (x / ulp fm x) \<le> m"
    using round_even_mono by fastforce
  then show ?thesis using True by (simp add: rnd_def m)
next
  case False
  then have "x / ulp fm x \<le> of_int 0" by (simp add: divide_nonpos_pos)
  then have "round_even (x / ulp fm x) \<le> 0"
    using round_even_mono round_even_of_int by metis
  then have "rnd fm x \<le> 0" by (auto simp: rnd_def mult_le_0_iff order.strict_implies_order)
  then show ?thesis by (rule order_trans) simp
qed

lemma rnd_abs_le_pow: "\<bar>x\<bar> \<le> 2 ^ k \<Longrightarrow> \<bar>rnd fm x\<bar> \<le> 2 ^ k"
  using rnd_le_pow [of x k fm] rnd_le_pow [of "- x" k fm] by (simp add: rnd_minus abs_le_iff)

lemma round_even_double: "0 \<le> x \<Longrightarrow> 0 \<le> round_even x \<and> of_int (round_even x) \<le> 2 * x"
proof -
  assume x: "0 \<le> x"
  have f: "of_int \<lfloor>x\<rfloor> \<le> x" "x < of_int \<lfloor>x\<rfloor> + 1" by linarith+
  have "0 \<le> \<lfloor>x\<rfloor>" using x by simp
  then consider "\<lfloor>x\<rfloor> = 0" | "1 \<le> \<lfloor>x\<rfloor>" by linarith
  then show ?thesis
  proof cases
    case 2
    then have "1 \<le> (of_int \<lfloor>x\<rfloor> :: rat)" by simp
    with f x 2 show ?thesis
      by (auto simp: round_even_def Let_def not_less simp del: le_floor_iff one_le_floor) linarith+
  qed (use f x in \<open>auto simp: round_even_def Let_def\<close>)
qed

lemma rnd_double: "0 \<le> x \<Longrightarrow> 0 \<le> rnd fm x \<and> rnd fm x \<le> 2 * x"
proof (cases "x = 0")
  case False
  assume "0 \<le> x"
  then have q: "0 \<le> x / ulp fm x" by (simp add: less_imp_le)
  show ?thesis
    using round_even_double [OF q] False
      mult_right_mono [of "of_int (round_even (x / ulp fm x))" "2 * (x / ulp fm x)" "ulp fm x"]
      less_imp_neq [OF ulp_pos [of fm x]]
    by (auto simp: rnd_def less_imp_le)
qed (simp add: rnd_def)

text \<open>A value of at most the format's precision is exact.\<close>

lemma rnd_exact:
  assumes "\<bar>of_int n :: rat\<bar> < 2 powi precision fm" and j: "min_exp fm \<le> j"
  shows "rnd fm (of_int n * 2 powi j) = of_int n * 2 powi j"
proof (cases "n = 0")
  case False
  let ?x = "of_int n * 2 powi j :: rat"
  have "\<bar>?x\<bar> < 2 powi precision fm * 2 powi j"
    using assms(1) by (simp add: abs_mult)
  also have "\<dots> = 2 powi (precision fm + j)"
    by (simp add: power_int_add)
  finally have "rat_exp \<bar>?x\<bar> < precision fm + j"
    using False by (intro rat_exp_less) simp_all
  then have e: "max (rat_exp \<bar>?x\<bar> - (precision fm - 1)) (min_exp fm) \<le> j" (is "?e \<le> _")
    using j by simp
  have "(2 :: rat) powi j = 2 powi (j - ?e) * 2 powi ?e"
    by (simp flip: power_int_add)
  also have "(2 :: rat) powi (j - ?e) = of_int (2 ^ nat (j - ?e))"
    using e by (simp only: powi_nat)
  finally have m: "?x = of_int (n * 2 ^ nat (j - ?e)) * ulp fm ?x"
    by (simp add: ulp_def)
  then have "?x / ulp fm ?x = of_int (n * 2 ^ nat (j - ?e))"
    using less_imp_neq [OF ulp_pos [of fm ?x]] by (metis nonzero_mult_div_cancel_right)
  then have "of_int (round_even (?x / ulp fm ?x)) = (of_int (n * 2 ^ nat (j - ?e)) :: rat)"
    by (simp only: round_even_of_int)
  then have "rnd fm ?x = of_int (n * 2 ^ nat (j - ?e)) * ulp fm ?x"
    using False by (simp add: rnd_def)
  also have "\<dots> = ?x" by (rule m [symmetric])
  finally show ?thesis .
qed (simp add: rnd_def)

lemma rnd_int: "\<bar>of_int n :: rat\<bar> < 2 powi precision fm \<Longrightarrow> rnd fm (of_int n) = of_int n"
  using rnd_exact [of n fm 0] min_exp_neg [of fm] by simp

lemma f_norm_Fin:
  assumes "\<bar>x\<bar> \<le> 2 ^ k" and "k < max_exp fm"
  shows "f_norm fm x = Fin (rnd fm x)"
proof -
  have "(2 :: rat) ^ k < 2 ^ max_exp fm" using assms(2) by simp
  moreover have "\<bar>rnd fm x\<bar> \<le> 2 ^ k" by (rule rnd_abs_le_pow) (rule assms(1))
  ultimately have "rnd fm x < 2 ^ max_exp fm" "- (2 ^ max_exp fm) < rnd fm x" by linarith+
  then show ?thesis by (simp add: f_norm_def Let_def)
qed

lemma f_of_int_F64:
  assumes "\<bar>n\<bar> \<le> 2 ^ 32"
  shows "f_of_int F64 n = Fin (of_int n)"
proof -
  have a: "\<bar>of_int n :: rat\<bar> \<le> 2 ^ 32"
    using assms by (metis of_int_abs of_int_le_iff of_int_numeral of_int_power)
  then have "\<bar>of_int n :: rat\<bar> < 2 powi precision F64"
    by (rule order_le_less_trans) (simp add: power_int_nonneg_exp)
  then show ?thesis using f_norm_Fin [OF a, of F64] rnd_int [of n F64] by (simp add: f_of_int_def)
qed

text \<open>NaN absorbs.\<close>

lemma f_nan [simp]:
  "f_add fm x NaN = NaN" "f_add fm NaN x = NaN" "f_sub fm x NaN = NaN" "f_sub fm NaN x = NaN"
  "f_mul fm x NaN = NaN" "f_mul fm NaN x = NaN"
  by (cases x; simp add: f_sub_def)+

lemma f_less_nan [simp]: "\<not> f_less x NaN"
  by (cases x) simp_all

lemma f_of_int_0 [simp]: "f_of_int fm 0 = Fin 0"
proof -
  have "rnd fm 0 = 0" by (simp add: rnd_def round_even_def)
  moreover have "\<not> (2 :: rat) ^ max_exp fm \<le> 0" by (simp add: not_le)
  ultimately show ?thesis by (simp add: f_of_int_def f_norm_def)
qed

end
