(* ===== verification/Rtp.thy ===== *)
theory Rtp
  imports GoRuntime
begin

text \<open>
  The packet types of pion/rtp and pion/rtcp as far as the program reads or writes their
  fields. They are plain structures of a third-party package: no behaviour of the package
  is modelled here, the sizes it computes are parameters where they are used.
\<close>

record rtp_extension =
  extId :: u8
  extPayload :: "u8 list"

record rtp_header =
  Version :: u8
  Padding :: bool
  Extension :: bool
  Marker :: bool
  PayloadType :: u8
  SequenceNumber :: u16
  Timestamp :: u32
  SSRC :: u32
  CSRC :: "u32 list"
  ExtensionProfile :: u16
  Extensions :: "rtp_extension list"

record rtp_packet =
  Header :: rtp_header
  Payload :: "u8 list"
  PaddingSize :: u8

record reception_report =
  rrSSRC :: u32
  rrFractionLost :: u8
  rrTotalLost :: u32
  rrLastSequenceNumber :: u32
  rrJitter :: u32
  rrLastSenderReport :: u32
  rrDelay :: u32

record sender_report =
  repSSRC :: u32
  repNTPTime :: u64
  repRTPTime :: u32
  repPacketCount :: u32
  repOctetCount :: u32

text \<open>The zero value of a header, as a Go declaration leaves it.\<close>

definition rtp_header_zero :: rtp_header where
  "rtp_header_zero = \<lparr>Version = 0, Padding = False, Extension = False, Marker = False, PayloadType = 0,
     SequenceNumber = 0, Timestamp = 0, SSRC = 0, CSRC = [],
     ExtensionProfile = 0, Extensions = []\<rparr>"

definition reception_report_zero :: reception_report where
  "reception_report_zero = \<lparr>rrSSRC = 0, rrFractionLost = 0, rrTotalLost = 0,
     rrLastSequenceNumber = 0, rrJitter = 0, rrLastSenderReport = 0, rrDelay = 0\<rparr>"

section \<open>RTCP packets and codec parameters\<close>

record nack_pair =
  PacketID :: u16
  LostPackets :: u16

text \<open>The RTCP packets that the program builds or tells apart; any other one is \<open>OtherRTCP\<close>.\<close>

datatype rtcp_packet =
    PictureLossIndication u32 u32
  | FullIntraRequest u32 u32
  | ReceiverEstimatedMaximumBitrate gofloat
  | ReceiverReport u32 "reception_report list"
  | TransportLayerNack u32 u32 "nack_pair list"
  | TransportLayerCC u32 u32
  | SenderReport sender_report
  | SourceDescription "(u32 \<times> string) list"
  | OtherRTCP

text \<open>The parameters of pion/webrtc that a track is negotiated with.\<close>

record rtcp_feedback =
  fbType :: string
  fbParameter :: string

record codec_capability =
  MimeType :: string
  CodecClockRate :: u32
  CodecChannels :: u16
  SDPFmtpLine :: string
  RTCPFeedback :: "rtcp_feedback list"

record codec_parameters =
  CodecCapability :: codec_capability
  CodecPayloadType :: u8

record header_extension =
  extURI :: string
  extID :: int

record rtp_parameters =
  HeaderExtensions :: "header_extension list"
  Codecs :: "codec_parameters list"

datatype codec_type = CodecUnknown | CodecAudio | CodecVideo

end
