(* ===== verification/RtpStats.thy ===== *)
theory RtpStats
  imports Rtp Interfaces "HOL-Library.AList"
begin

text \<open>
  \<^verbatim>\<open>pkg/buffer/rtpstats.go\<close>: the statistics of one RTP stream. The state is the record
  \<open>rtp_stats\<close>, field for field the Go struct (its lock and logger aside); each method is a
  definition of the same name in snake case, which takes what the code asks of its
  surroundings as arguments: \<open>now\<close> for \<open>time.Now()\<close>, the size that pion computes for a
  header. An operation that indexes an array is an \<open>option\<close>, with \<open>None\<close> the panic. The map
  of snapshots is an association list, whose order no operation depends on.
\<close>

section \<open>Types\<close>

definition GapHistogramNumBins :: int where "GapHistogramNumBins = 101"
definition NumSequenceNumbers :: u32 where "NumSequenceNumbers = 65536"
definition FirstSnapshotId :: u32 where "FirstSnapshotId = 1"
definition SnInfoSize :: int where "SnInfoSize = 2048"
definition SnInfoMask :: int where "SnInfoMask = SnInfoSize - 1"

record flow_state =
  HasLoss :: bool
  LossStartInclusive :: u16
  LossEndExclusive :: u16

record interval_stats =
  ivPackets :: u32
  ivBytes :: u64
  ivHeaderBytes :: u64
  ivPacketsPadding :: u32
  ivBytesPadding :: u64
  ivHeaderBytesPadding :: u64
  ivPacketsLost :: u32
  ivFrames :: u32

record delta_info =
  diStartTime :: gotime
  diDuration :: duration
  diPackets :: u32
  diBytes :: u64
  diHeaderBytes :: u64
  diPacketsDuplicate :: u32
  diBytesDuplicate :: u64
  diHeaderBytesDuplicate :: u64
  diPacketsPadding :: u32
  diBytesPadding :: u64
  diHeaderBytesPadding :: u64
  diPacketsLost :: u32
  diPacketsMissing :: u32
  diFrames :: u32
  diRttMax :: u32
  diJitterMax :: gofloat
  diNacks :: u32
  diPlis :: u32
  diFirs :: u32

record snapshot =
  ssStartTime :: gotime
  ssExtStartSN :: u32
  ssPacketsDuplicate :: u32
  ssBytesDuplicate :: u64
  ssHeaderBytesDuplicate :: u64
  ssPacketsLostOverridden :: u32
  ssNacks :: u32
  ssPlis :: u32
  ssFirs :: u32
  ssMaxRtt :: u32
  ssMaxJitter :: gofloat
  ssMaxJitterOverridden :: gofloat

record sn_info =
  pktTime :: int
  hdrSize :: u16
  pktSize :: u16
  isPaddingOnly :: bool
  marker :: bool

record sr_data =
  srRTPTimestamp :: u32
  srNTPTimestamp :: u64
  srArrivalTime :: gotime

record sr_data_ext =
  SenderReportData :: sr_data
  SmoothedOWD :: duration

record rtp_stats_params =
  ClockRate :: u32
  IsReceiverReportDriven :: bool

record rtp_stats =
  params :: rtp_stats_params
  initialized :: bool
  resyncOnNextPacket :: bool
  startTime :: gotime
  endTime :: gotime
  extStartSN :: u32
  highestSN :: u16
  cycles :: u16
  extHighestSNOverridden :: u32
  lastRRTime :: gotime
  lastRR :: reception_report
  highestTS :: u32
  highestTime :: int
  lastTransit :: u32
  bytes :: u64
  headerBytes :: u64
  bytesDuplicate :: u64
  headerBytesDuplicate :: u64
  bytesPadding :: u64
  headerBytesPadding :: u64
  packetsDuplicate :: u32
  packetsPadding :: u32
  packetsOutOfOrder :: u32
  packetsLost :: u32
  packetsLostOverridden :: u32
  frames :: u32
  jitter :: gofloat
  maxJitter :: gofloat
  jitterOverridden :: gofloat
  maxJitterOverridden :: gofloat
  snInfos :: "sn_info list"
  snInfoWritePtr :: int
  gapHistogram :: "u32 list"
  nacks :: u32
  nackAcks :: u32
  nackMisses :: u32
  nackRepeated :: u32
  plis :: u32
  lastPli :: gotime
  layerLockPlis :: u32
  lastLayerLockPli :: gotime
  firs :: u32
  lastFir :: gotime
  keyFrames :: u32
  lastKeyFrame :: gotime
  rtt :: u32
  maxRtt :: u32
  srDataExt :: "sr_data_ext option"
  nextSnapshotId :: u32
  snapshots :: "(u32 \<times> snapshot) list"

definition sn_info_zero :: sn_info where
  "sn_info_zero = \<lparr>pktTime = 0, hdrSize = 0, pktSize = 0, isPaddingOnly = False, marker = False\<rparr>"

text \<open>A snapshot literal that names only its start.\<close>

definition snapshot_at :: "gotime \<Rightarrow> u32 \<Rightarrow> snapshot" where
  "snapshot_at t sn = \<lparr>ssStartTime = t, ssExtStartSN = sn, ssPacketsDuplicate = 0,
     ssBytesDuplicate = 0, ssHeaderBytesDuplicate = 0, ssPacketsLostOverridden = 0,
     ssNacks = 0, ssPlis = 0, ssFirs = 0, ssMaxRtt = 0, ssMaxJitter = Fin 0,
     ssMaxJitterOverridden = Fin 0\<rparr>"

definition no_flow :: flow_state where
  "no_flow = \<lparr>HasLoss = False, LossStartInclusive = 0, LossEndExclusive = 0\<rparr>"

section \<open>Life cycle\<close>

definition new_rtp_stats :: "rtp_stats_params \<Rightarrow> rtp_stats" where
  "new_rtp_stats p = \<lparr>
     params = p, initialized = False, resyncOnNextPacket = False,
     startTime = zero_time, endTime = zero_time,
     extStartSN = 0, highestSN = 0, cycles = 0,
     extHighestSNOverridden = 0, lastRRTime = zero_time, lastRR = reception_report_zero,
     highestTS = 0, highestTime = 0, lastTransit = 0,
     bytes = 0, headerBytes = 0, bytesDuplicate = 0, headerBytesDuplicate = 0,
     bytesPadding = 0, headerBytesPadding = 0, packetsDuplicate = 0, packetsPadding = 0,
     packetsOutOfOrder = 0, packetsLost = 0, packetsLostOverridden = 0, frames = 0,
     jitter = Fin 0, maxJitter = Fin 0, jitterOverridden = Fin 0, maxJitterOverridden = Fin 0,
     snInfos = replicate (nat SnInfoSize) sn_info_zero, snInfoWritePtr = 0,
     gapHistogram = replicate (nat GapHistogramNumBins) 0,
     nacks = 0, nackAcks = 0, nackMisses = 0, nackRepeated = 0,
     plis = 0, lastPli = zero_time, layerLockPlis = 0, lastLayerLockPli = zero_time,
     firs = 0, lastFir = zero_time, keyFrames = 0, lastKeyFrame = zero_time,
     rtt = 0, maxRtt = 0, srDataExt = None,
     nextSnapshotId = FirstSnapshotId, snapshots = []\<rparr>"

text \<open>
  \<open>Seed\<close> keeps the receiver's own parameters, its \<open>endTime\<close> and those of its snapshots
  that \<open>from\<close> has no counterpart for; \<open>from = nil\<close> is \<open>None\<close>.
\<close>

definition seed :: "rtp_stats option \<Rightarrow> rtp_stats \<Rightarrow> rtp_stats" where
  "seed fromOpt r = (case fromOpt of None \<Rightarrow> r | Some f \<Rightarrow>
     if \<not> initialized f then r
     else r\<lparr>
       initialized := initialized f, resyncOnNextPacket := resyncOnNextPacket f,
       startTime := startTime f,
       extStartSN := extStartSN f, highestSN := highestSN f, cycles := cycles f,
       extHighestSNOverridden := extHighestSNOverridden f,
       lastRRTime := lastRRTime f, lastRR := lastRR f,
       highestTS := highestTS f, highestTime := highestTime f, lastTransit := lastTransit f,
       bytes := bytes f, headerBytes := headerBytes f,
       bytesDuplicate := bytesDuplicate f, headerBytesDuplicate := headerBytesDuplicate f,
       bytesPadding := bytesPadding f, headerBytesPadding := headerBytesPadding f,
       packetsDuplicate := packetsDuplicate f, packetsPadding := packetsPadding f,
       packetsOutOfOrder := packetsOutOfOrder f,
       packetsLost := packetsLost f, packetsLostOverridden := packetsLostOverridden f,
       frames := frames f,
       jitter := jitter f, maxJitter := maxJitter f,
       jitterOverridden := jitterOverridden f, maxJitterOverridden := maxJitterOverridden f,
       snInfos := snInfos f, snInfoWritePtr := snInfoWritePtr f,
       gapHistogram := gapHistogram f,
       nacks := nacks f, nackAcks := nackAcks f, nackMisses := nackMisses f,
       nackRepeated := nackRepeated f,
       plis := plis f, lastPli := lastPli f,
       layerLockPlis := layerLockPlis f, lastLayerLockPli := lastLayerLockPli f,
       firs := firs f, lastFir := lastFir f,
       keyFrames := keyFrames f, lastKeyFrame := lastKeyFrame f,
       rtt := rtt f, maxRtt := maxRtt f,
       srDataExt := srDataExt f,
       nextSnapshotId := nextSnapshotId f, snapshots :=
         fold (\<lambda>(id, ss). AList.update id ss) (snapshots f) (snapshots r)\<rparr>)"

definition stop :: "gotime \<Rightarrow> rtp_stats \<Rightarrow> rtp_stats" where
  "stop now r = r\<lparr>endTime := now\<rparr>"

definition new_snapshot_id :: "gotime \<Rightarrow> rtp_stats \<Rightarrow> u32 \<times> rtp_stats" where
  "new_snapshot_id now r =
     (let id = nextSnapshotId r;
          r1 = (if initialized r
                then r\<lparr>snapshots :=
                  AList.update id (snapshot_at now (extStartSN r)) (snapshots r)\<rparr> else r)
      in (id, r1\<lparr>nextSnapshotId := nextSnapshotId r1 + 1\<rparr>))"

definition is_active :: "rtp_stats \<Rightarrow> bool" where
  "is_active r \<longleftrightarrow> initialized r \<and> is_zero_time (endTime r)"

text \<open>The guard \<open>!r.endTime.IsZero()\<close>, by which every method returns once the stream ended.\<close>

abbreviation ended :: "rtp_stats \<Rightarrow> bool" where
  "ended r \<equiv> \<not> is_zero_time (endTime r)"

section \<open>Sequence numbers and the ring of packet records\<close>

definition get_ext_highest_sn :: "rtp_stats \<Rightarrow> u32" where
  "get_ext_highest_sn r = push_bit 16 (ucast (cycles r)) OR ucast (highestSN r)"

definition get_ext_highest_sn_adjusted :: "rtp_stats \<Rightarrow> u32" where
  "get_ext_highest_sn_adjusted r =
     (if IsReceiverReportDriven (params r) \<and> \<not> is_zero_time (lastRRTime r)
      then extHighestSNOverridden r else get_ext_highest_sn r)"

definition get_packets_lost :: "rtp_stats \<Rightarrow> u32" where
  "get_packets_lost r =
     (if IsReceiverReportDriven (params r) \<and> \<not> is_zero_time (lastRRTime r)
      then packetsLostOverridden r else packetsLost r)"

definition get_sn_info_out_of_order_ptr :: "u16 \<Rightarrow> rtp_stats \<Rightarrow> int" where
  "get_sn_info_out_of_order_ptr sn r =
     (let offset = sn - highestSN r in
      if offset > 0 \<and> offset < 2 ^ 15 then - 1
      else let offset = highestSN r - sn in
        if uint offset \<ge> SnInfoSize then - 1
        else (snInfoWritePtr r - uint offset - 1) AND SnInfoMask)"

definition set_sn_info :: "u16 \<Rightarrow> u16 \<Rightarrow> u16 \<Rightarrow> u16 \<Rightarrow> bool \<Rightarrow> rtp_stats \<Rightarrow> rtp_stats option" where
  "set_sn_info sn pkt hdr payload mark r =
     (let ooo = sn - highestSN r > 2 ^ 15;
          writePtr = (if \<not> ooo then snInfoWritePtr r else get_sn_info_out_of_order_ptr sn r);
          r1 = (if \<not> ooo then r\<lparr>snInfoWritePtr := (writePtr + 1) AND SnInfoMask\<rparr> else r)
      in if ooo \<and> writePtr < 0 then Some r1
         else do {
           info \<leftarrow> go_index (snInfos r1) writePtr;
           infos \<leftarrow> go_update (snInfos r1) writePtr
             (info\<lparr>pktSize := pkt, hdrSize := hdr, isPaddingOnly := (payload = 0), marker := mark\<rparr>);
           Some (r1\<lparr>snInfos := infos\<rparr>) })"

text \<open>The loop header \<open>for sn := a; sn != b; sn++\<close> on \<open>uint16\<close>, as the list of its values.\<close>

function sn_range :: "u16 \<Rightarrow> u16 \<Rightarrow> u16 list" where
  "sn_range a b = (if a = b then [] else a # sn_range (a + 1) b)"
  by auto

termination
proof (relation "measure (\<lambda>(a, b). unat (b - a))")
  fix a b :: u16
  assume "a \<noteq> b"
  then have "b - a \<noteq> 0" by simp
  then have "unat (b - a - 1) < unat (b - a)"
    using unat_minus_one [of "b - a"] unat_gt_0 [of "b - a"] by simp
  then show "((a + 1, b), a, b) \<in> measure (\<lambda>(a, b). unat (b - a))"
    by (simp add: diff_diff_eq)
qed simp

declare sn_range.simps [simp del]

definition clear_sn_infos :: "u16 \<Rightarrow> u16 \<Rightarrow> rtp_stats \<Rightarrow> rtp_stats option" where
  "clear_sn_infos startInclusive endExclusive =
     run_panic (\<lambda>sn r. do {
         info \<leftarrow> go_index (snInfos r) (snInfoWritePtr r);
         infos \<leftarrow> go_update (snInfos r) (snInfoWritePtr r)
           (info\<lparr>pktSize := 0, hdrSize := 0, isPaddingOnly := False, marker := False\<rparr>);
         Some (r\<lparr>snInfos := infos, snInfoWritePtr := (snInfoWritePtr r + 1) AND SnInfoMask\<rparr>) })
       (sn_range startInclusive endExclusive)"

definition is_sn_info_lost :: "u16 \<Rightarrow> rtp_stats \<Rightarrow> bool option" where
  "is_sn_info_lost sn r =
     (let readPtr = get_sn_info_out_of_order_ptr sn r in
      if readPtr < 0 then Some False
      else do { info \<leftarrow> go_index (snInfos r) readPtr; Some (pktSize info = 0) })"

section \<open>Update\<close>

text \<open>The first packet initialises the stream and the snapshots handed out before it.\<close>

definition update_first :: "gotime \<Rightarrow> rtp_header \<Rightarrow> int \<Rightarrow> rtp_stats \<Rightarrow> rtp_stats \<times> bool" where
  "update_first now rtph packetTime r =
     (if initialized r then (r, False)
      else (r\<lparr>initialized := True, startTime := now,
         highestSN := SequenceNumber rtph - 1, highestTS := Timestamp rtph,
         highestTime := packetTime, extStartSN := ucast (SequenceNumber rtph), cycles := 0,
         snapshots := fold (\<lambda>i. AList.update (of_nat i) (snapshot_at now (ucast (SequenceNumber rtph))))
           [unat FirstSnapshotId..<unat (nextSnapshotId r)] (snapshots r)\<rparr>, True))"

definition update_resync :: "rtp_header \<Rightarrow> int \<Rightarrow> rtp_stats \<Rightarrow> rtp_stats" where
  "update_resync rtph packetTime r =
     (if resyncOnNextPacket r
      then r\<lparr>resyncOnNextPacket := False, highestSN := SequenceNumber rtph - 1,
         highestTS := Timestamp rtph, highestTime := packetTime\<rparr>
      else r)"

text \<open>The loop \<open>for _, s := range r.snapshots\<close> that updates each snapshot in place.\<close>

definition for_snapshots :: "(snapshot \<Rightarrow> snapshot) \<Rightarrow> rtp_stats \<Rightarrow> rtp_stats" where
  "for_snapshots f r = r\<lparr>snapshots := map (\<lambda>(i, s). (i, f s)) (snapshots r)\<rparr>"

definition maybe_adjust_start_sn ::
  "rtp_header \<Rightarrow> u64 \<Rightarrow> u64 \<Rightarrow> int \<Rightarrow> rtp_stats \<Rightarrow> (bool \<times> rtp_stats) option"
where
  "maybe_adjust_start_sn rtph pkt hdr payloadSize r =
     (if get_ext_highest_sn r - extStartSN r + 1 \<ge> NumSequenceNumbers div 2 then Some (False, r)
      else if SequenceNumber rtph - ucast (extStartSN r) < 2 ^ 15 then Some (False, r)
      else do {
        let beforeAdjust = extStartSN r;
        let r1 = r\<lparr>packetsLost := packetsLost r
            + (ucast (ucast (extStartSN r) - SequenceNumber rtph) - 1),
          extStartSN := ucast (SequenceNumber rtph)\<rparr>;
        r2 \<leftarrow> set_sn_info (SequenceNumber rtph) (ucast pkt) (ucast hdr)
          (word_of_int payloadSize) (Marker rtph) r1;
        Some (True, for_snapshots (\<lambda>s.
          if ssExtStartSN s = beforeAdjust then s\<lparr>ssExtStartSN := extStartSN r2\<rparr> else s) r2) })"

definition update_gap_histogram :: "int \<Rightarrow> rtp_stats \<Rightarrow> rtp_stats option" where
  "update_gap_histogram gap r =
     (if gap < 2 then Some r
      else let missing = gap - 1;
             i = (if missing > int (length (gapHistogram r)) then int (length (gapHistogram r)) - 1
               else missing - 1)
        in do {
          n \<leftarrow> go_index (gapHistogram r) i;
          h \<leftarrow> go_update (gapHistogram r) i (n + 1);
          Some (r\<lparr>gapHistogram := h\<rparr>) })"

text \<open>
  \<open>int32(transit - r.lastTransit)\<close> is a word read with \<open>sint\<close>, and \<open>d = -d\<close> its negation,
  which leaves the least \<open>int32\<close> negative. The conversion to \<open>uint32\<close> of a product of
  \<open>int64\<close>s keeps its low 32 bits, whatever wraps above them.
\<close>

definition update_jitter :: "rtp_header \<Rightarrow> int \<Rightarrow> rtp_stats \<Rightarrow> rtp_stats" where
  "update_jitter rtph packetTime r =
     (let packetTimeRTP =
            word_of_int (go_div packetTime 1000000 * uint (ClockRate (params r) div 1000)) :: u32;
          transit = packetTimeRTP - Timestamp rtph;
          r1 = (if lastTransit r \<noteq> 0 then
             let d = transit - lastTransit r;
                 d = (if sint d < 0 then - d else d);
                 j = f_add F64 (jitter r)
                   (f_div F64 (f_sub F64 (f_of_int F64 (sint d)) (jitter r)) (f_of_int F64 16));
                 r2 = r\<lparr>jitter := j\<rparr>;
                 r3 = (if f_less (maxJitter r2) j then r2\<lparr>maxJitter := j\<rparr> else r2)
             in (if list_ex (\<lambda>(_, s). f_less (ssMaxJitter s) j) (snapshots r3)
                 then r3\<lparr>maxJitter := j\<rparr> else r3)
           else r)
      in r1\<lparr>lastTransit := transit\<rparr>)"

text \<open>
  The two branches of the switch: a packet that is a duplicate or behind the highest one (the
  result says whether it is a duplicate), and one in order or ahead.
\<close>

definition update_behind ::
  "rtp_header \<Rightarrow> u64 \<Rightarrow> u64 \<Rightarrow> int \<Rightarrow> rtp_stats \<Rightarrow> (bool \<times> rtp_stats) option"
where
  "update_behind rtph pkt hdr payloadSize r = do {
     let r1 = (if SequenceNumber rtph \<noteq> highestSN r
       then r\<lparr>packetsOutOfOrder := packetsOutOfOrder r + 1\<rparr> else r);
     (adjusted, r2) \<leftarrow> maybe_adjust_start_sn rtph pkt hdr payloadSize r1;
     if adjusted then Some (False, r2)
     else do {
       lost \<leftarrow> is_sn_info_lost (SequenceNumber rtph) r2;
       if \<not> lost then
         Some (True, r2\<lparr>bytesDuplicate := bytesDuplicate r2 + pkt,
           headerBytesDuplicate := headerBytesDuplicate r2 + hdr,
           packetsDuplicate := packetsDuplicate r2 + 1\<rparr>)
       else do {
         r3 \<leftarrow> set_sn_info (SequenceNumber rtph) (ucast pkt) (ucast hdr)
           (word_of_int payloadSize) (Marker rtph) (r2\<lparr>packetsLost := packetsLost r2 - 1\<rparr>);
         Some (False, r3) } } }"

definition update_ahead ::
  "rtp_header \<Rightarrow> u64 \<Rightarrow> u64 \<Rightarrow> int \<Rightarrow> int \<Rightarrow> bool \<Rightarrow> rtp_stats \<Rightarrow> (flow_state \<times> rtp_stats) option"
where
  "update_ahead rtph pkt hdr payloadSize packetTime first r = do {
     let sn = SequenceNumber rtph;
     let diff = sn - highestSN r;
     let flow = (if diff > 1
       then \<lparr>HasLoss = True, LossStartInclusive = highestSN r + 1, LossEndExclusive = sn\<rparr>
       else no_flow);
     r1 \<leftarrow> update_gap_histogram (uint diff) r;
     r2 \<leftarrow> clear_sn_infos (highestSN r1 + 1) sn r1;
     r3 \<leftarrow> set_sn_info sn (ucast pkt) (ucast hdr) (word_of_int payloadSize) (Marker rtph)
       (r2\<lparr>packetsLost := packetsLost r2 + ucast (diff - 1)\<rparr>);
     let r4 = (if sn < highestSN r3 \<and> \<not> first then r3\<lparr>cycles := cycles r3 + 1\<rparr> else r3);
     Some (flow, r4\<lparr>highestSN := sn, highestTS := Timestamp rtph, highestTime := packetTime\<rparr>) }"

definition update_totals :: "rtp_header \<Rightarrow> u64 \<Rightarrow> u64 \<Rightarrow> int \<Rightarrow> int \<Rightarrow> rtp_stats \<Rightarrow> rtp_stats" where
  "update_totals rtph pkt hdr payloadSize packetTime r =
     (if payloadSize = 0 then
        r\<lparr>packetsPadding := packetsPadding r + 1, bytesPadding := bytesPadding r + pkt,
          headerBytesPadding := headerBytesPadding r + hdr\<rparr>
      else
        let r1 = r\<lparr>bytes := bytes r + pkt, headerBytes := headerBytes r + hdr\<rparr>;
            r2 = (if Marker rtph then r1\<lparr>frames := frames r1 + 1\<rparr> else r1)
        in update_jitter rtph packetTime r2)"

definition rtp_update ::
  "(rtp_header \<Rightarrow> int) \<Rightarrow> gotime \<Rightarrow> rtp_header \<Rightarrow> int \<Rightarrow> int \<Rightarrow> int \<Rightarrow> rtp_stats
   \<Rightarrow> (flow_state \<times> rtp_stats) option"
where
  "rtp_update marshal_size now rtph payloadSize paddingSize packetTime r =
     (if ended r then Some (no_flow, r)
      else do {
        let (r1, first) = update_first now rtph packetTime r;
        let r2 = update_resync rtph packetTime r1;
        let hdr = word_of_int (marshal_size rtph);
        let pkt = hdr + word_of_int (payloadSize + paddingSize);
        let diff = SequenceNumber rtph - highestSN r2;
        (flow, duplicate, r3) \<leftarrow>
          (if diff = 0 \<or> diff > 2 ^ 15
           then do { (dup, r3) \<leftarrow> update_behind rtph pkt hdr payloadSize r2;
                     Some (no_flow, dup, r3) }
           else do { (flow, r3) \<leftarrow> update_ahead rtph pkt hdr payloadSize packetTime first r2;
                     Some (flow, False, r3) });
        Some (flow, if duplicate then r3 else update_totals rtph pkt hdr payloadSize packetTime r3) })"

definition resync_on_next_packet :: "rtp_stats \<Rightarrow> rtp_stats" where
  "resync_on_next_packet r = r\<lparr>resyncOnNextPacket := True\<rparr>"

definition get_total_packets_primary :: "rtp_stats \<Rightarrow> u32" where
  "get_total_packets_primary r =
     (let packetsExpected = get_ext_highest_sn r - extStartSN r + 1 in
      if packetsLost r > packetsExpected then 0
      else let packetsSeen = packetsExpected - packetsLost r in
        if packetsPadding r > packetsSeen then 0 else packetsSeen - packetsPadding r)"

section \<open>Feedback counters\<close>

text \<open>
  \<open>get_rtt\<close> stands for \<open>mediatransportutil.GetRttMsFromReceiverReportOnly\<close>: its round trip
  time and whether it returned without an error.
\<close>

definition update_from_receiver_report ::
  "(reception_report \<Rightarrow> u32 \<times> bool) \<Rightarrow> gotime \<Rightarrow> reception_report \<Rightarrow> rtp_stats
   \<Rightarrow> (u32 \<times> bool) \<times> rtp_stats"
where
  "update_from_receiver_report get_rtt now rr r =
     (if ended r \<or> \<not> IsReceiverReportDriven (params r) then ((0, False), r)
      else
        let (rtt', ok) = get_rtt rr;
            isRttChanged = (ok \<and> rtt' \<noteq> rtt r);
            r' = (if is_zero_time (lastRRTime r) \<or>
                extHighestSNOverridden r \<le> rrLastSequenceNumber rr
              then
                let r1 = r\<lparr>extHighestSNOverridden := rrLastSequenceNumber rr,
                      packetsLostOverridden := rrTotalLost rr\<rparr>;
                    r2 = (if isRttChanged
                      then r1\<lparr>rtt := rtt', maxRtt := (if rtt' > maxRtt r1 then rtt' else maxRtt r1)\<rparr>
                      else r1);
                    j = f_of_int F64 (uint (rrJitter rr));
                    r3 = r2\<lparr>jitterOverridden := j,
                      maxJitterOverridden :=
                        (if f_less (maxJitterOverridden r2) j then j else maxJitterOverridden r2)\<rparr>;
                    r4 = for_snapshots (\<lambda>s.
                      let s1 = (if isRttChanged \<and> rtt' > ssMaxRtt s then s\<lparr>ssMaxRtt := rtt'\<rparr> else s)
                      in if f_less (ssMaxJitterOverridden s1) j
                         then s1\<lparr>ssMaxJitterOverridden := j\<rparr> else s1) r3
                in r4\<lparr>lastRRTime := now, lastRR := rr\<rparr>
              else r)
        in ((rtt', isRttChanged), r'))"

definition update_nack :: "u32 \<Rightarrow> rtp_stats \<Rightarrow> rtp_stats" where
  "update_nack n r = (if ended r then r else r\<lparr>nacks := nacks r + n\<rparr>)"

definition update_nack_processed :: "u32 \<Rightarrow> u32 \<Rightarrow> u32 \<Rightarrow> rtp_stats \<Rightarrow> rtp_stats" where
  "update_nack_processed acks misses repeated r =
     (if ended r then r
      else r\<lparr>nackAcks := nackAcks r + acks, nackMisses := nackMisses r + misses,
        nackRepeated := nackRepeated r + repeated\<rparr>)"

definition update_pli :: "u32 \<Rightarrow> rtp_stats \<Rightarrow> rtp_stats" where
  "update_pli n r = (if ended r then r else r\<lparr>plis := plis r + n\<rparr>)"

definition update_pli_time :: "gotime \<Rightarrow> rtp_stats \<Rightarrow> rtp_stats" where
  "update_pli_time now r = (if ended r then r else r\<lparr>lastPli := now\<rparr>)"

definition update_pli_and_time :: "gotime \<Rightarrow> u32 \<Rightarrow> rtp_stats \<Rightarrow> rtp_stats" where
  "update_pli_and_time now n r =
     (if ended r then r else r\<lparr>plis := plis r + n, lastPli := now\<rparr>)"

definition time_since_last_pli :: "gotime \<Rightarrow> rtp_stats \<Rightarrow> int" where
  "time_since_last_pli now r = wrap64 (unix_nano now - unix_nano (lastPli r))"

definition update_layer_lock_pli_and_time :: "gotime \<Rightarrow> u32 \<Rightarrow> rtp_stats \<Rightarrow> rtp_stats" where
  "update_layer_lock_pli_and_time now n r =
     (if ended r then r
      else r\<lparr>layerLockPlis := layerLockPlis r + n, lastLayerLockPli := now\<rparr>)"

definition update_fir :: "u32 \<Rightarrow> rtp_stats \<Rightarrow> rtp_stats" where
  "update_fir n r = (if ended r then r else r\<lparr>firs := firs r + n\<rparr>)"

definition update_fir_time :: "gotime \<Rightarrow> rtp_stats \<Rightarrow> rtp_stats" where
  "update_fir_time now r = (if ended r then r else r\<lparr>lastFir := now\<rparr>)"

definition update_key_frame :: "gotime \<Rightarrow> u32 \<Rightarrow> rtp_stats \<Rightarrow> rtp_stats" where
  "update_key_frame now n r =
     (if ended r then r else r\<lparr>keyFrames := keyFrames r + n, lastKeyFrame := now\<rparr>)"

definition update_rtt :: "u32 \<Rightarrow> rtp_stats \<Rightarrow> rtp_stats" where
  "update_rtt v r =
     (if ended r then r
      else for_snapshots (\<lambda>s. if v > ssMaxRtt s then s\<lparr>ssMaxRtt := v\<rparr> else s)
        (r\<lparr>rtt := v, maxRtt := (if v > maxRtt r then v else maxRtt r)\<rparr>))"

end
