(* ===== verification/StatsRing.thy ===== *)
theory StatsRing
  imports RtpStats
begin

text \<open>
  Facts on the operations of \<open>RtpStats\<close> that its properties share: the ring of packet
  records seen as the window of \<open>Interfaces\<close>, the representation invariant, and the
  arithmetic of extended sequence numbers.
\<close>

section \<open>The ring of packet records\<close>

definition ring_of :: "rtp_stats \<Rightarrow> sn_info list \<times> int" where
  "ring_of r = (snInfos r, snInfoWritePtr r)"

definition set_ring :: "sn_info list \<times> int \<Rightarrow> rtp_stats \<Rightarrow> rtp_stats" where
  "set_ring p r = r\<lparr>snInfos := fst p, snInfoWritePtr := snd p\<rparr>"

text \<open>
  The representation invariant: the two arrays have their declared size and the write
  position is a slot.
\<close>

definition stats_inv :: "rtp_stats \<Rightarrow> bool" where
  "stats_inv r \<longleftrightarrow> ring_ok 2048 (ring_of r) \<and> length (gapHistogram r) = 101"

abbreviation rget :: "rtp_stats \<Rightarrow> nat \<Rightarrow> sn_info" where
  "rget r k \<equiv> ring_get 2048 k (ring_of r)"

definition written :: "u16 \<Rightarrow> u16 \<Rightarrow> u16 \<Rightarrow> bool \<Rightarrow> sn_info \<Rightarrow> sn_info" where
  "written pkt hdr payload mark i =
     i\<lparr>pktSize := pkt, hdrSize := hdr, isPaddingOnly := (payload = 0), marker := mark\<rparr>"

lemma pktSize_written [simp]: "pktSize (written pkt hdr payload mark i) = pkt"
  by (simp add: written_def)

lemma set_ring_id [simp]: "set_ring (ring_of r) r = r"
  by (simp add: set_ring_def ring_of_def)

lemma ring_of_set_ring [simp]: "ring_of (set_ring p r) = p"
  by (simp add: set_ring_def ring_of_def)

lemma set_ring_simps [simp]:
  "initialized (set_ring p r) = initialized r"
  "endTime (set_ring p r) = endTime r"
  "resyncOnNextPacket (set_ring p r) = resyncOnNextPacket r"
  "highestSN (set_ring p r) = highestSN r"
  "cycles (set_ring p r) = cycles r"
  "extStartSN (set_ring p r) = extStartSN r"
  "packetsLost (set_ring p r) = packetsLost r"
  "packetsDuplicate (set_ring p r) = packetsDuplicate r"
  "packetsOutOfOrder (set_ring p r) = packetsOutOfOrder r"
  "gapHistogram (set_ring p r) = gapHistogram r"
  "snapshots (set_ring p r) = snapshots r"
  "params (set_ring p r) = params r"
  "jitter (set_ring p r) = jitter r"
  "maxJitter (set_ring p r) = maxJitter r"
  by (simp_all add: set_ring_def)

lemma stats_inv_set_ring:
  "stats_inv r \<Longrightarrow> ring_ok 2048 p \<Longrightarrow> stats_inv (set_ring p r)"
  by (simp add: stats_inv_def)

lemma and_SnInfoMask [ring_simps]: "x AND SnInfoMask = x mod 2048"
  by (simp add: SnInfoMask_def SnInfoSize_def int_and_2047)

lemma ahead_iff_age:
  "(sn - head > 0 \<and> sn - head < 2 ^ 15) \<longleftrightarrow> 2 ^ 15 < age head sn"
proof (cases "sn = head")
  case False
  then have "unat (sn - head) + age head sn = 65536"
    by (simp add: age_def unat_neg_diff16)
  moreover have "sn - head < 2 ^ 15 \<longleftrightarrow> unat (sn - head) < 2 ^ 15"
    by (simp add: word_less_nat_alt)
  moreover have "sn - head > 0" using False by (simp add: word_gt_0)
  ultimately show ?thesis using age_less [of head sn] by auto
qed simp

lemma ptr_age:
  "get_sn_info_out_of_order_ptr sn r =
     (if age (highestSN r) sn < 2048
      then back_slot 2048 (snInfoWritePtr r) (int (age (highestSN r) sn)) else - 1)"
proof -
  have "uint (highestSN r - sn) = int (age (highestSN r) sn)"
    by (simp add: age_def)
  then show ?thesis
    using ahead_iff_age [of sn "highestSN r"]
    by (simp add: get_sn_info_out_of_order_ptr_def Let_def and_SnInfoMask back_slot_def SnInfoSize_def)
qed

lemma ring_slot:
  assumes "stats_inv r"
  shows "0 \<le> back_slot 2048 (snInfoWritePtr r) k"
    and "back_slot 2048 (snInfoWritePtr r) k < int (length (snInfos r))"
    and "0 \<le> snInfoWritePtr r" and "snInfoWritePtr r < int (length (snInfos r))"
  using assms by (simp_all add: stats_inv_def ring_ok_def ring_of_def back_slot_range)

lemma back_slot_not_neg: "\<not> back_slot 2048 wp k < 0"
  by (simp add: not_less back_slot_range)

text \<open>The operations on the ring, on a state that satisfies the invariant.\<close>

lemma set_sn_info_ahead:
  assumes "stats_inv r" and "\<not> sn_behind (highestSN r) sn"
  shows "set_sn_info sn pkt hdr payload mark r =
    Some (set_ring (ring_push 2048
      (written pkt hdr payload mark (snInfos r ! nat (snInfoWritePtr r))) (ring_of r)) r)"
  using assms ring_slot(3,4) [OF assms(1)]
  by (simp add: set_sn_info_def Let_def sn_behind_def go_mem and_SnInfoMask ring_push_def
      ring_of_def set_ring_def written_def)

lemma set_sn_info_behind:
  assumes "stats_inv r" and "sn_behind (highestSN r) sn"
  shows "set_sn_info sn pkt hdr payload mark r =
    Some (if age (highestSN r) sn < 2048
      then set_ring (ring_put 2048 (age (highestSN r) sn)
        (written pkt hdr payload mark (rget r (age (highestSN r) sn))) (ring_of r)) r
      else r)"
  using assms ring_slot(1,2) [OF assms(1)]
  by (simp add: set_sn_info_def Let_def sn_behind_def go_mem ptr_age ring_put_def ring_get_def
      ring_of_def set_ring_def written_def back_slot_not_neg)

lemma is_sn_info_lost_age:
  assumes "stats_inv r"
  shows "is_sn_info_lost sn r =
    Some (age (highestSN r) sn < 2048 \<and> pktSize (rget r (age (highestSN r) sn)) = 0)"
  using ring_slot(1,2) [OF assms]
  by (simp add: is_sn_info_lost_def Let_def ptr_age go_mem ring_get_def ring_of_def back_slot_not_neg)

lemma length_sn_range: "length (sn_range a b) = unat (b - a)"
proof (induction a b rule: sn_range.induct)
  case (1 a b)
  show ?case
  proof (cases "a = b")
    case False
    then have "b - a \<noteq> 0" by simp
    then have "unat (b - a) = Suc (unat (b - a - 1))"
      using unat_minus_one [of "b - a"] unat_gt_0 [of "b - a"] by simp
    with 1 False show ?thesis by (subst sn_range.simps) (simp add: diff_diff_eq)
  qed (simp add: sn_range.simps)
qed

text \<open>Clearing a range of numbers pushes that many lost entries.\<close>

definition cleared :: "sn_info \<Rightarrow> sn_info" where
  "cleared i = i\<lparr>pktSize := 0, hdrSize := 0, isPaddingOnly := False, marker := False\<rparr>"

lemma pktSize_cleared [simp]: "pktSize (cleared i) = 0"
  by (simp add: cleared_def)

lemma clear_steps:
  assumes "stats_inv r"
  shows "\<exists>es. run_panic (\<lambda>sn r. do {
         info \<leftarrow> go_index (snInfos r) (snInfoWritePtr r);
         infos \<leftarrow> go_update (snInfos r) (snInfoWritePtr r)
           (info\<lparr>pktSize := 0, hdrSize := 0, isPaddingOnly := False, marker := False\<rparr>);
         Some (r\<lparr>snInfos := infos, snInfoWritePtr := (snInfoWritePtr r + 1) AND SnInfoMask\<rparr>) })
       sns r = Some (set_ring (fold (ring_push 2048) es (ring_of r)) r) \<and>
     length es = length sns \<and> (\<forall>e \<in> set es. pktSize e = 0)"
  using assms
proof (induction sns arbitrary: r)
  case (Cons sn sns)
  let ?e = "cleared (snInfos r ! nat (snInfoWritePtr r))"
  let ?r = "set_ring (ring_push 2048 ?e (ring_of r)) r"
  have inv: "stats_inv ?r"
    using Cons.prems by (intro stats_inv_set_ring) (simp_all add: stats_inv_def ring.ok_push)
  have ptr: "0 \<le> snInfoWritePtr r" "snInfoWritePtr r < int (length (snInfos r))"
    using ring_slot [OF Cons.prems] by simp_all
  have r: "r\<lparr>snInfos := (snInfos r)[nat (snInfoWritePtr r) := ?e],
      snInfoWritePtr := (snInfoWritePtr r + 1) mod 2048\<rparr> = ?r"
    by (simp add: set_ring_def ring_push_def ring_of_def)
  obtain es where es: "length es = length sns" "\<forall>e \<in> set es. pktSize e = 0" and
    run: "run_panic (\<lambda>sn r. do {
         info \<leftarrow> go_index (snInfos r) (snInfoWritePtr r);
         infos \<leftarrow> go_update (snInfos r) (snInfoWritePtr r)
           (info\<lparr>pktSize := 0, hdrSize := 0, isPaddingOnly := False, marker := False\<rparr>);
         Some (r\<lparr>snInfos := infos, snInfoWritePtr := (snInfoWritePtr r + 1) AND SnInfoMask\<rparr>) })
       sns ?r = Some (set_ring (fold (ring_push 2048) es (ring_of ?r)) ?r)"
    using Cons.IH [OF inv] by blast
  have "set_ring p ?r = set_ring p r" for p by (simp add: set_ring_def)
  then show ?case
    using run es ptr
    by (intro exI [of _ "?e # es"]) (simp add: go_mem and_SnInfoMask flip: cleared_def add: r)
qed (auto intro: exI [of _ "[]"])

lemma clear_sn_infos_pushes:
  assumes "stats_inv r"
  shows "\<exists>es. clear_sn_infos a b r = Some (set_ring (fold (ring_push 2048) es (ring_of r)) r) \<and>
     length es = unat (b - a) \<and> (\<forall>e \<in> set es. pktSize e = 0)"
  using clear_steps [OF assms, of "sn_range a b"]
  by (simp only: clear_sn_infos_def length_sn_range)

section \<open>Extended sequence numbers\<close>

lemma ucast_16_32: "(ucast (x :: u16) :: u32) = of_nat (unat x)"
  by simp

lemma ext_sum: "get_ext_highest_sn r = of_nat (65536 * unat (cycles r) + unat (highestSN r))"
proof -
  have "push_bit 16 (ucast (cycles r) :: u32) AND ucast (highestSN r) = 0"
    by (rule bit_word_eqI) (auto simp: word_bits dest: bit_imp_le_length)
  then have "get_ext_highest_sn r = push_bit 16 (ucast (cycles r)) + ucast (highestSN r)"
    by (simp add: get_ext_highest_sn_def disjunctive_add_eq_or)
  then show ?thesis
    by (simp add: push_bit_eq_mult mult.commute)
qed

lemma ucast_ext [simp]: "ucast (get_ext_highest_sn r) = highestSN r"
proof -
  have "(ucast (push_bit 16 (ucast (cycles r) :: u32) OR ucast (highestSN r)) :: u16) = highestSN r"
    by (rule bit_word_eqI) (auto simp: word_bits)
  then show ?thesis by (simp add: get_ext_highest_sn_def)
qed

text \<open>Counting a cycle when the number drops keeps the extended number advancing by the gap.\<close>

lemma ext_advance:
  fixes c h sn :: u16
  shows "(of_nat (65536 * unat (if sn < h then c + 1 else c) + unat sn) :: u32) =
    of_nat (65536 * unat c + unat h) + ucast (sn - h)"
proof (cases "sn < h")
  case True
  then have d: "unat h + unat (sn - h) = 65536 + unat sn"
    using u16_bound [of h] by (simp add: unat_minus16 word_less_nat_alt)
  have c: "(of_nat (65536 * unat (c + 1)) :: u32) = of_nat (65536 * unat c + 65536)"
  proof (cases "c + 1 = 0")
    case True
    then have "c = - 1" by (simp only: eq_neg_iff_add_eq_0)
    then have "unat c = 65535"
      by (simp only: unsigned_minus_1_eq_mask) (simp add: mask_eq_exp_minus_1)
    then show ?thesis using True by simp
  next
    case False
    then have "unat (c + 1) = unat c + 1"
      using unatSuc [of c] by (simp add: add.commute)
    then show ?thesis by simp
  qed
  have "(of_nat (65536 * unat (c + 1) + unat sn) :: u32) = of_nat (65536 * unat c + (65536 + unat sn))"
    using c by (simp only: of_nat_add add.assoc)
  also have "\<dots> = of_nat (65536 * unat c + unat h) + ucast (sn - h)"
    by (simp only: ucast_16_32 flip: d of_nat_add) (simp add: add.assoc)
  finally show ?thesis using True by simp
next
  case False
  then have "unat h + unat (sn - h) = unat sn"
    by (simp add: unat_minus16 word_less_nat_alt not_less)
  then show ?thesis
    using False by (simp only: ucast_16_32 add.assoc if_False flip: of_nat_add)
qed

end
