(* ===== verification/StatsSpec.thy ===== *)
theory StatsSpec
  imports StatsRing
begin

text \<open>
  The abstract receiver that \<open>RTPStats.Update\<close> implements, the refinement, and what follows
  from it: every packet is accounted for exactly once, and within the window of 2048 packets
  a packet counts as a duplicate exactly when it has been received before.
\<close>

section \<open>The abstract receiver\<close>

text \<open>
  What the statistics promise about sequence numbers, apart from every other counter: the
  highest and the first extended number, the packets counted lost and duplicate, and the size
  recorded for the packet \<open>k\<close> behind the highest (\<open>0\<close>: not received), for \<open>k < 2048\<close>.
\<close>

record rx =
  rxExt :: u32
  rxStart :: u32
  rxLost :: u32
  rxDup :: u32
  rxSize :: "nat \<Rightarrow> u16"

definition rx_shift :: "nat \<Rightarrow> u16 \<Rightarrow> (nat \<Rightarrow> u16) \<Rightarrow> nat \<Rightarrow> u16" where
  "rx_shift d v f = (\<lambda>k. if k = 0 then v else if k < d \<or> 2048 \<le> k then 0 else f (k - d))"

definition rx_mark :: "nat \<Rightarrow> u16 \<Rightarrow> (nat \<Rightarrow> u16) \<Rightarrow> nat \<Rightarrow> u16" where
  "rx_mark k v f = (\<lambda>j. if j = k \<and> k < 2048 then v else f j)"

definition rx_ahead :: "u16 \<Rightarrow> rx \<Rightarrow> bool" where
  "rx_ahead sn a \<longleftrightarrow> sn \<noteq> ucast (rxExt a) \<and> \<not> sn_behind (ucast (rxExt a)) sn"

text \<open>A packet from before the first one, while less than half a cycle has been received.\<close>

definition rx_before_start :: "u16 \<Rightarrow> rx \<Rightarrow> bool" where
  "rx_before_start sn a \<longleftrightarrow>
     rxExt a - rxStart a + 1 < 2 ^ 15 \<and> \<not> sn - ucast (rxStart a) < 2 ^ 15"

definition rx_missing :: "u16 \<Rightarrow> rx \<Rightarrow> bool" where
  "rx_missing sn a \<longleftrightarrow>
     age (ucast (rxExt a)) sn < 2048 \<and> rxSize a (age (ucast (rxExt a)) sn) = 0"

definition rx_duplicate :: "u16 \<Rightarrow> rx \<Rightarrow> bool" where
  "rx_duplicate sn a \<longleftrightarrow> \<not> rx_ahead sn a \<and> \<not> rx_before_start sn a \<and> \<not> rx_missing sn a"

definition rx_step :: "u16 \<Rightarrow> u16 \<Rightarrow> rx \<Rightarrow> rx" where
  "rx_step sn pkt a =
     (let head = ucast (rxExt a); k = age head sn in
      if rx_ahead sn a then
        a\<lparr>rxExt := rxExt a + ucast (sn - head), rxLost := rxLost a + ucast (sn - head - 1),
          rxSize := rx_shift (unat (sn - head)) pkt (rxSize a)\<rparr>
      else if rx_before_start sn a then
        a\<lparr>rxLost := rxLost a + (ucast (ucast (rxStart a) - sn) - 1), rxStart := ucast sn,
          rxSize := (if sn = head then rx_shift 1 pkt else rx_mark k pkt) (rxSize a)\<rparr>
      else if rx_missing sn a then
        a\<lparr>rxLost := rxLost a - 1,
          rxSize := (if sn = head then rx_shift 1 pkt else rx_mark k pkt) (rxSize a)\<rparr>
      else a\<lparr>rxDup := rxDup a + 1\<rparr>)"

definition sizes :: "sn_info list \<times> int \<Rightarrow> nat \<Rightarrow> u16" where
  "sizes p = (\<lambda>k. if k < 2048 then pktSize (ring_get 2048 k p) else 0)"

definition abs_rx :: "rtp_stats \<Rightarrow> rx" where
  "abs_rx r = \<lparr>rxExt = get_ext_highest_sn r, rxStart = extStartSN r, rxLost = packetsLost r,
     rxDup = packetsDuplicate r,
     rxSize = sizes (ring_of r)\<rparr>"

section \<open>The model implements it\<close>

text \<open>
  A state that receives packets: initialised, not stopped, and with no resynchronisation
  pending.
\<close>

definition receiving :: "rtp_stats \<Rightarrow> bool" where
  "receiving r \<longleftrightarrow> initialized r \<and> \<not> ended r \<and> \<not> resyncOnNextPacket r"

text \<open>
  The fields that \<open>receiving\<close>, \<open>stats_inv\<close> and \<open>abs_rx\<close> read; an update elsewhere in the
  state is invisible to them.
\<close>

definition core_eq :: "rtp_stats \<Rightarrow> rtp_stats \<Rightarrow> bool" where
  "core_eq r r' \<longleftrightarrow> receiving r = receiving r' \<and> stats_inv r = stats_inv r' \<and> abs_rx r = abs_rx r'"

lemma ext_cong:
  "cycles r = cycles r' \<Longrightarrow> highestSN r = highestSN r' \<Longrightarrow> get_ext_highest_sn r = get_ext_highest_sn r'"
  by (simp add: get_ext_highest_sn_def)

lemma ring_of_updates [simp]:
  "ring_of (r\<lparr>initialized := x0\<rparr>) = ring_of r"
  "ring_of (r\<lparr>resyncOnNextPacket := x1\<rparr>) = ring_of r"
  "ring_of (r\<lparr>endTime := x2\<rparr>) = ring_of r"
  "ring_of (r\<lparr>extStartSN := x3\<rparr>) = ring_of r"
  "ring_of (r\<lparr>highestSN := x4\<rparr>) = ring_of r"
  "ring_of (r\<lparr>cycles := x5\<rparr>) = ring_of r"
  "ring_of (r\<lparr>highestTS := x6\<rparr>) = ring_of r"
  "ring_of (r\<lparr>highestTime := x7\<rparr>) = ring_of r"
  "ring_of (r\<lparr>packetsOutOfOrder := x8\<rparr>) = ring_of r"
  "ring_of (r\<lparr>packetsDuplicate := x9\<rparr>) = ring_of r"
  "ring_of (r\<lparr>bytesDuplicate := x10\<rparr>) = ring_of r"
  "ring_of (r\<lparr>headerBytesDuplicate := x11\<rparr>) = ring_of r"
  "ring_of (r\<lparr>packetsLost := x12\<rparr>) = ring_of r"
  "ring_of (r\<lparr>gapHistogram := x13\<rparr>) = ring_of r"
  "ring_of (r\<lparr>snapshots := x14\<rparr>) = ring_of r"
  by (simp_all add: ring_of_def)

lemma ext_updates [simp]:
  "get_ext_highest_sn (set_ring p r) = get_ext_highest_sn r"
  "get_ext_highest_sn (r\<lparr>initialized := x0\<rparr>) = get_ext_highest_sn r"
  "get_ext_highest_sn (r\<lparr>resyncOnNextPacket := x1\<rparr>) = get_ext_highest_sn r"
  "get_ext_highest_sn (r\<lparr>endTime := x2\<rparr>) = get_ext_highest_sn r"
  "get_ext_highest_sn (r\<lparr>extStartSN := x3\<rparr>) = get_ext_highest_sn r"
  "get_ext_highest_sn (r\<lparr>highestTS := x4\<rparr>) = get_ext_highest_sn r"
  "get_ext_highest_sn (r\<lparr>highestTime := x5\<rparr>) = get_ext_highest_sn r"
  "get_ext_highest_sn (r\<lparr>packetsOutOfOrder := x6\<rparr>) = get_ext_highest_sn r"
  "get_ext_highest_sn (r\<lparr>packetsDuplicate := x7\<rparr>) = get_ext_highest_sn r"
  "get_ext_highest_sn (r\<lparr>bytesDuplicate := x8\<rparr>) = get_ext_highest_sn r"
  "get_ext_highest_sn (r\<lparr>headerBytesDuplicate := x9\<rparr>) = get_ext_highest_sn r"
  "get_ext_highest_sn (r\<lparr>packetsLost := x10\<rparr>) = get_ext_highest_sn r"
  "get_ext_highest_sn (r\<lparr>gapHistogram := x11\<rparr>) = get_ext_highest_sn r"
  "get_ext_highest_sn (r\<lparr>snapshots := x12\<rparr>) = get_ext_highest_sn r"
  by (simp_all add: get_ext_highest_sn_def)

lemma core_eqI:
  assumes "initialized r = initialized r'" "endTime r = endTime r'"
    "resyncOnNextPacket r = resyncOnNextPacket r'" "ring_of r = ring_of r'"
    "length (gapHistogram r) = length (gapHistogram r')" "cycles r = cycles r'"
    "highestSN r = highestSN r'" "extStartSN r = extStartSN r'" "packetsLost r = packetsLost r'"
    "packetsDuplicate r = packetsDuplicate r'"
  shows "core_eq r r'"
  using assms by (simp add: core_eq_def receiving_def stats_inv_def abs_rx_def ext_cong [of r r'])

lemma update_totals_core: "core_eq (update_totals rtph pkt hdr payloadSize packetTime r) r"
  by (rule core_eqI) (simp_all add: update_totals_def update_jitter_def Let_def ring_of_def)

lemma update_gap_histogram_Some:
  assumes "stats_inv r"
  shows "\<exists>h. update_gap_histogram gap r = Some (r\<lparr>gapHistogram := h\<rparr>) \<and> length h = 101"
proof (cases "gap < 2")
  case True
  then show ?thesis
    using assms by (auto simp: update_gap_histogram_def stats_inv_def intro!: exI [of _ "gapHistogram r"])
next
  case False
  have l: "length (gapHistogram r) = 101" using assms by (simp add: stats_inv_def)
  let ?n = "int (length (gapHistogram r))"
  let ?i = "if gap - 1 > ?n then ?n - 1 else gap - 1 - 1"
  have i: "0 \<le> ?i" "?i < ?n" using False l by auto
  then have "update_gap_histogram gap r =
      Some (r\<lparr>gapHistogram := (gapHistogram r)[nat ?i := gapHistogram r ! nat ?i + 1]\<rparr>)"
    using False unfolding update_gap_histogram_def Let_def
    by (simp only: if_False go_index_Some [OF i] go_update_Some [OF i] bind.bind_lunit)
  then show ?thesis using l by auto
qed

lemma word_gt_1_iff: "x \<noteq> 0 \<Longrightarrow> (1 :: u16) < x \<longleftrightarrow> x \<noteq> 1"
  by (simp only: word_less_nat_alt word_unat_eq_iff unsigned_1 unsigned_0) linarith

text \<open>What a mark and a shift of the window do to the recorded sizes.\<close>

lemma sizes_push:
  assumes "ring_ok 2048 p" and "\<forall>e \<in> set es. pktSize e = 0"
  shows "sizes (ring_push 2048 i (fold (ring_push 2048) es p)) =
    rx_shift (Suc (length es)) (pktSize i) (sizes p)"
proof
  fix k
  have "pktSize (es ! j) = 0" if "j < length es" for j
    using assms(2) that by simp
  then show "sizes (ring_push 2048 i (fold (ring_push 2048) es p)) k =
    rx_shift (Suc (length es)) (pktSize i) (sizes p) k"
    using assms(1)
    by (auto simp: sizes_def ring.get_push ring.ok_push_many ring.get_push_many rx_shift_def)
qed

lemma sizes_put:
  assumes "ring_ok 2048 p" and "j < 2048"
  shows "sizes (ring_put 2048 j i p) = rx_mark j (pktSize i) (sizes p)"
  using assms by (auto simp: sizes_def ring.get_put rx_mark_def)

lemma ahead_suc:
  "sn \<noteq> head \<Longrightarrow> unat (sn - head) = Suc (unat (sn - (head + 1 :: u16)))"
proof -
  assume "sn \<noteq> head"
  then have "sn - head \<noteq> 0" by simp
  then show ?thesis
    using unat_minus_one [of "sn - head"] unat_gt_0 [of "sn - head"] by (simp add: diff_diff_eq)
qed

text \<open>
  The packet ahead, for a state whose highest number may be the artificial one that the first
  packet and a resynchronisation leave.
\<close>

lemma update_ahead_rx:
  fixes r rtph
  defines "sn \<equiv> SequenceNumber rtph"
  assumes inv: "stats_inv r" and sn: "sn \<noteq> highestSN r" "\<not> sn_behind (highestSN r) sn"
  shows "\<exists>flow r'. update_ahead rtph pkt hdr payloadSize packetTime first r = Some (flow, r') \<and>
    stats_inv r' \<and> receiving r' = receiving r \<and>
    flow = (if sn = highestSN r + 1 then no_flow
      else \<lparr>HasLoss = True, LossStartInclusive = highestSN r + 1, LossEndExclusive = sn\<rparr>) \<and>
    abs_rx r' = (abs_rx r)\<lparr>
      rxExt := of_nat (65536 * unat (if sn < highestSN r \<and> \<not> first then cycles r + 1 else cycles r)
        + unat sn),
      rxLost := packetsLost r + ucast (sn - highestSN r - 1),
      rxSize := rx_shift (unat (sn - highestSN r)) (ucast pkt) (rxSize (abs_rx r))\<rparr>"
proof -
  let ?head = "highestSN r"
  obtain h where h: "update_gap_histogram (uint (sn - ?head)) r = Some (r\<lparr>gapHistogram := h\<rparr>)"
    and l: "length h = 101"
    using update_gap_histogram_Some [OF inv] by blast
  let ?r1 = "r\<lparr>gapHistogram := h\<rparr>"
  have inv1: "stats_inv ?r1" and ring1: "ring_of ?r1 = ring_of r"
    using inv l by (simp_all add: stats_inv_def ring_of_def)
  obtain es where c: "clear_sn_infos (?head + 1) sn ?r1 =
      Some (set_ring (fold (ring_push 2048) es (ring_of r)) ?r1)"
    and es: "length es = unat (sn - (?head + 1))" "\<forall>e \<in> set es. pktSize e = 0"
    using clear_sn_infos_pushes [OF inv1] ring1 by metis
  let ?p = "fold (ring_push 2048) es (ring_of r)"
  let ?r2 = "(set_ring ?p ?r1)\<lparr>packetsLost := packetsLost r + ucast (sn - ?head - 1)\<rparr>"
  have ok: "ring_ok 2048 (ring_of r)" and okp: "ring_ok 2048 ?p"
    using inv by (simp_all add: stats_inv_def ring.ok_push_many)
  have ring2: "ring_of ?r2 = ?p" by (simp add: set_ring_def ring_of_def)
  have inv2: "stats_inv ?r2"
    using okp l by (simp add: stats_inv_def ring2)
  let ?i = "written (ucast pkt) (ucast hdr) (word_of_int payloadSize) (Marker rtph)
    (snInfos ?r2 ! nat (snInfoWritePtr ?r2))"
  have s: "set_sn_info sn (ucast pkt) (ucast hdr) (word_of_int payloadSize) (Marker rtph) ?r2 =
      Some (set_ring (ring_push 2048 ?i ?p) ?r2)"
    using set_sn_info_ahead [OF inv2, of sn] sn(2) by (simp add: ring2)
  define c where "c = (if sn < ?head \<and> \<not> first then cycles r + 1 else cycles r)"
  let ?r' = "(set_ring (ring_push 2048 ?i ?p) ?r2)
    \<lparr>cycles := c, highestSN := sn, highestTS := Timestamp rtph, highestTime := packetTime\<rparr>"
  let ?flow = "if sn - ?head > 1
    then \<lparr>HasLoss = True, LossStartInclusive = ?head + 1, LossEndExclusive = sn\<rparr> else no_flow"
  have eq: "update_ahead rtph pkt hdr payloadSize packetTime first r = Some (?flow, ?r')"
    unfolding update_ahead_def Let_def sn_def [symmetric]
    by (simp add: h c s c_def)
  have inv': "stats_inv ?r'"
    using okp l by (simp add: stats_inv_def ring.ok_push)
  have rec': "receiving ?r' = receiving r"
    by (simp add: receiving_def set_ring_def)
  have flow: "?flow = (if sn = ?head + 1 then no_flow
      else \<lparr>HasLoss = True, LossStartInclusive = ?head + 1, LossEndExclusive = sn\<rparr>)"
  proof -
    have "sn - ?head \<noteq> 0" using sn(1) by simp
    then have "sn - ?head > 1 \<longleftrightarrow> sn \<noteq> ?head + 1"
      using word_gt_1_iff [of "sn - ?head"] by (simp add: diff_eq_eq add.commute)
    then show ?thesis by simp
  qed
  have sizes: "rxSize (abs_rx ?r') = rx_shift (unat (sn - ?head)) (ucast pkt) (rxSize (abs_rx r))"
    using sizes_push [OF ok es(2), of ?i] ahead_suc [OF sn(1)] es(1) by (simp add: abs_rx_def)
  have "abs_rx ?r' = (abs_rx r)\<lparr>
      rxExt := of_nat (65536 * unat c + unat sn),
      rxLost := packetsLost r + ucast (sn - highestSN r - 1),
      rxSize := rx_shift (unat (sn - highestSN r)) (ucast pkt) (rxSize (abs_rx r))\<rparr>"
    using sizes by (simp add: abs_rx_def ext_sum set_ring_def)
  then show ?thesis
    unfolding c_def [symmetric] using eq inv' rec' flow by (intro exI [of _ ?flow] exI [of _ ?r'] conjI)
qed

text \<open>The packet behind.\<close>

lemma set_sn_info_rx:
  assumes "stats_inv r"
  shows "\<exists>p. set_sn_info sn pkt hdr payload mark r = Some (set_ring p r) \<and> ring_ok 2048 p \<and>
    sizes p = (if sn_behind (highestSN r) sn then rx_mark (age (highestSN r) sn) pkt
      else rx_shift 1 pkt) (sizes (ring_of r))"
proof (cases "sn_behind (highestSN r) sn")
  case False
  let ?i = "written pkt hdr payload mark (snInfos r ! nat (snInfoWritePtr r))"
  show ?thesis
    using set_sn_info_ahead [OF assms False] assms False sizes_push [of "ring_of r" "[]" ?i]
    by (intro exI [of _ "ring_push 2048 ?i (ring_of r)"]) (simp add: stats_inv_def ring.ok_push)
next
  case True
  let ?k = "age (highestSN r) sn"
  show ?thesis
  proof (cases "?k < 2048")
    case k: True
    let ?i = "written pkt hdr payload mark (rget r ?k)"
    show ?thesis
      using set_sn_info_behind [OF assms True] True k assms
      by (intro exI [of _ "ring_put 2048 ?k ?i (ring_of r)"])
        (simp add: stats_inv_def ring.ok_put sizes_put)
  next
    case False
    then have "rx_mark ?k pkt (sizes (ring_of r)) = sizes (ring_of r)"
      by (auto simp: rx_mark_def)
    then show ?thesis
      using set_sn_info_behind [OF assms True] True False assms
      by (intro exI [of _ "ring_of r"]) (simp add: stats_inv_def)
  qed
qed

lemma for_snapshots_core: "core_eq (for_snapshots f r) r"
  by (rule core_eqI) (simp_all add: for_snapshots_def)

lemma core_eqD:
  "core_eq r r' \<Longrightarrow> stats_inv r = stats_inv r' \<and> receiving r = receiving r' \<and> abs_rx r = abs_rx r'"
  by (simp add: core_eq_def)

lemma sn_behind_head:
  "\<not> rx_ahead sn (abs_rx r) \<Longrightarrow> sn_behind (highestSN r) sn \<longleftrightarrow> sn \<noteq> highestSN r"
  by (auto simp: rx_ahead_def abs_rx_def sn_behind_def)

lemma maybe_adjust_rx:
  fixes r rtph
  defines "sn \<equiv> SequenceNumber rtph"
  assumes inv: "stats_inv r" and sn: "\<not> rx_ahead sn (abs_rx r)"
  shows "\<exists>r'. maybe_adjust_start_sn rtph pkt hdr payloadSize r =
      Some (rx_before_start sn (abs_rx r), r') \<and>
    (if rx_before_start sn (abs_rx r)
     then stats_inv r' \<and> receiving r' = receiving r \<and>
       abs_rx r' = rx_step sn (ucast pkt) (abs_rx r)
     else r' = r)"
proof (cases "rx_before_start sn (abs_rx r)")
  case False
  then show ?thesis
    by (auto simp: maybe_adjust_start_sn_def rx_before_start_def abs_rx_def sn_def
        NumSequenceNumbers_def not_less)
next
  case True
  then have c: "\<not> get_ext_highest_sn r - extStartSN r + 1 \<ge> NumSequenceNumbers div 2"
    "\<not> sn - ucast (extStartSN r) < 2 ^ 15"
    by (simp_all add: rx_before_start_def abs_rx_def NumSequenceNumbers_def not_le)
  let ?r1 = "r\<lparr>packetsLost := packetsLost r + (ucast (ucast (extStartSN r) - sn) - 1),
    extStartSN := ucast sn\<rparr>"
  have inv1: "stats_inv ?r1" using inv by (simp add: stats_inv_def)
  obtain p where s: "set_sn_info sn (ucast pkt) (ucast hdr) (word_of_int payloadSize) (Marker rtph) ?r1
      = Some (set_ring p ?r1)" and p: "ring_ok 2048 p" and
    sz: "sizes p = (if sn_behind (highestSN r) sn then rx_mark (age (highestSN r) sn) (ucast pkt)
      else rx_shift 1 (ucast pkt)) (sizes (ring_of r))"
    using set_sn_info_rx [OF inv1] by fastforce
  let ?r2 = "set_ring p ?r1"
  let ?f = "\<lambda>s. if ssExtStartSN s = extStartSN r then s\<lparr>ssExtStartSN := extStartSN ?r2\<rparr> else s"
  have eq: "maybe_adjust_start_sn rtph pkt hdr payloadSize r = Some (True, for_snapshots ?f ?r2)"
    unfolding maybe_adjust_start_sn_def Let_def sn_def [symmetric]
    using c s by simp
  note behind = sn_behind_head [OF sn]
  have inv2: "stats_inv ?r2" "receiving ?r2 = receiving r"
    using p inv1 by (auto simp: receiving_def intro: stats_inv_set_ring)
  have "abs_rx ?r2 = rx_step sn (ucast pkt) (abs_rx r)"
    using True sn sz behind
    by (simp add: rx_step_def Let_def) (simp add: abs_rx_def)
  then show ?thesis
    using eq True inv2 core_eqD [OF for_snapshots_core [of ?f ?r2]] by simp
qed

lemma update_behind_rx:
  fixes r rtph
  defines "sn \<equiv> SequenceNumber rtph"
  assumes inv: "stats_inv r" and sn: "\<not> rx_ahead sn (abs_rx r)"
  shows "\<exists>r'. update_behind rtph pkt hdr payloadSize r = Some (rx_duplicate sn (abs_rx r), r') \<and>
    stats_inv r' \<and> receiving r' = receiving r \<and> abs_rx r' = rx_step sn (ucast pkt) (abs_rx r)"
proof -
  let ?r1 = "if sn \<noteq> highestSN r then r\<lparr>packetsOutOfOrder := packetsOutOfOrder r + 1\<rparr> else r"
  have core1: "core_eq ?r1 r" by (rule core_eqI) simp_all
  note e1 = core_eqD [OF core1]
  obtain r2 where a: "maybe_adjust_start_sn rtph pkt hdr payloadSize ?r1 =
      Some (rx_before_start sn (abs_rx r), r2)" and
    r2: "if rx_before_start sn (abs_rx r)
     then stats_inv r2 \<and> receiving r2 = receiving r \<and> abs_rx r2 = rx_step sn (ucast pkt) (abs_rx r)
     else r2 = ?r1"
    using maybe_adjust_rx [of ?r1 rtph pkt hdr payloadSize] inv sn e1 unfolding sn_def by auto
  show ?thesis
  proof (cases "rx_before_start sn (abs_rx r)")
    case True
    then have "\<not> rx_duplicate sn (abs_rx r)" by (simp add: rx_duplicate_def)
    then show ?thesis
      using True a r2 by (simp add: update_behind_def Let_def flip: sn_def)
  next
    case False
    then have r2: "r2 = ?r1" using r2 by simp
    then have core2: "stats_inv r2" "receiving r2 = receiving r" "abs_rx r2 = abs_rx r"
      using e1 inv by simp_all
    have head: "highestSN r2 = highestSN r" using r2 by simp
    have ring2: "ring_of r2 = ring_of r" using r2 by simp
    have lost: "is_sn_info_lost sn r2 = Some (rx_missing sn (abs_rx r))"
      using is_sn_info_lost_age [OF core2(1), of sn]
      by (auto simp: rx_missing_def abs_rx_def sizes_def head ring2)
    show ?thesis
    proof (cases "rx_missing sn (abs_rx r)")
      case m: False
      let ?r3 = "r2\<lparr>bytesDuplicate := bytesDuplicate r2 + pkt,
        headerBytesDuplicate := headerBytesDuplicate r2 + hdr,
        packetsDuplicate := packetsDuplicate r2 + 1\<rparr>"
      have "update_behind rtph pkt hdr payloadSize r = Some (True, ?r3)"
        using a lost False m by (simp add: update_behind_def Let_def flip: sn_def)
      moreover have "stats_inv ?r3" "receiving ?r3 = receiving r"
        using core2 by (simp_all add: stats_inv_def receiving_def)
      moreover have "abs_rx ?r3 = rx_step sn (ucast pkt) (abs_rx r)"
        using sn False m core2(3)
        by (simp add: rx_step_def Let_def) (simp add: abs_rx_def)
      ultimately show ?thesis
        using sn False m by (simp add: rx_duplicate_def)
    next
      case m: True
      let ?r3 = "r2\<lparr>packetsLost := packetsLost r2 - 1\<rparr>"
      have inv3: "stats_inv ?r3" using core2 by (simp add: stats_inv_def)
      obtain p where s: "set_sn_info sn (ucast pkt) (ucast hdr) (word_of_int payloadSize)
          (Marker rtph) ?r3 = Some (set_ring p ?r3)" and p: "ring_ok 2048 p" and
        sz: "sizes p = (if sn_behind (highestSN r) sn then rx_mark (age (highestSN r) sn) (ucast pkt)
          else rx_shift 1 (ucast pkt)) (sizes (ring_of r))"
        using set_sn_info_rx [OF inv3] head ring2 by fastforce
      have "update_behind rtph pkt hdr payloadSize r = Some (False, set_ring p ?r3)"
        using a lost False m s by (simp add: update_behind_def Let_def flip: sn_def)
      moreover have "stats_inv (set_ring p ?r3)" "receiving (set_ring p ?r3) = receiving r"
        using stats_inv_set_ring [OF inv3 p] core2(2) by (simp_all add: receiving_def)
      moreover have "abs_rx (set_ring p ?r3) = rx_step sn (ucast pkt) (abs_rx r)"
        using sn False m core2(3) sz sn_behind_head [OF sn]
        by (simp add: rx_step_def Let_def) (simp add: abs_rx_def)
      ultimately show ?thesis
        using sn False m by (simp add: rx_duplicate_def)
    qed
  qed
qed

text \<open>
  A packet that arrives at a receiving stream: the update does not panic, keeps the invariant,
  and does to the state's abstraction what the abstract receiver does.
\<close>

lemma rtp_update_rx:
  fixes marshal_size rtph payloadSize paddingSize
  defines "sn \<equiv> SequenceNumber rtph"
  defines "pkt \<equiv> (word_of_int (marshal_size rtph) + word_of_int (payloadSize + paddingSize) :: u64)"
  assumes inv: "stats_inv r" and rec: "receiving r"
  shows "\<exists>flow r'. rtp_update marshal_size now rtph payloadSize paddingSize packetTime r = Some (flow, r') \<and>
    stats_inv r' \<and> receiving r' \<and> abs_rx r' = rx_step sn (ucast pkt) (abs_rx r) \<and>
    flow = (if rx_ahead sn (abs_rx r) \<and> sn \<noteq> highestSN r + 1
      then \<lparr>HasLoss = True, LossStartInclusive = highestSN r + 1, LossEndExclusive = sn\<rparr> else no_flow)"
proof -
  have st: "\<not> ended r" "update_first now rtph packetTime r = (r, False)"
    "update_resync rtph packetTime r = r"
    using rec by (simp_all add: receiving_def update_first_def update_resync_def)
  let ?hdr = "word_of_int (marshal_size rtph) :: u64"
  note tot = core_eqD [OF update_totals_core [of rtph pkt ?hdr payloadSize packetTime]]
  have ahead: "rx_ahead sn (abs_rx r) \<longleftrightarrow> \<not> (sn - highestSN r = 0 \<or> sn - highestSN r > 2 ^ 15)"
    by (auto simp: rx_ahead_def abs_rx_def sn_behind_def)
  show ?thesis
  proof (cases "rx_ahead sn (abs_rx r)")
    case False
    obtain r3 where b: "update_behind rtph pkt ?hdr payloadSize r = Some (rx_duplicate sn (abs_rx r), r3)"
      and r3: "stats_inv r3" "receiving r3 = receiving r" "abs_rx r3 = rx_step sn (ucast pkt) (abs_rx r)"
      using update_behind_rx [OF inv, of rtph] False unfolding sn_def by blast
    let ?r' = "if rx_duplicate sn (abs_rx r) then r3 else update_totals rtph pkt ?hdr payloadSize packetTime r3"
    have "rtp_update marshal_size now rtph payloadSize paddingSize packetTime r = Some (no_flow, ?r')"
      using b False ahead unfolding rtp_update_def Let_def pkt_def sn_def [symmetric]
      by (simp add: st)
    moreover have "stats_inv ?r' \<and> receiving ?r' = receiving r \<and> abs_rx ?r' = rx_step sn (ucast pkt) (abs_rx r)"
      using r3 tot [of r3] by simp
    ultimately show ?thesis using False rec by simp
  next
    case True
    then have sn: "sn \<noteq> highestSN r" "\<not> sn_behind (highestSN r) sn"
      by (simp_all add: rx_ahead_def abs_rx_def)
    obtain flow r3 where b: "update_ahead rtph pkt ?hdr payloadSize packetTime False r = Some (flow, r3)"
      and r3: "stats_inv r3" "receiving r3 = receiving r" and
      flow: "flow = (if sn = highestSN r + 1 then no_flow
        else \<lparr>HasLoss = True, LossStartInclusive = highestSN r + 1, LossEndExclusive = sn\<rparr>)" and
      a: "abs_rx r3 = (abs_rx r)\<lparr>
        rxExt := of_nat (65536 * unat (if sn < highestSN r then cycles r + 1 else cycles r) + unat sn),
        rxLost := packetsLost r + ucast (sn - highestSN r - 1),
        rxSize := rx_shift (unat (sn - highestSN r)) (ucast pkt) (rxSize (abs_rx r))\<rparr>"
      using update_ahead_rx [OF inv, of rtph pkt ?hdr payloadSize packetTime False] sn
      unfolding sn_def by auto
    let ?r' = "update_totals rtph pkt ?hdr payloadSize packetTime r3"
    have "rtp_update marshal_size now rtph payloadSize paddingSize packetTime r = Some (flow, ?r')"
      using b True ahead unfolding rtp_update_def Let_def pkt_def sn_def [symmetric]
      by (simp add: st)
    moreover have "abs_rx r3 = rx_step sn (ucast pkt) (abs_rx r)"
      unfolding a ext_advance ext_sum [symmetric] using True
      by (simp add: rx_step_def Let_def) (simp add: abs_rx_def)
    ultimately show ?thesis using True rec flow r3 tot [of r3] by simp
  qed
qed

section \<open>Accounting\<close>

text \<open>
  \<open>ucast (d - 1)\<close> against \<open>ucast d\<close>, and the distance between two 16-bit numbers against the
  difference of their extensions.
\<close>

lemma ucast_pred: "d \<noteq> 0 \<Longrightarrow> (ucast (d - 1 :: u16) :: u32) = ucast d - 1"
proof -
  assume "d \<noteq> 0"
  then have "unat d = Suc (unat (d - 1))" using unat_minus_one [of d] unat_gt_0 [of d] by simp
  then have "(of_nat (unat d) :: u32) = of_nat (Suc (unat (d - 1)))" by (rule arg_cong)
  then show ?thesis by (simp only: ucast_16_32 of_nat_Suc) simp
qed

lemma ucast_distance:
  "(ucast (a - b :: u16) :: u32) = ucast a - ucast b + (if a < b then 65536 else 0)"
proof (cases "a < b")
  case True
  then have "unat b + unat (a - b) = unat a + 65536"
    using u16_bound [of b] by (simp add: unat_minus16 word_less_nat_alt)
  then have "(of_nat (unat b + unat (a - b)) :: u32) = of_nat (unat a + 65536)" by (rule arg_cong)
  then have "(ucast b :: u32) + ucast (a - b) = ucast a + 65536" by simp
  then show ?thesis using True by (simp add: algebra_simps)
next
  case False
  then have "unat b + unat (a - b) = unat a"
    by (simp add: unat_minus16 word_less_nat_alt not_less)
  then have "(of_nat (unat b + unat (a - b)) :: u32) = of_nat (unat a)" by (rule arg_cong)
  then have "(ucast b :: u32) + ucast (a - b) = ucast a" by simp
  then show ?thesis using False by (simp add: algebra_simps)
qed

text \<open>
  The packets accounted for: those expected between the first and the highest number, less the
  lost ones, and the duplicates. The code shrinks the 16-bit start in place, so a late packet
  from before a wrap of the sequence number adds a spurious cycle.
\<close>

lemma ucast_16_32_16: "(ucast (ucast (x :: u16) :: u32) :: u16) = x"
  by (rule bit_word_eqI) (auto simp: word_bits dest: bit_imp_le_length)

definition rx_total :: "rx \<Rightarrow> u32" where
  "rx_total a = rxExt a - rxStart a + 1 - rxLost a + rxDup a"

definition rx_start_wraps :: "u16 \<Rightarrow> rx \<Rightarrow> bool" where
  "rx_start_wraps sn a \<longleftrightarrow> \<not> rx_ahead sn a \<and> rx_before_start sn a \<and> ucast (rxStart a) < sn"

lemma rx_step_total:
  assumes "rxStart a = ucast (ucast (rxStart a) :: u16)"
  shows "rx_total (rx_step sn pkt a) = rx_total a + 1 - (if rx_start_wraps sn a then 65536 else 0)"
    and "rxStart (rx_step sn pkt a) = ucast (ucast (rxStart (rx_step sn pkt a)) :: u16)"
proof -
  consider (ahead) "rx_ahead sn a" | (before) "\<not> rx_ahead sn a" "rx_before_start sn a"
    | (missing) "\<not> rx_ahead sn a" "\<not> rx_before_start sn a" "rx_missing sn a"
    | (dup) "\<not> rx_ahead sn a" "\<not> rx_before_start sn a" "\<not> rx_missing sn a" by blast
  then show "rx_total (rx_step sn pkt a) = rx_total a + 1 - (if rx_start_wraps sn a then 65536 else 0)"
  proof cases
    case ahead
    then have "sn - ucast (rxExt a) \<noteq> 0" by (simp add: rx_ahead_def)
    from ucast_pred [OF this] ahead show ?thesis
      by (simp add: rx_step_def Let_def rx_total_def rx_start_wraps_def)
  next
    case before
    let ?s = "ucast (rxStart a) :: u16"
    have "rxStart a = ucast ?s" by (rule assms)
    then show ?thesis
      using before ucast_distance [of ?s sn]
      by (simp add: rx_step_def Let_def rx_total_def rx_start_wraps_def)
  qed (simp_all add: rx_step_def Let_def rx_total_def rx_start_wraps_def)
  show "rxStart (rx_step sn pkt a) = ucast (ucast (rxStart (rx_step sn pkt a)) :: u16)"
    using assms by (simp add: rx_step_def Let_def ucast_16_32_16)
qed

section \<open>Runs\<close>

text \<open>
  One call of \<open>Update\<close>: its arguments and the time at which it runs. A run of the stream is a
  list of them.
\<close>

record arrival =
  arrNow :: gotime
  arrHeader :: rtp_header
  arrPayloadSize :: int
  arrPaddingSize :: int
  arrTime :: int

definition receive :: "(rtp_header \<Rightarrow> int) \<Rightarrow> arrival \<Rightarrow> rtp_stats \<Rightarrow> rtp_stats option" where
  "receive marshal_size p r = map_option snd
     (rtp_update marshal_size (arrNow p) (arrHeader p) (arrPayloadSize p) (arrPaddingSize p) (arrTime p) r)"

definition arr_sn :: "arrival \<Rightarrow> u16" where
  "arr_sn p = SequenceNumber (arrHeader p)"

text \<open>The size recorded for a packet: header, payload and padding, in 16 bits.\<close>

definition arr_size :: "(rtp_header \<Rightarrow> int) \<Rightarrow> arrival \<Rightarrow> u16" where
  "arr_size marshal_size p = ucast (word_of_int (marshal_size (arrHeader p))
     + word_of_int (arrPayloadSize p + arrPaddingSize p) :: u64)"

lemma receive_step:
  assumes "stats_inv r" and "receiving r"
  shows "\<exists>r'. receive ms p r = Some r' \<and> stats_inv r' \<and> receiving r' \<and>
    abs_rx r' = rx_step (arr_sn p) (arr_size ms p) (abs_rx r)"
proof -
  obtain flow r' where
    "rtp_update ms (arrNow p) (arrHeader p) (arrPayloadSize p) (arrPaddingSize p) (arrTime p) r
      = Some (flow, r')" "stats_inv r'" "receiving r'"
    "abs_rx r' = rx_step (arr_sn p) (arr_size ms p) (abs_rx r)"
    using rtp_update_rx [OF assms, where rtph = "arrHeader p"] unfolding arr_sn_def arr_size_def
    by blast
  then show ?thesis by (simp add: receive_def)
qed

text \<open>The first packet of a stream starts the abstract receiver.\<close>

definition rx_first :: "u16 \<Rightarrow> u16 \<Rightarrow> rx" where
  "rx_first sn pkt = \<lparr>rxExt = ucast sn, rxStart = ucast sn, rxLost = 0, rxDup = 0,
     rxSize = rx_shift 1 pkt (\<lambda>_. 0)\<rparr>"

lemma stats_inv_new: "stats_inv (new_rtp_stats p)"
  by (simp add: stats_inv_def ring_ok_def ring_of_def new_rtp_stats_def SnInfoSize_def
      GapHistogramNumBins_def)

lemma sizes_new: "sizes (ring_of (new_rtp_stats p)) = (\<lambda>_. 0)"
proof
  fix k
  have "pktSize (replicate (nat SnInfoSize) sn_info_zero ! j) = 0" if "j < 2048" for j
    using that by (simp add: SnInfoSize_def sn_info_zero_def)
  moreover have "nat (back_slot 2048 0 (int k)) < 2048"
    using back_slot_range [of 2048 0 "int k"] by simp
  ultimately show "sizes (ring_of (new_rtp_stats p)) k = 0"
    by (simp add: sizes_def ring_get_def ring_of_def new_rtp_stats_def)
qed

lemma receive_first:
  "\<exists>r'. receive ms p (new_rtp_stats prm) = Some r' \<and> stats_inv r' \<and> receiving r' \<and>
    abs_rx r' = rx_first (arr_sn p) (arr_size ms p)"
proof -
  let ?r = "new_rtp_stats prm" and ?h = "arrHeader p" and ?sn = "arr_sn p"
  let ?hdr = "word_of_int (ms ?h) :: u64"
  let ?pkt = "?hdr + word_of_int (arrPayloadSize p + arrPaddingSize p)"
  obtain r1 where first: "update_first (arrNow p) ?h (arrTime p) ?r = (r1, True)"
    and r1: "initialized r1" "endTime r1 = zero_time" "\<not> resyncOnNextPacket r1"
      "highestSN r1 = ?sn - 1" "extStartSN r1 = ucast ?sn" "cycles r1 = 0" "packetsLost r1 = 0"
      "packetsDuplicate r1 = 0" "ring_of r1 = ring_of ?r" "gapHistogram r1 = gapHistogram ?r"
    by (simp add: update_first_def new_rtp_stats_def ring_of_def arr_sn_def)
  have inv1: "stats_inv r1" using stats_inv_new [of prm] r1 by (simp add: stats_inv_def)
  have rec1: "receiving r1" using r1 by (simp add: receiving_def is_zero_time_def)
  have sn: "?sn \<noteq> highestSN r1" "\<not> sn_behind (highestSN r1) ?sn" "?sn - highestSN r1 = 1"
    using r1 by (simp_all add: sn_behind_def)
  obtain flow r3 where a: "update_ahead ?h ?pkt ?hdr (arrPayloadSize p) (arrTime p) True r1 = Some (flow, r3)"
    and r3: "stats_inv r3" "receiving r3 = receiving r1" and
    abs: "abs_rx r3 = (abs_rx r1)\<lparr>
        rxExt := of_nat (65536 * unat (cycles r1) + unat ?sn),
        rxLost := packetsLost r1 + ucast (?sn - highestSN r1 - 1),
        rxSize := rx_shift (unat (?sn - highestSN r1)) (ucast ?pkt) (rxSize (abs_rx r1))\<rparr>"
    using update_ahead_rx [OF inv1, of ?h ?pkt ?hdr "arrPayloadSize p" "arrTime p" True] sn
    unfolding arr_sn_def by auto
  have ended: "\<not> ended ?r" by (simp add: new_rtp_stats_def is_zero_time_def)
  have resync: "update_resync ?h (arrTime p) r1 = r1" using r1 by (simp add: update_resync_def)
  have "receive ms p ?r = Some (update_totals ?h ?pkt ?hdr (arrPayloadSize p) (arrTime p) r3)"
    using a sn unfolding receive_def rtp_update_def Let_def
    by (simp add: ended first resync arr_sn_def)
  moreover have "abs_rx r3 = rx_first ?sn (arr_size ms p)"
    unfolding abs using r1 sn
    by (simp add: rx_first_def arr_size_def abs_rx_def sizes_new)
  ultimately show ?thesis
    using r3 rec1 core_eqD [OF update_totals_core [of ?h ?pkt ?hdr "arrPayloadSize p" "arrTime p" r3]]
    by simp
qed

definition rx_run :: "(rtp_header \<Rightarrow> int) \<Rightarrow> arrival list \<Rightarrow> rx \<Rightarrow> rx" where
  "rx_run ms ps a = fold (\<lambda>p. rx_step (arr_sn p) (arr_size ms p)) ps a"

lemma run_rx:
  assumes "stats_inv r" and "receiving r"
  shows "\<exists>r'. run_panic (receive ms) ps r = Some r' \<and> stats_inv r' \<and> receiving r' \<and>
    abs_rx r' = rx_run ms ps (abs_rx r)"
  using assms
proof (induction ps arbitrary: r)
  case (Cons p ps)
  obtain r1 where "receive ms p r = Some r1" "stats_inv r1" "receiving r1"
    "abs_rx r1 = rx_step (arr_sn p) (arr_size ms p) (abs_rx r)"
    using receive_step [OF Cons.prems] by blast
  with Cons.IH [of r1] show ?case by (simp add: rx_run_def)
qed (simp add: rx_run_def)

text \<open>A whole stream, from its creation.\<close>

lemma run_new_rx:
  "\<exists>r'. run_panic (receive ms) (p # ps) (new_rtp_stats prm) = Some r' \<and> stats_inv r' \<and>
    receiving r' \<and> abs_rx r' = rx_run ms ps (rx_first (arr_sn p) (arr_size ms p))"
proof -
  obtain r1 where r1: "receive ms p (new_rtp_stats prm) = Some r1" "stats_inv r1" "receiving r1"
    "abs_rx r1 = rx_first (arr_sn p) (arr_size ms p)"
    using receive_first by blast
  from run_rx [OF r1(2,3), of ms ps] r1 show ?thesis by auto
qed

text \<open>How often a run moves the start back across a wrap of the sequence number.\<close>

fun start_wraps :: "(rtp_header \<Rightarrow> int) \<Rightarrow> arrival list \<Rightarrow> rx \<Rightarrow> nat" where
  "start_wraps ms [] a = 0"
| "start_wraps ms (p # ps) a = (if rx_start_wraps (arr_sn p) a then 1 else 0)
     + start_wraps ms ps (rx_step (arr_sn p) (arr_size ms p) a)"

lemma rx_run_total:
  "rxStart a = ucast (ucast (rxStart a) :: u16) \<Longrightarrow>
   rx_total (rx_run ms ps a) = rx_total a + of_nat (length ps) - 65536 * of_nat (start_wraps ms ps a)"
proof (induction ps arbitrary: a)
  case (Cons p ps)
  let ?a = "rx_step (arr_sn p) (arr_size ms p) a"
  have "rx_total (rx_run ms ps ?a) =
      rx_total ?a + of_nat (length ps) - 65536 * of_nat (start_wraps ms ps ?a)"
    by (rule Cons.IH) (rule rx_step_total(2) [OF Cons.prems])
  moreover have "rx_run ms (p # ps) a = rx_run ms ps ?a" by (simp add: rx_run_def)
  ultimately show ?case
    using rx_step_total(1) [OF Cons.prems, of "arr_sn p" "arr_size ms p"]
    by (simp add: distrib_left)
qed (simp add: rx_run_def)

text \<open>
  C5: whatever packets a new stream receives, in whatever order, \<open>Update\<close> does not panic and
  accounts for each of them exactly once: the packets expected from the first to the highest
  number, less those counted lost, plus the duplicates, are the packets received; only a late
  packet that moves the start back across a wrap of the 16-bit number is off, by one cycle.
\<close>

theorem packets_accounted:
  "\<exists>r. run_panic (receive ms) (p # ps) (new_rtp_stats prm) = Some r \<and>
     get_ext_highest_sn r - extStartSN r + 1 - packetsLost r + packetsDuplicate r =
       of_nat (length (p # ps))
       - 65536 * of_nat (start_wraps ms ps (rx_first (arr_sn p) (arr_size ms p)))"
proof -
  let ?a = "rx_first (arr_sn p) (arr_size ms p)"
  obtain r where r: "run_panic (receive ms) (p # ps) (new_rtp_stats prm) = Some r"
    "abs_rx r = rx_run ms ps ?a" using run_new_rx by blast
  have "rx_total (abs_rx r) = rx_total ?a + of_nat (length ps) - 65536 * of_nat (start_wraps ms ps ?a)"
    unfolding r(2) by (rule rx_run_total) (simp add: rx_first_def ucast_16_32_16)
  moreover have "rx_total ?a = 1" by (simp add: rx_total_def rx_first_def)
  ultimately have "rx_total (abs_rx r) = 1 + of_nat (length ps) - 65536 * of_nat (start_wraps ms ps ?a)"
    by simp
  then have "get_ext_highest_sn r - extStartSN r + 1 - packetsLost r + packetsDuplicate r =
       of_nat (length (p # ps)) - 65536 * of_nat (start_wraps ms ps ?a)"
    by (simp add: rx_total_def abs_rx_def)
  with r(1) show ?thesis by (intro exI conjI)
qed

section \<open>Duplicates\<close>

text \<open>
  The numbers a stream has received, unwrapped to integers: \<open>head\<close> is the highest, \<open>got\<close> the
  set of them. A 16-bit number stands for the integer nearest to \<open>head\<close>.
\<close>

definition absolute :: "int \<Rightarrow> u16 \<Rightarrow> int" where
  "absolute head sn =
     (let h = word_of_int head in
      if sn = h \<or> sn_behind h sn then head - int (age h sn) else head + uint (sn - h))"

definition tracks :: "rx \<Rightarrow> int \<Rightarrow> int set \<Rightarrow> bool" where
  "tracks a head got \<longleftrightarrow> ucast (rxExt a) = (word_of_int head :: u16) \<and> head \<in> got \<and> (\<forall>n \<in> got. n \<le> head) \<and>
     (\<forall>k < 2048. rxSize a k \<noteq> 0 \<longleftrightarrow> head - int k \<in> got)"

lemma ucast_of_nat_16: "(ucast (of_nat n :: u32) :: u16) = of_nat n"
  by (simp add: unsigned_of_nat word_of_nat_eq_iff)

lemma ucast_add_16: "(ucast (x + y :: u32) :: u16) = ucast x + ucast y"
proof -
  have "(ucast (of_nat (unat x) + of_nat (unat y) :: u32) :: u16) = of_nat (unat x) + of_nat (unat y)"
    by (simp only: ucast_of_nat_16 flip: of_nat_add)
  then show ?thesis by simp
qed

lemma rx_shift_tracks:
  assumes got: "\<forall>n \<in> got. n \<le> head"
    and f: "\<forall>k < 2048. f k \<noteq> 0 \<longleftrightarrow> head - int k \<in> got"
    and pkt: "pkt \<noteq> 0" and k: "k < 2048"
  shows "rx_shift d pkt f k \<noteq> 0 \<longleftrightarrow> head + int d - int k \<in> insert (head + int d) got"
proof -
  consider "k = 0" | "0 < k" "k < d" | "0 < k" "d \<le> k" by linarith
  then show ?thesis
  proof cases
    case 3
    then have "f (k - d) \<noteq> 0 \<longleftrightarrow> head + int d - int k \<in> got"
      using f [rule_format, of "k - d"] k by (simp add: of_nat_diff algebra_simps)
    then show ?thesis using 3 k by (simp add: rx_shift_def)
  qed (use got pkt in \<open>auto simp: rx_shift_def\<close>)
qed

lemma rx_mark_tracks:
  assumes "\<forall>k < 2048. f k \<noteq> 0 \<longleftrightarrow> head - int k \<in> got" and "pkt \<noteq> 0" and "k < 2048"
  shows "rx_mark j pkt f k \<noteq> 0 \<longleftrightarrow> head - int k \<in> insert (head - int j) got"
  using assms by (auto simp: rx_mark_def)

text \<open>The newest packet itself is never taken for one from before the start.\<close>

lemma not_before_start_head:
  assumes "rxExt a + 1 \<noteq> rxStart a"
  shows "\<not> rx_before_start (ucast (rxExt a)) a"
proof
  let ?e = "rxExt a - rxStart a"
  assume b: "rx_before_start (ucast (rxExt a)) a"
  have "?e + 1 \<noteq> 0" using assms by (simp add: algebra_simps)
  then have u: "unat (?e + 1) = Suc (unat ?e)" by (simp add: unatSuc add.commute)
  have "?e + 1 < 2 ^ 15" using b by (simp add: rx_before_start_def)
  then have "unat ?e < 2 ^ 15" using u by (simp add: word_less_nat_alt)
  moreover have "(ucast (rxExt a) :: u16) - ucast (rxStart a) = of_nat (unat ?e)"
    using ucast_add_16 [of ?e "rxStart a"] ucast_of_nat_16 [of "unat ?e"]
    by (simp add: algebra_simps)
  ultimately have "(ucast (rxExt a) :: u16) - ucast (rxStart a) < 2 ^ 15"
    by (simp add: word_less_nat_alt unsigned_ucast_eq take_bit_nat_def)
  then show False using b by (simp add: rx_before_start_def)
qed

lemma tracks_step:
  assumes "tracks a head got" and "pkt \<noteq> 0" and start: "rxExt a + 1 \<noteq> rxStart a"
  shows "tracks (rx_step sn pkt a) (max head (absolute head sn)) (insert (absolute head sn) got)"
proof -
  let ?h = "word_of_int head :: u16"
  have h: "ucast (rxExt a) = ?h" and got: "\<forall>n \<in> got. n \<le> head"
    and f: "\<forall>k < 2048. rxSize a k \<noteq> 0 \<longleftrightarrow> head - int k \<in> got"
    using assms(1) by (auto simp: tracks_def)
  show ?thesis
  proof (cases "rx_ahead sn a")
    case True
    let ?d = "unat (sn - ?h)"
    have n: "absolute head sn = head + int ?d"
      using True by (simp add: absolute_def Let_def rx_ahead_def h)
    have m: "max head (absolute head sn) = head + int ?d" by (simp add: n)
    have ext: "ucast (rxExt (rx_step sn pkt a)) = (word_of_int (head + int ?d) :: u16)"
      using True by (simp add: rx_step_def Let_def ucast_add_16 ucast_16_32_16 h)
    have size: "rxSize (rx_step sn pkt a) = rx_shift ?d pkt (rxSize a)"
      using True by (simp add: rx_step_def Let_def h)
    have le: "\<forall>n \<in> insert (head + int ?d) got. n \<le> head + int ?d"
      using got by (auto intro: order_trans simp del: of_nat_unat)
    show ?thesis
      unfolding m unfolding n tracks_def ext size
      using le rx_shift_tracks [OF got f assms(2)] by (simp del: of_nat_unat)
  next
    case False
    let ?k = "age ?h sn"
    have n: "absolute head sn = head - int ?k"
      using False by (auto simp: absolute_def Let_def rx_ahead_def h)
    have k: "0 < ?k" if "sn \<noteq> ?h" using that age_eq_0_iff [of ?h sn] by simp
    have head: "rxSize a 0 \<noteq> 0" using assms(1) f [rule_format, of 0] by (simp add: tracks_def)
    have m: "max head (absolute head sn) = head" using n by simp
    have same: "tracks (a\<lparr>rxLost := l, rxStart := s, rxSize := rx_mark ?k pkt (rxSize a)\<rparr>)
        head (insert (absolute head sn) got)" for l s
      using assms(1) rx_mark_tracks [OF f assms(2)] n by (auto simp: tracks_def)
    have in_window: "absolute head sn \<in> got" if "\<not> rx_missing sn a" "?k < 2048"
      using that f n by (simp add: rx_missing_def h)
    have window: "tracks a head (insert (absolute head sn) got)" if "\<not> rx_missing sn a"
      using assms(1) in_window [OF that] n by (cases "?k < 2048") (auto simp: tracks_def insert_absorb)
    show ?thesis
    proof (cases "sn = ?h")
      case True
      then have "\<not> rx_before_start sn a" "\<not> rx_missing sn a"
        using not_before_start_head [OF start] head by (simp_all add: h rx_missing_def)
      then show ?thesis
        using False m window by (simp add: rx_step_def Let_def tracks_def)
    next
      case sn: False
      show ?thesis
        using same [of _ "rxStart a"] same window False sn m
        by (auto simp: rx_step_def Let_def h tracks_def)
    qed
  qed
qed

lemma absolute_le: "ucast (rxExt a) = (word_of_int head :: u16) \<Longrightarrow> absolute head sn \<le> head \<longleftrightarrow> \<not> rx_ahead sn a"
proof -
  assume h: "ucast (rxExt a) = (word_of_int head :: u16)"
  show ?thesis
  proof (cases "rx_ahead sn a")
    case True
    then have "sn - word_of_int head \<noteq> 0" by (simp add: rx_ahead_def h)
    then have "uint (sn - word_of_int head) \<noteq> 0" by (simp add: unsigned_eq_0_iff)
    then have "0 < uint (sn - word_of_int head)"
      using unsigned_greater_eq [of "sn - word_of_int head", where 'a = int] by linarith
    then show ?thesis using True by (simp add: absolute_def Let_def rx_ahead_def h)
  next
    case False
    then show ?thesis by (auto simp: absolute_def Let_def rx_ahead_def h)
  qed
qed

lemma rx_step_dup:
  "rxDup (rx_step sn pkt a) = rxDup a + (if rx_duplicate sn a then 1 else 0)"
  by (simp add: rx_step_def Let_def rx_duplicate_def)

lemma rx_duplicate_iff:
  assumes "tracks a head got"
  shows "rx_duplicate sn a \<longleftrightarrow> absolute head sn \<le> head \<and> \<not> rx_before_start sn a \<and>
    (absolute head sn \<in> got \<or> head - absolute head sn \<ge> 2048)"
proof (cases "rx_ahead sn a")
  case True
  then show ?thesis
    using assms absolute_le [of a head sn] by (simp add: rx_duplicate_def tracks_def)
next
  case False
  then have n: "absolute head sn = head - int (age (word_of_int head) sn)"
    using assms by (auto simp: absolute_def Let_def rx_ahead_def tracks_def)
  have "rx_missing sn a \<longleftrightarrow> \<not> (absolute head sn \<in> got \<or> head - absolute head sn \<ge> 2048)"
    using assms n by (auto simp: rx_missing_def tracks_def not_le)
  then show ?thesis using False n by (simp add: rx_duplicate_def)
qed

text \<open>
  C15: \<open>Update\<close> recognises duplicates exactly, within its window. If the state records the
  numbers \<open>got\<close> received so far up to \<open>head\<close>, then after a packet it records that packet too,
  and it has counted it as a duplicate if and only if the packet is not ahead, does not extend
  the stream at its start, and was received before or is 2048 or more behind.
\<close>

theorem duplicates_exact:
  assumes "stats_inv r" and "receiving r" and "tracks (abs_rx r) head got"
    and "arr_size ms p \<noteq> 0" and "get_ext_highest_sn r + 1 \<noteq> extStartSN r"
  shows "\<exists>r'. receive ms p r = Some r' \<and>
    tracks (abs_rx r') (max head (absolute head (arr_sn p))) (insert (absolute head (arr_sn p)) got) \<and>
    packetsDuplicate r' = packetsDuplicate r +
      (if absolute head (arr_sn p) \<le> head \<and> \<not> rx_before_start (arr_sn p) (abs_rx r) \<and>
          (absolute head (arr_sn p) \<in> got \<or> head - absolute head (arr_sn p) \<ge> 2048)
       then 1 else 0)"
proof -
  obtain r' where r': "receive ms p r = Some r'"
    "abs_rx r' = rx_step (arr_sn p) (arr_size ms p) (abs_rx r)"
    using receive_step [OF assms(1,2)] by blast
  have "rxDup (abs_rx r') = rxDup (abs_rx r) + (if rx_duplicate (arr_sn p) (abs_rx r) then 1 else 0)"
    by (simp only: r'(2) rx_step_dup)
  then have "packetsDuplicate r' =
      packetsDuplicate r + (if rx_duplicate (arr_sn p) (abs_rx r) then 1 else 0)"
    by (simp add: abs_rx_def)
  moreover have "tracks (abs_rx r') (max head (absolute head (arr_sn p))) (insert (absolute head (arr_sn p)) got)"
    unfolding r'(2) by (rule tracks_step [OF assms(3,4)]) (use assms(5) in \<open>simp add: abs_rx_def\<close>)
  ultimately show ?thesis
    using r'(1) unfolding rx_duplicate_iff [OF assms(3), of "arr_sn p"] by blast
qed

text \<open>A sample packet: the same packet twice is one duplicate.\<close>

definition sample_arrival :: "u16 \<Rightarrow> arrival" where
  "sample_arrival sn = \<lparr>arrNow = 0, arrHeader = rtp_header_zero\<lparr>SequenceNumber := sn\<rparr>,
     arrPayloadSize = 100, arrPaddingSize = 0, arrTime = 0\<rparr>"

lemma arr_sn_sample [simp]: "arr_sn (sample_arrival sn) = sn"
  by (simp add: arr_sn_def sample_arrival_def)

lemma arr_size_sample [simp]: "arr_size (\<lambda>_. 12) (sample_arrival sn) = 112"
  by (simp add: arr_size_def sample_arrival_def)

lemma tracks_first:
  "pkt \<noteq> 0 \<Longrightarrow> tracks (rx_first sn pkt) (uint sn) {uint sn}"
  by (auto simp: tracks_def rx_first_def rx_shift_def ucast_16_32_16)

theorem duplicates_exact_witness:
  "\<exists>r r'. receive (\<lambda>_. 12) (sample_arrival 7) (new_rtp_stats \<lparr>ClockRate = 90000, IsReceiverReportDriven = False\<rparr>)
       = Some r \<and> receive (\<lambda>_. 12) (sample_arrival 7) r = Some r' \<and>
     packetsDuplicate r' = packetsDuplicate r + 1"
proof -
  obtain r where r: "receive (\<lambda>_. 12) (sample_arrival 7)
      (new_rtp_stats \<lparr>ClockRate = 90000, IsReceiverReportDriven = False\<rparr>) = Some r"
    "stats_inv r" "receiving r" "abs_rx r = rx_first 7 112"
    using receive_first [of "\<lambda>_. 12" "sample_arrival 7"] by auto
  have t: "tracks (abs_rx r) 7 {7}" using tracks_first [of 112 7] r(4) by simp
  have e: "get_ext_highest_sn r = 7" "extStartSN r = 7"
    using r(4) by (simp_all add: abs_rx_def rx_first_def)
  have b: "\<not> rx_before_start 7 (abs_rx r)"
    using r(4) by (simp add: rx_before_start_def rx_first_def)
  show ?thesis
    using duplicates_exact [OF r(2,3) t, of "\<lambda>_. 12" "sample_arrival 7"] r(1) e b
    by (auto simp: absolute_def)
qed

end
