(* ===== verification/RtpReports.thy ===== *)
theory RtpReports
  imports RtpStats
begin

text \<open>
  The second half of \<^verbatim>\<open>pkg/buffer/rtpstats.go\<close>: sender reports, the snapshots by which
  receivers of reports take differences, the reception report and the difference they get,
  and the export of the totals.
\<close>

section \<open>Sender reports\<close>

text \<open>
  \<open>ntp_time\<close> stands for \<open>NtpTime.Time\<close> and \<open>to_ntp\<close> for \<open>ToNtpTime\<close> of
  livekit/mediatransportutil. The branch of \<open>SetRtcpSenderReportData\<close> that only logs a large
  one-way delay changes no state.
\<close>

definition set_rtcp_sender_report_data ::
  "(u64 \<Rightarrow> gotime) \<Rightarrow> sr_data option \<Rightarrow> rtp_stats \<Rightarrow> rtp_stats"
where
  "set_rtcp_sender_report_data ntp_time data r = (case data of
     None \<Rightarrow> r\<lparr>srDataExt := None\<rparr>
   | Some d \<Rightarrow>
       (if (case srDataExt r of None \<Rightarrow> False
            | Some e \<Rightarrow> srNTPTimestamp (SenderReportData e) > srNTPTimestamp d) then r
        else let owd = time_sub (srArrivalTime d) (ntp_time (srNTPTimestamp d));
               smoothedOwd = (case srDataExt r of None \<Rightarrow> owd | Some e \<Rightarrow> SmoothedOWD e)
          in r\<lparr>srDataExt := Some \<lparr>SenderReportData = d,
               SmoothedOWD = go_div (wrap64 (owd + smoothedOwd)) 2\<rparr>\<rparr>))"

definition get_rtcp_sender_report ::
  "(u64 \<Rightarrow> gotime) \<Rightarrow> (gotime \<Rightarrow> u64) \<Rightarrow> gotime \<Rightarrow> u32 \<Rightarrow> sr_data_ext option \<Rightarrow> rtp_stats
   \<Rightarrow> sender_report option"
where
  "get_rtcp_sender_report ntp_time to_ntp now ssrc ext r =
     (if \<not> initialized r then None
      else case ext of None \<Rightarrow> None | Some e \<Rightarrow>
        (let d = SenderReportData e in
         if srNTPTimestamp d = 0 \<or> is_zero_time (srArrivalTime d) then None
         else
           let smoothed = ntp_time (srNTPTimestamp d) + SmoothedOWD e;
               ticks = (\<lambda>since. word_of_int
                 (go_div (wrap64 (milliseconds (time_sub now since) * uint (ClockRate (params r)))) 1000));
               nowRTP = (if smoothed > now then highestTS r + ticks (highestTime r)
                 else srRTPTimestamp d + ticks smoothed)
           in Some \<lparr>repSSRC = ssrc, repNTPTime = to_ntp now, repRTPTime = nowRTP,
                repPacketCount =
                  get_total_packets_primary r + packetsDuplicate r + packetsPadding r,
                repOctetCount = ucast (bytes r + bytesDuplicate r + bytesPadding r)\<rparr>))"

section \<open>Snapshots and reports\<close>

definition get_and_reset_snapshot ::
  "gotime \<Rightarrow> u32 \<Rightarrow> rtp_stats \<Rightarrow> (snapshot \<times> snapshot) option \<times> rtp_stats"
where
  "get_and_reset_snapshot now snapshotId r =
     (if \<not> initialized r \<or> (IsReceiverReportDriven (params r) \<and> is_zero_time (lastRRTime r))
      then (None, r)
      else let fore = (case map_of (snapshots r) snapshotId of
               None \<Rightarrow> snapshot_at (startTime r) (extStartSN r) | Some s \<Rightarrow> s);
             cur = \<lparr>ssStartTime = now, ssExtStartSN = get_ext_highest_sn_adjusted r + 1,
               ssPacketsDuplicate = packetsDuplicate r, ssBytesDuplicate = bytesDuplicate r,
               ssHeaderBytesDuplicate = headerBytesDuplicate r,
               ssPacketsLostOverridden = packetsLostOverridden r,
               ssNacks = nacks r, ssPlis = plis r, ssFirs = firs r, ssMaxRtt = 0,
               ssMaxJitter = Fin 0, ssMaxJitterOverridden = Fin 0\<rparr>
        in (Some (fore, cur), r\<lparr>snapshots := AList.update snapshotId cur (snapshots r)\<rparr>))"

definition interval_zero :: interval_stats where
  "interval_zero = \<lparr>ivPackets = 0, ivBytes = 0, ivHeaderBytes = 0, ivPacketsPadding = 0,
     ivBytesPadding = 0, ivHeaderBytesPadding = 0, ivPacketsLost = 0, ivFrames = 0\<rparr>"

text \<open>
  \<open>processSN\<close>, the closure of \<open>getIntervalStats\<close>: its state is the number of packets not
  found (only logged in the end) and the statistics.
\<close>

definition process_sn :: "rtp_stats \<Rightarrow> u16 \<Rightarrow> u32 \<times> interval_stats \<Rightarrow> (u32 \<times> interval_stats) option" where
  "process_sn r sn = (\<lambda>(notFound, iv).
     let readPtr = get_sn_info_out_of_order_ptr sn r in
     if readPtr < 0 then Some (notFound + 1, iv)
     else do {
       info \<leftarrow> go_index (snInfos r) readPtr;
       let iv1 =
         (if pktSize info = 0 then iv\<lparr>ivPacketsLost := ivPacketsLost iv + 1\<rparr>
          else if isPaddingOnly info then
            iv\<lparr>ivPacketsPadding := ivPacketsPadding iv + 1,
              ivBytesPadding := ivBytesPadding iv + ucast (pktSize info),
              ivHeaderBytesPadding := ivHeaderBytesPadding iv + ucast (hdrSize info)\<rparr>
          else
            iv\<lparr>ivPackets := ivPackets iv + 1,
              ivBytes := ivBytes iv + ucast (pktSize info),
              ivHeaderBytes := ivHeaderBytes iv + ucast (hdrSize info)\<rparr>);
       Some (notFound, if marker info then iv1\<lparr>ivFrames := ivFrames iv1 + 1\<rparr> else iv1) })"

definition get_interval_stats :: "u16 \<Rightarrow> u16 \<Rightarrow> rtp_stats \<Rightarrow> (u32 \<times> interval_stats) option" where
  "get_interval_stats startInclusive endExclusive r =
     run_panic (process_sn r)
       (if startInclusive = endExclusive
        then map of_nat [0..<unat NumSequenceNumbers] else sn_range startInclusive endExclusive)
       (0, interval_zero)"

text \<open>
  Lost packets between two snapshots of a stream driven by receiver reports; a negative
  difference, as an \<open>int32\<close>, counts as none.
\<close>

definition lost_overridden :: "snapshot \<Rightarrow> snapshot \<Rightarrow> u32" where
  "lost_overridden fore cur =
     (let lost = ssPacketsLostOverridden cur - ssPacketsLostOverridden fore in
      if sint lost < 0 then 0 else lost)"

text \<open>
  \<open>frac_impl\<close> and \<open>jit_impl\<close> are what the implementation makes of a float that does not fit
  \<open>uint8\<close> or \<open>uint32\<close>; \<open>now\<close> is the time of the snapshot and \<open>later\<close> that of
  \<open>time.Since\<close>.
\<close>

definition fraction_lost :: "(gofloat \<Rightarrow> u8) \<Rightarrow> u32 \<Rightarrow> u32 \<Rightarrow> u8" where
  "fraction_lost frac_impl lost expected =
     (let lossRate = f_div F32 (f_of_int F32 (uint lost)) (f_of_int F32 (uint expected))
      in f_to_word frac_impl (f_mul F32 lossRate (f_of_int F32 256)))"

definition delay_since :: "gotime \<Rightarrow> gotime \<Rightarrow> u32" where
  "delay_since now arrival =
     (let delayMS = word_of_int (milliseconds (time_sub now arrival)) :: u32 in
      push_bit 16 (delayMS div 1000) OR ((delayMS mod 1000) * 65536 div 1000))"

definition snapshot_rtcp_reception_report ::
  "(gofloat \<Rightarrow> u8) \<Rightarrow> (gofloat \<Rightarrow> u32) \<Rightarrow> gotime \<Rightarrow> gotime \<Rightarrow> u32 \<Rightarrow> u8 \<Rightarrow> u32 \<Rightarrow> rtp_stats
   \<Rightarrow> (reception_report option \<times> rtp_stats) option"
where
  "snapshot_rtcp_reception_report frac_impl jit_impl now later ssrc proxyFracLost snapshotId r =
     (case get_and_reset_snapshot now snapshotId r of
        (None, r1) \<Rightarrow> Some (None, r1)
      | (Some (fore, cur), r1) \<Rightarrow>
          (let packetsExpected = ssExtStartSN cur - ssExtStartSN fore in
           if packetsExpected > NumSequenceNumbers \<or> packetsExpected = 0 then Some (None, r1)
           else do {
             lost \<leftarrow> (if IsReceiverReportDriven (params r1) then Some (lost_overridden fore cur)
               else do {
                 (_, iv) \<leftarrow> get_interval_stats (ucast (ssExtStartSN fore)) (ucast (ssExtStartSN cur)) r1;
                 Some (ivPacketsLost iv) });
             let fracLost = fraction_lost frac_impl lost packetsExpected;
             Some (Some \<lparr>rrSSRC = ssrc,
               rrFractionLost = (if proxyFracLost > fracLost then proxyFracLost else fracLost),
               rrTotalLost = packetsLost r1,
               rrLastSequenceNumber = ssExtStartSN cur,
               rrJitter = f_to_word jit_impl
                 (if IsReceiverReportDriven (params r1) then jitterOverridden r1 else jitter r1),
               rrLastSenderReport = (case srDataExt r1 of None \<Rightarrow> 0
                 | Some e \<Rightarrow> ucast (drop_bit 16 (srNTPTimestamp (SenderReportData e)))),
               rrDelay = (case srDataExt r1 of None \<Rightarrow> 0
                 | Some e \<Rightarrow> if is_zero_time (srArrivalTime (SenderReportData e)) then 0
                     else delay_since later (srArrivalTime (SenderReportData e)))\<rparr>, r1) }))"

definition delta_empty :: "gotime \<Rightarrow> duration \<Rightarrow> delta_info" where
  "delta_empty t d = \<lparr>diStartTime = t, diDuration = d, diPackets = 0, diBytes = 0,
     diHeaderBytes = 0, diPacketsDuplicate = 0, diBytesDuplicate = 0,
     diHeaderBytesDuplicate = 0, diPacketsPadding = 0, diBytesPadding = 0,
     diHeaderBytesPadding = 0, diPacketsLost = 0, diPacketsMissing = 0, diFrames = 0,
     diRttMax = 0, diJitterMax = Fin 0, diNacks = 0, diPlis = 0, diFirs = 0\<rparr>"

text \<open>\<open>jitter / float64(r.params.ClockRate) * 1e6\<close>\<close>

definition jitter_time :: "rtp_stats \<Rightarrow> gofloat \<Rightarrow> gofloat" where
  "jitter_time r j = f_mul F64 (f_div F64 j (f_of_int F64 (uint (ClockRate (params r)))))
     (f_of_int F64 1000000)"

definition rtp_delta_info ::
  "gotime \<Rightarrow> u32 \<Rightarrow> rtp_stats \<Rightarrow> (delta_info option \<times> rtp_stats) option"
where
  "rtp_delta_info now snapshotId r = (case get_and_reset_snapshot now snapshotId r of
     (None, r1) \<Rightarrow> Some (None, r1)
   | (Some (fore, cur), r1) \<Rightarrow>
       (let packetsExpected = ssExtStartSN cur - ssExtStartSN fore;
            span = time_sub (ssStartTime cur) (ssStartTime fore) in
        if packetsExpected > NumSequenceNumbers then Some (None, r1)
        else if packetsExpected = 0 then
          Some (if IsReceiverReportDriven (params r1) then None
                else Some (delta_empty (ssStartTime fore) span), r1)
        else do {
          (_, iv) \<leftarrow> get_interval_stats (ucast (ssExtStartSN fore)) (ucast (ssExtStartSN cur)) r1;
          let (lost, missing) =
            (if IsReceiverReportDriven (params r1)
             then (let l = lost_overridden fore cur in
               if l > packetsExpected then packetsExpected else l, ivPacketsLost iv)
             else (ivPacketsLost iv, 0));
          let maxJ = (if IsReceiverReportDriven (params r1)
            then ssMaxJitterOverridden fore else ssMaxJitter fore);
          Some (Some \<lparr>diStartTime = ssStartTime fore, diDuration = span,
            diPackets = packetsExpected - ivPacketsPadding iv,
            diBytes = ivBytes iv, diHeaderBytes = ivHeaderBytes iv,
            diPacketsDuplicate = ssPacketsDuplicate cur - ssPacketsDuplicate fore,
            diBytesDuplicate = ssBytesDuplicate cur - ssBytesDuplicate fore,
            diHeaderBytesDuplicate = ssHeaderBytesDuplicate cur - ssHeaderBytesDuplicate fore,
            diPacketsPadding = ivPacketsPadding iv, diBytesPadding = ivBytesPadding iv,
            diHeaderBytesPadding = ivHeaderBytesPadding iv,
            diPacketsLost = lost, diPacketsMissing = missing, diFrames = ivFrames iv,
            diRttMax = ssMaxRtt fore, diJitterMax = jitter_time r1 maxJ,
            diNacks = ssNacks cur - ssNacks fore, diPlis = ssPlis cur - ssPlis fore,
            diFirs = ssFirs cur - ssFirs fore\<rparr>, r1) }))"

section \<open>Export\<close>

text \<open>\<open>ToProto\<close>. Pointers to the stream's own times are their values here.\<close>

record rtp_stats_internal =
  pStartTime :: gotime
  pEndTime :: gotime
  pDuration :: gofloat
  pPackets :: u32
  pPacketRate :: gofloat
  pBytes :: u64
  pHeaderBytes :: u64
  pBitrate :: gofloat
  pPacketsLost :: u32
  pPacketLossRate :: gofloat
  pPacketLossPercentage :: gofloat
  pPacketsDuplicate :: u32
  pPacketDuplicateRate :: gofloat
  pBytesDuplicate :: u64
  pHeaderBytesDuplicate :: u64
  pBitrateDuplicate :: gofloat
  pPacketsPadding :: u32
  pPacketPaddingRate :: gofloat
  pBytesPadding :: u64
  pHeaderBytesPadding :: u64
  pBitratePadding :: gofloat
  pPacketsOutOfOrder :: u32
  pFrames :: u32
  pFrameRate :: gofloat
  pJitterCurrent :: gofloat
  pJitterMax :: gofloat
  pGapHistogram :: "(u32 \<times> u32) list option"
  pNacks :: u32
  pNackAcks :: u32
  pNackMisses :: u32
  pNackRepeated :: u32
  pPlis :: u32
  pLastPli :: gotime
  pFirs :: u32
  pLastFir :: gotime
  pRttCurrent :: u32
  pRttMax :: u32
  pKeyFrames :: u32
  pLastKeyFrame :: gotime
  pLayerLockPlis :: u32
  pLastLayerLockPli :: gotime

text \<open>\<open>Duration.Seconds\<close> of the standard library.\<close>

definition seconds :: "duration \<Rightarrow> gofloat" where
  "seconds d = f_add F64 (f_of_int F64 (go_div d (10 ^ 9)))
     (f_div F64 (f_of_int F64 (go_mod d (10 ^ 9))) (f_of_int F64 (10 ^ 9)))"

definition gap_histogram_map :: "u32 list \<Rightarrow> (u32 \<times> u32) list option" where
  "gap_histogram_map h =
     (if list_all (\<lambda>n. n = 0) h then None
      else Some (filter (\<lambda>(_, n). n \<noteq> 0) (zip (map (\<lambda>i. of_nat (i + 1)) [0..<length h]) h)))"

definition to_proto :: "gotime \<Rightarrow> rtp_stats \<Rightarrow> rtp_stats_internal option" where
  "to_proto now r =
     (if is_zero_time (startTime r) then None
      else
        let stopped = (if is_zero_time (endTime r) then now else endTime r);
            elapsed = seconds (time_sub stopped (startTime r))
        in if elapsed = Fin 0 then None
        else
          let packets = get_total_packets_primary r;
              per_second = (\<lambda>n. f_div F64 (f_of_int F64 n) elapsed);
              bits_per_second = (\<lambda>n. f_div F64 (f_mul F64 (f_of_int F64 n) (f_of_int F64 8)) elapsed);
              packetsExpected = get_ext_highest_sn r - extStartSN r + 1;
              lost = get_packets_lost r;
              driven = IsReceiverReportDriven (params r)
          in Some \<lparr>pStartTime = startTime r, pEndTime = stopped, pDuration = elapsed,
            pPackets = packets, pPacketRate = per_second (uint packets),
            pBytes = bytes r, pHeaderBytes = headerBytes r,
            pBitrate = bits_per_second (uint (bytes r)),
            pPacketsLost = lost, pPacketLossRate = per_second (uint lost),
            pPacketLossPercentage = f_mul F32
              (f_div F32 (f_of_int F32 (uint lost)) (f_of_int F32 (uint packetsExpected)))
              (f_of_int F32 100),
            pPacketsDuplicate = packetsDuplicate r,
            pPacketDuplicateRate = per_second (uint (packetsDuplicate r)),
            pBytesDuplicate = bytesDuplicate r, pHeaderBytesDuplicate = headerBytesDuplicate r,
            pBitrateDuplicate = bits_per_second (uint (bytesDuplicate r)),
            pPacketsPadding = packetsPadding r,
            pPacketPaddingRate = per_second (uint (packetsPadding r)),
            pBytesPadding = bytesPadding r, pHeaderBytesPadding = headerBytesPadding r,
            pBitratePadding = bits_per_second (uint (bytesPadding r)),
            pPacketsOutOfOrder = packetsOutOfOrder r,
            pFrames = frames r, pFrameRate = per_second (uint (frames r)),
            pJitterCurrent = jitter_time r (if driven then jitterOverridden r else jitter r),
            pJitterMax = jitter_time r (if driven then maxJitterOverridden r else maxJitter r),
            pGapHistogram = gap_histogram_map (gapHistogram r),
            pNacks = nacks r, pNackAcks = nackAcks r, pNackMisses = nackMisses r,
            pNackRepeated = nackRepeated r,
            pPlis = plis r, pLastPli = lastPli r, pFirs = firs r, pLastFir = lastFir r,
            pRttCurrent = rtt r, pRttMax = maxRtt r,
            pKeyFrames = keyFrames r, pLastKeyFrame = lastKeyFrame r,
            pLayerLockPlis = layerLockPlis r, pLastLayerLockPli = lastLayerLockPli r\<rparr>)"

section \<open>The surroundings\<close>

text \<open>
  What the code takes from its surroundings: \<^verbatim>\<open>Header.MarshalSize\<close> of pion/rtp, \<^verbatim>\<open>GetRttMs\<close> and
  \<^verbatim>\<open>NtpTime.Time\<close> of mediatransportutil, and the float conversions the language leaves open.
\<close>

record stats_env =
  envMarshalSize :: "rtp_header \<Rightarrow> int"
  envGetRtt :: "reception_report \<Rightarrow> u32 \<times> bool"
  envNtpTime :: "u64 \<Rightarrow> gotime"
  envFrac :: "gofloat \<Rightarrow> u8"
  envJitter :: "gofloat \<Rightarrow> u32"

end
