(* ===== verification/StatsSafe.thy ===== *)
theory StatsSafe
  imports StatsSpec RtpReports
begin

text \<open>
  Every operation of the stream statistics, as one step relation on \<open>rtp_stats\<close>: none panics
  and all keep an invariant that bounds the jitter estimate, which floating point computes.
\<close>

section \<open>The jitter estimate\<close>

definition jitter_ok :: "gofloat \<Rightarrow> bool" where
  "jitter_ok j \<longleftrightarrow> (case j of Fin q \<Rightarrow> \<bar>q\<bar> \<le> 2 ^ 31 | _ \<Rightarrow> False)"

text \<open>Moving a sixteenth of the way towards \<open>d\<close>, rounding twice, does not go past it.\<close>

lemma sixteenth:
  "\<bar>rnd fm (rnd fm y / 16)\<bar> \<le> \<bar>y\<bar> \<and> 0 \<le> y * rnd fm (rnd fm y / 16)"
proof -
  have pos: "0 \<le> rnd fm (rnd fm y / 16) \<and> rnd fm (rnd fm y / 16) \<le> y" if "0 \<le> y" for y
    using rnd_double [OF that, of fm] rnd_double [of "rnd fm y / 16" fm] that by auto
  show ?thesis
  proof (cases "0 \<le> y")
    case True
    then show ?thesis using pos [OF True] by simp
  next
    case False
    then have "0 \<le> - y" by simp
    from pos [OF this] False show ?thesis by (simp add: rnd_minus mult_nonpos_nonpos)
  qed
qed

lemma jitter_step_ok:
  assumes "jitter_ok j" and d: "\<bar>d\<bar> \<le> 2 ^ 31"
  shows "jitter_ok (f_add F64 j (f_div F64 (f_sub F64 (f_of_int F64 d) j) (f_of_int F64 16)))"
proof -
  obtain q where j: "j = Fin q" and q: "\<bar>q\<bar> \<le> 2 ^ 31"
    using assms(1) by (auto simp: jitter_ok_def split: gofloat.splits)
  let ?y = "of_int d - q" and ?r = "rnd F64"
  let ?g = "?r (?r ?y / 16)"
  have dq: "\<bar>of_int d :: rat\<bar> \<le> 2 ^ 31"
    using d by (metis of_int_abs of_int_le_iff of_int_numeral of_int_power)
  have y: "\<bar>?y\<bar> \<le> 2 ^ 32" using dq q by simp
  have e: "\<bar>?r ?y / 16\<bar> \<le> 2 ^ 32" using rnd_abs_le_pow [OF y, of F64] by simp
  have "f_of_int F64 d = Fin (of_int d)" "f_of_int F64 16 = Fin 16"
    using d f_of_int_F64 [of d] f_of_int_F64 [of 16] by simp_all
  then have "f_div F64 (f_sub F64 (f_of_int F64 d) j) (f_of_int F64 16) = Fin ?g"
    using f_norm_Fin [OF y, of F64] f_norm_Fin [OF e, of F64] by (simp add: j f_sub_def)
  moreover have t: "\<bar>q + ?g\<bar> \<le> 2 ^ 31"
  proof (cases "0 \<le> ?y")
    case True
    then have "0 \<le> ?g" "?g \<le> ?y"
      using sixteenth [of F64 ?y] by (auto simp: zero_le_mult_iff)
    then show ?thesis using dq q by linarith
  next
    case False
    then have "?g \<le> 0" "?y \<le> ?g"
      using sixteenth [of F64 ?y] by (auto simp: zero_le_mult_iff)
    then show ?thesis using dq q by linarith
  qed
  ultimately show ?thesis
    using f_norm_Fin [OF t, of F64] rnd_abs_le_pow [OF t, of F64] by (simp add: j jitter_ok_def)
qed

lemma update_jitter_ok:
  assumes "jitter_ok (jitter r)"
  shows "jitter_ok (jitter (update_jitter rtph t r))"
proof -
  have "\<bar>sint (d :: u32)\<bar> \<le> 2 ^ 31" for d
    using sint_greater_eq [of d] sint_less [of d] by simp
  from jitter_step_ok [OF assms this] show ?thesis
    by (simp add: update_jitter_def Let_def assms)
qed

section \<open>What an update leaves alone\<close>

text \<open>The jitter estimate and the jitter of the snapshots, which only \<open>updateJitter\<close> may change.\<close>

definition jitters :: "rtp_stats \<Rightarrow> gofloat \<times> gofloat list" where
  "jitters r = (jitter r, map (\<lambda>(_, s). ssMaxJitter s) (snapshots r))"

lemma jitters_updates [simp]:
  "jitters (set_ring p r) = jitters r"
  "jitters (r\<lparr>packetsOutOfOrder := x1\<rparr>) = jitters r"
  "jitters (r\<lparr>packetsLost := x2\<rparr>) = jitters r"
  "jitters (r\<lparr>extStartSN := x3\<rparr>) = jitters r"
  "jitters (r\<lparr>gapHistogram := x4\<rparr>) = jitters r"
  "jitters (r\<lparr>cycles := x5\<rparr>) = jitters r"
  "jitters (r\<lparr>highestSN := x6\<rparr>) = jitters r"
  "jitters (r\<lparr>highestTS := x7\<rparr>) = jitters r"
  "jitters (r\<lparr>highestTime := x8\<rparr>) = jitters r"
  "jitters (r\<lparr>bytesDuplicate := x9\<rparr>) = jitters r"
  "jitters (r\<lparr>headerBytesDuplicate := x10\<rparr>) = jitters r"
  "jitters (r\<lparr>packetsDuplicate := x11\<rparr>) = jitters r"
  "jitters (r\<lparr>snInfos := x12\<rparr>) = jitters r"
  "jitters (r\<lparr>snInfoWritePtr := x13\<rparr>) = jitters r"
  "jitters (r\<lparr>resyncOnNextPacket := x14\<rparr>) = jitters r"
  by (simp_all add: jitters_def set_ring_def)

lemma set_sn_info_jitters: "set_sn_info sn pkt hdr pl m r = Some r' \<Longrightarrow> jitters r' = jitters r"
  by (auto simp: set_sn_info_def Let_def split: if_splits)

lemma clear_sn_infos_jitters: "clear_sn_infos a b r = Some r' \<Longrightarrow> jitters r' = jitters r"
proof -
  have "run_panic (\<lambda>sn r. do {
         info \<leftarrow> go_index (snInfos r) (snInfoWritePtr r);
         infos \<leftarrow> go_update (snInfos r) (snInfoWritePtr r)
           (info\<lparr>pktSize := 0, hdrSize := 0, isPaddingOnly := False, marker := False\<rparr>);
         Some (r\<lparr>snInfos := infos, snInfoWritePtr := (snInfoWritePtr r + 1) AND SnInfoMask\<rparr>) })
       sns r = Some r' \<Longrightarrow> jitters r' = jitters r" for sns
    by (induction sns arbitrary: r) auto
  then show "clear_sn_infos a b r = Some r' \<Longrightarrow> jitters r' = jitters r"
    by (simp add: clear_sn_infos_def)
qed

lemma update_gap_histogram_jitters: "update_gap_histogram g r = Some r' \<Longrightarrow> jitters r' = jitters r"
  by (auto simp: update_gap_histogram_def Let_def split: if_splits)

lemma for_snapshots_jitters:
  "(\<And>s. ssMaxJitter (f s) = ssMaxJitter s) \<Longrightarrow> jitters (for_snapshots f r) = jitters r"
  by (auto simp: jitters_def for_snapshots_def)

lemma maybe_adjust_jitters:
  "maybe_adjust_start_sn rtph pkt hdr pl r = Some (b, r') \<Longrightarrow> jitters r' = jitters r"
  by (auto simp: maybe_adjust_start_sn_def Let_def for_snapshots_jitters
      dest!: set_sn_info_jitters split: if_splits)

lemma update_behind_jitters:
  assumes "update_behind rtph pkt hdr pl r = Some (d, r')"
  shows "jitters r' = jitters r"
proof -
  let ?r1 = "if SequenceNumber rtph \<noteq> highestSN r
    then r\<lparr>packetsOutOfOrder := packetsOutOfOrder r + 1\<rparr> else r"
  have r1: "jitters ?r1 = jitters r" by simp
  obtain b r2 where m: "maybe_adjust_start_sn rtph pkt hdr pl ?r1 = Some (b, r2)"
    using assms by (auto simp: update_behind_def Let_def)
  then have r2: "jitters r2 = jitters r" using maybe_adjust_jitters r1 by metis
  show ?thesis
  proof (cases b)
    case True
    then show ?thesis using assms m r2 by (simp add: update_behind_def Let_def)
  next
    case False
    with assms m obtain lost where "is_sn_info_lost (SequenceNumber rtph) r2 = Some lost"
      by (auto simp: update_behind_def Let_def)
    with assms m False r2 show ?thesis
      by (cases lost) (auto simp: update_behind_def Let_def dest: set_sn_info_jitters)
  qed
qed

lemma update_ahead_jitters:
  assumes "update_ahead rtph pkt hdr pl t first r = Some (f, r')"
  shows "jitters r' = jitters r"
proof -
  obtain r1 r2 r3 where g: "update_gap_histogram (uint (SequenceNumber rtph - highestSN r)) r = Some r1"
    and c: "clear_sn_infos (highestSN r1 + 1) (SequenceNumber rtph) r1 = Some r2"
    and s: "set_sn_info (SequenceNumber rtph) (ucast pkt) (ucast hdr) (word_of_int pl) (Marker rtph)
       (r2\<lparr>packetsLost := packetsLost r2 + ucast (SequenceNumber rtph - highestSN r - 1)\<rparr>) = Some r3"
    and r': "jitters r' = jitters r3"
    using assms by (auto simp: update_ahead_def Let_def)
  show ?thesis
    using update_gap_histogram_jitters [OF g] clear_sn_infos_jitters [OF c]
      set_sn_info_jitters [OF s] r' by simp
qed

section \<open>The invariant of every operation\<close>

text \<open>
  The arrays keep their size and the write position is a slot, the jitter estimate is a finite
  number of at most \<open>2 ^ 31\<close>, and no snapshot has recorded any jitter.
\<close>

definition jitters_ok :: "gofloat \<times> gofloat list \<Rightarrow> bool" where
  "jitters_ok = (\<lambda>(j, ms). jitter_ok j \<and> list_all (\<lambda>m. m = Fin 0) ms)"

definition stats_ok :: "rtp_stats \<Rightarrow> bool" where
  "stats_ok r \<longleftrightarrow> stats_inv r \<and> jitters_ok (jitters r)"

lemma list_all_update_iff:
  "list_all (\<lambda>m. m = Fin 0) (map (\<lambda>(_, s). ssMaxJitter s) xs) \<longleftrightarrow>
   (\<forall>(i, s) \<in> set xs. ssMaxJitter s = Fin 0)"
  by (auto simp: list_all_iff)

lemma jitters_ok_iff:
  "jitters_ok (jitters r) \<longleftrightarrow> jitter_ok (jitter r) \<and> (\<forall>(i, s) \<in> set (snapshots r). ssMaxJitter s = Fin 0)"
  by (simp add: jitters_ok_def jitters_def list_all_update_iff)

lemma set_alist_update:
  "(i, s) \<in> set (AList.update k v xs) \<Longrightarrow> s = v \<or> (i, s) \<in> set xs"
  by (induction xs) (auto split: if_splits)

lemma jitters_ok_update:
  assumes "jitters_ok (jitters r)" and "ssMaxJitter v = Fin 0"
  shows "jitters_ok (jitters (r\<lparr>snapshots := AList.update k v (snapshots r)\<rparr>))"
  using assms by (auto simp: jitters_ok_iff dest!: set_alist_update)

lemma snapshots_update_fold:
  assumes "\<forall>(i, s) \<in> set xs. ssMaxJitter s = Fin 0" and "\<And>k. ssMaxJitter (v k) = Fin 0"
  shows "\<forall>(i, s) \<in> set (fold (\<lambda>k. AList.update (f k) (v k)) ks xs). ssMaxJitter s = Fin 0"
  using assms(1)
proof (induction ks arbitrary: xs)
  case (Cons k ks)
  have "\<forall>(i, s) \<in> set (AList.update (f k) (v k) xs). ssMaxJitter s = Fin 0"
    using Cons.prems assms(2) by (auto dest!: set_alist_update)
  from Cons.IH [OF this] show ?case by simp
qed simp

lemma update_totals_ok:
  assumes "jitters_ok (jitters r)"
  shows "jitters_ok (jitters (update_totals rtph pkt hdr pl t r))"
proof -
  have u: "snapshots (update_jitter rtph t r') = snapshots r'" for r'
    by (simp add: update_jitter_def Let_def)
  show ?thesis
    using assms update_jitter_ok [of "r\<lparr>bytes := bytes r + pkt, headerBytes := headerBytes r + hdr\<rparr>"]
      update_jitter_ok [of "r\<lparr>bytes := bytes r + pkt, headerBytes := headerBytes r + hdr,
        frames := frames r + 1\<rparr>"]
    by (simp add: update_totals_def Let_def jitters_ok_iff u)
qed

lemma stats_inv_update_totals: "stats_inv (update_totals rtph pkt hdr pl t r) = stats_inv r"
  using core_eqD [OF update_totals_core] by blast

lemma update_first_ok:
  assumes "stats_ok r" and "update_first now rtph t r = (r', first)"
  shows "stats_ok r'"
proof -
  have "\<forall>(i, s) \<in> set (fold (\<lambda>i. AList.update (of_nat i) (snapshot_at now (ucast (SequenceNumber rtph))))
      [unat FirstSnapshotId..<unat (nextSnapshotId r)] (snapshots r)). ssMaxJitter s = Fin 0"
    using assms(1) by (intro snapshots_update_fold) (auto simp: stats_ok_def jitters_ok_iff snapshot_at_def)
  then show ?thesis
    using assms by (auto simp: stats_ok_def stats_inv_def jitters_ok_iff update_first_def ring_of_def
        split: if_splits)
qed

lemma update_resync_ok: "stats_ok r \<Longrightarrow> stats_ok (update_resync rtph t r)"
  by (simp add: stats_ok_def stats_inv_def update_resync_def)

lemma rtp_update_ok:
  assumes "stats_ok r"
  shows "\<exists>flow r'. rtp_update ms now rtph pl pad t r = Some (flow, r') \<and> stats_ok r'"
proof (cases "ended r")
  case True
  then show ?thesis using assms by (simp add: rtp_update_def)
next
  case False
  obtain r1 first where f: "update_first now rtph t r = (r1, first)" by force
  let ?r2 = "update_resync rtph t r1"
  let ?hdr = "word_of_int (ms rtph) :: u64"
  let ?pkt = "?hdr + word_of_int (pl + pad)"
  let ?sn = "SequenceNumber rtph"
  have ok2: "stats_ok ?r2" using update_resync_ok update_first_ok [OF assms f] by blast
  then have inv2: "stats_inv ?r2" and j2: "jitters_ok (jitters ?r2)" by (simp_all add: stats_ok_def)
  have ahead: "rx_ahead ?sn (abs_rx ?r2) \<longleftrightarrow> \<not> (?sn - highestSN ?r2 = 0 \<or> ?sn - highestSN ?r2 > 2 ^ 15)"
    by (auto simp: rx_ahead_def abs_rx_def sn_behind_def)
  note upd = rtp_update_def Let_def f
  show ?thesis
  proof (cases "rx_ahead ?sn (abs_rx ?r2)")
    case True
    then have "?sn \<noteq> highestSN ?r2" "\<not> sn_behind (highestSN ?r2) ?sn"
      by (simp_all add: rx_ahead_def abs_rx_def)
    from update_ahead_rx [OF inv2 this] obtain flow r3
      where a: "update_ahead rtph ?pkt ?hdr pl t first ?r2 = Some (flow, r3)" and "stats_inv r3"
      by blast
    moreover have "jitters_ok (jitters r3)" using update_ahead_jitters [OF a] j2 by simp
    moreover have "rtp_update ms now rtph pl pad t r = Some (flow, update_totals rtph ?pkt ?hdr pl t r3)"
      using a True ahead False unfolding upd by simp
    ultimately show ?thesis by (simp add: stats_ok_def stats_inv_update_totals update_totals_ok)
  next
    case behind: False
    from update_behind_rx [OF inv2 behind] obtain d r3
      where b: "update_behind rtph ?pkt ?hdr pl ?r2 = Some (d, r3)" and "stats_inv r3"
      by blast
    moreover have "jitters_ok (jitters r3)" using update_behind_jitters [OF b] j2 by simp
    moreover have "rtp_update ms now rtph pl pad t r =
        Some (no_flow, if d then r3 else update_totals rtph ?pkt ?hdr pl t r3)"
      using b behind ahead False unfolding upd by simp
    ultimately show ?thesis by (simp add: stats_ok_def stats_inv_update_totals update_totals_ok)
  qed
qed

text \<open>The interval statistics only read the state.\<close>

lemma process_sn_total:
  assumes "stats_inv r"
  shows "\<exists>x'. process_sn r sn x = Some x'"
proof (cases x)
  case (Pair nf iv)
  show ?thesis
    using ring_slot(1,2) [OF assms]
    by (simp add: Pair process_sn_def Let_def ptr_age go_mem back_slot_not_neg)
qed

interpretation interval: panic_free "process_sn r" "\<lambda>_. stats_inv r" "\<lambda>_. True" for r
  by unfold_locales (use process_sn_total in blast)

lemma get_interval_stats_total: "stats_inv r \<Longrightarrow> \<exists>x. get_interval_stats a b r = Some x"
  using interval.run_total [where s = "(0, interval_zero)"] by (simp add: get_interval_stats_def list_all_iff)

lemma get_and_reset_snapshot_ok:
  assumes "stats_ok r" and "get_and_reset_snapshot now i r = (res, r')"
  shows "stats_ok r'" and "res = Some (fore, cur) \<Longrightarrow> ssMaxJitter fore = Fin 0"
proof -
  have j: "jitters_ok (jitters r)" using assms(1) by (simp add: stats_ok_def)
  show "stats_ok r'"
    using assms jitters_ok_update [OF j]
    by (auto simp: get_and_reset_snapshot_def Let_def stats_ok_def stats_inv_def split: if_splits)
  show "ssMaxJitter fore = Fin 0" if "res = Some (fore, cur)"
    using assms(2) that j
    by (auto simp: get_and_reset_snapshot_def Let_def jitters_ok_iff snapshot_at_def
        split: if_splits option.splits dest!: map_of_SomeD)
qed

lemma reception_report_ok:
  assumes "stats_ok r"
  shows "\<exists>x r'. snapshot_rtcp_reception_report fi ji now later ssrc proxy i r = Some (x, r') \<and> stats_ok r'"
proof -
  obtain res r1 where g: "get_and_reset_snapshot now i r = (res, r1)" by force
  then have ok: "stats_ok r1" using get_and_reset_snapshot_ok(1) [OF assms] by blast
  show ?thesis
  proof (cases res)
    case None
    then show ?thesis using g ok by (simp add: snapshot_rtcp_reception_report_def)
  next
    case (Some p)
    obtain fore cur where p: "p = (fore, cur)" by force
    obtain nf iv where "get_interval_stats (ucast (ssExtStartSN fore)) (ucast (ssExtStartSN cur)) r1 = Some (nf, iv)"
      using get_interval_stats_total ok by (metis stats_ok_def surj_pair)
    then show ?thesis
      using g ok Some p by (simp add: snapshot_rtcp_reception_report_def Let_def del: option_bind_eq_Some)
  qed
qed

lemma delta_info_ok:
  assumes "stats_ok r"
  shows "\<exists>x r'. rtp_delta_info now i r = Some (x, r') \<and> stats_ok r'"
proof -
  obtain res r1 where g: "get_and_reset_snapshot now i r = (res, r1)" by force
  then have ok: "stats_ok r1" using get_and_reset_snapshot_ok(1) [OF assms] by blast
  show ?thesis
  proof (cases res)
    case None
    then show ?thesis using g ok by (simp add: rtp_delta_info_def)
  next
    case (Some p)
    obtain fore cur where p: "p = (fore, cur)" by force
    obtain nf iv where "get_interval_stats (ucast (ssExtStartSN fore)) (ucast (ssExtStartSN cur)) r1 = Some (nf, iv)"
      using get_interval_stats_total ok by (metis stats_ok_def surj_pair)
    then show ?thesis
      using g ok Some p by (simp add: rtp_delta_info_def Let_def del: option_bind_eq_Some)
  qed
qed

section \<open>All operations\<close>

text \<open>
  The calls that change a stream's statistics, in the surroundings \<open>env\<close>.
\<close>

datatype stats_event =
    EvUpdate arrival
  | EvResync
  | EvStop gotime
  | EvSeed "rtp_stats option"
  | EvNewSnapshot gotime
  | EvReceiverReport gotime reception_report
  | EvNack u32
  | EvNackProcessed u32 u32 u32
  | EvPli u32
  | EvPliTime gotime
  | EvPliAndTime gotime u32
  | EvLayerLockPli gotime u32
  | EvFir u32
  | EvFirTime gotime
  | EvKeyFrame gotime u32
  | EvRtt u32
  | EvSenderReport "sr_data option"
  | EvReceptionReport gotime gotime u32 u8 u32
  | EvDeltaInfo gotime u32

fun stats_step :: "stats_env \<Rightarrow> stats_event \<Rightarrow> rtp_stats \<Rightarrow> rtp_stats option" where
  "stats_step env (EvUpdate p) r = receive (envMarshalSize env) p r"
| "stats_step env EvResync r = Some (resync_on_next_packet r)"
| "stats_step env (EvStop now) r = Some (stop now r)"
| "stats_step env (EvSeed f) r = Some (seed f r)"
| "stats_step env (EvNewSnapshot now) r = Some (snd (new_snapshot_id now r))"
| "stats_step env (EvReceiverReport now rr) r =
     Some (snd (update_from_receiver_report (envGetRtt env) now rr r))"
| "stats_step env (EvNack n) r = Some (update_nack n r)"
| "stats_step env (EvNackProcessed a m p) r = Some (update_nack_processed a m p r)"
| "stats_step env (EvPli n) r = Some (update_pli n r)"
| "stats_step env (EvPliTime now) r = Some (update_pli_time now r)"
| "stats_step env (EvPliAndTime now n) r = Some (update_pli_and_time now n r)"
| "stats_step env (EvLayerLockPli now n) r = Some (update_layer_lock_pli_and_time now n r)"
| "stats_step env (EvFir n) r = Some (update_fir n r)"
| "stats_step env (EvFirTime now) r = Some (update_fir_time now r)"
| "stats_step env (EvKeyFrame now n) r = Some (update_key_frame now n r)"
| "stats_step env (EvRtt v) r = Some (update_rtt v r)"
| "stats_step env (EvSenderReport d) r = Some (set_rtcp_sender_report_data (envNtpTime env) d r)"
| "stats_step env (EvReceptionReport now later ssrc proxy i) r = map_option snd
     (snapshot_rtcp_reception_report (envFrac env) (envJitter env) now later ssrc proxy i r)"
| "stats_step env (EvDeltaInfo now i) r = map_option snd (rtp_delta_info now i r)"

text \<open>A stream is only seeded from statistics that are in order themselves.\<close>

fun event_ok :: "stats_event \<Rightarrow> bool" where
  "event_ok (EvSeed (Some f)) = stats_ok f"
| "event_ok _ = True"

definition no_jitter :: "(u32 \<times> snapshot) list \<Rightarrow> bool" where
  "no_jitter xs \<longleftrightarrow> (\<forall>(i, s) \<in> set xs. ssMaxJitter s = Fin 0)"

lemma stats_ok_iff:
  "stats_ok r \<longleftrightarrow> ring_ok 2048 (snInfos r, snInfoWritePtr r) \<and> length (gapHistogram r) = 101 \<and>
     jitter_ok (jitter r) \<and> no_jitter (snapshots r)"
  by (simp add: stats_ok_def stats_inv_def jitters_ok_iff no_jitter_def ring_of_def)

lemma no_jitter_update: "no_jitter xs \<Longrightarrow> ssMaxJitter v = Fin 0 \<Longrightarrow> no_jitter (AList.update k v xs)"
  by (auto simp: no_jitter_def dest!: set_alist_update)

lemma no_jitter_merge:
  "no_jitter xs \<Longrightarrow> no_jitter ys \<Longrightarrow> no_jitter (fold (\<lambda>(id, ss). AList.update id ss) xs ys)"
proof (induction xs arbitrary: ys)
  case (Cons x xs)
  obtain i s where x: "x = (i, s)" by force
  have "no_jitter xs" "ssMaxJitter s = Fin 0" using Cons.prems x by (auto simp: no_jitter_def)
  with Cons.IH no_jitter_update [OF Cons.prems(2)] show ?case by (simp add: x)
qed simp

lemma for_snapshots_ok:
  "stats_ok r \<Longrightarrow> (\<And>s. ssMaxJitter (f s) = ssMaxJitter s) \<Longrightarrow> stats_ok (for_snapshots f r)"
  by (auto simp: stats_ok_iff for_snapshots_def no_jitter_def)

lemma seed_ok: "stats_ok r \<Longrightarrow> (\<And>f. fo = Some f \<Longrightarrow> stats_ok f) \<Longrightarrow> stats_ok (seed fo r)"
  by (cases fo) (simp_all add: seed_def stats_ok_iff no_jitter_merge)

lemma stats_ok_new: "stats_ok (new_rtp_stats p)"
  using stats_inv_new [of p]
  by (simp add: stats_ok_def jitters_ok_iff) (simp add: new_rtp_stats_def jitter_ok_def)

lemma new_snapshot_ok: "stats_ok r \<Longrightarrow> stats_ok (snd (new_snapshot_id now r))"
  by (simp add: new_snapshot_id_def Let_def stats_ok_iff no_jitter_update snapshot_at_def)

text \<open>Updates of fields the invariant does not read.\<close>

lemma stats_ok_report_fields [simp]:
  "stats_ok (r\<lparr>extHighestSNOverridden := x1\<rparr>) = stats_ok r"
  "stats_ok (r\<lparr>packetsLostOverridden := x2\<rparr>) = stats_ok r"
  "stats_ok (r\<lparr>rtt := x3\<rparr>) = stats_ok r"
  "stats_ok (r\<lparr>maxRtt := x4\<rparr>) = stats_ok r"
  "stats_ok (r\<lparr>jitterOverridden := x5\<rparr>) = stats_ok r"
  "stats_ok (r\<lparr>maxJitterOverridden := x6\<rparr>) = stats_ok r"
  "stats_ok (r\<lparr>lastRRTime := x7\<rparr>) = stats_ok r"
  "stats_ok (r\<lparr>lastRR := x8\<rparr>) = stats_ok r"
  by (simp_all add: stats_ok_iff)

lemma receiver_report_ok:
  "stats_ok r \<Longrightarrow> stats_ok (snd (update_from_receiver_report g now rr r))"
  by (simp add: update_from_receiver_report_def Let_def for_snapshots_ok split: prod.split)

lemma receive_ok: "stats_ok r \<Longrightarrow> \<exists>r'. receive ms p r = Some r' \<and> stats_ok r'"
  using rtp_update_ok [of r ms "arrNow p" "arrHeader p" "arrPayloadSize p" "arrPaddingSize p" "arrTime p"]
  by (auto simp: receive_def)

lemma map_snd_ok: "\<exists>x r'. m = Some (x, r') \<and> P r' \<Longrightarrow> \<exists>r'. map_option snd m = Some r' \<and> P r'"
  by auto

lemma stats_step_ok:
  assumes "stats_ok r" and "event_ok e"
  shows "\<exists>r'. stats_step env e r = Some r' \<and> stats_ok r'"
proof (cases e)
  case (EvSeed f)
  then show ?thesis using assms seed_ok [of r f] by (cases f) auto
next
  case (EvReceptionReport now later ssrc proxy i)
  then show ?thesis using map_snd_ok [OF reception_report_ok [OF assms(1)]] by simp
next
  case (EvDeltaInfo now i)
  then show ?thesis using map_snd_ok [OF delta_info_ok [OF assms(1)]] by simp
next
  case (EvUpdate p)
  then show ?thesis using receive_ok [OF assms(1)] by simp
next
  case (EvNewSnapshot now)
  then show ?thesis using new_snapshot_ok [OF assms(1)] by simp
next
  case (EvReceiverReport now rr)
  then show ?thesis using receiver_report_ok [OF assms(1)] by simp
next
  case (EvRtt v)
  then show ?thesis using assms(1) by (simp add: update_rtt_def for_snapshots_ok)
qed (use assms(1) in \<open>simp_all add: stats_ok_iff
    resync_on_next_packet_def stop_def update_nack_def update_nack_processed_def update_pli_def
    update_pli_time_def update_pli_and_time_def update_layer_lock_pli_and_time_def update_fir_def
    update_fir_time_def update_key_frame_def set_rtcp_sender_report_data_def Let_def
    split: option.split\<close>)

interpretation stats: panic_free "stats_step env" event_ok stats_ok for env
  by unfold_locales (rule stats_step_ok)

text \<open>
  C14: whatever operations are called on the statistics of a stream, in whatever order and with
  whatever packets, reports and clock readings, none panics; the jitter estimate stays a
  finite number of at most \<open>2 ^ 31\<close>, the ring and the histogram keep their size, and (the
  update of a snapshot's maximum goes to the stream's instead) no snapshot ever records jitter.
\<close>

theorem stats_run_safe:
  assumes "list_all event_ok es"
  shows "\<exists>r. run_panic (stats_step env) es (new_rtp_stats p) = Some r \<and>
    (\<exists>q. jitter r = Fin q \<and> \<bar>q\<bar> \<le> 2 ^ 31) \<and>
    length (snInfos r) = 2048 \<and> 0 \<le> snInfoWritePtr r \<and> snInfoWritePtr r < 2048 \<and>
    length (gapHistogram r) = 101 \<and> (\<forall>(i, s) \<in> set (snapshots r). ssMaxJitter s = Fin 0)"
proof -
  obtain r where "run_panic (stats_step env) es (new_rtp_stats p) = Some r" and "stats_ok r"
    using stats.run_total [OF stats_ok_new assms] by blast
  moreover from this(2) have "\<exists>q. jitter r = Fin q \<and> \<bar>q\<bar> \<le> 2 ^ 31"
    by (auto simp: stats_ok_iff jitter_ok_def split: gofloat.splits)
  ultimately show ?thesis
    by (simp add: stats_ok_iff ring_ok_def no_jitter_def)
qed

theorem stats_run_safe_witness:
  "\<exists>r. run_panic (stats_step \<lparr>envMarshalSize = \<lambda>_. 12, envGetRtt = \<lambda>_. (20, True),
       envNtpTime = \<lambda>_. 0, envFrac = \<lambda>_. 0, envJitter = \<lambda>_. 0\<rparr>)
     [EvUpdate (sample_arrival 7), EvResync, EvUpdate (sample_arrival 3), EvDeltaInfo 5 1]
     (new_rtp_stats \<lparr>ClockRate = 90000, IsReceiverReportDriven = False\<rparr>) = Some r \<and>
     length (snInfos r) = 2048"
  using stats_run_safe [of "[EvUpdate (sample_arrival 7), EvResync, EvUpdate (sample_arrival 3),
      EvDeltaInfo 5 1]" "\<lparr>envMarshalSize = \<lambda>_. 12, envGetRtt = \<lambda>_. (20, True),
       envNtpTime = \<lambda>_. 0, envFrac = \<lambda>_. 0, envJitter = \<lambda>_. 0\<rparr>"
      "\<lparr>ClockRate = 90000, IsReceiverReportDriven = False\<rparr>"]
  by (auto simp del: run_panic.simps)

end
