(* ===== verification/ReportsSpec.thy ===== *)
theory ReportsSpec
  imports StatsSafe
begin

text \<open>
  What the RTCP reception report says: the interval statistics against the set of numbers
  received, the fraction lost against exact arithmetic, and both put together.
\<close>

section \<open>The statistics of an interval\<close>

definition interval_total :: "interval_stats \<Rightarrow> u32" where
  "interval_total iv = ivPackets iv + ivPacketsPadding iv + ivPacketsLost iv"

lemma process_sn_in_window:
  assumes "stats_inv r" and "age (highestSN r) sn < 2048"
  shows "\<exists>iv'. process_sn r sn (nf, iv) = Some (nf, iv') \<and>
    ivPacketsLost iv' = ivPacketsLost iv
      + (if sizes (ring_of r) (age (highestSN r) sn) = 0 then 1 else 0) \<and>
    interval_total iv' = interval_total iv + 1"
  using ring_slot(1,2) [OF assms(1)] assms(2)
  by (simp add: process_sn_def Let_def ptr_age go_mem back_slot_not_neg sizes_def ring_get_def
      ring_of_def interval_total_def)

lemma interval_run:
  assumes "stats_inv r" and "list_all (\<lambda>sn. age (highestSN r) sn < 2048) sns"
  shows "\<exists>iv'. run_panic (process_sn r) sns (nf, iv) = Some (nf, iv') \<and>
    ivPacketsLost iv' = ivPacketsLost iv
      + of_nat (length (filter (\<lambda>sn. sizes (ring_of r) (age (highestSN r) sn) = 0) sns)) \<and>
    interval_total iv' = interval_total iv + of_nat (length sns)"
  using assms(2)
proof (induction sns arbitrary: iv)
  case (Cons sn sns)
  obtain iv1 where iv1: "process_sn r sn (nf, iv) = Some (nf, iv1)"
    "ivPacketsLost iv1 = ivPacketsLost iv
      + (if sizes (ring_of r) (age (highestSN r) sn) = 0 then 1 else 0)"
    "interval_total iv1 = interval_total iv + 1"
    using process_sn_in_window [OF assms(1), of sn nf iv] Cons.prems by auto
  obtain iv2 where "run_panic (process_sn r) sns (nf, iv1) = Some (nf, iv2)"
    "ivPacketsLost iv2 = ivPacketsLost iv1
      + of_nat (length (filter (\<lambda>sn. sizes (ring_of r) (age (highestSN r) sn) = 0) sns))"
    "interval_total iv2 = interval_total iv1 + of_nat (length sns)"
    using Cons.IH [of iv1] Cons.prems by auto
  with iv1 show ?case by simp
qed simp

lemma sn_range_map: "sn_range a b = map (\<lambda>i. a + of_nat i) [0..<unat (b - a)]"
proof (induction a b rule: sn_range.induct)
  case (1 a b)
  show ?case
  proof (cases "a = b")
    case False
    then have u: "unat (b - a) = Suc (unat (b - (a + 1)))" by (intro ahead_suc) simp
    have "sn_range a b = a # map (\<lambda>i. a + 1 + of_nat i) [0..<unat (b - (a + 1))]"
      using 1 False by (subst sn_range.simps) simp
    also have "\<dots> = map (\<lambda>i. a + of_nat i) (0 # map Suc [0..<unat (b - (a + 1))])"
      by (simp add: add.assoc)
    also have "0 # map Suc [0..<unat (b - (a + 1))] = [0..<unat (b - a)]"
      by (simp only: u map_Suc_upt upt_conv_Cons zero_less_Suc)
    finally show ?thesis .
  qed (simp add: sn_range.simps)
qed

text \<open>The ages of an interval that ends just after the highest number.\<close>

lemma age_interval:
  assumes "i < unat (h + 1 - a)"
  shows "age h (a + of_nat i) = unat (h + 1 - a) - 1 - i"
proof -
  let ?n = "unat (h + 1 - a)"
  have n: "?n < 65536" by (rule u16_bound)
  have "(of_nat (?n - 1 - i) :: u16) = of_nat ?n - 1 - of_nat i"
    using assms by (simp add: of_nat_diff)
  also have "\<dots> = h - (a + of_nat i)" by simp
  finally have "unat (h - (a + of_nat i)) = unat (of_nat (?n - 1 - i) :: u16)" by simp
  also have "\<dots> = ?n - 1 - i" using n assms by (simp only: unat_of_nat) simp
  finally show ?thesis by (simp add: age_def)
qed

lemma missing_card:
  assumes t: "\<And>k. k < 2048 \<Longrightarrow> f k = 0 \<longleftrightarrow> head - int k \<notin> got" and n: "n \<le> 2048"
  shows "length (filter (\<lambda>i. f (n - 1 - i) = 0) [0..<n]) = card {m. head - int n < m \<and> m \<le> head \<and> m \<notin> got}"
proof -
  have "length (filter (\<lambda>i. f (n - 1 - i) = 0) [0..<n]) = card {i \<in> {0..<n}. f (n - 1 - i) = 0}"
    by (simp add: distinct_length_filter Int_def conj_commute)
  also have "\<dots> = card ((\<lambda>i. head - int (n - 1 - i)) ` {i \<in> {0..<n}. f (n - 1 - i) = 0})"
    by (rule card_image [symmetric]) (auto simp: inj_on_def)
  also have "(\<lambda>i. head - int (n - 1 - i)) ` {i \<in> {0..<n}. f (n - 1 - i) = 0} =
      {m. head - int n < m \<and> m \<le> head \<and> m \<notin> got}"
  proof (intro set_eqI iffI)
    fix m assume "m \<in> {m. head - int n < m \<and> m \<le> head \<and> m \<notin> got}"
    then have m: "head - int n < m" "m \<le> head" "m \<notin> got" by auto
    let ?k = "nat (head - m)" let ?i = "n - 1 - ?k"
    have k: "?k < n" "head - int ?k = m" using m by auto
    then have i: "?i < n" "n - 1 - ?i = ?k" by auto
    have "f (n - 1 - ?i) = 0" unfolding i(2) using t [of ?k] k n m(3) by simp
    then show "m \<in> (\<lambda>i. head - int (n - 1 - i)) ` {i \<in> {0..<n}. f (n - 1 - i) = 0}"
      using i k by (intro image_eqI [of _ _ ?i]) auto
  qed (use t n in auto)
  finally show ?thesis .
qed

text \<open>
  The interval statistics from \<open>a\<close> to just after the highest number, for at most the window of
  2048 packets: every packet is found, and those counted lost are those never received.
\<close>

lemma interval_exact:
  assumes inv: "stats_inv r" and t: "tracks (abs_rx r) head got"
    and n: "0 < n" "n \<le> 2048" "n = unat (highestSN r + 1 - a)"
  shows "\<exists>iv. get_interval_stats a (highestSN r + 1) r = Some (0, iv) \<and>
    ivPacketsLost iv = of_nat (card {m. head - int n < m \<and> m \<le> head \<and> m \<notin> got}) \<and>
    interval_total iv = of_nat n"
proof -
  let ?h = "highestSN r"
  have ages: "age ?h (a + of_nat i) = n - 1 - i" if "i < n" for i
    using age_interval [of i ?h a] that n(3) by simp
  have "a \<noteq> ?h + 1" using n by auto
  then have g: "get_interval_stats a (?h + 1) r = run_panic (process_sn r) (sn_range a (?h + 1)) (0, interval_zero)"
    by (simp add: get_interval_stats_def)
  have sz: "sizes (ring_of r) k = 0 \<longleftrightarrow> head - int k \<notin> got" if "k < 2048" for k
    using t that by (auto simp: tracks_def abs_rx_def)
  have sns: "sn_range a (?h + 1) = map (\<lambda>i. a + of_nat i) [0..<n]"
    by (simp only: sn_range_map n(3))
  have all: "list_all (\<lambda>sn. age ?h sn < 2048) (sn_range a (?h + 1))"
    unfolding sns using n(1,2) ages by (auto simp: list_all_iff)
  have "filter (\<lambda>i. sizes (ring_of r) (age ?h (a + of_nat i)) = 0) [0..<n] =
      filter (\<lambda>i. sizes (ring_of r) (n - 1 - i) = 0) [0..<n]"
    by (rule filter_cong) (auto simp: ages)
  then have "length (filter (\<lambda>sn. sizes (ring_of r) (age ?h sn) = 0) (sn_range a (?h + 1)))
      = length (filter (\<lambda>i. sizes (ring_of r) (n - 1 - i) = 0) [0..<n])"
    by (simp only: sns filter_map o_def length_map)
  then have "length (filter (\<lambda>sn. sizes (ring_of r) (age ?h sn) = 0) (sn_range a (?h + 1)))
      = card {m. head - int n < m \<and> m \<le> head \<and> m \<notin> got}"
    using missing_card [OF sz n(2)] by simp
  moreover have "length (sn_range a (?h + 1)) = n" by (simp only: length_sn_range n(3))
  ultimately show ?thesis
    unfolding g using interval_run [OF inv all, of 0 interval_zero] by (simp add: interval_zero_def interval_total_def)
qed

section \<open>The fraction lost\<close>

lemma f_of_int_F32:
  assumes "\<bar>n\<bar> < 2 ^ 24"
  shows "f_of_int F32 n = Fin (of_int n)"
proof -
  have a: "\<bar>of_int n :: rat\<bar> < 2 ^ 24"
    using assms by (metis of_int_abs of_int_less_iff of_int_numeral of_int_power)
  then have "\<bar>of_int n :: rat\<bar> < 2 powi precision F32"
    by (simp add: power_int_nonneg_exp)
  then show ?thesis
    using f_norm_Fin [OF less_imp_le [OF a], of F32] rnd_int [of n F32] by (simp add: f_of_int_def)
qed

lemma rnd_error_below:
  assumes "\<bar>x\<bar> < 2 powi k" and "-149 \<le> k - 24"
  shows "\<bar>rnd F32 x - x\<bar> \<le> 2 powi (k - 24) / 2"
proof (cases "x = 0")
  case False
  then have "ulp F32 x \<le> 2 powi (k - 24)" using ulp_le [OF False assms(1), of F32] assms(2) by simp
  then show ?thesis using rnd_error [of F32 x] by linarith
qed (simp add: rnd_def)

lemma ratio_le_1: "0 \<le> l \<Longrightarrow> l < e \<Longrightarrow> \<bar>of_int l / of_int e :: rat\<bar> \<le> 2 ^ 0"
  by simp

lemma ratio_step1: "0 < (e :: rat) \<Longrightarrow> q * e + 1 \<le> 256 * l \<Longrightarrow> q + 1 / e \<le> 256 * (l / e)"
  using divide_right_mono [of "q * e + 1" "256 * l" e] by (simp add: add_divide_distrib)

lemma ratio_step2: "0 < (e :: rat) \<Longrightarrow> 256 * l \<le> q * e + e - 1 \<Longrightarrow> 256 * (l / e) \<le> q + 1 - 1 / e"
  using divide_right_mono [of "256 * l" "q * e + e - 1" e]
  by (simp add: add_divide_distrib diff_divide_distrib)

text \<open>The scaled ratio, rounded twice to \<open>float32\<close>, has the integer part of the exact one.\<close>

lemma floor_scaled:
  assumes "0 \<le> l" "l < e" "e < 65536"
  defines "z \<equiv> rnd F32 (rnd F32 (of_int l / of_int e) * 256)"
  shows "0 \<le> z" and "\<lfloor>z\<rfloor> = 256 * l div e" and "0 \<le> 256 * l div e" and "256 * l div e < 256"
proof -
  let ?x = "of_int l / of_int e :: rat" and ?q = "256 * l div e"
  let ?y = "rnd F32 ?x"
  have e: "0 < (of_int e :: rat)" using assms by simp
  have qe: "?q * e \<le> 256 * l" "256 * l < ?q * e + e"
    using assms div_mult_mod_eq [of "256 * l" e] pos_mod_bound [of e "256 * l"]
      pos_mod_sign [of e "256 * l"] by linarith+
  have q: "0 \<le> ?q" "?q < 256"
  proof -
    show "0 \<le> ?q" using assms by (simp add: pos_imp_zdiv_nonneg_iff)
    show "?q < 256"
    proof (rule ccontr)
      assume "\<not> ?q < 256"
      then have "256 * e \<le> ?q * e" using assms by (intro mult_right_mono) auto
      then show False using qe assms by linarith
    qed
  qed
  have "0 \<le> z \<and> \<lfloor>z\<rfloor> = ?q"
  proof (cases "?q * e = 256 * l")
    case True
    then have "(of_int ?q * of_int e :: rat) = 256 * of_int l"
      by (metis of_int_mult of_int_numeral)
    then have x: "?x = of_int ?q * 2 powi (- 8)"
      using e by (simp add: field_simps power_int_minus)
    have b: "\<bar>of_int ?q :: rat\<bar> < 2 powi precision F32" "\<bar>of_int ?q :: rat\<bar> < 2 powi precision F32"
      using q by (simp_all add: power_int_nonneg_exp)
    have y: "?y = of_int ?q * 2 powi (- 8)" unfolding x by (rule rnd_exact [OF b(1)]) simp
    have "?y * 256 = of_int ?q" unfolding y by (simp add: power_int_minus)
    then have "z = of_int ?q" unfolding z_def using rnd_int [OF b(1)] by simp
    then show ?thesis using q by simp
  next
    case False
    then have lt: "?q * e + 1 \<le> 256 * l" "256 * l \<le> ?q * e + e - 1" using qe by linarith+
    then have "(of_int (?q * e + 1) :: rat) \<le> of_int (256 * l)"
      "(of_int (256 * l) :: rat) \<le> of_int (?q * e + e - 1)" by (simp_all only: of_int_le_iff)
    then have "(of_int ?q * of_int e + 1 :: rat) \<le> 256 * of_int l"
      "(256 * of_int l :: rat) \<le> of_int ?q * of_int e + of_int e - 1" by simp_all
    from ratio_step1 [OF e this(1)] ratio_step2 [OF e this(2)]
    have "of_int ?q + 1 / of_int e \<le> 256 * ?x" "256 * ?x \<le> of_int ?q + 1 - 1 / of_int e" .
    moreover have inv: "1 / 65536 < 1 / (of_int e :: rat)"
    proof -
      have "(of_int e :: rat) < 65536" using assms(3) by simp
      then show ?thesis using e by (simp add: field_simps)
    qed
    ultimately have x: "of_int ?q + 1 / 65536 < 256 * ?x" "256 * ?x < of_int ?q + 1 - 1 / 65536"
      by linarith+
    have "of_int ?q \<le> (255 :: rat)" "0 \<le> (of_int ?q :: rat)" using q by simp_all
    then have x1: "0 \<le> ?x" "?x < 1 - 1 / 16777216" using x by linarith+
    from x1 have "\<bar>?x\<bar> < 2 powi 0" unfolding power_int_0_right by linarith
    from rnd_error_below [OF this] have "\<bar>?y - ?x\<bar> \<le> 2 powi (- 24) / 2" by simp
    then have dy: "\<bar>?y - ?x\<bar> \<le> 1 / 33554432" by (simp add: power_int_minus)
    have "?y - ?x \<le> 1 / 33554432" "?x - ?y \<le> 1 / 33554432"
      using dy unfolding abs_le_iff by linarith+
    then have "?y * 256 < 256" "- (?y * 256) < 256" using x1 by linarith+
    then have "\<bar>?y * 256\<bar> < 2 powi 8" by (simp only: abs_less_iff) simp
    then have "\<bar>z - ?y * 256\<bar> \<le> 2 powi (- 16) / 2"
      unfolding z_def using rnd_error_below [of "?y * 256" 8] by simp
    then have dz: "\<bar>z - ?y * 256\<bar> \<le> 1 / 131072" by (simp add: power_int_minus)
    have "of_int ?q < z" "z < of_int ?q + 1" using dy dz x by linarith+
    then show ?thesis using q by (auto intro!: floor_unique)
  qed
  then show "0 \<le> z" and "\<lfloor>z\<rfloor> = ?q" by auto
  show "0 \<le> ?q" and "?q < 256" by (fact q)+
qed

lemma fraction_lost_exact:
  assumes "lost < expected" and "expected < 65536"
  shows "fraction_lost impl lost expected = word_of_int (256 * uint lost div uint expected)"
proof -
  let ?l = "uint lost" and ?e = "uint expected"
  have b: "0 \<le> ?l" "?l < ?e" "?e < 65536"
    using assms by (simp_all add: word_less_def)
  let ?x = "of_int ?l / of_int ?e :: rat"
  have fi: "f_of_int F32 ?l = Fin (of_int ?l)" "f_of_int F32 ?e = Fin (of_int ?e)"
    "f_of_int F32 256 = Fin 256"
    using b f_of_int_F32 [of ?l] f_of_int_F32 [of ?e] f_of_int_F32 [of 256] by simp_all
  have x: "\<bar>?x\<bar> \<le> 2 ^ 0" using b(1,2) by (rule ratio_le_1)
  have e0: "(of_int ?e :: rat) \<noteq> 0" unfolding of_int_eq_0_iff using b by linarith
  have y: "\<bar>rnd F32 ?x * 256\<bar> \<le> 2 ^ 8" using rnd_abs_le_pow [OF x, of F32] by (simp add: abs_mult)
  have "f_mul F32 (f_div F32 (f_of_int F32 ?l) (f_of_int F32 ?e)) (f_of_int F32 256)
      = Fin (rnd F32 (rnd F32 ?x * 256))"
    using e0 f_norm_Fin [OF x, of F32] f_norm_Fin [OF y, of F32] by (simp add: fi)
  moreover note floor_scaled [OF b]
  ultimately show ?thesis
    by (simp add: fraction_lost_def Let_def f_to_word_def trunc_rat_def)
qed

section \<open>The reception report\<close>

lemma ucast_diff_16: "(ucast (x - y :: u32) :: u16) = ucast x - ucast y"
  using ucast_add_16 [of "x - y" y] by (simp add: algebra_simps)

lemma card_missing_less:
  assumes "head \<in> got" and "0 < n"
  shows "card {m. head - int n < m \<and> m \<le> head \<and> m \<notin> got} < n"
proof -
  have "{m. head - int n < m \<and> m \<le> head \<and> m \<notin> got} \<subseteq> {head - int n <..< head}"
    using assms by (auto simp: order.order_iff_strict)
  then have "card {m. head - int n < m \<and> m \<le> head \<and> m \<notin> got} \<le> card {head - int n <..< head}"
    by (intro card_mono) simp_all
  also have "\<dots> = n - 1" using assms(2) by simp
  finally show ?thesis using assms(2) by simp
qed

lemma word_max: "(if (a :: u8) > b then a else b) = max a b"
  by (auto simp: max_def)

lemma map_of_alist_update [simp]: "map_of (AList.update k v xs) k = Some v"
  by (simp add: update_conv')


text \<open>A stream that has received packet 7, with a snapshot taken when 5 was expected next.\<close>

definition sample_stats :: rtp_stats where
  "sample_stats = (set_ring (ring_push 2048 (sn_info_zero\<lparr>pktSize := 112\<rparr>)
       (ring_of (new_rtp_stats \<lparr>ClockRate = 90000, IsReceiverReportDriven = False\<rparr>)))
     (new_rtp_stats \<lparr>ClockRate = 90000, IsReceiverReportDriven = False\<rparr>))
     \<lparr>initialized := True, extStartSN := 5, highestSN := 7, snapshots := [(1, snapshot_at 0 5)]\<rparr>"

lemma sample_stats_facts:
  "stats_inv sample_stats" "initialized sample_stats" "params sample_stats = \<lparr>ClockRate = 90000, IsReceiverReportDriven = False\<rparr>"
  "get_ext_highest_sn sample_stats = 7" "snapshots sample_stats = [(1, snapshot_at 0 5)]"
  "tracks (abs_rx sample_stats) 7 {7}"
proof -
  let ?n = "new_rtp_stats \<lparr>ClockRate = 90000, IsReceiverReportDriven = False\<rparr>"
  show "stats_inv sample_stats"
    using stats_inv_new by (simp add: sample_stats_def stats_inv_def ring.ok_push)
  show "initialized sample_stats" "snapshots sample_stats = [(1, snapshot_at 0 5)]"
    by (simp_all add: sample_stats_def)
  show "params sample_stats = \<lparr>ClockRate = 90000, IsReceiverReportDriven = False\<rparr>"
    by (simp add: sample_stats_def) (simp add: new_rtp_stats_def)
  show ext: "get_ext_highest_sn sample_stats = 7"
    by (simp add: sample_stats_def get_ext_highest_sn_def) (simp add: new_rtp_stats_def)
  have "sizes (ring_of sample_stats) = rx_shift 1 112 (\<lambda>_. 0)"
    using sizes_push [of "ring_of ?n" "[]" "sn_info_zero\<lparr>pktSize := 112\<rparr>"] stats_inv_new sizes_new
    by (simp add: sample_stats_def stats_inv_def)
  then show "tracks (abs_rx sample_stats) 7 {7}"
    using ext by (auto simp: tracks_def abs_rx_def rx_shift_def)
qed


section \<open>Updates\<close>

text \<open>
  C8: \<open>Update\<close> implements the abstract receiver. On a stream that receives packets it does not
  panic, keeps the invariant, changes the extended numbers, the loss and duplicate counts and
  the recorded sizes as the abstract receiver does, and reports as lost exactly the numbers
  between the highest one and the packet, when the packet is ahead of the next one.
\<close>

theorem update_implements_receiver:
  assumes "stats_inv r" and "receiving r"
  shows "\<exists>flow r'. rtp_update marshal_size now rtph payloadSize paddingSize packetTime r = Some (flow, r') \<and>
    stats_inv r' \<and> receiving r' \<and>
    abs_rx r' = rx_step (SequenceNumber rtph)
      (ucast (word_of_int (marshal_size rtph) + word_of_int (payloadSize + paddingSize) :: u64)) (abs_rx r) \<and>
    flow = (if rx_ahead (SequenceNumber rtph) (abs_rx r) \<and> SequenceNumber rtph \<noteq> highestSN r + 1
      then \<lparr>HasLoss = True, LossStartInclusive = highestSN r + 1,
        LossEndExclusive = SequenceNumber rtph\<rparr> else no_flow)"
  by (rule rtp_update_rx [OF assms])

lemma receiving_sample: "receiving sample_stats"
  by (simp add: receiving_def sample_stats_def) (simp add: new_rtp_stats_def is_zero_time_def)

lemma highestSN_sample: "highestSN sample_stats = 7"
  by (simp add: sample_stats_def)

theorem update_implements_receiver_witness:
  "\<exists>flow r'. rtp_update (\<lambda>_. 12) 0 (rtp_header_zero\<lparr>SequenceNumber := 10\<rparr>) 100 0 0 sample_stats = Some (flow, r') \<and>
     flow = \<lparr>HasLoss = True, LossStartInclusive = 8, LossEndExclusive = 10\<rparr>"
proof -
  have "rx_ahead 10 (abs_rx sample_stats)"
    using sample_stats_facts(4) by (simp add: rx_ahead_def abs_rx_def sn_behind_def)
  then show ?thesis
    using update_implements_receiver [OF sample_stats_facts(1) receiving_sample,
        of "\<lambda>_. 12" 0 "rtp_header_zero\<lparr>SequenceNumber := 10\<rparr>" 100 0 0] highestSN_sample
    by auto
qed

text \<open>
  A packet from before the start whose number lies before a wrap (65535, after a stream that
  began with 2) makes the number of expected packets negative: \<open>2 - 65535 + 1\<close> instead of 4.
\<close>

theorem start_wrap_miscounts:
  "\<exists>r. run_panic (receive (\<lambda>_. 12)) [sample_arrival 2, sample_arrival 65535] (new_rtp_stats prm) = Some r \<and>
     get_ext_highest_sn r - extStartSN r + 1 = - 65532"
proof -
  have "\<not> rx_ahead 65535 (rx_first 2 112)"
    by (simp add: rx_ahead_def rx_first_def sn_behind_def)
  moreover have "rx_before_start 65535 (rx_first 2 112)"
    by (simp add: rx_before_start_def rx_first_def)
  ultimately have "rxExt (rx_step 65535 112 (rx_first 2 112)) = 2"
    "rxStart (rx_step 65535 112 (rx_first 2 112)) = 65535"
    by (simp_all add: rx_step_def Let_def) (simp_all add: rx_first_def)
  note step = this
  obtain r where r: "run_panic (receive (\<lambda>_. 12)) [sample_arrival 2, sample_arrival 65535] (new_rtp_stats prm) = Some r"
    "abs_rx r = rx_step 65535 112 (rx_first 2 112)"
    using run_new_rx [of "\<lambda>_. 12" "sample_arrival 2" "[sample_arrival 65535]" prm]
    by (auto simp: rx_run_def simp del: run_panic.simps)
  then have "get_ext_highest_sn r = 2" "extStartSN r = 65535"
    using step by (metis abs_rx_def rx.select_convs(1), metis abs_rx_def rx.select_convs(2))
  then show ?thesis using r(1) by (intro exI [of _ r]) simp
qed

end
