(* ===== verification/Sequencer.thy ===== *)
theory Sequencer
  imports Vp8 GoRuntime
begin

text \<open>
  \<^verbatim>\<open>pkg/rtc/sequencer.go\<close>: the record of the packets sent on a down track, by which a
  negative acknowledgement finds the publisher's packet again. A \<open>*packetMeta\<close> is an index
  into the array \<open>meta\<close> (\<open>None\<close> is \<open>nil\<close>). Panics, and the loops of \<open>wrap\<close> that never end
  on an empty ring, are the value \<open>None\<close> of the operations.
\<close>

section \<open>Packets\<close>

record packet_meta =
  sourceSeqNo :: u16
  targetSeqNo :: u16
  pmTimestamp :: u32
  lastNack :: u32
  nacked :: u8
  pmLayer :: "8 word"
  misc :: u64
  ddBytes :: "u8 list"

definition packet_meta_zero :: packet_meta where
  "packet_meta_zero = \<lparr>sourceSeqNo = 0, targetSeqNo = 0, pmTimestamp = 0, lastNack = 0,
     nacked = 0, pmLayer = 0, misc = 0, ddBytes = []\<rparr>"

definition btoi :: "bool \<Rightarrow> int" where
  "btoi b = (if b then 1 else 0)"

definition itob :: "int \<Rightarrow> bool" where
  "itob i \<longleftrightarrow> i \<noteq> 0"

definition pack_vp8 :: "vp8 \<Rightarrow> packet_meta \<Rightarrow> packet_meta" where
  "pack_vp8 v p = p\<lparr>misc :=
     push_bit 56 (ucast (FirstByte v)) OR
     push_bit 55 (word_of_int (PictureIDPresent v AND 0x1)) OR
     push_bit 54 (word_of_int (TL0PICIDXPresent v AND 0x1)) OR
     push_bit 53 (word_of_int (TIDPresent v AND 0x1)) OR
     push_bit 52 (word_of_int (KEYIDXPresent v AND 0x1)) OR
     push_bit 51 (word_of_int (btoi (MBit v) AND 0x1)) OR
     push_bit 50 (word_of_int (btoi (IsKeyFrame v) AND 0x1)) OR
     push_bit 32 (ucast (PictureID v AND 0x7FFF)) OR
     push_bit 24 (ucast (TL0PICIDX v AND 0xFF)) OR
     push_bit 22 (ucast (TID v AND 0x3)) OR
     push_bit 21 (ucast (YBit v AND 0x1)) OR
     push_bit 16 (ucast (KEYIDX v AND 0x1F)) OR
     push_bit 8 (word_of_int (HeaderSize v AND 0xFF))\<rparr>"

definition unpack_vp8 :: "packet_meta \<Rightarrow> vp8" where
  "unpack_vp8 p = \<lparr>
     FirstByte = ucast (drop_bit 56 (misc p)),
     PictureIDPresent = uint (drop_bit 55 (misc p) AND 0x1),
     PictureID = ucast (drop_bit 32 (misc p) AND 0x7FFF),
     MBit = itob (uint (drop_bit 51 (misc p) AND 0x1)),
     TL0PICIDXPresent = uint (drop_bit 54 (misc p) AND 0x1),
     TL0PICIDX = ucast (drop_bit 24 (misc p) AND 0xFF),
     TIDPresent = uint (drop_bit 53 (misc p) AND 0x1),
     TID = ucast (drop_bit 22 (misc p) AND 0x3),
     YBit = ucast (drop_bit 21 (misc p) AND 0x1),
     KEYIDXPresent = uint (drop_bit 52 (misc p) AND 0x1),
     KEYIDX = ucast (drop_bit 16 (misc p) AND 0x1F),
     HeaderSize = uint (drop_bit 8 (misc p) AND 0xFF),
     IsKeyFrame = itob (uint (drop_bit 50 (misc p) AND 0x1))\<rparr>"

section \<open>The sequencer\<close>

definition defaultRtt :: u32 where "defaultRtt = 70"
definition ignoreRetransmission :: u32 where "ignoreRetransmission = 100"

record sequencer =
  sqInit :: bool
  sqMax :: int
  sqSeq :: "nat option list"
  sqMeta :: "packet_meta list"
  sqMetaWritePtr :: int
  sqStep :: int
  sqHeadSN :: u16
  sqStartTime :: int
  sqRtt :: u32

definition new_sequencer :: "gotime \<Rightarrow> int \<Rightarrow> int \<Rightarrow> sequencer option" where
  "new_sequencer now maxTrack maxPadding =
     (if maxTrack + maxPadding < 0 \<or> maxTrack < 0 then None
      else Some \<lparr>sqInit = False, sqMax = maxTrack + maxPadding,
        sqSeq = replicate (nat (maxTrack + maxPadding)) None,
        sqMeta = replicate (nat maxTrack) packet_meta_zero, sqMetaWritePtr = 0, sqStep = 0,
        sqHeadSN = 0, sqStartTime = go_div (unix_nano now) 1000000, sqRtt = defaultRtt\<rparr>)"

definition sq_set_rtt :: "u32 \<Rightarrow> sequencer \<Rightarrow> sequencer" where
  "sq_set_rtt rtt s = (if rtt = 0 then s\<lparr>sqRtt := defaultRtt\<rparr> else s\<lparr>sqRtt := rtt\<rparr>)"

text \<open>The two loops of \<open>wrap\<close>.\<close>

partial_function (option) wrap_up :: "int \<Rightarrow> int \<Rightarrow> int option" where
  [code]: "wrap_up n slot = (if slot < 0 then wrap_up n (slot + n) else Some slot)"

partial_function (option) wrap_down :: "int \<Rightarrow> int \<Rightarrow> int option" where
  [code]: "wrap_down n slot = (if slot \<ge> n then wrap_down n (slot - n) else Some slot)"

definition sq_wrap :: "sequencer \<Rightarrow> int \<Rightarrow> int option" where
  "sq_wrap s slot = Option.bind (wrap_up (sqMax s) slot) (wrap_down (sqMax s))"

text \<open>The slot of a number; \<open>None\<close> inside is the code's \<open>false\<close>.\<close>

definition sq_get_slot :: "u16 \<Rightarrow> sequencer \<Rightarrow> (int option \<times> sequencer) option" where
  "sq_get_slot offSn s = do {
     let s = (if \<not> sqInit s then s\<lparr>sqHeadSN := offSn - 1, sqInit := True\<rparr> else s);
     let diff = offSn - sqHeadSN s;
     if diff = 0 then Some (None, s)
     else if diff > 2 ^ 15 then
       (let back = uint (sqHeadSN s - offSn) in
        if back \<ge> sqMax s then Some (None, s)
        else do { slot \<leftarrow> sq_wrap s (sqStep s - back - 1); Some (Some slot, s) })
     else do {
       let s = s\<lparr>sqHeadSN := offSn\<rparr>;
       s \<leftarrow> run_panic (\<lambda>idx s. do {
           i \<leftarrow> sq_wrap s (sqStep s + int idx);
           q \<leftarrow> go_update (sqSeq s) i None;
           Some (s\<lparr>sqSeq := q\<rparr>) }) [0..<unat diff - 1] s;
       let slot = sqStep s + uint diff - 1;
       step \<leftarrow> sq_wrap s (sqStep s + uint diff);
       let s = s\<lparr>sqStep := step\<rparr>;
       slot \<leftarrow> sq_wrap s slot;
       Some (Some slot, s) } }"

definition sq_push :: "u16 \<Rightarrow> u16 \<Rightarrow> u32 \<Rightarrow> 8 word \<Rightarrow> sequencer \<Rightarrow> (nat option \<times> sequencer) option" where
  "sq_push sn offSn ts layer s = do {
     (slot, s) \<leftarrow> sq_get_slot offSn s;
     case slot of None \<Rightarrow> Some (None, s) | Some slot \<Rightarrow> do {
       let i = sqMetaWritePtr s;
       metas \<leftarrow> go_update (sqMeta s) i
         (packet_meta_zero\<lparr>sourceSeqNo := sn, targetSeqNo := offSn, pmTimestamp := ts, pmLayer := layer\<rparr>);
       q \<leftarrow> go_update (sqSeq s) slot (Some (nat i));
       let ptr = (if i + 1 \<ge> int (length metas) then i + 1 - int (length metas) else i + 1);
       Some (Some (nat i), s\<lparr>sqMeta := metas, sqSeq := q, sqMetaWritePtr := ptr\<rparr>) } }"

definition sq_push_padding :: "u16 \<Rightarrow> sequencer \<Rightarrow> sequencer option" where
  "sq_push_padding offSn s = do {
     (slot, s) \<leftarrow> sq_get_slot offSn s;
     case slot of None \<Rightarrow> Some s | Some slot \<Rightarrow> do {
       q \<leftarrow> go_update (sqSeq s) slot None;
       Some (s\<lparr>sqSeq := q\<rparr>) } }"

text \<open>
  One round of the loop of \<open>getPacketsMeta\<close>; its state is the slice built so far, of pointers
  to the entries, and the sequencer. \<^verbatim>\<open>uint32(math.Min(float64(100), float64(2*s.rtt)))\<close> is exact.
\<close>

definition sq_nack_one ::
  "u32 \<Rightarrow> u16 \<Rightarrow> nat list \<times> sequencer \<Rightarrow> (nat list \<times> sequencer) option"
where
  "sq_nack_one refTime sn = (\<lambda>(metas, s).
     let diff = sqHeadSN s - sn in
     if diff > 2 ^ 15 \<or> uint diff \<ge> sqMax s then Some (metas, s)
     else do {
       slot \<leftarrow> sq_wrap s (sqStep s - uint diff - 1);
       e \<leftarrow> go_index (sqSeq s) slot;
       case e of None \<Rightarrow> Some (metas, s) | Some i \<Rightarrow> do {
         m \<leftarrow> go_index (sqMeta s) (int i);
         if targetSeqNo m \<noteq> sn then Some (metas, s)
         else if lastNack m = 0 \<or> refTime - lastNack m > min ignoreRetransmission (2 * sqRtt s) then
           Some (metas @ [i], s\<lparr>sqMeta := (sqMeta s)[i := m\<lparr>nacked := nacked m + 1, lastNack := refTime\<rparr>]\<rparr>)
         else Some (metas, s) } })"

definition sq_ref_time :: "gotime \<Rightarrow> sequencer \<Rightarrow> u32" where
  "sq_ref_time now s = word_of_int (go_div (unix_nano now) 1000000 - sqStartTime s)"

definition sq_get_packets_meta :: "gotime \<Rightarrow> u16 list \<Rightarrow> sequencer \<Rightarrow> (nat list \<times> sequencer) option" where
  "sq_get_packets_meta now seqNo s = run_panic (sq_nack_one (sq_ref_time now s)) seqNo ([], s)"

end
