(* ===== verification/SequencerSpec.thy ===== *)
theory SequencerSpec
  imports Sequencer
begin

text \<open>
  What the sequencer promises: its two rings are windows of the recent packets, no operation
  panics or loops, a packet is found again until it has aged out of either ring, and a
  repeated request is answered once per round trip.
\<close>

section \<open>Wrapping\<close>

lemma wrap_up_eq: "0 < n \<Longrightarrow> wrap_up n slot = Some (if slot < 0 then slot mod n else slot)"
proof (induction "nat (- slot)" arbitrary: slot rule: less_induct)
  case less
  show ?case
  proof (cases "slot < 0")
    case True
    then have "wrap_up n (slot + n) = Some (if slot + n < 0 then (slot + n) mod n else slot + n)"
      using less by (intro less.hyps) auto
    moreover have "slot + n = slot mod n" if "\<not> slot + n < 0"
      using that True less.prems mod_pos_pos_trivial [of "slot + n" n] by simp
    ultimately show ?thesis using True by (subst wrap_up.simps) auto
  qed (subst wrap_up.simps, simp)
qed

lemma wrap_down_eq: "0 < n \<Longrightarrow> wrap_down n slot = Some (if slot \<ge> n then slot mod n else slot)"
proof (induction "nat slot" arbitrary: slot rule: less_induct)
  case less
  show ?case
  proof (cases "slot \<ge> n")
    case True
    then have "wrap_down n (slot - n) = Some (if slot - n \<ge> n then (slot - n) mod n else slot - n)"
      using less by (intro less.hyps) auto
    moreover have "slot - n = slot mod n" if "\<not> slot - n \<ge> n"
      using that True less.prems mod_pos_pos_trivial [of "slot - n" n]
      by (simp add: mod_diff_right_eq minus_mod_self2)
    ultimately show ?thesis using True by (subst wrap_down.simps) (auto simp: minus_mod_self2)
  qed (subst wrap_down.simps, simp)
qed

lemma sq_wrap_mod:
  assumes "0 < sqMax s"
  shows "sq_wrap s slot = Some (slot mod sqMax s)"
proof (cases "slot < 0")
  case True
  then show ?thesis
    using assms pos_mod_bound [OF assms, of slot]
    by (simp add: sq_wrap_def wrap_up_eq wrap_down_eq)
next
  case False
  then show ?thesis
    using assms by (simp add: sq_wrap_def wrap_up_eq wrap_down_eq mod_pos_pos_trivial)
qed

section \<open>The two rings\<close>

definition sq_slots :: "sequencer \<Rightarrow> nat option list \<times> int" where
  "sq_slots s = (sqSeq s, sqStep s)"

definition sq_metas :: "sequencer \<Rightarrow> packet_meta list \<times> int" where
  "sq_metas s = (sqMeta s, sqMetaWritePtr s)"

definition entry_ok :: "nat \<Rightarrow> nat option \<Rightarrow> bool" where
  "entry_ok n e = (case e of None \<Rightarrow> True | Some i \<Rightarrow> i < n)"

definition sq_inv :: "sequencer \<Rightarrow> bool" where
  "sq_inv s \<longleftrightarrow> 0 < sqMax s \<and> ring_ok (nat (sqMax s)) (sq_slots s) \<and>
     ring_ok (length (sqMeta s)) (sq_metas s) \<and>
     list_all (entry_ok (length (sqMeta s))) (sqSeq s)"

text \<open>A number of empty slots pushed onto the ring.\<close>

definition ring_pad :: "nat \<Rightarrow> nat \<Rightarrow> 'x option list \<times> int \<Rightarrow> 'x option list \<times> int" where
  "ring_pad N n p = fold (ring_push N) (replicate n None) p"

lemma ring_pad_0 [simp]: "ring_pad N 0 p = p"
  by (simp add: ring_pad_def)

lemma ring_pad_Suc: "ring_pad N (Suc n) p = ring_push N None (ring_pad N n p)"
  by (simp add: ring_pad_def funpow_swap1)

lemma ring_pad_ok: "ring_ok N p \<Longrightarrow> ring_ok N (ring_pad N n p)"
  by (simp only: ring_pad_def ring.ok_push_many)

lemma ring_pad_pos: "ring_ok N p \<Longrightarrow> snd (ring_pad N n p) = (snd p + int n) mod int N"
proof (induction n)
  case (Suc n)
  then show ?case
    by (simp add: ring_pad_Suc ring_push_def split_beta mod_add_left_eq) (simp add: add_ac)
qed (simp add: ring_ok_def split_beta)

lemma ring_pad_get:
  "ring_ok N p \<Longrightarrow> k < N \<Longrightarrow> ring_get N k (ring_pad N n p) = (if k < n then None else ring_get N (k - n) p)"
  by (simp add: ring_pad_def ring.get_push_many del: fold_replicate)

text \<open>The clearing loop pushes empty slots, without moving the write position yet.\<close>

lemma clear_slots:
  assumes "sq_inv s"
  shows "run_panic (\<lambda>idx s. do {
           i \<leftarrow> sq_wrap s (sqStep s + int idx);
           q \<leftarrow> go_update (sqSeq s) i None;
           Some (s\<lparr>sqSeq := q\<rparr>) }) [0..<n] s =
    Some (s\<lparr>sqSeq := fst (ring_pad (nat (sqMax s)) n (sq_slots s))\<rparr>)"
proof (induction n)
  case 0
  then show ?case by (simp add: sq_slots_def)
next
  case (Suc n)
  let ?N = "nat (sqMax s)" and ?p = "ring_pad (nat (sqMax s)) n (sq_slots s)"
  have N: "0 < sqMax s" "int ?N = sqMax s" and ok: "ring_ok ?N (sq_slots s)"
    using assms by (simp_all add: sq_inv_def)
  have pos: "snd ?p = (sqStep s + int n) mod sqMax s"
    using ring_pad_pos [OF ok, of n] N by (simp add: sq_slots_def)
  have len: "length (fst ?p) = ?N" using ring_pad_ok [OF ok, of n] by (simp add: ring_ok_def split_beta)
  have up: "go_update (fst ?p) ((sqStep s + int n) mod sqMax s) None =
      Some ((fst ?p)[nat ((sqStep s + int n) mod sqMax s) := None])"
    using len N by (intro go_update_Some) simp_all
  have "sq_wrap (s\<lparr>sqSeq := q\<rparr>) i = Some (i mod sqMax s)" for q i
    using sq_wrap_mod [of "s\<lparr>sqSeq := q\<rparr>"] N by simp
  then show ?case
    by (simp add: run_panic_append Suc.IH up) (simp add: ring_pad_Suc ring_push_def split_beta pos)
qed

section \<open>What a push does\<close>

definition sq_started :: "u16 \<Rightarrow> sequencer \<Rightarrow> sequencer" where
  "sq_started off s = (if \<not> sqInit s then s\<lparr>sqHeadSN := off - 1, sqInit := True\<rparr> else s)"

abbreviation sq_head :: "u16 \<Rightarrow> sequencer \<Rightarrow> u16" where
  "sq_head off s \<equiv> sqHeadSN (sq_started off s)"

definition sq_valid :: "u16 \<Rightarrow> sequencer \<Rightarrow> bool" where
  "sq_valid off s \<longleftrightarrow> off \<noteq> sq_head off s \<and>
     (sn_behind (sq_head off s) off \<longrightarrow> int (age (sq_head off s) off) < sqMax s)"

text \<open>The ring of slots once the number \<open>off\<close> has been given the entry \<open>x\<close>.\<close>

definition slots_after :: "u16 \<Rightarrow> nat option \<Rightarrow> sequencer \<Rightarrow> nat option list \<times> int" where
  "slots_after off x s =
     (let N = nat (sqMax s); h = sq_head off s in
      if sn_behind h off then ring_put N (age h off) x (sq_slots s)
      else ring_push N x (ring_pad N (unat (off - h) - 1) (sq_slots s)))"

definition head_after :: "u16 \<Rightarrow> sequencer \<Rightarrow> u16" where
  "head_after off s = (if sn_behind (sq_head off s) off then sq_head off s else off)"

lemma sq_started_simps [simp]:
  "sqMax (sq_started off s) = sqMax s" "sqSeq (sq_started off s) = sqSeq s"
  "sqMeta (sq_started off s) = sqMeta s" "sqMetaWritePtr (sq_started off s) = sqMetaWritePtr s"
  "sqStep (sq_started off s) = sqStep s" "sqRtt (sq_started off s) = sqRtt s"
  "sqStartTime (sq_started off s) = sqStartTime s" "sqInit (sq_started off s)"
  "sq_slots (sq_started off s) = sq_slots s" "sq_metas (sq_started off s) = sq_metas s"
  "sq_inv (sq_started off s) = sq_inv s"
  by (simp_all add: sq_started_def sq_slots_def sq_metas_def sq_inv_def)

text \<open>
  The slot that \<open>getSlot\<close> returns for a valid number, and the state it leaves: storing an
  entry there yields the ring after the push.
\<close>

lemma sq_get_slot_invalid:
  assumes "\<not> sq_valid off s"
  shows "sq_get_slot off s = Some (None, sq_started off s)"
proof -
  have "uint (sq_head off s - off) = int (age (sq_head off s) off)" by (simp add: age_def)
  moreover have "(if \<not> sqInit s then s\<lparr>sqHeadSN := off - 1, sqInit := True\<rparr> else s) = sq_started off s"
    by (simp add: sq_started_def)
  ultimately show ?thesis
    using assms unfolding sq_get_slot_def Let_def by (auto simp: sq_valid_def sn_behind_def)
qed

lemma sq_get_slot_valid:
  assumes inv: "sq_inv s" and v: "sq_valid off s"
  shows "\<exists>slot s1. sq_get_slot off s = Some (Some slot, s1) \<and>
    0 \<le> slot \<and> slot < int (length (sqSeq s1)) \<and>
    ((sqSeq s1)[nat slot := x], sqStep s1) = slots_after off x s \<and>
    s1 = (sq_started off s)\<lparr>sqHeadSN := head_after off s, sqSeq := sqSeq s1, sqStep := sqStep s1\<rparr>"
proof -
  let ?s = "sq_started off s" and ?h = "sq_head off s" and ?N = "nat (sqMax s)"
  have N: "0 < sqMax s" "int ?N = sqMax s" "0 < ?N" and ok: "ring_ok ?N (sq_slots s)"
    using inv by (simp_all add: sq_inv_def)
  have len: "length (sqSeq s) = ?N" using ok by (simp add: ring_ok_def sq_slots_def)
  have d0: "off - ?h \<noteq> 0" using v by (simp add: sq_valid_def)
  have a: "uint (?h - off) = int (age ?h off)" by (simp add: age_def)
  have w: "sq_wrap (?s\<lparr>sqHeadSN := x, sqSeq := q, sqStep := y\<rparr>) i = Some (i mod sqMax s)"
    "sq_wrap (?s\<lparr>sqHeadSN := x, sqSeq := q\<rparr>) i = Some (i mod sqMax s)"
    "sq_wrap ?s i = Some (i mod sqMax s)" for x q y i
    using N by (simp_all add: sq_wrap_mod)
  have st: "(if \<not> sqInit s then s\<lparr>sqHeadSN := off - 1, sqInit := True\<rparr> else s) = ?s"
    by (simp add: sq_started_def)
  show ?thesis
  proof (cases "sn_behind ?h off")
    case True
    let ?slot = "back_slot (sqMax s) (sqStep s) (int (age ?h off))"
    have b: "\<not> int (age ?h off) \<ge> sqMax s" using v True by (simp add: sq_valid_def)
    have "sq_get_slot off s = Some (Some ?slot, ?s)"
      using True d0 b unfolding sq_get_slot_def Let_def st
      by (simp add: a w sn_behind_def back_slot_def)
    moreover have "0 \<le> ?slot" "?slot < int (length (sqSeq s))"
      using N len by (simp_all add: back_slot_range)
    moreover have "((sqSeq s)[nat ?slot := x], sqStep s) = slots_after off x s"
      using True N by (simp add: slots_after_def Let_def ring_put_def sq_slots_def)
    ultimately show ?thesis using True by (intro exI [of _ ?slot] exI [of _ ?s]) (simp add: head_after_def)
  next
    case False
    then have nb: "\<not> off - ?h > 2 ^ 15" by (simp add: sn_behind_def)
    let ?d = "unat (off - ?h)"
    let ?p = "ring_pad ?N (?d - 1) (sq_slots s)"
    let ?r = "?s\<lparr>sqHeadSN := off\<rparr>"
    have "0 < ?d" using d0 by (simp only: unat_gt_0) simp
    then have d: "uint (off - ?h) = int (?d - 1) + 1" by simp
    have invr: "sq_inv ?r" and slr: "sq_slots ?r = sq_slots s"
      using inv by (simp_all add: sq_inv_def sq_slots_def sq_metas_def)
    have run: "run_panic (\<lambda>idx s. do {
           i \<leftarrow> sq_wrap s (sqStep s + int idx);
           q \<leftarrow> go_update (sqSeq s) i None;
           Some (s\<lparr>sqSeq := q\<rparr>) }) [0..<?d - 1] ?r = Some (?r\<lparr>sqSeq := fst ?p\<rparr>)"
      using clear_slots [OF invr, of "?d - 1"] slr by simp
    have pos: "snd ?p = (sqStep s + int (?d - 1)) mod sqMax s"
      using ring_pad_pos [OF ok, of "?d - 1"] N by (simp add: sq_slots_def)
    let ?slot = "snd ?p"
    let ?s1 = "?r\<lparr>sqSeq := fst ?p, sqStep := (sqStep s + uint (off - ?h)) mod sqMax s\<rparr>"
    have "sq_get_slot off s = Some (Some ?slot, ?s1)"
      using nb d0 unfolding sq_get_slot_def Let_def st
      by (simp add: run w pos d del: of_nat_unat One_nat_def option_bind_eq_Some)
    moreover have okp: "ring_ok ?N ?p" using ok by (rule ring_pad_ok)
    then have "0 \<le> ?slot" "?slot < int (length (fst ?p))"
      by (simp_all add: ring_ok_def split_beta)
    moreover have "((fst ?p)[nat ?slot := x], (sqStep s + uint (off - ?h)) mod sqMax s) = slots_after off x s"
    proof -
      have "(sqStep s + uint (off - ?h)) mod sqMax s = (?slot + 1) mod sqMax s"
        by (simp only: pos d mod_add_left_eq add.assoc)
      then show ?thesis
        using False N by (simp add: slots_after_def Let_def ring_push_def split_beta)
    qed
    ultimately show ?thesis
      using False by (intro exI [of _ ?slot] exI [of _ ?s1]) (simp add: head_after_def)
  qed
qed

lemma slots_after_ok: "sq_inv s \<Longrightarrow> ring_ok (nat (sqMax s)) (slots_after off x s)"
  by (simp add: sq_inv_def slots_after_def Let_def ring.ok_put ring.ok_push ring_pad_ok)

lemma entries_push: "list_all P (fst p) \<Longrightarrow> P x \<Longrightarrow> list_all P (fst (ring_push N x p))"
  by (simp add: ring_push_def split_beta list_all_update)

lemma entries_pad: "list_all P (fst p) \<Longrightarrow> P None \<Longrightarrow> list_all P (fst (ring_pad N n p))"
  by (induction n) (simp_all add: ring_pad_Suc entries_push)

lemma slots_after_entries:
  assumes "sq_inv s" and "entry_ok (length (sqMeta s)) x"
  shows "list_all (entry_ok (length (sqMeta s))) (fst (slots_after off x s))"
proof -
  have e: "list_all (entry_ok (length (sqMeta s))) (fst (sq_slots s))"
    using assms(1) by (simp add: sq_inv_def sq_slots_def)
  have "entry_ok (length (sqMeta s)) None" by (simp add: entry_ok_def)
  then show ?thesis
    using assms(2) e
    by (simp add: slots_after_def Let_def entries_push entries_pad)
      (simp add: ring_put_def split_beta list_all_update)
qed

definition new_meta :: "u16 \<Rightarrow> u16 \<Rightarrow> u32 \<Rightarrow> 8 word \<Rightarrow> packet_meta" where
  "new_meta sn off ts layer = packet_meta_zero\<lparr>sourceSeqNo := sn, targetSeqNo := off,
     pmTimestamp := ts, pmLayer := layer\<rparr>"

lemma ring_ptr_step:
  "0 \<le> i \<Longrightarrow> i < int n \<Longrightarrow> (if i + 1 \<ge> int n then i + 1 - int n else i + 1) = (i + 1) mod int n"
  by (cases "i + 1 = int n") (simp_all add: mod_pos_pos_trivial)

lemma sq_push_valid:
  assumes inv: "sq_inv s" and v: "sq_valid off s"
  shows "\<exists>s'. sq_push sn off ts layer s = Some (Some (nat (sqMetaWritePtr s)), s') \<and> sq_inv s' \<and>
    sqInit s' \<and> sqMax s' = sqMax s \<and> sqHeadSN s' = head_after off s \<and> sqRtt s' = sqRtt s \<and>
    sqStartTime s' = sqStartTime s \<and> sq_slots s' = slots_after off (Some (nat (sqMetaWritePtr s))) s \<and>
    sq_metas s' = ring_push (length (sqMeta s)) (new_meta sn off ts layer) (sq_metas s)"
proof -
  let ?i = "sqMetaWritePtr s" and ?M = "length (sqMeta s)"
  obtain slot s1 where g: "sq_get_slot off s = Some (Some slot, s1)"
    and slot: "0 \<le> slot" "slot < int (length (sqSeq s1))"
    and ring: "((sqSeq s1)[nat slot := Some (nat ?i)], sqStep s1) = slots_after off (Some (nat ?i)) s"
    and s1: "s1 = (sq_started off s)\<lparr>sqHeadSN := head_after off s, sqSeq := sqSeq s1, sqStep := sqStep s1\<rparr>"
    using sq_get_slot_valid [OF inv v] by blast
  have f: "sqMeta s1 = sqMeta s" "sqMetaWritePtr s1 = ?i" "sqMax s1 = sqMax s" "sqInit s1"
    "sqRtt s1 = sqRtt s" "sqStartTime s1 = sqStartTime s" "sqHeadSN s1 = head_after off s"
    by (subst s1, simp)+
  have i: "0 \<le> ?i" "?i < int ?M" and N: "0 < sqMax s"
    using inv by (simp_all add: sq_inv_def ring_ok_def sq_metas_def)
  let ?s' = "s1\<lparr>sqMeta := (sqMeta s)[nat ?i := new_meta sn off ts layer],
    sqSeq := (sqSeq s1)[nat slot := Some (nat ?i)], sqMetaWritePtr := (?i + 1) mod int ?M\<rparr>"
  have ptr: "(if ?i + 1 \<ge> int ?M then ?i + 1 - int ?M else ?i + 1) = (?i + 1) mod int ?M"
    using i by (rule ring_ptr_step)
  have "go_update (sqMeta s1) (sqMetaWritePtr s1) (new_meta sn off ts layer) =
      Some ((sqMeta s)[nat ?i := new_meta sn off ts layer])"
    "go_update (sqSeq s1) slot (Some (nat (sqMetaWritePtr s1))) = Some ((sqSeq s1)[nat slot := Some (nat ?i)])"
    using i slot f by (simp_all add: go_update_Some)
  then have "sq_push sn off ts layer s = Some (Some (nat ?i), ?s')"
    using ptr unfolding sq_push_def g Let_def new_meta_def
    by (cases "int ?M \<le> ?i + 1") (simp_all add: f del: option_bind_eq_Some)
  moreover have slots: "sq_slots ?s' = slots_after off (Some (nat ?i)) s"
    by (simp add: sq_slots_def ring)
  moreover have metas: "sq_metas ?s' = ring_push ?M (new_meta sn off ts layer) (sq_metas s)"
    by (simp add: sq_metas_def ring_push_def)
  moreover have "sq_inv ?s'"
  proof -
    have e: "entry_ok ?M (Some (nat ?i))" using i by (simp add: entry_ok_def)
    have "fst (sq_slots ?s') = sqSeq ?s'" by (simp add: sq_slots_def)
    then have "list_all (entry_ok ?M) (sqSeq ?s')"
      using slots_after_entries [OF inv e, of off] slots by simp
    moreover have "ring_ok ?M (sq_metas ?s')"
      using inv metas by (simp add: sq_inv_def ring.ok_push)
    ultimately show ?thesis
      using N slots_after_ok [OF inv] slots by (simp add: sq_inv_def f)
  qed
  ultimately show ?thesis using f by (intro exI [of _ ?s']) simp
qed

lemma sq_push_invalid: "\<not> sq_valid off s \<Longrightarrow> sq_push sn off ts layer s = Some (None, sq_started off s)"
  by (simp add: sq_push_def sq_get_slot_invalid)

lemma sq_push_padding_valid:
  assumes inv: "sq_inv s" and v: "sq_valid off s"
  shows "\<exists>s'. sq_push_padding off s = Some s' \<and> sq_inv s' \<and>
    sqInit s' \<and> sqMax s' = sqMax s \<and> sqHeadSN s' = head_after off s \<and> sqRtt s' = sqRtt s \<and>
    sqStartTime s' = sqStartTime s \<and> sq_slots s' = slots_after off None s \<and> sq_metas s' = sq_metas s"
proof -
  obtain slot s1 where g: "sq_get_slot off s = Some (Some slot, s1)"
    and slot: "0 \<le> slot" "slot < int (length (sqSeq s1))"
    and ring: "((sqSeq s1)[nat slot := None], sqStep s1) = slots_after off None s"
    and s1: "s1 = (sq_started off s)\<lparr>sqHeadSN := head_after off s, sqSeq := sqSeq s1, sqStep := sqStep s1\<rparr>"
    using sq_get_slot_valid [OF inv v] by blast
  have f: "sqMeta s1 = sqMeta s" "sqMetaWritePtr s1 = sqMetaWritePtr s" "sqMax s1 = sqMax s" "sqInit s1"
    "sqRtt s1 = sqRtt s" "sqStartTime s1 = sqStartTime s" "sqHeadSN s1 = head_after off s"
    by (subst s1, simp)+
  let ?s' = "s1\<lparr>sqSeq := (sqSeq s1)[nat slot := None]\<rparr>"
  have "sq_push_padding off s = Some ?s'"
    unfolding sq_push_padding_def g using slot by (simp add: go_update_Some)
  moreover have slots: "sq_slots ?s' = slots_after off None s"
    by (simp add: sq_slots_def ring)
  moreover have metas: "sq_metas ?s' = sq_metas s"
    by (simp add: sq_metas_def f)
  moreover have "sq_inv ?s'"
  proof -
    have e: "entry_ok (length (sqMeta s)) None" by (simp add: entry_ok_def)
    have "fst (sq_slots ?s') = sqSeq ?s'" by (simp add: sq_slots_def)
    then have "list_all (entry_ok (length (sqMeta s))) (sqSeq ?s')"
      using slots_after_entries [OF inv e, of off] slots by simp
    then show ?thesis
      using inv slots_after_ok [OF inv] slots metas by (simp add: sq_inv_def f)
  qed
  ultimately show ?thesis using f by (intro exI [of _ ?s']) simp
qed

lemma sq_push_padding_invalid: "\<not> sq_valid off s \<Longrightarrow> sq_push_padding off s = Some (sq_started off s)"
  by (simp add: sq_push_padding_def sq_get_slot_invalid)

section \<open>Lookups\<close>

text \<open>The entry that a request for \<open>sn\<close> finds.\<close>

definition sq_lookup :: "u16 \<Rightarrow> sequencer \<Rightarrow> nat option" where
  "sq_lookup sn s =
     (let k = age (sqHeadSN s) sn in
      if k \<le> 2 ^ 15 \<and> int k < sqMax s then
        case ring_get (nat (sqMax s)) k (sq_slots s) of None \<Rightarrow> None
        | Some i \<Rightarrow> if targetSeqNo (sqMeta s ! i) = sn then Some i else None
      else None)"

definition nack_due :: "u32 \<Rightarrow> packet_meta \<Rightarrow> sequencer \<Rightarrow> bool" where
  "nack_due refTime m s \<longleftrightarrow>
     lastNack m = 0 \<or> refTime - lastNack m > min ignoreRetransmission (2 * sqRtt s)"

definition nack_mark :: "u32 \<Rightarrow> nat \<Rightarrow> sequencer \<Rightarrow> sequencer" where
  "nack_mark refTime i s = s\<lparr>sqMeta := (sqMeta s)[i := (sqMeta s ! i)
     \<lparr>nacked := nacked (sqMeta s ! i) + 1, lastNack := refTime\<rparr>]\<rparr>"

lemma nack_mark_inv:
  assumes "sq_inv s"
  shows "sq_inv (nack_mark t i s)"
proof -
  let ?s = "nack_mark t i s"
  have "sqMax ?s = sqMax s" "sq_slots ?s = sq_slots s" "length (sqMeta ?s) = length (sqMeta s)"
    "sqSeq ?s = sqSeq s" by (simp_all add: nack_mark_def sq_slots_def)
  moreover have "ring_ok (length (sqMeta s)) (sq_metas ?s)"
    using assms by (simp add: sq_inv_def nack_mark_def sq_metas_def ring_ok_def)
  ultimately show ?thesis using assms by (simp add: sq_inv_def)
qed

lemma lookup_entry:
  assumes "sq_inv s" and "int k < sqMax s" and "ring_get (nat (sqMax s)) k (sq_slots s) = Some i"
  shows "i < length (sqMeta s)"
proof -
  let ?j = "nat (back_slot (sqMax s) (sqStep s) (int k))"
  have N: "0 < sqMax s" and len: "length (sqSeq s) = nat (sqMax s)"
    using assms(1) by (simp_all add: sq_inv_def ring_ok_def sq_slots_def)
  have "?j < length (sqSeq s)" using N len back_slot_range [of "sqMax s" "sqStep s" "int k"] by simp
  moreover have "sqSeq s ! ?j = Some i" using assms(3) N by (simp add: ring_get_def sq_slots_def)
  ultimately have "entry_ok (length (sqMeta s)) (Some i)"
    using assms(1) by (metis sq_inv_def list_all_length)
  then show ?thesis by (simp add: entry_ok_def)
qed

lemma sq_nack_one_eq:
  assumes inv: "sq_inv s"
  shows "sq_nack_one t sn (metas, s) = Some
    (case sq_lookup sn s of None \<Rightarrow> (metas, s)
     | Some i \<Rightarrow> if nack_due t (sqMeta s ! i) s then (metas @ [i], nack_mark t i s) else (metas, s))"
proof -
  let ?k = "age (sqHeadSN s) sn"
  have N: "0 < sqMax s" "int (nat (sqMax s)) = sqMax s" and len: "int (length (sqSeq s)) = sqMax s"
    using inv by (simp_all add: sq_inv_def ring_ok_def sq_slots_def)
  have a: "uint (sqHeadSN s - sn) = int ?k" by (simp add: age_def)
  have b: "sqHeadSN s - sn > 2 ^ 15 \<longleftrightarrow> \<not> ?k \<le> 2 ^ 15"
    by (simp add: age_def word_less_nat_alt not_le)
  let ?j = "back_slot (sqMax s) (sqStep s) (int ?k)"
  have w: "sq_wrap s (sqStep s - int ?k - 1) = Some ?j"
    using N by (simp add: sq_wrap_mod back_slot_def)
  have r: "go_index (sqSeq s) ?j = Some (ring_get (nat (sqMax s)) ?k (sq_slots s))"
    using N len by (simp add: go_index_def back_slot_range ring_get_def sq_slots_def)
  show ?thesis
  proof (cases "?k \<le> 2 ^ 15 \<and> int ?k < sqMax s")
    case False
    then have "sqHeadSN s - sn > 2 ^ 15 \<or> int ?k \<ge> sqMax s" using b by auto
    moreover have "sq_lookup sn s = None"
      using False unfolding sq_lookup_def Let_def by (rule if_not_P [THEN trans]) simp
    ultimately show ?thesis
      unfolding sq_nack_one_def Let_def a prod.case by (simp only: if_True option.case)
  next
    case True
    show ?thesis
    proof (cases "ring_get (nat (sqMax s)) ?k (sq_slots s)")
      case None
      then show ?thesis
        using True unfolding sq_nack_one_def Let_def
        by (simp add: a b [simplified] w r sq_lookup_def del: option_bind_eq_Some)
    next
      case (Some i)
      have "i < length (sqMeta s)" using lookup_entry [OF inv _ Some] True by simp
      then have "go_index (sqMeta s) (int i) = Some (sqMeta s ! i)" by (simp add: go_index_def)
      then show ?thesis
        using True Some unfolding sq_nack_one_def Let_def
        by (simp add: a b [simplified] w r sq_lookup_def nack_due_def nack_mark_def del: option_bind_eq_Some)
    qed
  qed
qed

end
