(* ===== verification/SequencerStore.thy ===== *)
theory SequencerStore
  imports SequencerSpec "HOL-Library.Sublist"
begin

text \<open>
  The sequencer as a store of the packets sent: the effect of every operation on what a request
  finds, runs of operations, and the properties of \<^verbatim>\<open>push\<close>, \<^verbatim>\<open>pushPadding\<close> and
  \<^verbatim>\<open>getPacketsMeta\<close> together. A run keeps \<open>sq_inv\<close>; a stored packet is followed with
  \<open>sq_holds\<close>, the answers with \<open>sq_log_ok\<close>.
\<close>


section \<open>Operations\<close>

datatype sq_event = SqPush u16 u16 u32 "8 word" | SqPad u16 | SqNack gotime "u16 list" | SqRtt u32

fun sq_step :: "sq_event \<Rightarrow> sequencer \<Rightarrow> sequencer option" where
  "sq_step (SqPush sn off ts layer) s = map_option snd (sq_push sn off ts layer s)"
| "sq_step (SqPad off) s = sq_push_padding off s"
| "sq_step (SqNack now sns) s = map_option snd (sq_get_packets_meta now sns s)"
| "sq_step (SqRtt r) s = Some (sq_set_rtt r s)"

lemma sq_started_inv: "sq_inv s \<Longrightarrow> sq_inv (sq_started off s)"
  by (simp add: sq_started_def sq_inv_def sq_slots_def sq_metas_def)

lemma sq_push_inv:
  assumes "sq_inv s"
  shows "\<exists>r s'. sq_push sn off ts layer s = Some (r, s') \<and> sq_inv s' \<and> sqMax s' = sqMax s \<and>
    length (sqMeta s') = length (sqMeta s)"
proof (cases "sq_valid off s")
  case True
  obtain s' where p: "sq_push sn off ts layer s = Some (Some (nat (sqMetaWritePtr s)), s')"
    and "sq_inv s'" "sqMax s' = sqMax s"
    and m: "sq_metas s' = ring_push (length (sqMeta s)) (new_meta sn off ts layer) (sq_metas s)"
    using sq_push_valid [OF assms True] by blast
  moreover have "length (sqMeta s') = length (sqMeta s)"
    using m by (auto simp: sq_metas_def ring_push_def)
  ultimately show ?thesis by blast
next
  case False
  then show ?thesis
    using assms sq_started_inv [OF assms, of off] by (auto simp: sq_push_invalid sq_started_def)
qed

lemma sq_push_padding_inv:
  assumes "sq_inv s"
  shows "\<exists>s'. sq_push_padding off s = Some s' \<and> sq_inv s' \<and> sqMax s' = sqMax s \<and>
    length (sqMeta s') = length (sqMeta s)"
proof (cases "sq_valid off s")
  case True
  obtain s' where "sq_push_padding off s = Some s'" "sq_inv s'" "sqMax s' = sqMax s"
    and m: "sq_metas s' = sq_metas s"
    using sq_push_padding_valid [OF assms True] by blast
  then show ?thesis by (auto simp: sq_metas_def)
next
  case False
  then show ?thesis
    using assms sq_started_inv [OF assms, of off] by (auto simp: sq_push_padding_invalid sq_started_def)
qed

text \<open>A batch of requests, one by one.\<close>

lemma nack_mark_fields [simp]:
  "sqMax (nack_mark t i s) = sqMax s" "length (sqMeta (nack_mark t i s)) = length (sqMeta s)"
  "sqSeq (nack_mark t i s) = sqSeq s" "sqStep (nack_mark t i s) = sqStep s"
  "sqHeadSN (nack_mark t i s) = sqHeadSN s" "sqRtt (nack_mark t i s) = sqRtt s"
  "sqStartTime (nack_mark t i s) = sqStartTime s" "sqMetaWritePtr (nack_mark t i s) = sqMetaWritePtr s"
  "sqInit (nack_mark t i s) = sqInit s"
  by (simp_all add: nack_mark_def)

fun nack_batch :: "u32 \<Rightarrow> u16 list \<Rightarrow> sequencer \<Rightarrow> nat list \<times> sequencer" where
  "nack_batch t [] s = ([], s)"
| "nack_batch t (sn # sns) s =
     (case sq_lookup sn s of None \<Rightarrow> nack_batch t sns s
      | Some i \<Rightarrow> if nack_due t (sqMeta s ! i) s
          then apfst (Cons i) (nack_batch t sns (nack_mark t i s)) else nack_batch t sns s)"

lemma run_nack_batch:
  "sq_inv s \<Longrightarrow> run_panic (sq_nack_one t) sns (metas, s) =
     Some (metas @ fst (nack_batch t sns s), snd (nack_batch t sns s))"
  by (induction sns arbitrary: metas s)
    (simp_all add: sq_nack_one_eq nack_mark_inv split: option.splits)

lemma sq_get_packets_meta_eq:
  "sq_inv s \<Longrightarrow> sq_get_packets_meta now sns s = Some (nack_batch (sq_ref_time now s) sns s)"
  by (simp add: sq_get_packets_meta_def run_nack_batch)

lemma nack_batch_inv:
  "sq_inv s \<Longrightarrow> sq_inv (snd (nack_batch t sns s)) \<and> sqMax (snd (nack_batch t sns s)) = sqMax s \<and>
    length (sqMeta (snd (nack_batch t sns s))) = length (sqMeta s)"
  by (induction sns arbitrary: s) (simp_all add: nack_mark_inv split: option.splits)

lemma sq_step_inv:
  assumes "sq_inv s"
  shows "\<exists>s'. sq_step e s = Some s' \<and> sq_inv s' \<and> sqMax s' = sqMax s \<and>
    length (sqMeta s') = length (sqMeta s)"
proof (cases e)
  case (SqPush sn off ts layer)
  then show ?thesis using sq_push_inv [OF assms, of sn off ts layer] by auto
next
  case (SqPad off)
  then show ?thesis using sq_push_padding_inv [OF assms] by simp
next
  case (SqNack now sns)
  then show ?thesis using nack_batch_inv [OF assms] assms by (simp add: sq_get_packets_meta_eq)
next
  case (SqRtt r)
  then show ?thesis
    using assms by (simp add: sq_set_rtt_def sq_inv_def sq_slots_def sq_metas_def)
qed

text \<open>The invariant with the sizes that a sequencer was created with.\<close>

definition sq_sized :: "int \<Rightarrow> int \<Rightarrow> sequencer \<Rightarrow> bool" where
  "sq_sized maxTrack maxPad s \<longleftrightarrow>
     sq_inv s \<and> sqMax s = maxTrack + maxPad \<and> int (length (sqMeta s)) = maxTrack"

interpretation sequencer: panic_free sq_step "\<lambda>e. True" "sq_sized m p" for m p
proof
  fix s e assume s: "sq_sized m p s"
  then have "sq_inv s" by (simp add: sq_sized_def)
  from sq_step_inv [OF this, of e] s show "\<exists>s'. sq_step e s = Some s' \<and> sq_sized m p s'"
    unfolding sq_sized_def by metis
qed

lemma new_sequencer_sized:
  assumes "0 < maxTrack" and "0 \<le> maxPad"
  shows "\<exists>s. new_sequencer now maxTrack maxPad = Some s \<and> sq_sized maxTrack maxPad s \<and>
    (\<forall>sn. sq_lookup sn s = None)"
proof -
  let ?N = "nat (maxTrack + maxPad)"
  obtain s where s: "new_sequencer now maxTrack maxPad = Some s"
    and f: "sqMax s = maxTrack + maxPad" "sqSeq s = replicate ?N None"
      "sqMeta s = replicate (nat maxTrack) packet_meta_zero" "sqMetaWritePtr s = 0" "sqStep s = 0"
    using assms by (simp add: new_sequencer_def)
  have "list_all (entry_ok n) (replicate k None)" for n k
    by (simp add: list_all_iff entry_ok_def)
  then have inv: "sq_sized maxTrack maxPad s"
    using assms by (simp add: sq_sized_def sq_inv_def sq_slots_def sq_metas_def ring_ok_def f)
  have N: "0 < maxTrack + maxPad" "int ?N = maxTrack + maxPad" using assms by simp_all
  have "ring_get ?N k (sq_slots s) = None" for k
  proof -
    have "back_slot (int ?N) 0 (int k) < int ?N" using N by (intro back_slot_range) simp
    then show ?thesis using N by (simp add: ring_get_def sq_slots_def f nth_replicate back_slot_range)
  qed
  then have "sq_lookup sn s = None" for sn
    by (simp add: sq_lookup_def f Let_def)
  with s inv show ?thesis by blast
qed

section \<open>What a push does to the lookups\<close>

text \<open>The number \<open>x\<close> is within the reach of a head \<open>h\<close> of a sequencer of \<open>N\<close> slots.\<close>

definition sq_reach :: "int \<Rightarrow> u16 \<Rightarrow> u16 \<Rightarrow> bool" where
  "sq_reach N h x \<longleftrightarrow> age h x \<le> 2 ^ 15 \<and> int (age h x) < N"

lemma sq_lookup_reach:
  "sq_lookup x s =
    (if sq_reach (sqMax s) (sqHeadSN s) x then
       Option.bind (ring_get (nat (sqMax s)) (age (sqHeadSN s) x) (sq_slots s))
         (\<lambda>i. if targetSeqNo (sqMeta s ! i) = x then Some i else None)
     else None)"
  by (simp add: sq_lookup_def sq_reach_def Let_def split: option.split)

text \<open>
  The slot of a number within reach after \<open>off\<close> was stored: the stored entry for \<open>off\<close>, nothing
  for a number that was skipped, and the old slot for a number that was within reach before.
\<close>

definition sq_skipped :: "u16 \<Rightarrow> u16 \<Rightarrow> u16 \<Rightarrow> bool" where
  "sq_skipped h off x \<longleftrightarrow> \<not> sn_behind h off \<and> x \<noteq> off \<and> age off x < unat (off - h)"

lemma not_behind_diff: "\<not> sn_behind h off \<Longrightarrow> unat (off - h) \<le> 2 ^ 15"
  by (simp add: sn_behind_def word_less_nat_alt)

lemma slots_after_get:
  assumes inv: "sq_inv s" and v: "sq_valid off s" and r: "sq_reach (sqMax s) (head_after off s) x"
  shows "ring_get (nat (sqMax s)) (age (head_after off s) x) (slots_after off y s) =
    (if x = off then y else if sq_skipped (sq_head off s) off x then None
     else ring_get (nat (sqMax s)) (age (sq_head off s) x) (sq_slots s)) \<and>
    (x = off \<or> sq_skipped (sq_head off s) off x \<or> sq_reach (sqMax s) (sq_head off s) x)"
proof -
  let ?h = "sq_head off s" and ?N = "nat (sqMax s)"
  have N: "0 < sqMax s" and ok: "ring_ok ?N (sq_slots s)" using inv by (simp_all add: sq_inv_def)
  show ?thesis
  proof (cases "sn_behind ?h off")
    case True
    then have h: "head_after off s = ?h" by (simp add: head_after_def)
    have "age ?h off < ?N" "age ?h x < ?N"
      using v True r h by (simp_all add: sq_valid_def sq_reach_def zless_nat_eq_int_zless)
    then have "ring_get ?N (age ?h x) (slots_after off y s) =
        (if age ?h x = age ?h off then y else ring_get ?N (age ?h x) (sq_slots s))"
      using True ok by (simp add: slots_after_def ring.get_put Let_def)
    moreover have "age ?h x = age ?h off \<longleftrightarrow> x = off" using age_inj by blast
    ultimately show ?thesis using True r h by (simp add: sq_skipped_def)
  next
    case False
    let ?d = "unat (off - ?h)"
    have h: "head_after off s = off" using False by (simp add: head_after_def)
    have d: "0 < ?d" using v by (simp add: sq_valid_def unat_gt_0)
    have k: "age off x < ?N" using r h by (simp add: sq_reach_def zless_nat_eq_int_zless)
    have "ring_get ?N (age off x) (slots_after off y s) =
        (if age off x = 0 then y else if age off x < ?d then None
         else ring_get ?N (age off x - ?d) (sq_slots s))"
      using False ok k d
      by (auto simp: slots_after_def Let_def ring.get_push ring_pad_ok ring_pad_get)
    moreover have "age ?h x = age off x - ?d" if "?d \<le> age off x"
      using age_advance [of "off - ?h" ?h x] that by simp
    moreover have "sq_reach (sqMax s) ?h x" if "?d \<le> age off x"
    proof -
      have "age ?h x \<le> age off x" using age_advance [of "off - ?h" ?h x] that by simp
      then show ?thesis using r h by (auto simp: sq_reach_def)
    qed
    ultimately show ?thesis using False h d by (auto simp: sq_skipped_def age_eq_0_iff not_less)
  qed
qed

lemma metas_after:
  assumes "sq_inv s" and "sq_metas s' = ring_push (length (sqMeta s)) m (sq_metas s)"
  shows "sqMeta s' = (sqMeta s)[nat (sqMetaWritePtr s) := m]" and "nat (sqMetaWritePtr s) < length (sqMeta s)"
    and "sqMetaWritePtr s' = (sqMetaWritePtr s + 1) mod int (length (sqMeta s))"
  using assms by (auto simp: sq_metas_def ring_push_def sq_inv_def ring_ok_def)

lemma valid_reach: "sq_inv s \<Longrightarrow> sq_valid off s \<Longrightarrow> sq_reach (sqMax s) (head_after off s) off"
  by (auto simp: sq_reach_def head_after_def sq_valid_def sn_behind_age sq_inv_def)

lemma sq_started_fields [simp]:
  "sqMax (sq_started off s) = sqMax s" "sq_slots (sq_started off s) = sq_slots s"
  "sqMeta (sq_started off s) = sqMeta s" "sq_metas (sq_started off s) = sq_metas s"
  "sqRtt (sq_started off s) = sqRtt s" "sqStartTime (sq_started off s) = sqStartTime s"
  "sqMetaWritePtr (sq_started off s) = sqMetaWritePtr s" "sqInit (sq_started off s)"
  by (simp_all add: sq_started_def sq_slots_def sq_metas_def)

text \<open>A number stays known when the head moves to \<open>h'\<close> for \<open>off\<close>.\<close>

definition sq_stays :: "u16 \<Rightarrow> sequencer \<Rightarrow> u16 \<Rightarrow> bool" where
  "sq_stays off s x \<longleftrightarrow> x \<noteq> off \<and> sq_reach (sqMax s) (head_after off s) x \<and>
     \<not> sq_skipped (sq_head off s) off x"

lemma lookup_after:
  assumes inv: "sq_inv s" and v: "sq_valid off s"
    and s': "sqMax s' = sqMax s" "sqHeadSN s' = head_after off s" "sq_slots s' = slots_after off y s"
  shows "sq_lookup x s' =
    (if x = off then Option.bind y (\<lambda>i. if targetSeqNo (sqMeta s' ! i) = x then Some i else None)
     else if sq_stays off s x then
       Option.bind (ring_get (nat (sqMax s)) (age (sq_head off s) x) (sq_slots s))
         (\<lambda>i. if targetSeqNo (sqMeta s' ! i) = x then Some i else None)
     else None)"
proof (cases "sq_reach (sqMax s) (head_after off s) x")
  case False
  moreover from this have "x \<noteq> off" using valid_reach [OF inv v] by auto
  ultimately show ?thesis by (simp add: sq_lookup_reach s' sq_stays_def)
next
  case True
  note g = slots_after_get [OF inv v True, of y, THEN conjunct1]
  show ?thesis
    by (simp only: sq_lookup_reach s' g sq_stays_def True if_True) (simp add: sq_skipped_def)
qed

lemma lookup_before:
  assumes inv: "sq_inv s" and v: "sq_valid off s" and st: "sq_stays off s x"
  shows "sq_lookup x (sq_started off s) =
    Option.bind (ring_get (nat (sqMax s)) (age (sq_head off s) x) (sq_slots s))
      (\<lambda>i. if targetSeqNo (sqMeta s ! i) = x then Some i else None)"
proof -
  have "sq_reach (sqMax s) (sq_head off s) x"
    using slots_after_get [OF inv v, of x] st by (auto simp: sq_stays_def)
  then show ?thesis by (simp only: sq_lookup_reach sq_started_fields if_True)
qed

text \<open>Storing a packet makes it known and forgets what its entry described before.\<close>

lemma sq_push_lookup:
  assumes inv: "sq_inv s" and v: "sq_valid off s"
  shows "\<exists>s'. sq_push sn off ts layer s = Some (Some (nat (sqMetaWritePtr s)), s') \<and> sq_inv s' \<and>
    (\<forall>x. sq_lookup x s' =
      (if x = off then Some (nat (sqMetaWritePtr s))
       else if sq_stays off s x \<and> sq_lookup x (sq_started off s) \<noteq> Some (nat (sqMetaWritePtr s))
       then sq_lookup x (sq_started off s) else None)) \<and>
    sqMeta s' = (sqMeta s)[nat (sqMetaWritePtr s) := new_meta sn off ts layer] \<and>
    sqMetaWritePtr s' = (sqMetaWritePtr s + 1) mod int (length (sqMeta s)) \<and>
    sqMax s' = sqMax s \<and> sqHeadSN s' = head_after off s \<and> sqInit s'"
proof -
  let ?i = "nat (sqMetaWritePtr s)"
  obtain s' where p: "sq_push sn off ts layer s = Some (Some ?i, s')" and inv': "sq_inv s'" "sqInit s'"
    and f: "sqMax s' = sqMax s" "sqHeadSN s' = head_after off s"
    and sl: "sq_slots s' = slots_after off (Some ?i) s"
    and me: "sq_metas s' = ring_push (length (sqMeta s)) (new_meta sn off ts layer) (sq_metas s)"
    using sq_push_valid [OF inv v] by blast
  note m = metas_after [OF inv me]
  have tgt: "targetSeqNo (sqMeta s' ! j) = (if j = ?i then off else targetSeqNo (sqMeta s ! j))" for j
    using m by (simp add: nth_list_update new_meta_def)
  have "sq_lookup x s' = (if x = off then Some ?i
      else if sq_stays off s x \<and> sq_lookup x (sq_started off s) \<noteq> Some ?i
      then sq_lookup x (sq_started off s) else None)" for x
  proof (cases "sq_stays off s x")
    case True
    then have "x \<noteq> off" by (simp add: sq_stays_def)
    then show ?thesis
      using lookup_before [OF inv v True] lookup_after [OF inv v f sl, of x] True
      by (cases "ring_get (nat (sqMax s)) (age (sq_head off s) x) (sq_slots s)") (auto simp: tgt)
  next
    case False
    then show ?thesis using lookup_after [OF inv v f sl, of x] by (simp add: tgt)
  qed
  with p inv' m f show ?thesis by blast
qed

lemma sq_push_padding_lookup:
  assumes inv: "sq_inv s" and v: "sq_valid off s"
  shows "\<exists>s'. sq_push_padding off s = Some s' \<and> sq_inv s' \<and>
    (\<forall>x. sq_lookup x s' = (if sq_stays off s x then sq_lookup x (sq_started off s) else None)) \<and>
    sq_metas s' = sq_metas s \<and> sqMax s' = sqMax s \<and> sqHeadSN s' = head_after off s \<and> sqInit s'"
proof -
  obtain s' where p: "sq_push_padding off s = Some s'" and inv': "sq_inv s'" "sqInit s'"
    and f: "sqMax s' = sqMax s" "sqHeadSN s' = head_after off s"
    and sl: "sq_slots s' = slots_after off None s" and me: "sq_metas s' = sq_metas s"
    using sq_push_padding_valid [OF inv v] by blast
  have m: "sqMeta s' = sqMeta s" using me by (simp add: sq_metas_def)
  have "sq_lookup x s' = (if sq_stays off s x then sq_lookup x (sq_started off s) else None)" for x
  proof (cases "sq_stays off s x")
    case True
    then have "x \<noteq> off" by (simp add: sq_stays_def)
    then show ?thesis
      using lookup_before [OF inv v True] lookup_after [OF inv v f sl, of x] True by (simp add: m)
  next
    case False
    then show ?thesis using lookup_after [OF inv v f sl, of x] by simp
  qed
  with p inv' me f show ?thesis by blast
qed

section \<open>What the other operations leave alone\<close>

text \<open>What an entry records of its packet; the rest of it counts the requests for it.\<close>

definition meta_core :: "packet_meta \<Rightarrow> u16 \<times> u16 \<times> u32 \<times> 8 word" where
  "meta_core m = (sourceSeqNo m, targetSeqNo m, pmTimestamp m, pmLayer m)"

lemma meta_core_target: "meta_core m = meta_core m' \<Longrightarrow> targetSeqNo m = targetSeqNo m'"
  by (simp add: meta_core_def)

text \<open>Two states that differ in the request counters, the round trip and the start time at most.\<close>

definition sq_same :: "sequencer \<Rightarrow> sequencer \<Rightarrow> bool" where
  "sq_same s s' \<longleftrightarrow> sqInit s' = sqInit s \<and> sqMax s' = sqMax s \<and> sqSeq s' = sqSeq s \<and> sqStep s' = sqStep s \<and>
     sqHeadSN s' = sqHeadSN s \<and> sqMetaWritePtr s' = sqMetaWritePtr s \<and>
     map meta_core (sqMeta s') = map meta_core (sqMeta s)"

lemma sq_same_refl [simp]: "sq_same s s"
  by (simp add: sq_same_def)

lemma sq_same_trans: "sq_same s t \<Longrightarrow> sq_same t u \<Longrightarrow> sq_same s u"
  by (simp add: sq_same_def)

lemma sq_same_core:
  assumes "sq_same s s'" and "i < length (sqMeta s)"
  shows "meta_core (sqMeta s' ! i) = meta_core (sqMeta s ! i)"
proof -
  have m: "map meta_core (sqMeta s') = map meta_core (sqMeta s)"
    using assms(1) by (simp add: sq_same_def)
  then have "length (sqMeta s') = length (sqMeta s)" by (rule map_eq_imp_length_eq)
  then show ?thesis using m assms(2) by (metis nth_map)
qed

lemma sq_same_length: "sq_same s s' \<Longrightarrow> length (sqMeta s') = length (sqMeta s)"
  unfolding sq_same_def using map_eq_imp_length_eq by blast

lemma sq_same_inv: "sq_same s s' \<Longrightarrow> sq_inv s \<Longrightarrow> sq_inv s'"
  using sq_same_length [of s s']
  by (auto simp: sq_same_def sq_inv_def sq_slots_def sq_metas_def ring_ok_def)

lemma sq_same_lookup:
  assumes "sq_same s s'" and "sq_inv s"
  shows "sq_lookup x s' = sq_lookup x s"
proof -
  have "sq_slots s' = sq_slots s" "sqMax s' = sqMax s" "sqHeadSN s' = sqHeadSN s"
    using assms(1) by (simp_all add: sq_same_def sq_slots_def)
  then show ?thesis
    using sq_same_core [OF assms(1), THEN meta_core_target] lookup_entry [OF assms(2)]
    by (auto simp: sq_lookup_reach sq_reach_def split: option.split intro!: bind_option_cong_simp)
qed

lemma nack_mark_same: "sq_same s (nack_mark t i s)"
proof -
  have "map meta_core ((sqMeta s)[i := (sqMeta s ! i)\<lparr>nacked := a, lastNack := b\<rparr>]) = map meta_core (sqMeta s)"
    for a b
    by (cases "i < length (sqMeta s)")
      (simp_all add: map_update meta_core_def list_update_same_conv list_update_beyond)
  then show ?thesis by (simp add: sq_same_def nack_mark_def)
qed

lemma nack_batch_same: "sq_same s (snd (nack_batch t sns s))"
proof (induction sns arbitrary: s)
  case (Cons a sns)
  then show ?case
    using nack_mark_same [of s t] by (auto split: option.split intro: sq_same_trans)
qed simp

lemma sq_rtt_same: "sq_same s (sq_set_rtt r s)"
  by (simp add: sq_same_def sq_set_rtt_def)

section \<open>A stored packet stays\<close>

text \<open>
  The numbers that go out while \<open>off\<close> is kept, for a window of \<open>N\<close> numbers: at most \<open>N - 1\<close> ahead
  of it, or not so far behind that they would count as ahead.
\<close>

definition sq_near :: "nat \<Rightarrow> u16 \<Rightarrow> u16 \<Rightarrow> bool" where
  "sq_near N off x \<longleftrightarrow> x \<noteq> off \<and> (unat (x - off) < N \<or> unat (off - x) \<le> 2 ^ 15 - N)"

lemma near_head:
  assumes "sqInit s" and a: "age (sqHeadSN s) off < N" and "N \<le> 2 ^ 15" and x: "sq_near N off x"
  shows "age (head_after x s) off < N" and "\<not> sq_skipped (sq_head x s) x off"
proof -
  let ?h = "sqHeadSN s" and ?o = "sq_head x s"
  have st: "?o = ?h" using assms(1) by (simp add: sq_started_def)
  have neq: "x \<noteq> off" using x by (simp add: sq_near_def)
  have split: "unat (u + v :: u16) = unat u + unat v" if "unat u + unat v < 65536" for u v
    using that by (simp add: unat_word_ariths)
  consider (ahead) "unat (x - off) < N" | (behind) "unat (off - x) \<le> 2 ^ 15 - N"
    using x by (auto simp: sq_near_def)
  then have "age (head_after x s) off < N \<and> \<not> sq_skipped ?o x off"
  proof cases
    case ahead
    then have "age x off < N" by (simp add: age_def)
    moreover have "\<not> age x off < unat (x - ?h)" if nb: "\<not> sn_behind ?h x"
    proof
      assume l: "age x off < unat (x - ?h)"
      have "age x off = unat ((x - ?h) + (?h - off))" by (simp add: age_def)
      also have "\<dots> = unat (x - ?h) + age ?h off"
        using not_behind_diff [OF nb] a assms(3) by (subst split) (simp_all add: age_def)
      finally show False using l by simp
    qed
    ultimately show ?thesis using a st by (auto simp: head_after_def sq_skipped_def)
  next
    case behind
    have pos: "0 < unat (off - x)" using neq by (simp add: unat_gt_0)
    have "age ?h x = unat ((?h - off) + (off - x))" by (simp add: age_def)
    also have "\<dots> = age ?h off + unat (off - x)"
      using behind a assms(3) by (subst split) (simp_all add: age_def)
    finally have "sn_behind ?h x" using behind a assms(3) pos by (simp add: sn_behind_age)
    then show ?thesis using a st by (simp add: head_after_def sq_skipped_def)
  qed
  then show "age (head_after x s) off < N" and "\<not> sq_skipped (sq_head x s) x off" by simp_all
qed

text \<open>The packet stored for \<open>off\<close> in entry \<open>i\<close>, the \<open>k\<close>-th newest entry.\<close>

definition sq_holds :: "nat \<Rightarrow> u16 \<Rightarrow> nat \<Rightarrow> u16 \<times> u16 \<times> u32 \<times> 8 word \<Rightarrow> nat \<Rightarrow> sequencer \<Rightarrow> bool" where
  "sq_holds N off i c k s \<longleftrightarrow> sq_inv s \<and> sqInit s \<and> int N \<le> sqMax s \<and> N \<le> 2 ^ 15 \<and>
     age (sqHeadSN s) off < N \<and> sq_lookup off s = Some i \<and> meta_core (sqMeta s ! i) = c \<and>
     k < length (sqMeta s) \<and> int i = back_slot (int (length (sqMeta s))) (sqMetaWritePtr s) (int k)"

fun sq_ev_near :: "nat \<Rightarrow> u16 \<Rightarrow> sq_event \<Rightarrow> bool" where
  "sq_ev_near N off (SqPush sn x ts layer) = sq_near N off x"
| "sq_ev_near N off (SqPad x) = sq_near N off x"
| "sq_ev_near N off _ = True"

fun sq_stores :: "sq_event \<Rightarrow> nat" where
  "sq_stores (SqPush sn x ts layer) = 1"
| "sq_stores _ = 0"

lemma sq_holds_same:
  assumes h: "sq_holds N off i c k s" and same: "sq_same s s'"
  shows "sq_holds N off i c k s'"
proof -
  have inv: "sq_inv s" using h by (simp add: sq_holds_def)
  have "i < length (sqMeta s)"
  proof -
    have "0 < int (length (sqMeta s))" using h by (auto simp: sq_holds_def)
    from back_slot_range(2) [OF this] have "int i < int (length (sqMeta s))"
      using h by (simp add: sq_holds_def)
    then show ?thesis by simp
  qed
  then show ?thesis
    using h sq_same_inv [OF same inv] sq_same_lookup [OF same inv] sq_same_core [OF same]
      sq_same_length [OF same] same
    by (simp add: sq_holds_def sq_same_def)
qed

lemma sq_started_init: "sqInit s \<Longrightarrow> sq_started x s = s"
  by (simp add: sq_started_def)

lemma near_stays:
  assumes h: "sq_holds N off i c k s" and x: "sq_near N off x"
  shows "sq_stays x s off" and "age (head_after x s) off < N"
proof -
  have "sqInit s" "age (sqHeadSN s) off < N" "N \<le> 2 ^ 15" using h by (simp_all add: sq_holds_def)
  note n = near_head [OF this x]
  show "age (head_after x s) off < N" by (rule n)
  then have "sq_reach (sqMax s) (head_after x s) off" using h by (simp add: sq_reach_def sq_holds_def)
  then show "sq_stays x s off" using x n by (auto simp: sq_stays_def sq_near_def)
qed

lemma sq_holds_push:
  assumes h: "sq_holds N off i c k s" and x: "sq_near N off x" and k: "Suc k < length (sqMeta s)"
  shows "\<exists>s' k'. sq_step (SqPush sn x ts layer) s = Some s' \<and> k' \<le> Suc k \<and> sq_holds N off i c k' s' \<and>
    length (sqMeta s') = length (sqMeta s)"
proof (cases "sq_valid x s")
  case False
  then have "sq_step (SqPush sn x ts layer) s = Some s"
    using h by (simp add: sq_push_invalid sq_started_init sq_holds_def)
  then show ?thesis using h by (intro exI [of _ s] exI [of _ k]) simp
next
  case True
  let ?M = "int (length (sqMeta s))" and ?w = "sqMetaWritePtr s"
  have inv: "sq_inv s" and init: "sqInit s" and N: "int N \<le> sqMax s" "N \<le> 2 ^ 15"
    and look: "sq_lookup off s = Some i" and core: "meta_core (sqMeta s ! i) = c"
    and i: "int i = back_slot ?M ?w (int k)"
    using h by (simp_all add: sq_holds_def)
  obtain s' where p: "sq_push sn x ts layer s = Some (Some (nat ?w), s')" and inv': "sq_inv s'"
    and look': "sq_lookup off s' = (if off = x then Some (nat ?w)
       else if sq_stays x s off \<and> sq_lookup off (sq_started x s) \<noteq> Some (nat ?w)
       then sq_lookup off (sq_started x s) else None)"
    and m: "sqMeta s' = (sqMeta s)[nat ?w := new_meta sn x ts layer]" "sqMetaWritePtr s' = (?w + 1) mod ?M"
    and f: "sqMax s' = sqMax s" "sqHeadSN s' = head_after x s" "sqInit s'"
    using sq_push_lookup [OF inv True, of sn ts layer] by blast
  have w: "0 \<le> ?w" "?w < ?M" using inv by (simp_all add: sq_inv_def ring_ok_def sq_metas_def)
  have i': "int i = back_slot ?M ((?w + 1) mod ?M) (int (Suc k))"
    using i back_slot_advance [of ?M ?w 1 "int k"] by (simp add: add.commute)
  have "i \<noteq> nat ?w"
  proof
    assume "i = nat ?w"
    then have "back_slot ?M ((?w + 1) mod ?M) (int (Suc k)) = back_slot ?M ((?w + 1) mod ?M) 0"
      using w i' by (simp add: back_slot_newest)
    then show False using back_slot_inj k by fastforce
  qed
  moreover have "off \<noteq> x" using x by (auto simp: sq_near_def)
  ultimately have "sq_lookup off s' = Some i" "meta_core (sqMeta s' ! i) = c"
    using look' near_stays(1) [OF h x] look init core m by (simp_all add: sq_started_init)
  then have "sq_holds N off i c (Suc k) s'"
    using inv' f N near_stays(2) [OF h x] k i' by (simp add: sq_holds_def m)
  with p show ?thesis using m by (intro exI [of _ s'] exI [of _ "Suc k"]) simp
qed

lemma sq_holds_pad:
  assumes h: "sq_holds N off i c k s" and x: "sq_near N off x"
  shows "\<exists>s'. sq_step (SqPad x) s = Some s' \<and> sq_holds N off i c k s' \<and>
    length (sqMeta s') = length (sqMeta s)"
proof (cases "sq_valid x s")
  case False
  then show ?thesis
    using h by (simp add: sq_push_padding_invalid sq_started_init sq_holds_def)
next
  case True
  have inv: "sq_inv s" and init: "sqInit s" using h by (simp_all add: sq_holds_def)
  obtain s' where p: "sq_push_padding x s = Some s'" and inv': "sq_inv s'"
    and look': "sq_lookup off s' = (if sq_stays x s off then sq_lookup off (sq_started x s) else None)"
    and f: "sq_metas s' = sq_metas s" "sqMax s' = sqMax s" "sqHeadSN s' = head_after x s" "sqInit s'"
    using sq_push_padding_lookup [OF inv True] by blast
  then have "sqMeta s' = sqMeta s" "sqMetaWritePtr s' = sqMetaWritePtr s" by (simp_all add: sq_metas_def)
  with p inv' look' f near_stays [OF h x] h init show ?thesis
    by (simp add: sq_holds_def sq_started_init)
qed

lemma sq_holds_step:
  assumes h: "sq_holds N off i c k s" and near: "sq_ev_near N off e"
    and k: "k + sq_stores e < length (sqMeta s)"
  shows "\<exists>s' k'. sq_step e s = Some s' \<and> k' \<le> k + sq_stores e \<and> sq_holds N off i c k' s' \<and>
    length (sqMeta s') = length (sqMeta s)"
proof (cases e)
  case (SqPush sn x ts layer)
  with sq_holds_push [OF h, of x] near k show ?thesis by simp
next
  case (SqPad x)
  with sq_holds_pad [OF h, of x] near show ?thesis by auto
next
  case (SqNack now sns)
  have "sq_inv s" using h by (simp add: sq_holds_def)
  with SqNack show ?thesis
    using sq_holds_same [OF h nack_batch_same] sq_same_length [OF nack_batch_same]
    by (auto simp: sq_get_packets_meta_eq)
next
  case (SqRtt r)
  then show ?thesis
    using sq_holds_same [OF h sq_rtt_same] sq_same_length [OF sq_rtt_same] by auto
qed

lemma sq_holds_run:
  "sq_holds N off i c k s \<Longrightarrow> list_all (sq_ev_near N off) es \<Longrightarrow>
   k + sum_list (map sq_stores es) < length (sqMeta s) \<Longrightarrow>
   \<exists>s' k'. run_panic sq_step es s = Some s' \<and> sq_holds N off i c k' s' \<and> sqMax s' = sqMax s \<and>
     length (sqMeta s') = length (sqMeta s)"
proof (induction es arbitrary: s k)
  case (Cons e es)
  from Cons.prems obtain s1 k1 where s1: "sq_step e s = Some s1" "k1 \<le> k + sq_stores e"
    "sq_holds N off i c k1 s1" "length (sqMeta s1) = length (sqMeta s)"
    using sq_holds_step [of N off i c k s e] by auto
  moreover have "sqMax s1 = sqMax s"
    using sq_step_inv [of s e] Cons.prems(1) s1(1) by (auto simp: sq_holds_def)
  ultimately show ?case
    using Cons.IH [of k1 s1] Cons.prems by auto
qed auto

lemma sq_push_holds:
  assumes inv: "sq_inv s" and p: "sq_push sn off ts layer s = Some (Some i, s1)"
  shows "sq_holds (min (nat (sqMax s)) (2 ^ 15)) off i (sn, off, ts, layer) 0 s1 \<and>
    length (sqMeta s1) = length (sqMeta s) \<and> sqMax s1 = sqMax s"
proof -
  have v: "sq_valid off s" using p sq_push_invalid [of off s sn ts layer] by auto
  have i: "i = nat (sqMetaWritePtr s)" and inv1: "sq_inv s1" and look: "sq_lookup off s1 = Some i"
    and m: "sqMeta s1 = (sqMeta s)[i := new_meta sn off ts layer]"
    "sqMetaWritePtr s1 = (sqMetaWritePtr s + 1) mod int (length (sqMeta s))"
    and f: "sqMax s1 = sqMax s" "sqHeadSN s1 = head_after off s" "sqInit s1"
    using sq_push_lookup [OF inv v, of sn ts layer] p by auto
  have w: "0 \<le> sqMetaWritePtr s" "sqMetaWritePtr s < int (length (sqMeta s))"
    using inv by (simp_all add: sq_inv_def ring_ok_def sq_metas_def)
  then have "meta_core (sqMeta s1 ! i) = (sn, off, ts, layer)"
    using m i by (simp add: new_meta_def meta_core_def)
  moreover have "age (sqHeadSN s1) off < min (nat (sqMax s)) (2 ^ 15)"
    using v f inv by (auto simp: head_after_def sq_valid_def sn_behind_age sq_inv_def)
  ultimately show ?thesis
    using inv1 look m f w i by (auto simp: sq_holds_def back_slot_newest)
qed

section \<open>The packets on record\<close>

text \<open>
  Beside a run of the sequencer, the packets it took in: for every number, the last packet
  stored for it and not replaced by padding.
\<close>

fun sq_log_step :: "sq_event \<Rightarrow> (u16 \<rightharpoonup> u16 \<times> u16 \<times> u32 \<times> 8 word) \<times> sequencer \<Rightarrow>
    ((u16 \<rightharpoonup> u16 \<times> u16 \<times> u32 \<times> 8 word) \<times> sequencer) option" where
  "sq_log_step (SqPush sn off ts layer) (g, s) = do {
     (r, s') \<leftarrow> sq_push sn off ts layer s;
     Some (if r = None then g else g(off \<mapsto> (sn, off, ts, layer)), s') }"
| "sq_log_step e (g, s) = map_option (Pair g) (sq_step e s)"

definition sq_log_ok :: "(u16 \<rightharpoonup> u16 \<times> u16 \<times> u32 \<times> 8 word) \<times> sequencer \<Rightarrow> bool" where
  "sq_log_ok = (\<lambda>(g, s). sq_inv s \<and> (\<not> sqInit s \<longrightarrow> list_all (\<lambda>e. e = None) (sqSeq s)) \<and>
     (\<forall>x i. sq_lookup x s = Some i \<longrightarrow> g x = Some (meta_core (sqMeta s ! i))))"

lemma lookup_empty:
  assumes "sq_inv s" and "list_all (\<lambda>e. e = None) (sqSeq s)"
  shows "sq_lookup x s = None"
proof -
  have "sqSeq s ! j = None" if "j < length (sqSeq s)" for j
    using assms(2) that by (simp add: list_all_length)
  moreover have "nat (back_slot (sqMax s) (sqStep s) k) < length (sqSeq s)" for k
    using assms(1) back_slot_range [of "sqMax s" "sqStep s" k]
    by (auto simp: sq_inv_def ring_ok_def sq_slots_def)
  ultimately show ?thesis
    using assms(1) by (simp add: sq_lookup_reach ring_get_def sq_slots_def sq_inv_def)
qed

lemma log_ok_started:
  assumes "sq_log_ok (g, s)" and "sq_lookup x (sq_started off s) = Some i"
  shows "g x = Some (meta_core (sqMeta s ! i))"
proof (cases "sqInit s")
  case True
  then show ?thesis using assms by (simp add: sq_log_ok_def sq_started_init)
next
  case False
  then have "sq_lookup x (sq_started off s) = None"
    using assms(1) by (intro lookup_empty sq_started_inv) (simp_all add: sq_log_ok_def)
  then show ?thesis using assms(2) by simp
qed

lemma sq_log_push:
  assumes ok: "sq_log_ok (g, s)"
  shows "\<exists>r. sq_log_step (SqPush sn off ts layer) (g, s) = Some r \<and> sq_log_ok r"
proof (cases "sq_valid off s")
  case False
  have inv: "sq_inv (sq_started off s)" using ok by (intro sq_started_inv) (simp add: sq_log_ok_def)
  moreover have "g x = Some (meta_core (sqMeta (sq_started off s) ! i))"
    if "sq_lookup x (sq_started off s) = Some i" for x i
    using log_ok_started [OF ok that] by simp
  ultimately have "sq_log_ok (g, sq_started off s)" by (simp add: sq_log_ok_def)
  then show ?thesis using False by (simp add: sq_push_invalid)
next
  case True
  let ?i = "nat (sqMetaWritePtr s)" and ?g = "g(off \<mapsto> (sn, off, ts, layer))"
  have inv: "sq_inv s" using ok by (simp add: sq_log_ok_def)
  obtain s' where p: "sq_push sn off ts layer s = Some (Some ?i, s')" and inv': "sq_inv s'" "sqInit s'"
    and look: "sq_lookup x s' = (if x = off then Some ?i
       else if sq_stays off s x \<and> sq_lookup x (sq_started off s) \<noteq> Some ?i
       then sq_lookup x (sq_started off s) else None)"
    and m: "sqMeta s' = (sqMeta s)[?i := new_meta sn off ts layer]" for x
    using sq_push_lookup [OF inv True, of sn ts layer] by blast
  have "?i < length (sqMeta s)" using inv by (auto simp: sq_inv_def ring_ok_def sq_metas_def)
  then have "?g x = Some (meta_core (sqMeta s' ! i))" if "sq_lookup x s' = Some i" for x i
    using that look [of x] log_ok_started [OF ok, of x off i]
    by (auto simp: m new_meta_def meta_core_def split: if_splits)
  with inv' have "sq_log_ok (?g, s')" by (simp add: sq_log_ok_def)
  then show ?thesis using p by simp
qed

lemma sq_log_pad:
  assumes ok: "sq_log_ok (g, s)"
  shows "\<exists>r. sq_log_step (SqPad off) (g, s) = Some r \<and> sq_log_ok r"
proof (cases "sq_valid off s")
  case False
  have inv: "sq_inv (sq_started off s)" using ok by (intro sq_started_inv) (simp add: sq_log_ok_def)
  moreover have "g x = Some (meta_core (sqMeta (sq_started off s) ! i))"
    if "sq_lookup x (sq_started off s) = Some i" for x i
    using log_ok_started [OF ok that] by simp
  ultimately have "sq_log_ok (g, sq_started off s)" by (simp add: sq_log_ok_def)
  then show ?thesis using False by (simp add: sq_push_padding_invalid)
next
  case True
  have inv: "sq_inv s" using ok by (simp add: sq_log_ok_def)
  obtain s' where p: "sq_push_padding off s = Some s'" and inv': "sq_inv s'" "sqInit s'"
    and look: "sq_lookup x s' = (if sq_stays off s x then sq_lookup x (sq_started off s) else None)"
    and m: "sq_metas s' = sq_metas s" for x
    using sq_push_padding_lookup [OF inv True] by blast
  have "g x = Some (meta_core (sqMeta s' ! i))" if "sq_lookup x s' = Some i" for x i
    using that look [of x] log_ok_started [OF ok, of x off i] m
    by (auto simp: sq_metas_def split: if_splits)
  with inv' have "sq_log_ok (g, s')" by (simp add: sq_log_ok_def)
  then show ?thesis using p by simp
qed

lemma sq_log_same:
  assumes ok: "sq_log_ok (g, s)" and same: "sq_same s s'"
  shows "sq_log_ok (g, s')"
proof -
  have inv: "sq_inv s" using ok by (simp add: sq_log_ok_def)
  have "g x = Some (meta_core (sqMeta s' ! i))" if "sq_lookup x s' = Some i" for x i
  proof -
    have l: "sq_lookup x s = Some i" using that sq_same_lookup [OF same inv] by simp
    then have "i < length (sqMeta s)"
      using lookup_entry [OF inv] by (auto simp: sq_lookup_reach sq_reach_def split: if_splits)
    then show ?thesis using ok l sq_same_core [OF same] by (simp add: sq_log_ok_def)
  qed
  then show ?thesis
    using ok sq_same_inv [OF same inv] same by (simp add: sq_log_ok_def sq_same_def)
qed

interpretation sq_log: panic_free sq_log_step "\<lambda>e. True" sq_log_ok
proof
  fix r e assume ok: "sq_log_ok r"
  obtain g s where r: "r = (g, s)" by force
  have inv: "sq_inv s" using ok r by (simp add: sq_log_ok_def)
  show "\<exists>r'. sq_log_step e r = Some r' \<and> sq_log_ok r'"
  proof (cases e)
    case (SqPush sn off ts layer)
    then show ?thesis using sq_log_push ok r by blast
  next
    case (SqPad off)
    then show ?thesis using sq_log_pad ok r by blast
  next
    case (SqNack now sns)
    then show ?thesis
      using sq_log_same [OF ok [unfolded r] nack_batch_same] inv r by (simp add: sq_get_packets_meta_eq)
  next
    case (SqRtt rtt)
    then show ?thesis using sq_log_same [OF ok [unfolded r] sq_rtt_same] r by simp
  qed
qed

section \<open>Which requests are answered\<close>

text \<open>An entry that is not handed out at the time \<open>t\<close>.\<close>

lemma sq_log_new:
  assumes "0 < maxTrack" and "0 \<le> maxPad" and "new_sequencer t0 maxTrack maxPad = Some s0"
  shows "sq_log_ok (Map.empty, s0)"
proof -
  have "sq_sized maxTrack maxPad s0" and "\<And>x. sq_lookup x s0 = None"
    using new_sequencer_sized [OF assms(1,2), of t0] assms(3) by auto
  moreover have "list_all (\<lambda>e. e = None) (sqSeq s0)"
    using assms(3) by (auto simp: new_sequencer_def list_all_iff split: if_splits)
  ultimately show ?thesis by (simp add: sq_log_ok_def sq_sized_def)
qed

definition nack_held :: "u32 \<Rightarrow> nat \<Rightarrow> sequencer \<Rightarrow> bool" where
  "nack_held t i s \<longleftrightarrow> i < length (sqMeta s) \<and> \<not> nack_due t (sqMeta s ! i) s"

lemma sq_lookup_range: "sq_inv s \<Longrightarrow> sq_lookup x s = Some i \<Longrightarrow> i < length (sqMeta s) \<and> targetSeqNo (sqMeta s ! i) = x"
  using lookup_entry [of s "age (sqHeadSN s) x" i]
  by (auto simp: sq_lookup_reach sq_reach_def split: if_splits)

lemma nack_held_mark:
  "i < length (sqMeta s) \<Longrightarrow> t \<noteq> 0 \<Longrightarrow> nack_held t i (nack_mark t i s)"
  "nack_held t j s \<Longrightarrow> j \<noteq> i \<Longrightarrow> nack_held t j (nack_mark t i s)"
  by (auto simp: nack_held_def nack_due_def nack_mark_def)

lemma nack_batch_held:
  "sq_inv s \<Longrightarrow> nack_held t i s \<Longrightarrow>
   i \<notin> set (fst (nack_batch t sns s)) \<and> sqMeta (snd (nack_batch t sns s)) ! i = sqMeta s ! i"
proof (induction sns arbitrary: s)
  case (Cons sn sns)
  show ?case
  proof (cases "sq_lookup sn s")
    case None
    then show ?thesis using Cons by simp
  next
    case (Some j)
    show ?thesis
    proof (cases "nack_due t (sqMeta s ! j) s")
      case True
      then have "j \<noteq> i" using Cons.prems by (auto simp: nack_held_def)
      moreover have "sqMeta (nack_mark t j s) ! i = sqMeta s ! i"
        using \<open>j \<noteq> i\<close> by (simp add: nack_mark_def)
      ultimately show ?thesis
        using Cons.IH [of "nack_mark t j s"] Cons.prems Some True
        by (simp add: nack_mark_inv nack_held_mark(2))
    qed (use Cons Some in simp)
  qed
qed simp

lemma nack_batch_distinct:
  "sq_inv s \<Longrightarrow> t \<noteq> 0 \<Longrightarrow> distinct (fst (nack_batch t sns s)) \<and>
   (\<forall>i\<in>set (fst (nack_batch t sns s)). i < length (sqMeta s) \<and> lastNack (sqMeta (snd (nack_batch t sns s)) ! i) = t)"
proof (induction sns arbitrary: s)
  case (Cons sn sns)
  show ?case
  proof (cases "sq_lookup sn s")
    case None
    then show ?thesis using Cons by simp
  next
    case (Some j)
    show ?thesis
    proof (cases "nack_due t (sqMeta s ! j) s")
      case True
      let ?s = "nack_mark t j s"
      have j: "j < length (sqMeta s)" using sq_lookup_range [OF _ Some] Cons.prems by simp
      then have "nack_held t j ?s" "sq_inv ?s" using Cons.prems by (simp_all add: nack_held_mark nack_mark_inv)
      then have "j \<notin> set (fst (nack_batch t sns ?s))"
        and "sqMeta (snd (nack_batch t sns ?s)) ! j = sqMeta ?s ! j"
        using nack_batch_held by blast+
      moreover have "lastNack (sqMeta ?s ! j) = t" using j by (simp add: nack_mark_def)
      ultimately show ?thesis
        using Cons.IH [of ?s] Cons.prems Some True j by (simp add: nack_mark_inv)
    qed (use Cons Some in simp)
  qed
qed simp

lemma nack_batch_rtt: "sqRtt (snd (nack_batch t sns s)) = sqRtt s"
  by (induction sns arbitrary: s) (simp_all split: option.split)

lemma nack_batch_requests:
  "sq_inv s \<Longrightarrow> subseq (map (\<lambda>i. targetSeqNo (sqMeta s ! i)) (fst (nack_batch t sns s))) sns \<and>
   (\<forall>i\<in>set (fst (nack_batch t sns s)). \<exists>x. sq_lookup x s = Some i)"
proof (induction sns arbitrary: s)
  case (Cons sn sns)
  show ?case
  proof (cases "sq_lookup sn s")
    case None
    then show ?thesis using Cons by (auto intro: list_emb_Cons)
  next
    case (Some j)
    show ?thesis
    proof (cases "nack_due t (sqMeta s ! j) s")
      case True
      let ?s = "nack_mark t j s"
      have same: "sq_same s ?s" by (rule nack_mark_same)
      have inv: "sq_inv ?s" using Cons.prems by (rule nack_mark_inv)
      note IH = Cons.IH [OF inv]
      have look: "\<exists>x. sq_lookup x s = Some i" if "i \<in> set (fst (nack_batch t sns ?s))" for i
        using IH that sq_same_lookup [OF same Cons.prems] by auto
      then have "targetSeqNo (sqMeta ?s ! i) = targetSeqNo (sqMeta s ! i)"
        if "i \<in> set (fst (nack_batch t sns ?s))" for i
        using that sq_lookup_range [OF Cons.prems] sq_same_core [OF same] meta_core_target by blast
      then have "map (\<lambda>i. targetSeqNo (sqMeta ?s ! i)) (fst (nack_batch t sns ?s)) =
          map (\<lambda>i. targetSeqNo (sqMeta s ! i)) (fst (nack_batch t sns ?s))"
        by simp
      then have "subseq (map (\<lambda>i. targetSeqNo (sqMeta s ! i)) (fst (nack_batch t sns ?s))) sns"
        using IH by metis
      then show ?thesis
        using look sq_lookup_range [OF Cons.prems Some] Some True by auto
    qed (use Cons Some in \<open>auto intro: list_emb_Cons\<close>)
  qed
qed simp

text \<open>The answers to a request, in a state whose log is in order.\<close>

lemma sq_log_answers:
  assumes ok: "sq_log_ok (g, s)" and ans: "sq_get_packets_meta now sns s = Some (metas, s')"
  shows "sq_log_ok (g, s')"
    and "i \<in> set metas \<Longrightarrow> g (targetSeqNo (sqMeta s' ! i)) = Some (meta_core (sqMeta s' ! i))"
    and "subseq (map (\<lambda>i. targetSeqNo (sqMeta s' ! i)) metas) sns"
proof -
  have inv: "sq_inv s" using ok by (simp add: sq_log_ok_def)
  let ?t = "sq_ref_time now s"
  have b: "nack_batch ?t sns s = (metas, s')" using ans by (simp add: sq_get_packets_meta_eq [OF inv])
  have same: "sq_same s s'" using nack_batch_same [of s ?t sns] b by simp
  show ok': "sq_log_ok (g, s')" using sq_log_same [OF ok same] .
  have look: "\<exists>x. sq_lookup x s = Some i" if "i \<in> set metas" for i
    using nack_batch_requests [OF inv, of ?t sns] that by (auto simp: b)
  have core: "meta_core (sqMeta s' ! i) = meta_core (sqMeta s ! i)" if "i \<in> set metas" for i
    using look [OF that] sq_lookup_range [OF inv] sq_same_core [OF same] by blast
  have "map (\<lambda>i. targetSeqNo (sqMeta s' ! i)) metas = map (\<lambda>i. targetSeqNo (sqMeta s ! i)) metas"
    using core [THEN meta_core_target] by simp
  moreover have "subseq (map (\<lambda>i. targetSeqNo (sqMeta s ! i)) metas) sns"
    using nack_batch_requests [OF inv, of ?t sns] by (simp add: b)
  ultimately show "subseq (map (\<lambda>i. targetSeqNo (sqMeta s' ! i)) metas) sns" by (simp only:)
  assume i: "i \<in> set metas"
  obtain x where x: "sq_lookup x s = Some i" using look [OF i] by blast
  then have "targetSeqNo (sqMeta s' ! i) = x"
    using sq_lookup_range [OF inv x] core [OF i, THEN meta_core_target] by simp
  moreover have "sq_lookup x s' = Some i" using x sq_same_lookup [OF same inv] by simp
  ultimately show "g (targetSeqNo (sqMeta s' ! i)) = Some (meta_core (sqMeta s' ! i))"
    using ok' by (simp add: sq_log_ok_def)
qed

section \<open>The sequencer at work\<close>

text \<open>
  C25: a sequencer created with positive sizes never panics and never loops, whatever packets,
  padding, requests and round trips it is given, and keeps its sizes and its invariant.
\<close>

theorem sequencer_run_safe:
  assumes "0 < maxTrack" and "0 \<le> maxPad"
  shows "\<exists>s s'. new_sequencer now maxTrack maxPad = Some s \<and> run_panic sq_step es s = Some s' \<and>
    sq_inv s' \<and> int (length (sqMeta s')) = maxTrack \<and> int (length (sqSeq s')) = maxTrack + maxPad"
proof -
  obtain s where s: "new_sequencer now maxTrack maxPad = Some s" "sq_sized maxTrack maxPad s"
    using new_sequencer_sized [OF assms] by blast
  obtain s' where s': "run_panic sq_step es s = Some s'" "sq_sized maxTrack maxPad s'"
    using sequencer.run_total [OF s(2), of es] by (auto simp: list_all_iff)
  then have "int (length (sqSeq s')) = maxTrack + maxPad"
    using assms by (auto simp: sq_sized_def sq_inv_def ring_ok_def sq_slots_def)
  then show ?thesis using s s' by (auto simp: sq_sized_def)
qed

theorem sequencer_run_safe_witness:
  "\<exists>s s'. new_sequencer 0 2 1 = Some s \<and>
     run_panic sq_step [SqPush 7 3 9 0, SqPad 4, SqNack 5000000 [3, 4]] s = Some s' \<and>
     sq_inv s' \<and> int (length (sqMeta s')) = 2 \<and> int (length (sqSeq s')) = 2 + 1"
  by (rule sequencer_run_safe) simp_all

text \<open>
  C22: a packet that was stored is found again. After it, any packets, padding and requests may
  follow, as long as fewer packets are stored than the sequencer keeps and their numbers stay
  within its window of the packet's number: a request for the number then finds the publisher's
  sequence number, the timestamp and the layer, and is answered unless one was just answered.
\<close>

theorem sequencer_retains:
  assumes "0 < maxTrack" and "0 \<le> maxPad" and "new_sequencer t0 maxTrack maxPad = Some s0"
    and "run_panic sq_step es0 s0 = Some s" and "sq_push sn off ts layer s = Some (Some i, s1)"
    and "list_all (sq_ev_near (min (nat (maxTrack + maxPad)) (2 ^ 15)) off) es"
    and "sum_list (map sq_stores es) < nat maxTrack"
  shows "\<exists>s2 s3. run_panic sq_step es s1 = Some s2 \<and>
    sq_get_packets_meta now [off] s2 =
      Some (if nack_due (sq_ref_time now s2) (sqMeta s2 ! i) s2 then [i] else [], s3) \<and>
    meta_core (sqMeta s3 ! i) = (sn, off, ts, layer)"
proof -
  have "sq_sized maxTrack maxPad s"
    using new_sequencer_sized [OF assms(1,2), of t0] assms(3,4)
      sequencer.run_total [of maxTrack maxPad s0 es0] by (auto simp: list_all_iff)
  then have inv: "sq_inv s" and f: "sqMax s = maxTrack + maxPad" "int (length (sqMeta s)) = maxTrack"
    by (simp_all add: sq_sized_def)
  let ?N = "min (nat (sqMax s)) (2 ^ 15)"
  have h: "sq_holds ?N off i (sn, off, ts, layer) 0 s1" and len: "length (sqMeta s1) = length (sqMeta s)"
    using sq_push_holds [OF inv assms(5)] by simp_all
  obtain s2 k where s2: "run_panic sq_step es s1 = Some s2" "sq_holds ?N off i (sn, off, ts, layer) k s2"
    using sq_holds_run [OF h, of es] assms(6,7) f len by auto
  have inv2: "sq_inv s2" and look: "sq_lookup off s2 = Some i" using s2(2) by (simp_all add: sq_holds_def)
  let ?t = "sq_ref_time now s2"
  obtain m s3 where b: "nack_batch ?t [off] s2 = (m, s3)" by force
  then have "m = (if nack_due ?t (sqMeta s2 ! i) s2 then [i] else [])"
    using look by (simp split: if_splits)
  moreover have "meta_core (sqMeta s3 ! i) = (sn, off, ts, layer)"
    using sq_same_core [OF nack_batch_same, of i s2 ?t "[off]"] sq_lookup_range [OF inv2 look] s2(2) b
    by (simp add: sq_holds_def del: nack_batch.simps)
  moreover have "sq_get_packets_meta now [off] s2 = Some (m, s3)"
    by (simp only: sq_get_packets_meta_eq [OF inv2] b)
  ultimately show ?thesis using s2(1) by blast
qed

theorem sequencer_retains_witness:
  "\<exists>s0 s i s1 s2 s3. new_sequencer 0 2 1 = Some s0 \<and> run_panic sq_step [SqPad 65534] s0 = Some s \<and>
     sq_push 500 65535 9 0 s = Some (Some i, s1) \<and> run_panic sq_step [SqPush 501 0 10 0] s1 = Some s2 \<and>
     sq_get_packets_meta 5000000 [65535] s2 =
       Some (if nack_due (sq_ref_time 5000000 s2) (sqMeta s2 ! i) s2 then [i] else [], s3) \<and>
     meta_core (sqMeta s3 ! i) = (500, 65535, 9, 0)"
proof -
  obtain s0 where s0: "new_sequencer 0 2 1 = Some s0" "sq_sized 2 1 s0"
    using new_sequencer_sized [of 2 1 0] by auto
  let ?e = "[SqPad 65534]"
  have "\<exists>s i s1. run_panic sq_step ?e s0 = Some s \<and> sq_push 500 65535 9 0 s = Some (Some i, s1)"
  proof -
    have "case new_sequencer 0 2 1 of None \<Rightarrow> False | Some s0 \<Rightarrow>
      (case run_panic sq_step [SqPad 65534] s0 of None \<Rightarrow> False
       | Some s \<Rightarrow> (case sq_push 500 65535 9 0 s of Some (Some i, s1) \<Rightarrow> True | _ \<Rightarrow> False))"
      by code_simp
    then show ?thesis using s0(1) by (auto split: option.splits prod.splits)
  qed
  then obtain s i s1 where s: "run_panic sq_step ?e s0 = Some s" "sq_push 500 65535 9 0 s = Some (Some i, s1)"
    by blast
  have "list_all (sq_ev_near (min (nat (2 + 1)) (2 ^ 15)) 65535) [SqPush 501 0 10 0]"
    by (simp add: sq_near_def)
  then have "\<exists>s2 s3. run_panic sq_step [SqPush 501 0 10 0] s1 = Some s2 \<and>
     sq_get_packets_meta 5000000 [65535] s2 =
       Some (if nack_due (sq_ref_time 5000000 s2) (sqMeta s2 ! i) s2 then [i] else [], s3) \<and>
     meta_core (sqMeta s3 ! i) = (500, 65535, 9, 0)"
    by (intro sequencer_retains [OF _ _ s0(1) s]) simp_all
  with s0(1) s show ?thesis by blast
qed

text \<open>
  C23: every answer describes the packet last stored under the number asked for: the answers are
  entries for some of the requested numbers, in their order, and each holds the source number,
  timestamp and layer of the last packet taken in under its number.
\<close>

theorem nack_answers_recorded:
  assumes "0 < maxTrack" and "0 \<le> maxPad" and "new_sequencer t0 maxTrack maxPad = Some s0"
    and "run_panic sq_log_step es (Map.empty, s0) = Some (g, s)"
    and "sq_get_packets_meta now sns s = Some (metas, s')"
  shows "subseq (map (\<lambda>i. targetSeqNo (sqMeta s' ! i)) metas) sns \<and>
    (\<forall>i\<in>set metas. g (targetSeqNo (sqMeta s' ! i)) = Some (meta_core (sqMeta s' ! i)))"
proof -
  from sq_log.run_total [OF sq_log_new [OF assms(1-3)], of es] have ok: "sq_log_ok (g, s)"
    using assms(4) by (auto simp: list_all_iff)
  then show ?thesis using sq_log_answers [OF ok assms(5)] by blast
qed

theorem nack_answers_recorded_witness:
  "\<exists>s0 g s metas s'. new_sequencer 0 2 1 = Some s0 \<and>
     run_panic sq_log_step [SqPush 500 65535 9 0, SqPush 501 0 10 0, SqPush 502 65535 11 0] (Map.empty, s0) = Some (g, s) \<and>
     sq_get_packets_meta 5000000 [0, 65535] s = Some (metas, s') \<and> metas = [1, 0] \<and>
     subseq (map (\<lambda>i. targetSeqNo (sqMeta s' ! i)) metas) [0, 65535] \<and>
     (\<forall>i\<in>set metas. g (targetSeqNo (sqMeta s' ! i)) = Some (meta_core (sqMeta s' ! i)))"
  (is "\<exists>s0 g s metas s'. _ \<and> run_panic _ ?es _ = _ \<and> _")
proof -
  have "case new_sequencer 0 2 1 of None \<Rightarrow> False | Some s0 \<Rightarrow>
      (case run_panic sq_log_step ?es (Map.empty, s0) of None \<Rightarrow> False
       | Some (g, s) \<Rightarrow> (case sq_get_packets_meta 5000000 [0, 65535] s of None \<Rightarrow> False
          | Some (metas, s') \<Rightarrow> metas = [1, 0]))"
    by code_simp
  then obtain s0 g s metas s' where
    r: "new_sequencer 0 2 1 = Some s0" "run_panic sq_log_step ?es (Map.empty, s0) = Some (g, s)"
      "sq_get_packets_meta 5000000 [0, 65535] s = Some (metas, s')" "metas = [1, 0]"
    by (auto split: option.splits prod.splits simp del: run_panic.simps sq_log_step.simps)
  have "subseq (map (\<lambda>i. targetSeqNo (sqMeta s' ! i)) metas) [0, 65535] \<and>
     (\<forall>i\<in>set metas. g (targetSeqNo (sqMeta s' ! i)) = Some (meta_core (sqMeta s' ! i)))"
    by (rule nack_answers_recorded [OF _ _ r(1-3)]) simp_all
  with r show ?thesis by blast
qed



text \<open>
  In the first millisecond of a sequencer the clock reads zero, which also means that an
  entry was never asked for: a number requested twice is then answered twice.
\<close>

theorem nack_repeated_at_start:
  "\<exists>s0 r s s'. new_sequencer 5000000 2 1 = Some s0 \<and> sq_push 500 65535 9 0 s0 = Some (r, s) \<and>
     sq_get_packets_meta 5000000 [65535, 65535] s = Some ([0, 0], s')"
proof -
  have "case new_sequencer 5000000 2 1 of None \<Rightarrow> False | Some s0 \<Rightarrow>
      (case sq_push 500 65535 9 0 s0 of None \<Rightarrow> False | Some (_, s) \<Rightarrow>
      (case sq_get_packets_meta 5000000 [65535, 65535] s of None \<Rightarrow> False
       | Some (metas, s1) \<Rightarrow> metas = [0, 0]))"
    by code_simp
  then show ?thesis by (auto split: option.splits prod.splits)
qed

end
