(* ===== verification/PacketMeta.thy ===== *)
theory PacketMeta
  imports Sequencer Interfaces
begin

text \<open>
  The VP8 descriptor of a sequencer entry: \<^verbatim>\<open>packVP8\<close> and \<^verbatim>\<open>unpackVP8\<close> invert each other on
  the descriptors that \<^verbatim>\<open>Unmarshal\<close> produces.
\<close>

section \<open>The fields of the packed word\<close>


text \<open>The descriptors whose fields fit the bits that \<open>packVP8\<close> gives them.\<close>

definition vp8_packs :: "vp8 \<Rightarrow> bool" where
  "vp8_packs v \<longleftrightarrow> PictureIDPresent v \<in> {0, 1} \<and> TL0PICIDXPresent v \<in> {0, 1} \<and>
     TIDPresent v \<in> {0, 1} \<and> KEYIDXPresent v \<in> {0, 1} \<and> PictureID v < 2 ^ 15 \<and>
     TID v < 2 ^ 2 \<and> YBit v < 2 ^ 1 \<and> KEYIDX v < 2 ^ 5 \<and> 0 \<le> HeaderSize v \<and> HeaderSize v < 256"

lemma pack_vp8_bits:
  "bit (misc (pack_vp8 v p)) n \<longleftrightarrow>
     56 \<le> n \<and> n < 64 \<and> bit (FirstByte v) (n - 56) \<or> n = 55 \<and> odd (PictureIDPresent v) \<or>
     n = 54 \<and> odd (TL0PICIDXPresent v) \<or> n = 53 \<and> odd (TIDPresent v) \<or> n = 52 \<and> odd (KEYIDXPresent v) \<or>
     n = 51 \<and> MBit v \<or> n = 50 \<and> IsKeyFrame v \<or>
     32 \<le> n \<and> n < 32 + 15 \<and> n < 64 \<and> bit (PictureID v) (n - 32) \<or>
     24 \<le> n \<and> n < 24 + 8 \<and> n < 64 \<and> bit (TL0PICIDX v) (n - 24) \<or>
     22 \<le> n \<and> n < 22 + 2 \<and> n < 64 \<and> bit (TID v) (n - 22) \<or>
     21 \<le> n \<and> n < 21 + 1 \<and> n < 64 \<and> bit (YBit v) (n - 21) \<or>
     16 \<le> n \<and> n < 16 + 5 \<and> n < 64 \<and> bit (KEYIDX v) (n - 16) \<or>
     8 \<le> n \<and> n < 8 + 8 \<and> n < 64 \<and> bit (HeaderSize v) (n - 8)"
proof -
  have flag: "bit (push_bit k (word_of_int (x AND 1)) :: u64) n \<longleftrightarrow> n = k \<and> odd x" if "k < 64" for k and x :: int
    using that by (auto simp: bit_push_bit_iff bit_word_of_int_iff bit_and_iff bit_1_iff bit_0)
  have field: "bit (push_bit k (ucast (x AND mask m)) :: u64) n \<longleftrightarrow> k \<le> n \<and> n < k + m \<and> n < 64 \<and> bit x (n - k)"
    for k m and x :: "'x :: len word"
    by (auto simp: bit_push_bit_iff bit_unsigned_iff bit_and_iff bit_mask_iff dest: bit_imp_le_length)
  have num: "bit (push_bit k (word_of_int (x AND mask m)) :: u64) n \<longleftrightarrow> k \<le> n \<and> n < k + m \<and> n < 64 \<and> bit x (n - k)"
    for k m and x :: int
    by (auto simp: bit_push_bit_iff bit_word_of_int_iff bit_and_iff bit_mask_iff)
  have m: "0x7FFF = (mask 15 :: u16)" "0xFF = (mask 8 :: u8)" "0x3 = (mask 2 :: u8)" "0x1 = (mask 1 :: u8)"
    "0x1F = (mask 5 :: u8)" "0xFF = (mask 8 :: int)"
    by (simp_all add: mask_eq_exp_minus_1)
  have b: "odd (btoi x) \<longleftrightarrow> x" for x by (simp add: btoi_def)
  have top: "bit (push_bit 56 (ucast (x :: u8)) :: u64) n \<longleftrightarrow> 56 \<le> n \<and> n < 64 \<and> bit x (n - 56)" for x
    using bit_imp_le_length [of x "n - 56"] by (auto simp: bit_push_bit_iff bit_unsigned_iff)
  have e: "misc (pack_vp8 v p) = push_bit 56 (ucast (FirstByte v)) OR
     push_bit 55 (word_of_int (PictureIDPresent v AND 1)) OR
     push_bit 54 (word_of_int (TL0PICIDXPresent v AND 1)) OR
     push_bit 53 (word_of_int (TIDPresent v AND 1)) OR
     push_bit 52 (word_of_int (KEYIDXPresent v AND 1)) OR
     push_bit 51 (word_of_int (btoi (MBit v) AND 1)) OR
     push_bit 50 (word_of_int (btoi (IsKeyFrame v) AND 1)) OR
     push_bit 32 (ucast (PictureID v AND mask 15)) OR
     push_bit 24 (ucast (TL0PICIDX v AND mask 8)) OR
     push_bit 22 (ucast (TID v AND mask 2)) OR
     push_bit 21 (ucast (YBit v AND mask 1)) OR
     push_bit 16 (ucast (KEYIDX v AND mask 5)) OR
     push_bit 8 (word_of_int (HeaderSize v AND mask 8))"
    by (simp only: pack_vp8_def packet_meta.select_convs packet_meta.update_convs packet_meta.surjective m)
      simp
  have lt: "55 < (64 :: nat)" "54 < (64 :: nat)" "53 < (64 :: nat)" "52 < (64 :: nat)" "51 < (64 :: nat)"
    "50 < (64 :: nat)" by simp_all
  show ?thesis
    unfolding e bit_or_iff top field num flag [OF lt(1)] flag [OF lt(2)] flag [OF lt(3)]
      flag [OF lt(4)] flag [OF lt(5)] flag [OF lt(6)] b by (rule refl)
qed

lemma unpack_flag: "uint (drop_bit n (w :: u64) AND 1) = (if bit w n then 1 else 0)"
proof -
  have "drop_bit n w AND 1 = of_bool (bit w n)"
    by (rule bit_word_eqI) (auto simp: bit_and_iff bit_1_iff bit_drop_bit_eq bit_of_bool_iff)
  then show ?thesis by simp
qed

lemma unpack_field:
  "bit (ucast (drop_bit n (w :: u64) AND mask k) :: 'x :: len word) i \<longleftrightarrow>
     i < LENGTH('x) \<and> i < k \<and> bit w (n + i)"
  by (auto simp: bit_unsigned_iff bit_and_iff bit_mask_iff bit_drop_bit_eq dest: bit_imp_le_length)

lemma unpack_word:
  assumes "\<And>i. i < k \<Longrightarrow> bit w (n + i) \<longleftrightarrow> bit x i" and "x < 2 ^ k"
  shows "ucast (drop_bit n (w :: u64) AND mask k) = (x :: 'x :: len word)"
proof (rule bit_word_eqI)
  fix i assume "i < LENGTH('x)"
  moreover have "i < k" if "bit x i" by (rule word_less_bits [OF assms(2) that])
  ultimately show "bit (ucast (drop_bit n w AND mask k) :: 'x word) i = bit x i"
    using assms(1) by (auto simp: unpack_field)
qed

lemma unpack_pack:
  assumes "vp8_packs v"
  shows "unpack_vp8 (pack_vp8 v p) = v"
proof -
  let ?m = "misc (pack_vp8 v p)"
  have flag: "uint (drop_bit n ?m AND 1) = x" if "bit ?m n \<longleftrightarrow> odd x" "x \<in> {0, 1}" for n x
    using that by (auto simp: unpack_flag)
  have bool: "itob (uint (drop_bit n ?m AND 1)) = x" if "bit ?m n \<longleftrightarrow> x" for n x
    using that by (simp add: unpack_flag itob_def)
  have m: "0x7FFF = (mask 15 :: u64)" "0xFF = (mask 8 :: u64)" "0x3 = (mask 2 :: u64)" "1 = (mask 1 :: u64)"
    "0x1F = (mask 5 :: u64)"
    by (simp_all add: mask_eq_exp_minus_1)
  have fb: "ucast (drop_bit 56 ?m) = FirstByte v"
    by (rule bit_word_eqI) (simp add: bit_unsigned_iff bit_drop_bit_eq pack_vp8_bits)
  have pid: "ucast (drop_bit 32 ?m AND 0x7FFF) = PictureID v"
    unfolding m by (rule unpack_word) (use assms in \<open>simp_all add: vp8_packs_def pack_vp8_bits\<close>)
  have tl0: "ucast (drop_bit 24 ?m AND 0xFF) = TL0PICIDX v"
    by (rule bit_word_eqI) (simp add: m unpack_field pack_vp8_bits)
  have tid: "ucast (drop_bit 22 ?m AND 0x3) = TID v"
    unfolding m by (rule unpack_word) (use assms in \<open>simp_all add: vp8_packs_def pack_vp8_bits\<close>)
  have y: "ucast (drop_bit 21 ?m AND 1) = YBit v"
    unfolding m by (rule unpack_word) (use assms in \<open>simp_all add: vp8_packs_def pack_vp8_bits\<close>)
  have key: "ucast (drop_bit 16 ?m AND 0x1F) = KEYIDX v"
    unfolding m by (rule unpack_word) (use assms in \<open>simp_all add: vp8_packs_def pack_vp8_bits\<close>)
  have hs: "uint (drop_bit 8 ?m AND 0xFF) = HeaderSize v"
  proof -
    have h: "take_bit 8 (HeaderSize v) = HeaderSize v"
      using assms by (simp add: vp8_packs_def take_bit_int_eq_self)
    have low: "bit ?m (8 + n) \<longleftrightarrow> bit (HeaderSize v) n" if "n < 8" for n
      using that by (simp add: pack_vp8_bits)
    have high: "n < 8" if "bit (HeaderSize v) n" for n
      using that by (subst (asm) h [symmetric]) (simp add: bit_take_bit_iff)
    have "drop_bit 8 ?m AND mask 8 = word_of_int (HeaderSize v)"
    proof (rule bit_word_eqI)
      fix n assume "n < LENGTH(64)"
      then show "bit (drop_bit 8 ?m AND mask 8) n = bit (word_of_int (HeaderSize v) :: u64) n"
        using low [of n] high [of n] by (simp add: bit_and_iff bit_mask_iff bit_drop_bit_eq bit_word_of_int_iff) blast
    qed
    then show ?thesis using assms by (simp add: m vp8_packs_def unsigned_of_int take_bit_int_eq_self)
  qed
  show ?thesis
    using assms fb pid tl0 tid y key hs
    by (simp add: unpack_vp8_def flag bool vp8_packs_def pack_vp8_bits)
qed

section \<open>Descriptors that were parsed fit\<close>

lemma word_lessI:
  assumes "n < LENGTH('a)" and "\<And>k. bit (x :: 'a :: len word) k \<Longrightarrow> k < n"
  shows "x < 2 ^ n"
proof -
  have "take_bit n x = x"
    using assms(2) by (intro bit_word_eqI) (auto simp: bit_take_bit_iff)
  then show ?thesis using word_take_bit_less [OF assms(1), of x] by simp
qed

lemma parsed_fields:
  "push_bit 8 (ucast ((b :: u8) AND 0x7f)) OR ucast (c :: u8) < (2 ^ 15 :: u16)"
  "ucast ((b :: u8) AND 0x7f) < (2 ^ 15 :: u16)"
  "drop_bit 6 ((b :: u8) AND 0xc0) < 2 ^ 2" "drop_bit 5 ((b :: u8) AND 0x20) < 2 ^ 1"
  "(b :: u8) AND 0x1f < 2 ^ 5"
proof -
  have l: "bit x k \<Longrightarrow> k < 8" for x :: u8 and k using bit_imp_le_length by fastforce
  have m: "b AND 0x7f = b AND mask 7" "b AND 0x1f = b AND mask 5" by (simp_all add: mask_eq_exp_minus_1)
  show "push_bit 8 (ucast (b AND 0x7f)) OR ucast c < (2 ^ 15 :: u16)"
    unfolding m by (rule word_lessI) (auto simp: word_bits bit_mask_iff dest: l)
  show "ucast (b AND 0x7f) < (2 ^ 15 :: u16)"
    unfolding m by (rule word_lessI) (auto simp: word_bits bit_mask_iff)
  show "drop_bit 6 (b AND 0xc0) < 2 ^ 2"
  proof (rule word_lessI)
    fix k assume "bit (drop_bit 6 (b AND 0xc0)) k"
    then have "bit (b AND 0xc0) (6 + k)" by (simp only: bit_drop_bit_eq comp_def)
    then show "k < 2" by (simp only: and_c0_bit) auto
  qed simp
  show "drop_bit 5 (b AND 0x20) < 2 ^ 1"
  proof (rule word_lessI)
    fix k assume "bit (drop_bit 5 (b AND 0x20)) k"
    then have "bit (b AND 0x20) (5 + k)" by (simp only: bit_drop_bit_eq comp_def)
    then show "k < 1" by (simp only: and_20_bit) auto
  qed simp
  show "b AND 0x1f < 2 ^ 5"
    unfolding m by (rule word_lessI) (auto simp: bit_and_iff bit_mask_iff)
qed

definition vp8_small :: "vp8 \<Rightarrow> bool" where
  "vp8_small v \<longleftrightarrow> PictureIDPresent v \<in> {0, 1} \<and> TL0PICIDXPresent v \<in> {0, 1} \<and>
     TIDPresent v \<in> {0, 1} \<and> KEYIDXPresent v \<in> {0, 1} \<and> PictureID v < 2 ^ 15 \<and>
     TID v < 2 ^ 2 \<and> YBit v < 2 ^ 1 \<and> KEYIDX v < 2 ^ 5"

lemma small_updates:
  assumes "vp8_small v"
  shows "x < 32768 \<Longrightarrow> vp8_small (v\<lparr>PictureIDPresent := 1, MBit := True, PictureID := x\<rparr>)"
    and "x < 32768 \<Longrightarrow> vp8_small (v\<lparr>PictureIDPresent := 1, PictureID := x\<rparr>)"
    and "vp8_small (v\<lparr>TL0PICIDXPresent := 1, TL0PICIDX := y\<rparr>)"
    and "vp8_small (v\<lparr>IsKeyFrame := k, HeaderSize := h\<rparr>)" and "vp8_small (v\<lparr>FirstByte := y\<rparr>)"
  using assms by (simp_all only: vp8_small_def vp8.simps) simp_all

lemma small_picture_id: "vp8_read_picture_id p I (v, i) = Ok (w, j) \<Longrightarrow> vp8_small v \<Longrightarrow> vp8_small w"
  by (auto simp: vp8_read_picture_id_def go_read_def Let_def parsed_fields(1,2) [simplified] small_updates
      split: if_split_asm option.split_asm)

lemma small_tl0: "vp8_read_tl0 p L (v, i) = Ok (w, j) \<Longrightarrow> vp8_small v \<Longrightarrow> vp8_small w"
  by (auto simp: vp8_read_tl0_def go_read_def Let_def small_updates split: if_split_asm option.split_asm)

lemma small_tid:
  "vp8_small v \<Longrightarrow> vp8_small (v\<lparr>TIDPresent := 1, TID := drop_bit 6 (b AND 0xc0), YBit := drop_bit 5 (b AND 0x20)\<rparr>)"
  using parsed_fields(3,4) [of b] by (simp only: vp8_small_def vp8.simps) simp

lemma small_keyidx: "vp8_small v \<Longrightarrow> vp8_small (v\<lparr>KEYIDXPresent := 1, KEYIDX := b AND 0x1f\<rparr>)"
  using parsed_fields(5) [of b] by (simp only: vp8_small_def vp8.simps) simp

lemma small_tk:
  assumes r: "vp8_read_tk p I K (v, i) = Ok (w, j)" and v: "vp8_small v"
  shows "vp8_small w"
proof (cases "(I \<or> K) \<and> \<not> int (length p) < i + 1 + 1")
  case False
  then show ?thesis using r v unfolding vp8_read_tk_def prod.case Let_def by (cases "I \<or> K") simp_all
next
  case True
  then obtain b where b: "go_index p (i + 1) = Some b"
    using r unfolding vp8_read_tk_def prod.case Let_def go_read_def
    by (cases "go_index p (i + 1)") simp_all
  note t = small_tid [OF v, of b]
  show ?thesis
    using True r t small_keyidx [OF v, of b] small_keyidx [OF t, of b] v
    unfolding vp8_read_tk_def prod.case Let_def go_read_def b option.case
    by (cases I; cases K) simp_all
qed

lemma small_keyframe: "vp8_read_keyframe p S (v, i) = Ok w \<Longrightarrow> vp8_small v \<Longrightarrow> vp8_small w"
  by (auto simp: vp8_read_keyframe_def go_read_def Let_def small_updates split: if_split_asm option.split_asm)

lemma vp8_unmarshal_packs:
  assumes "vp8_unmarshal v payload = Ok w" and "vp8_small v"
  shows "vp8_packs w"
proof -
  obtain p where p: "payload = Some p" using assms(1) by (cases payload) (simp_all add: vp8_unmarshal_def)
  obtain b0 where b0: "go_index p 0 = Some b0"
    using assms(1) p by (auto simp: vp8_unmarshal_def go_read_def split: if_splits option.splits)
  have v0: "vp8_small (v\<lparr>FirstByte := b0\<rparr>)" using assms(2) by (rule small_updates)
  have "vp8_small w"
  proof (cases "b0 AND 0x80 > 0")
    case False
    then show ?thesis
      using assms(1) b0 v0 unfolding p
      by (auto simp: vp8_unmarshal_def go_read_def Let_def small_updates split: if_split_asm option.split_asm)
  next
    case True
    obtain b1 where b1: "go_index p 1 = Some b1"
      using assms(1) b0 True p unfolding vp8_unmarshal_def go_read_def Let_def
      by (cases "go_index p 1") (simp_all split: if_splits)
    have "go_bind (vp8_read_picture_id p (b1 AND 0x80 > 0) (v\<lparr>FirstByte := b0\<rparr>, 1)) (\<lambda>s.
        go_bind (vp8_read_tl0 p (b1 AND 0x40 > 0) s) (\<lambda>s.
        go_bind (vp8_read_tk p (b1 AND 0x20 > 0) (b1 AND 0x10 > 0) s)
          (vp8_read_keyframe p (b0 AND 0x10 > 0)))) = Ok w"
      using assms(1) True unfolding p vp8_unmarshal_def go_read_def b0 b1 Let_def option.case
      by (auto split: if_split_asm simp del: go_bind.simps)
    then obtain w1 i1 w2 i2 w3 i3 where
      1: "vp8_read_picture_id p (b1 AND 0x80 > 0) (v\<lparr>FirstByte := b0\<rparr>, 1) = Ok (w1, i1)" and
      2: "vp8_read_tl0 p (b1 AND 0x40 > 0) (w1, i1) = Ok (w2, i2)" and
      3: "vp8_read_tk p (b1 AND 0x20 > 0) (b1 AND 0x10 > 0) (w2, i2) = Ok (w3, i3)" and
      4: "vp8_read_keyframe p (b0 AND 0x10 > 0) (w3, i3) = Ok w"
      by (auto simp: go_bind_eq_Ok)
    show ?thesis
      by (rule small_keyframe [OF 4 small_tk [OF 3 small_tl0 [OF 2 small_picture_id [OF 1 v0]]]])
  qed
  then show ?thesis
    using vp8_unmarshal_bounds [of v p w] assms(1) p by (simp add: vp8_packs_def vp8_small_def)
qed

text \<open>
  C27: the descriptor of a packet survives its storage in a sequencer entry: whatever descriptor
  \<^verbatim>\<open>Unmarshal\<close> parses from a payload, \<^verbatim>\<open>unpackVP8\<close> gives back after \<^verbatim>\<open>packVP8\<close>.
\<close>

theorem unpack_pack_parsed:
  assumes "vp8_unmarshal vp8_zero payload = Ok v"
  shows "unpack_vp8 (pack_vp8 v m) = v"
  using vp8_unmarshal_packs [OF assms] by (simp add: unpack_pack vp8_small_def vp8_zero_def)

theorem unpack_pack_parsed_witness:
  "\<exists>v. vp8_unmarshal vp8_zero (Some [0x90, 0xf0, 0x92, 0x67, 0x45, 0xbf, 0, 1]) = Ok v \<and>
     PictureID v = 0x1267 \<and> unpack_vp8 (pack_vp8 v packet_meta_zero) = v"
proof -
  have "case vp8_unmarshal vp8_zero (Some [0x90, 0xf0, 0x92, 0x67, 0x45, 0xbf, 0, 1]) of Ok v \<Rightarrow>
      PictureID v = 0x1267 | _ \<Rightarrow> False" by code_simp
  then obtain v where "vp8_unmarshal vp8_zero (Some [0x90, 0xf0, 0x92, 0x67, 0x45, 0xbf, 0, 1]) = Ok v"
    and "PictureID v = 0x1267"
    by (auto split: go_res.splits)
  then show ?thesis using unpack_pack_parsed [of _ v packet_meta_zero] by blast
qed

interpretation meta_format: format "\<lambda>v. pack_vp8 v m" "\<lambda>m. Some (unpack_vp8 m)" vp8_packs for m
  by unfold_locales (simp add: unpack_pack)

end
