(* ===== verification/Layers.thy ===== *)
theory Layers
  imports Rtp Vp8
begin

text \<open>
  \<^verbatim>\<open>pkg/buffer/videolayer.go\<close> and the packet type \<open>ExtPacket\<close> of \<^verbatim>\<open>pkg/buffer/buffer.go\<close>. The
  order that \<open>GreaterThan\<close> puts on layers is a linear order, and the library's order on the type.
\<close>

section \<open>Video layers\<close>

datatype video_layer = VideoLayer (Spatial: int) (Temporal: int)

definition InvalidLayerSpatial :: int where "InvalidLayerSpatial = -1"
definition InvalidLayerTemporal :: int where "InvalidLayerTemporal = -1"
definition DefaultMaxLayerSpatial :: int where "DefaultMaxLayerSpatial = 2"
definition DefaultMaxLayerTemporal :: int where "DefaultMaxLayerTemporal = 3"

definition InvalidLayers :: video_layer where
  "InvalidLayers = VideoLayer InvalidLayerSpatial InvalidLayerTemporal"

definition layer_greater_than :: "video_layer \<Rightarrow> video_layer \<Rightarrow> bool" where
  "layer_greater_than v v2 \<longleftrightarrow>
     Spatial v > Spatial v2 \<or> (Spatial v = Spatial v2 \<and> Temporal v > Temporal v2)"

definition spatial_greater_than_or_equal :: "video_layer \<Rightarrow> video_layer \<Rightarrow> bool" where
  "spatial_greater_than_or_equal v v2 \<longleftrightarrow> Spatial v \<ge> Spatial v2"

definition layer_is_valid :: "video_layer \<Rightarrow> bool" where
  "layer_is_valid v \<longleftrightarrow> Spatial v \<noteq> InvalidLayerSpatial \<and> Temporal v \<noteq> InvalidLayerTemporal"

instantiation video_layer :: linorder
begin

definition less_video_layer :: "video_layer \<Rightarrow> video_layer \<Rightarrow> bool" where
  "less_video_layer v w \<longleftrightarrow> layer_greater_than w v"

definition less_eq_video_layer :: "video_layer \<Rightarrow> video_layer \<Rightarrow> bool" where
  "less_eq_video_layer v w \<longleftrightarrow> \<not> layer_greater_than v w"

instance
  by standard
    (auto simp: less_video_layer_def less_eq_video_layer_def layer_greater_than_def video_layer.expand)

end

section \<open>Packets on their way through a buffer\<close>

text \<open>
  The payload is an \<open>interface{}\<close> that holds a VP8 descriptor or nothing. \<open>RawPacket\<close> is the part of
  the reader's slice that holds the packet.
\<close>

record ext_packet =
  Layer :: video_layer
  Arrival :: int
  Packet :: rtp_packet
  ExtPayload :: "vp8 option"
  KeyFrame :: bool
  RawPacket :: "u8 list"

end
