(* ===== verification/Fps.thy ===== *)
theory Fps
  imports Layers Interfaces
begin

text \<open>
  \<^verbatim>\<open>pkg/buffer/fps.go\<close>: the frame rate of a VP8 stream, measured from the picture ids of its first
  frames. A \<open>*frameInfo\<close> is never written again once it is stored, so it is the frame itself;
  run-time panics are \<open>None\<close>.
\<close>

section \<open>State\<close>

definition minFramesForCalculation :: "int list" where
  "minFramesForCalculation = [8, 15, 40, 0]"

record frame_info =
  fiSeq :: u16
  fiTs :: u32
  fiFn :: u16
  fiTemporal :: int

record fps_vp8 =
  frameRates :: "gofloat list"
  fpsClockRate :: u32
  firstFrames :: "frame_info option list"
  secondFrames :: "frame_info option list"
  fnReceived :: "frame_info option list"
  baseFrame :: "frame_info option"
  fpsCompleted :: bool

definition new_fps_vp8 :: "u32 \<Rightarrow> fps_vp8" where
  "new_fps_vp8 clockRate = \<lparr>frameRates = replicate 4 (Fin 0), fpsClockRate = clockRate,
     firstFrames = replicate 4 None, secondFrames = replicate 4 None,
     fnReceived = replicate 64 None, baseFrame = None, fpsCompleted = False\<rparr>"

definition fps_reset :: "fps_vp8 \<Rightarrow> fps_vp8" where
  "fps_reset f = f\<lparr>firstFrames := replicate 4 None, secondFrames := replicate 4 None,
     fnReceived := replicate 64 None, baseFrame := None\<rparr>"

definition get_frame_rate :: "fps_vp8 \<Rightarrow> gofloat list" where
  "get_frame_rate f = frameRates f"

section \<open>Measuring\<close>

lemma unat_less_Suc: "j < (k :: 'a :: len word) \<Longrightarrow> unat (j + 1) = Suc (unat j)"
proof -
  assume "j < k"
  then have "Suc (unat j) < 2 ^ LENGTH('a)"
    using unsigned_less [of k, where 'a = nat] unfolding word_less_nat_alt by linarith
  then show ?thesis by (simp add: unat_word_ariths)
qed

text \<open>
  The loop over the frames from \<open>j\<close> up to \<open>bound\<close>: the frames of the layer or below, up to the
  first one missing, and the time stamp of the last of them.
\<close>

function count_frames :: "frame_info option list \<Rightarrow> int \<Rightarrow> u16 \<Rightarrow> u16 \<Rightarrow> int \<Rightarrow> u32 \<Rightarrow> (int \<times> u32) option" where
  "count_frames received temporal j bound frameCount lastTs =
     (if j < bound then
        case go_index received (uint j) of
          None \<Rightarrow> None
        | Some None \<Rightarrow> Some (frameCount, lastTs)
        | Some (Some f) \<Rightarrow>
            if fiTemporal f \<le> temporal
            then count_frames received temporal (j + 1) bound (frameCount + 1) (fiTs f)
            else count_frames received temporal (j + 1) bound frameCount lastTs
      else Some (frameCount, lastTs))"
  by pat_completeness auto

termination
  by (relation "measure (\<lambda>(received, temporal, j, bound, frameCount, lastTs). unat bound - unat j)")
    (auto simp: unat_less_Suc word_less_nat_alt)

declare count_frames.simps [simp del]

definition fps_rate :: "u32 \<Rightarrow> u32 \<Rightarrow> int \<Rightarrow> gofloat" where
  "fps_rate clockRate dt frameCount =
     f_mul F32 (f_div F32 (f_of_int F32 (uint clockRate)) (f_of_int F32 (uint dt))) (f_of_int F32 frameCount)"

text \<open>One round of the loop over the layers; its state is \<open>rateCounter\<close> and the calculator.\<close>

definition fps_calc_layer :: "int \<Rightarrow> int \<times> fps_vp8 \<Rightarrow> (int \<times> fps_vp8) option" where
  "fps_calc_layer t = (\<lambda>(rateCounter, f). do {
     rate \<leftarrow> go_index (frameRates f) t;
     if f_less (Fin 0) rate then Some (rateCounter + 1, f)
     else do {
       ff \<leftarrow> go_index (firstFrames f) t;
       sf \<leftarrow> go_index (secondFrames f) t;
       if rateCounter > 0 \<and> ff = None then Some (rateCounter + 1, f)
       else case (ff, sf) of
         (Some ff, Some sf) \<Rightarrow> do {
           base \<leftarrow> baseFrame f;
           (frameCount, lastTs) \<leftarrow> count_frames (fnReceived f) t (fiFn ff - fiFn base + 1)
             (fiFn sf - fiFn base + 1) 0 (fiTs ff);
           least \<leftarrow> go_index minFramesForCalculation t;
           if frameCount \<ge> least then do {
             rates \<leftarrow> go_update (frameRates f) t (fps_rate (fpsClockRate f) (lastTs - fiTs ff) frameCount);
             Some (rateCounter + 1, f\<lparr>frameRates := rates\<rparr>) }
           else Some (rateCounter, f) }
       | _ \<Rightarrow> Some (rateCounter, f) } })"

definition fps_normalize :: "fps_vp8 \<Rightarrow> fps_vp8 option" where
  "fps_normalize f = do {
     r1 \<leftarrow> go_index (frameRates f) 1;
     r2 \<leftarrow> go_index (frameRates f) 2;
     if f_less (Fin 0) r2 \<and> f_less (f_mul F32 r1 (Fin 3)) r2 then do {
       rates \<leftarrow> go_update (frameRates f) 1 (f_div F32 r2 (Fin 2));
       Some (f\<lparr>frameRates := rates\<rparr>) }
     else Some f }"

definition fps_calc :: "fps_vp8 \<Rightarrow> (bool \<times> fps_vp8) option" where
  "fps_calc f = do {
     (rateCounter, f) \<leftarrow> run_panic fps_calc_layer [0..DefaultMaxLayerTemporal] (0, f);
     if rateCounter = int (length (frameRates f)) then do {
       f \<leftarrow> fps_normalize (f\<lparr>fpsCompleted := True\<rparr>);
       Some (True, fps_reset f) }
     else Some (False, f) }"

text \<open>The first and second frames of the layer, once the frame \<open>fi\<close> has been received.\<close>

definition fps_is_second :: "frame_info \<Rightarrow> frame_info option \<Rightarrow> u16 \<Rightarrow> bool" where
  "fps_is_second firstFrame secondFrame fn \<longleftrightarrow>
     (case secondFrame of None \<Rightarrow> True | Some sf \<Rightarrow> fiFn sf < fn) \<and>
     fn \<noteq> fiFn firstFrame \<and> fn - fiFn firstFrame < 0x4000"

definition fps_track :: "int \<Rightarrow> frame_info \<Rightarrow> fps_vp8 \<Rightarrow> fps_vp8 option" where
  "fps_track temporal fi f = do {
     firstFrame \<leftarrow> go_index (firstFrames f) temporal;
     secondFrame \<leftarrow> go_index (secondFrames f) temporal;
     case firstFrame of
       None \<Rightarrow> do {
         firsts \<leftarrow> go_update (firstFrames f) temporal (Some fi);
         Some (f\<lparr>firstFrames := firsts\<rparr>) }
     | Some ff \<Rightarrow>
         if fps_is_second ff secondFrame (fiFn fi) then do {
           seconds \<leftarrow> go_update (secondFrames f) temporal (Some fi);
           Some (f\<lparr>secondFrames := seconds\<rparr>) }
         else Some f }"

definition fps_recv_packet :: "ext_packet \<Rightarrow> fps_vp8 \<Rightarrow> (bool \<times> fps_vp8) option" where
  "fps_recv_packet ep f =
     (if fpsCompleted f then Some (True, f)
      else case ExtPayload ep of None \<Rightarrow> Some (False, f) | Some vp8 \<Rightarrow>
        let fn = PictureID vp8; h = Header (Packet ep) in
        if Temporal (Layer ep) \<ge> int (length (frameRates f)) then Some (False, f)
        else
          let temporal = (if Temporal (Layer ep) < 0 then 0 else Temporal (Layer ep)) in
          case baseFrame f of
            None \<Rightarrow> do {
              let b = \<lparr>fiSeq = SequenceNumber h, fiTs = Timestamp h, fiFn = fn, fiTemporal = 0\<rparr>;
              received \<leftarrow> go_update (fnReceived f) 0 (Some b);
              firsts \<leftarrow> go_update (firstFrames f) temporal (Some b);
              Some (False, f\<lparr>baseFrame := Some b, fnReceived := received, firstFrames := firsts\<rparr>) }
          | Some base \<Rightarrow>
            let baseDiff = fn - fiFn base in
            if baseDiff = 0 \<or> baseDiff > 0x4000 then Some (False, f)
            else if baseDiff \<ge> word_of_int (int (length (fnReceived f))) then Some (False, fps_reset f)
            else do {
              seen \<leftarrow> go_index (fnReceived f) (uint baseDiff);
              if seen \<noteq> None then Some (False, f)
              else do {
                let fi = \<lparr>fiSeq = SequenceNumber h, fiTs = Timestamp h, fiFn = fn, fiTemporal = temporal\<rparr>;
                received \<leftarrow> go_update (fnReceived f) (uint baseDiff) (Some fi);
                let f = f\<lparr>fnReceived := received\<rparr>;
                f \<leftarrow> fps_track temporal fi f;
                fps_calc f } })"

end
