(* ===== verification/FpsSpec.thy ===== *)
theory FpsSpec
  imports Fps
begin

text \<open>
  What the frame rate calculator promises: it never panics, a steady stream is measured after
  nine frames, and what happens when the picture ids wrap.
\<close>

definition fps_step :: "ext_packet \<Rightarrow> fps_vp8 \<Rightarrow> fps_vp8 option" where
  "fps_step ep f = map_option snd (fps_recv_packet ep f)"

section \<open>No panic\<close>

text \<open>The frame is within 64 picture ids of the base frame.\<close>

definition fps_near :: "frame_info \<Rightarrow> frame_info option \<Rightarrow> bool" where
  "fps_near b e = (case e of None \<Rightarrow> True | Some x \<Rightarrow> unat (fiFn x - fiFn b) < 64)"

definition fps_refs :: "frame_info option \<Rightarrow> frame_info option list \<Rightarrow> frame_info option list \<Rightarrow> bool" where
  "fps_refs base firsts seconds = (case base of None \<Rightarrow> list_all (\<lambda>e. e = None) firsts \<and> list_all (\<lambda>e. e = None) seconds
     | Some b \<Rightarrow> list_all (fps_near b) firsts \<and> list_all (fps_near b) seconds)"

lemma fps_refs_simps [simp]:
  "fps_refs None firsts seconds = (list_all (\<lambda>e. e = None) firsts \<and> list_all (\<lambda>e. e = None) seconds)"
  "fps_refs (Some b) firsts seconds = (list_all (fps_near b) firsts \<and> list_all (fps_near b) seconds)"
  by (simp_all add: fps_refs_def)

definition fps_inv :: "fps_vp8 \<Rightarrow> bool" where
  "fps_inv f \<longleftrightarrow> length (frameRates f) = 4 \<and> length (firstFrames f) = 4 \<and> length (secondFrames f) = 4 \<and>
     length (fnReceived f) = 64 \<and>
     fps_refs (baseFrame f) (firstFrames f) (secondFrames f)"

lemma fps_reset_inv: "fps_inv f \<Longrightarrow> fps_inv (fps_reset f)"
  by (simp add: fps_inv_def fps_reset_def list_all_iff)

lemma count_frames_total:
  "unat bound \<le> length received \<Longrightarrow> \<exists>r. count_frames received t j bound c ts = Some r"
proof (induction received t j bound c ts rule: count_frames.induct)
  case (1 received t j bound c ts)
  show ?case
  proof (cases "j < bound")
    case True
    then have "unat j < length received" using 1(3) by (simp add: word_less_nat_alt)
    then have i: "go_index received (uint j) = Some (received ! unat j)"
      by (rule go_index_unat)
    show ?thesis
    proof (cases "received ! unat j")
      case None
      then show ?thesis using True i by (subst count_frames.simps) simp
    next
      case (Some f)
      have "\<exists>r. count_frames received t (j + 1) bound (c + 1) (fiTs f) = Some r" if "fiTemporal f \<le> t"
        by (rule 1(1) [OF True _ Some that 1(3)]) (rule i)
      moreover have "\<exists>r. count_frames received t (j + 1) bound c ts = Some r" if "\<not> fiTemporal f \<le> t"
        by (rule 1(2) [OF True _ Some that 1(3)]) (rule i)
      ultimately show ?thesis using True i Some by (subst count_frames.simps) simp
    qed
  qed (subst count_frames.simps, simp)
qed

lemma fps_calc_layer_inv:
  assumes inv: "fps_inv f" and t: "0 \<le> t" "t < 4"
  shows "\<exists>n f'. fps_calc_layer t (c, f) = Some (n, f') \<and> fps_inv f'"
proof -
  let ?r = "frameRates f ! nat t" and ?ff = "firstFrames f ! nat t" and ?sf = "secondFrames f ! nat t"
  have n: "nat t < 4" using t by simp
  have i: "go_index (frameRates f) t = Some ?r" "go_index (firstFrames f) t = Some ?ff"
    "go_index (secondFrames f) t = Some ?sf" "\<exists>m. go_index minFramesForCalculation t = Some m"
    using inv t by (simp_all add: fps_inv_def go_index_def minFramesForCalculation_def)
  have u: "go_update (frameRates f) t x = Some ((frameRates f)[nat t := x])" for x
    using inv t by (simp add: fps_inv_def go_update_def)
  have inv': "fps_inv (f\<lparr>frameRates := (frameRates f)[nat t := x]\<rparr>)" for x
    using inv by (simp add: fps_inv_def)
  show ?thesis
  proof (cases "f_less (Fin 0) ?r \<or> ?ff = None \<or> ?sf = None")
    case True
    then show ?thesis using inv by (cases ?ff) (auto simp: fps_calc_layer_def i)
  next
    case False
    then obtain ff sf where fs: "?ff = Some ff" "?sf = Some sf" by auto
    obtain b where b: "baseFrame f = Some b"
    proof (cases "baseFrame f")
      case None
      then have "list_all (\<lambda>e. e = None) (firstFrames f)" "length (firstFrames f) = 4"
        using inv by (simp_all add: fps_inv_def)
      then have "?ff = None" using n by (simp add: list_all_length)
      then show ?thesis using fs by simp
    qed
    have "fps_near b ?sf" using inv b n by (simp add: fps_inv_def list_all_length)
    then have "unat (fiFn sf - fiFn b) < 64" by (simp add: fps_near_def fs)
    then have "unat (fiFn sf - fiFn b + 1) \<le> length (fnReceived f)"
      using inv by (simp add: fps_inv_def unat_word_ariths)
    from count_frames_total [OF this] obtain k ts where
      "count_frames (fnReceived f) t (fiFn ff - fiFn b + 1) (fiFn sf - fiFn b + 1) 0 (fiTs ff) = Some (k, ts)"
      by force
    moreover obtain m where "go_index minFramesForCalculation t = Some m" using i(4) by blast
    ultimately show ?thesis
      using False inv inv' by (simp add: fps_calc_layer_def i(1-3) fs b u del: option_bind_eq_Some)
  qed
qed

lemma fps_calc_layers_inv:
  "list_all (\<lambda>t. 0 \<le> t \<and> t < 4) ts \<Longrightarrow> fps_inv f \<Longrightarrow>
   \<exists>n f'. run_panic fps_calc_layer ts (c, f) = Some (n, f') \<and> fps_inv f'"
proof (induction ts arbitrary: c f)
  case (Cons t ts)
  then obtain n f' where "fps_calc_layer t (c, f) = Some (n, f')" "fps_inv f'"
    using fps_calc_layer_inv [of f t c] by auto
  then show ?case using Cons.IH [of f' n] Cons.prems by simp
qed simp

lemma layers_upto: "[0..DefaultMaxLayerTemporal] = [0, 1, 2, 3]"
  by (simp add: DefaultMaxLayerTemporal_def upto.simps)

lemma fps_normalize_inv: "fps_inv f \<Longrightarrow> \<exists>f'. fps_normalize f = Some f' \<and> fps_inv f'"
  by (simp add: fps_normalize_def go_index_def go_update_def) (auto simp: fps_inv_def)

lemma fps_calc_inv:
  assumes "fps_inv f"
  shows "\<exists>r f'. fps_calc f = Some (r, f') \<and> fps_inv f'"
proof -
  obtain n f1 where 1: "run_panic fps_calc_layer [0..DefaultMaxLayerTemporal] (0, f) = Some (n, f1)" "fps_inv f1"
    using fps_calc_layers_inv [of "[0, 1, 2, 3]" f 0] assms by (auto simp: layers_upto)
  have "fps_inv (f1\<lparr>fpsCompleted := True\<rparr>)" using 1 by (simp add: fps_inv_def)
  then obtain f2 where "fps_normalize (f1\<lparr>fpsCompleted := True\<rparr>) = Some f2" "fps_inv f2"
    using fps_normalize_inv by blast
  then show ?thesis
    using 1 fps_reset_inv [of f2]
    by (cases "n = int (length (frameRates f1))") (auto simp: fps_calc_def simp del: option_bind_eq_Some)
qed

lemma fps_track_inv:
  assumes inv: "fps_inv f" and base: "baseFrame f = Some base" and t: "0 \<le> t" "t < 4"
    and n: "fps_near base (Some fi)"
  shows "\<exists>f'. fps_track t fi f = Some f' \<and> fps_inv f'"
proof -
  have len: "length (firstFrames f) = 4" "length (secondFrames f) = 4"
    using inv by (simp_all add: fps_inv_def)
  have i: "go_index (firstFrames f) t = Some (firstFrames f ! nat t)"
    "go_index (secondFrames f) t = Some (secondFrames f ! nat t)"
    "go_update (firstFrames f) t x = Some ((firstFrames f)[nat t := x])"
    "go_update (secondFrames f) t x = Some ((secondFrames f)[nat t := x])" for x
    using t len by (simp_all add: go_index_def go_update_def)
  have "fps_inv (f\<lparr>firstFrames := (firstFrames f)[nat t := Some fi]\<rparr>)"
    "fps_inv (f\<lparr>secondFrames := (secondFrames f)[nat t := Some fi]\<rparr>)"
    using inv base n by (simp_all add: fps_inv_def list_all_update)
  then show ?thesis
    using inv by (cases "firstFrames f ! nat t") (simp_all add: fps_track_def i del: option_bind_eq_Some)
qed

lemma fps_recv_packet_inv:
  assumes inv: "fps_inv f"
  shows "\<exists>r f'. fps_recv_packet ep f = Some (r, f') \<and> fps_inv f'"
proof -
  let ?t = "Temporal (Layer ep)" and ?h = "Header (Packet ep)"
  define u where "u = (if ?t < 0 then 0 else ?t)"
  have len: "length (frameRates f) = 4" "length (firstFrames f) = 4" "length (secondFrames f) = 4"
    "length (fnReceived f) = 64"
    using inv by (simp_all add: fps_inv_def)
  show ?thesis
  proof (cases "fpsCompleted f \<or> ExtPayload ep = None \<or> ?t \<ge> 4")
    case True
    then show ?thesis using inv len by (auto simp: fps_recv_packet_def Let_def split: option.split)
  next
    case False
    then obtain v where v: "\<not> fpsCompleted f" "ExtPayload ep = Some v" "?t < 4" by auto
    have u: "0 \<le> u" "u < 4" "nat u < 4" using v(3) by (auto simp: u_def)
    show ?thesis
    proof (cases "baseFrame f")
      case None
      let ?b = "\<lparr>fiSeq = SequenceNumber ?h, fiTs = Timestamp ?h, fiFn = PictureID v, fiTemporal = 0\<rparr>"
      let ?f = "f\<lparr>baseFrame := Some ?b, fnReceived := (fnReceived f)[0 := Some ?b],
        firstFrames := (firstFrames f)[nat u := Some ?b]\<rparr>"
      have "fps_recv_packet ep f = Some (False, ?f)"
        using v None len u unfolding fps_recv_packet_def Let_def u_def [symmetric]
        by (simp add: go_update_def)
      moreover have "fps_inv ?f"
      proof -
        have "fps_near ?b None" "fps_near ?b (Some ?b)" by (simp_all add: fps_near_def)
        then have "list_all (fps_near ?b) (firstFrames f)" "list_all (fps_near ?b) (secondFrames f)"
          "fps_near ?b (Some ?b)"
          using inv None by (auto simp: fps_inv_def list_all_iff)
        then show ?thesis using len by (simp add: fps_inv_def list_all_update)
      qed
      ultimately show ?thesis by blast
    next
      case (Some base)
      let ?d = "PictureID v - fiFn base"
      let ?fi = "\<lparr>fiSeq = SequenceNumber ?h, fiTs = Timestamp ?h, fiFn = PictureID v, fiTemporal = u\<rparr>"
      consider (ignored) "?d = 0 \<or> ?d > 0x4000" | (reset) "?d \<ge> 64" "\<not> (?d = 0 \<or> ?d > 0x4000)"
        | (near) "?d < 64" "\<not> (?d = 0 \<or> ?d > 0x4000)" by fastforce
      then show ?thesis
      proof cases
        case ignored
        then show ?thesis
          using v Some inv len by (auto simp: fps_recv_packet_def Let_def)
      next
        case reset
        then have "fps_recv_packet ep f = Some (False, fps_reset f)"
          using v Some len unfolding fps_recv_packet_def Let_def u_def [symmetric] by simp
        then show ?thesis using fps_reset_inv [OF inv] by blast
      next
        case near
        let ?r = "(fnReceived f)[unat ?d := Some ?fi]"
        have d: "unat ?d < length (fnReceived f)" using near(1) len by (simp add: word_less_nat_alt)
        have n: "fps_near base (Some ?fi)" using near(1) by (simp add: fps_near_def word_less_nat_alt)
        have refs: "list_all (fps_near base) (firstFrames f)" "list_all (fps_near base) (secondFrames f)"
          using inv Some by (simp_all add: fps_inv_def)
        have f0: "fps_inv (f\<lparr>fnReceived := ?r\<rparr>)" "baseFrame (f\<lparr>fnReceived := ?r\<rparr>) = Some base"
          using len Some refs by (simp_all add: fps_inv_def)
        obtain f1 where f1: "fps_track u ?fi (f\<lparr>fnReceived := ?r\<rparr>) = Some f1" "fps_inv f1"
          using fps_track_inv [OF f0 u(1,2) n] by blast
        have "fps_recv_packet ep f =
          (if fnReceived f ! unat ?d \<noteq> None then Some (False, f) else fps_calc f1)"
          using v Some near near(1) [folded not_le] len go_index_unat [OF d] go_update_unat [OF d] f1
          unfolding fps_recv_packet_def Let_def u_def [symmetric]
          by (cases "fnReceived f ! unat ?d") (simp_all del: option_bind_eq_Some)
        then show ?thesis using inv fps_calc_inv [OF f1(2)] by auto
      qed
    qed
  qed
qed

interpretation fps: panic_free fps_step "\<lambda>ep. True" fps_inv
proof
  fix f ep assume "fps_inv f"
  from fps_recv_packet_inv [OF this, of ep] show "\<exists>f'. fps_step ep f = Some f' \<and> fps_inv f'"
    by (auto simp: fps_step_def)
qed

lemma new_fps_inv: "fps_inv (new_fps_vp8 c)"
  by (simp add: fps_inv_def new_fps_vp8_def list_all_iff)

section \<open>Measuring a steady stream\<close>

lemma unat_of_nat16: "k < 65536 \<Longrightarrow> unat (of_nat k :: u16) = k"
  by (simp add: unat_of_nat)

lemma count_frames_steady:
  assumes "a \<le> b" and "b \<le> length received" and "b < 65536"
    and "\<And>j. a \<le> j \<Longrightarrow> j < b \<Longrightarrow> \<exists>x. received ! j = Some x \<and> fiTemporal x \<le> t \<and> fiTs x = T j"
  shows "count_frames received t (of_nat a) (of_nat b) c ts =
    Some (c + int (b - a), if a = b then ts else T (b - 1))"
  using assms(1,4)
proof (induction "b - a" arbitrary: a c ts)
  case 0
  then show ?case by (subst count_frames.simps) simp
next
  case (Suc n)
  then have ab: "a < b" and n: "n = b - (a + 1)" by simp_all
  obtain x where x: "received ! a = Some x" "fiTemporal x \<le> t" "fiTs x = T a"
    using Suc.prems(2) [of a] ab by auto
  have ua: "unat (of_nat a :: u16) = a" "unat (of_nat b :: u16) = b"
    using ab assms(3) by (simp_all add: unat_of_nat16)
  have "(of_nat a :: u16) < of_nat b" unfolding word_less_nat_alt ua by (rule ab)
  moreover have "go_index received (uint (of_nat a :: u16)) = Some (Some x)"
  proof -
    have "unat (of_nat a :: u16) < length received" unfolding ua using ab assms(2) by linarith
    from go_index_unat [OF this] show ?thesis by (simp only: ua x(1))
  qed
  ultimately have "count_frames received t (of_nat a) (of_nat b) c ts =
      count_frames received t (of_nat (a + 1)) (of_nat b) (c + 1) (T a)"
    using x by (subst count_frames.simps) (simp add: add.commute)
  also have "\<dots> = Some (c + 1 + int (b - (a + 1)), if a + 1 = b then T a else T (b - 1))"
    using Suc.hyps(1) [OF n, of "c + 1" "T a"] ab Suc.prems(2) by simp
  finally show ?case using ab by auto
qed

text \<open>The \<open>k\<close>-th frame of a stream with one temporal layer and frames \<open>d\<close> ticks apart.\<close>

definition steady_frame :: "u16 \<Rightarrow> u32 \<Rightarrow> u32 \<Rightarrow> nat \<Rightarrow> ext_packet \<Rightarrow> bool" where
  "steady_frame p ts d k ep \<longleftrightarrow> Temporal (Layer ep) = 0 \<and> Timestamp (Header (Packet ep)) = ts + of_nat k * d \<and>
     (\<exists>v. ExtPayload ep = Some v \<and> PictureID v = p + of_nat k)"

definition steady_state :: "u32 \<Rightarrow> u16 \<Rightarrow> u32 \<Rightarrow> u32 \<Rightarrow> nat \<Rightarrow> fps_vp8 \<Rightarrow> bool" where
  "steady_state c p ts d k f \<longleftrightarrow> frameRates f = replicate 4 (Fin 0) \<and> fpsClockRate f = c \<and> \<not> fpsCompleted f \<and>
     length (fnReceived f) = 64 \<and>
     (\<exists>b s. baseFrame f = Some b \<and> fiFn b = p \<and> fiTs b = ts \<and> firstFrames f = [Some b, None, None, None] \<and>
        secondFrames f = [s, None, None, None] \<and>
        (if k = 1 then s = None else \<exists>x. s = Some x \<and> fiFn x = p + of_nat (k - 1))) \<and>
     (\<forall>j < k. \<exists>x. fnReceived f ! j = Some x \<and> fiTemporal x = 0 \<and> fiTs x = ts + of_nat j * d) \<and>
     (\<forall>j. k \<le> j \<and> j < 64 \<longrightarrow> fnReceived f ! j = None)"

lemma steady_first:
  assumes "steady_frame p ts d 0 ep"
  shows "\<exists>f. fps_step ep (new_fps_vp8 c) = Some f \<and> steady_state c p ts d 1 f"
proof -
  obtain v where v: "ExtPayload ep = Some v" "PictureID v = p" "Temporal (Layer ep) = 0"
    "Timestamp (Header (Packet ep)) = ts"
    using assms by (auto simp: steady_frame_def)
  let ?b = "\<lparr>fiSeq = SequenceNumber (Header (Packet ep)), fiTs = ts, fiFn = p, fiTemporal = 0\<rparr>"
  let ?f = "(new_fps_vp8 c)\<lparr>baseFrame := Some ?b, fnReceived := (replicate 64 None)[0 := Some ?b],
    firstFrames := (replicate 4 None)[0 := Some ?b]\<rparr>"
  have "fps_step ep (new_fps_vp8 c) = Some ?f"
    using v by (simp add: fps_step_def fps_recv_packet_def new_fps_vp8_def go_update_def Let_def)
  moreover have "steady_state c p ts d 1 ?f"
    by (simp add: steady_state_def new_fps_vp8_def numeral_eq_Suc nth_Cons')
  ultimately show ?thesis by blast
qed

text \<open>What the loop over the layers makes of the frames received.\<close>

lemma steady_calc:
  assumes st: "steady_state c p ts d (Suc k) f" and k: "1 \<le> k" "k \<le> 8"
  shows "run_panic fps_calc_layer [0..DefaultMaxLayerTemporal] (0, f) =
    Some (if k < 8 then (0, f) else (4, f\<lparr>frameRates := [fps_rate c (of_nat 8 * d) 8, Fin 0, Fin 0, Fin 0]\<rparr>))"
proof -
  obtain b x where b: "baseFrame f = Some b" "fiFn b = p" "fiTs b = ts"
    and ff: "firstFrames f = [Some b, None, None, None]" and sf: "secondFrames f = [Some x, None, None, None]"
    and x: "fiFn x = p + of_nat k"
    using st k by (auto simp: steady_state_def)
  have rates: "frameRates f = [Fin 0, Fin 0, Fin 0, Fin 0]" "fpsClockRate f = c" "length (fnReceived f) = 64"
    using st by (simp_all add: steady_state_def numeral_eq_Suc)
  have "\<exists>y. fnReceived f ! j = Some y \<and> fiTemporal y \<le> 0 \<and> fiTs y = ts + of_nat j * d" if "1 \<le> j" "j < k + 1" for j
  proof -
    have "\<forall>j < Suc k. \<exists>x. fnReceived f ! j = Some x \<and> fiTemporal x = 0 \<and> fiTs x = ts + of_nat j * d"
      using st by (simp add: steady_state_def)
    moreover have "j < Suc k" using that by simp
    ultimately obtain x where "fnReceived f ! j = Some x" "fiTemporal x = 0" "fiTs x = ts + of_nat j * d"
      by blast
    then show ?thesis by simp
  qed
  from count_frames_steady [of 1 "k + 1" "fnReceived f" 0 "\<lambda>j. ts + of_nat j * d" 0 ts, OF _ _ _ this]
  have cf: "count_frames (fnReceived f) 0 1 (of_nat k + 1) 0 ts = Some (int k, ts + of_nat k * d)"
    using k rates by (simp add: add.commute)
  have i: "go_index [a, a1, a2, a3] 0 = Some a" "go_index [a, a1, a2, a3] 1 = Some a1"
    "go_index [a, a1, a2, a3] 2 = Some a2" "go_index [a, a1, a2, a3] 3 = Some a3" for a a1 a2 a3 :: 'x
    by (simp_all add: go_index_def numeral_eq_Suc)
  have u: "go_update [Fin 0, Fin 0, Fin 0, Fin 0] 0 r = Some [r, Fin 0, Fin 0, Fin 0]" for r
    by (simp add: go_update_def)
  let ?f = "f\<lparr>frameRates := [fps_rate c (of_nat k * d) (int k), Fin 0, Fin 0, Fin 0]\<rparr>"
  have l0: "fps_calc_layer 0 (0, f) = Some (if k < 8 then (0, f) else (1, ?f))"
    using b ff sf x rates cf k
    by (simp add: fps_calc_layer_def i u minFramesForCalculation_def del: option_bind_eq_Some)
  have lt: "fps_calc_layer t (n, f') = Some (if n > 0 then n + 1 else n, f')"
    if "t \<in> {1, 2, 3}" "frameRates f' = [r, Fin 0, Fin 0, Fin 0]" "firstFrames f' = [a, None, None, None]"
      "secondFrames f' = [s, None, None, None]" for t n f' r a s
  proof -
    from that(1) consider "t = 1" | "t = 2" | "t = 3" by auto
    then show ?thesis
      using that(2-4) by cases (simp_all add: fps_calc_layer_def i del: option_bind_eq_Some)
  qed
  show ?thesis
  proof (cases "k < 8")
    case True
    then show ?thesis by (simp add: layers_upto l0 lt [OF _ rates(1) ff sf] del: option_bind_eq_Some)
  next
    case False
    then have "k = 8" using k by simp
    moreover have "fps_calc_layer t (n, ?f) = Some (if n > 0 then n + 1 else n, ?f)" if "t \<in> {1, 2, 3}" for t n
      by (rule lt [OF that, of _ "fps_rate c (of_nat k * d) (int k)" "Some b" "Some x"]) (simp_all add: ff sf)
    ultimately show ?thesis by (simp add: layers_upto l0 del: option_bind_eq_Some)
  qed
qed

lemma steady_next:
  assumes st: "steady_state c p ts d k f" and fr: "steady_frame p ts d k ep" and k: "1 \<le> k" "k \<le> 8"
    and p: "unat p + 8 < 65536"
  shows "\<exists>f1. steady_state c p ts d (Suc k) f1 \<and> fps_recv_packet ep f = fps_calc f1"
proof -
  obtain v where v: "ExtPayload ep = Some v" "PictureID v = p + of_nat k" "Temporal (Layer ep) = 0"
    "Timestamp (Header (Packet ep)) = ts + of_nat k * d"
    using fr by (auto simp: steady_frame_def)
  obtain b s where b: "baseFrame f = Some b" "fiFn b = p" "fiTs b = ts"
    and ff: "firstFrames f = [Some b, None, None, None]" and sf: "secondFrames f = [s, None, None, None]"
    and s: "if k = 1 then s = None else \<exists>x. s = Some x \<and> fiFn x = p + of_nat (k - 1)"
    using st by (auto simp: steady_state_def)
  have f: "frameRates f = replicate 4 (Fin 0)" "fpsClockRate f = c" "\<not> fpsCompleted f" "length (fnReceived f) = 64"
    using st by (simp_all add: steady_state_def)
  have rec: "\<forall>j < k. \<exists>x. fnReceived f ! j = Some x \<and> fiTemporal x = 0 \<and> fiTs x = ts + of_nat j * d"
    "\<forall>j. k \<le> j \<and> j < 64 \<longrightarrow> fnReceived f ! j = None"
    using st by (simp_all add: steady_state_def)
  let ?fi = "\<lparr>fiSeq = SequenceNumber (Header (Packet ep)), fiTs = ts + of_nat k * d, fiFn = p + of_nat k,
    fiTemporal = 0\<rparr>"
  let ?f1 = "f\<lparr>fnReceived := (fnReceived f)[k := Some ?fi], secondFrames := [Some ?fi, None, None, None]\<rparr>"
  have uk: "unat (of_nat k :: u16) = k" using k by (simp add: unat_of_nat16)
  have pk: "unat (p + of_nat k) = unat p + k"
    using p k by (simp add: unat_word_ariths unat_of_nat)
  have "unat (of_nat (k - 1) :: u16) = k - 1" using k by (intro unat_of_nat16) simp
  then have pk1: "unat (p + of_nat (k - 1)) = unat p + (k - 1)"
    unfolding unat_word_ariths using p k by simp
  have nz: "(of_nat k :: u16) \<noteq> 0" and small: "\<not> (of_nat k :: u16) > 0x4000" "(of_nat k :: u16) < 64"
    "(of_nat k :: u16) < 0x4000"
    using uk k by (simp_all add: word_less_nat_alt word_unat_eq_iff)
  have second: "fps_is_second b s (p + of_nat k)"
  proof (cases s)
    case None
    then show ?thesis using nz small b by (simp add: fps_is_second_def)
  next
    case (Some x)
    then have x: "fiFn x = p + of_nat (k - 1)" using s by (simp split: if_splits)
    have "p + of_nat (k - 1) < p + of_nat k" unfolding word_less_nat_alt pk pk1 using k by simp
    then show ?thesis using Some nz small b unfolding fps_is_second_def by (simp add: x del: of_nat_diff)
  qed
  have tr: "fps_track 0 ?fi (f\<lparr>fnReceived := (fnReceived f)[k := Some ?fi]\<rparr>) = Some ?f1"
    using ff sf second by (simp add: fps_track_def go_index_def go_update_def)
  have kl: "unat (of_nat k :: u16) < length (fnReceived f)" using uk k f by simp
  have none: "fnReceived f ! k = None" using rec k by auto
  have seen: "go_index (fnReceived f) (uint (of_nat k :: u16)) = Some None"
    using go_index_unat [OF kl] by (simp only: uk none)
  have upd: "go_update (fnReceived f) (uint (of_nat k :: u16)) x = Some ((fnReceived f)[k := x])" for x
    using go_update_unat [OF kl] by (simp only: uk)
  have "fps_recv_packet ep f = fps_calc ?f1"
    using v b f nz small small(2) [folded not_le] tr seen upd
    unfolding fps_recv_packet_def Let_def by (simp del: option_bind_eq_Some unsigned_of_nat)
  moreover have "steady_state c p ts d (Suc k) ?f1"
  proof -
    have "\<forall>j < Suc k. \<exists>x. fnReceived ?f1 ! j = Some x \<and> fiTemporal x = 0 \<and> fiTs x = ts + of_nat j * d"
      using rec k f by (auto simp: nth_list_update less_Suc_eq)
    moreover have "\<forall>j. Suc k \<le> j \<and> j < 64 \<longrightarrow> fnReceived ?f1 ! j = None"
      using rec by simp
    ultimately show ?thesis
      using f b ff k by (simp add: steady_state_def)
  qed
  ultimately show ?thesis by blast
qed

lemma steady_step:
  assumes st: "steady_state c p ts d k f" and fr: "steady_frame p ts d k ep" and k: "1 \<le> k" "k < 8"
    and p: "unat p + 8 < 65536"
  shows "\<exists>f1. fps_step ep f = Some f1 \<and> steady_state c p ts d (Suc k) f1"
proof -
  obtain f1 where f1: "steady_state c p ts d (Suc k) f1" "fps_recv_packet ep f = fps_calc f1"
    using steady_next [OF st fr _ _ p] k by auto
  have "fps_calc f1 = Some (False, f1)"
    using steady_calc [OF f1(1)] k f1(1) by (simp add: fps_calc_def steady_state_def del: option_bind_eq_Some)
  then show ?thesis using f1 by (simp add: fps_step_def)
qed

lemma steady_last:
  assumes st: "steady_state c p ts d 8 f" and fr: "steady_frame p ts d 8 ep" and p: "unat p + 8 < 65536"
  shows "\<exists>f1. fps_step ep f = Some f1 \<and> fpsCompleted f1 \<and>
    frameRates f1 = [fps_rate c (8 * d) 8, Fin 0, Fin 0, Fin 0]"
proof -
  obtain f1 where f1: "steady_state c p ts d (Suc 8) f1" "fps_recv_packet ep f = fps_calc f1"
    using steady_next [OF st fr _ _ p] by auto
  let ?r = "[fps_rate c (8 * d) 8, Fin 0, Fin 0, Fin 0]"
  have "fps_calc f1 = Some (True, fps_reset (f1\<lparr>frameRates := ?r, fpsCompleted := True\<rparr>))"
    using steady_calc [OF f1(1)]
    by (simp add: fps_calc_def fps_normalize_def go_index_def del: option_bind_eq_Some)
  then show ?thesis using f1 by (simp add: fps_step_def fps_reset_def)
qed

lemma steady_run:
  assumes eps: "\<forall>k < length eps. steady_frame p ts d k (eps ! k)" and p: "unat p + 8 < 65536"
  shows "n < 8 \<Longrightarrow> n < length eps \<Longrightarrow>
    \<exists>f. run_panic fps_step (take (Suc n) eps) (new_fps_vp8 c) = Some f \<and> steady_state c p ts d (Suc n) f"
proof (induction n)
  case 0
  then have "steady_frame p ts d 0 (eps ! 0)" using eps by blast
  from steady_first [OF this, of c] 0 show ?case by (simp add: take_Suc_conv_app_nth run_panic_append)
next
  case (Suc n)
  then obtain f where f: "run_panic fps_step (take (Suc n) eps) (new_fps_vp8 c) = Some f"
    "steady_state c p ts d (Suc n) f"
    by auto
  have "steady_frame p ts d (Suc n) (eps ! Suc n)" using eps Suc.prems by blast
  from steady_step [OF f(2) this _ _ p] Suc.prems obtain f1 where
    "fps_step (eps ! Suc n) f = Some f1" "steady_state c p ts d (Suc (Suc n)) f1"
    by auto
  then show ?case
    using f(1) Suc.prems by (simp add: take_Suc_conv_app_nth [of "Suc n"] run_panic_append)
qed

section \<open>The frame rate calculator at work\<close>

text \<open>
  Whatever packets it receives, the calculator never panics: every frame it refers to stays
  within the 64 frames after its base frame.
\<close>

theorem fps_run_safe: "\<exists>f. run_panic fps_step eps (new_fps_vp8 c) = Some f \<and> fps_inv f"
  using fps.run_total [OF new_fps_inv, of eps c] by (simp add: list_all_iff)

text \<open>
  C33: a stream with one temporal layer and frames \<open>d\<close> ticks apart is measured by its ninth frame,
  and not before: the calculator then completes with eight frames over \<open>8 * d\<close> ticks as the rate
  of the base layer, provided that the picture ids do not wrap meanwhile.
\<close>

theorem fps_steady:
  assumes "length eps = 9" and "\<forall>k < 9. steady_frame p ts d k (eps ! k)" and "unat p + 8 < 65536"
  shows "\<exists>f8 f9. run_panic fps_step (take 8 eps) (new_fps_vp8 c) = Some f8 \<and> \<not> fpsCompleted f8 \<and>
    fps_step (eps ! 8) f8 = Some f9 \<and> fpsCompleted f9 \<and>
    get_frame_rate f9 = [fps_rate c (8 * d) 8, Fin 0, Fin 0, Fin 0]"
proof -
  have eps: "\<forall>k < length eps. steady_frame p ts d k (eps ! k)" using assms(1,2) by simp
  obtain f8 where f8: "run_panic fps_step (take 8 eps) (new_fps_vp8 c) = Some f8" "steady_state c p ts d 8 f8"
    using steady_run [OF eps assms(3), of 7 c] assms(1) by (auto simp: numeral_eq_Suc)
  have "steady_frame p ts d 8 (eps ! 8)" using assms(2) by simp
  from steady_last [OF f8(2) this assms(3)] obtain f9 where
    "fps_step (eps ! 8) f8 = Some f9" "fpsCompleted f9"
    "frameRates f9 = [fps_rate c (8 * d) 8, Fin 0, Fin 0, Fin 0]"
    by blast
  then show ?thesis using f8 by (auto simp: get_frame_rate_def steady_state_def)
qed

definition sample_frame :: "u16 \<Rightarrow> u32 \<Rightarrow> ext_packet" where
  "sample_frame pid ts = \<lparr>Layer = VideoLayer (-1) 0, Arrival = 0,
     Packet = \<lparr>Header = rtp_header_zero\<lparr>Timestamp := ts\<rparr>, Payload = [0], PaddingSize = 0\<rparr>,
     ExtPayload = Some (vp8_zero\<lparr>PictureID := pid\<rparr>), KeyFrame = False, RawPacket = []\<rparr>"

theorem fps_steady_witness:
  "\<exists>f8 f9. run_panic fps_step (take 8 (map (\<lambda>k. sample_frame (100 + of_nat k) (of_nat k * 3000)) [0..<9]))
      (new_fps_vp8 90000) = Some f8 \<and> \<not> fpsCompleted f8 \<and>
    fps_step (sample_frame 108 24000) f8 = Some f9 \<and> fpsCompleted f9 \<and>
    get_frame_rate f9 = [Fin 30, Fin 0, Fin 0, Fin 0]"
proof -
  let ?eps = "map (\<lambda>k. sample_frame (100 + of_nat k) (of_nat k * 3000)) [0..<9]"
  have "\<forall>k < 9. steady_frame 100 0 3000 k (?eps ! k)"
    by (simp add: steady_frame_def sample_frame_def del: upt_Suc)
  from fps_steady [OF _ this, of 90000]
  obtain f8 f9 where f: "run_panic fps_step (take 8 ?eps) (new_fps_vp8 90000) = Some f8" "\<not> fpsCompleted f8"
    "fps_step (?eps ! 8) f8 = Some f9" "fpsCompleted f9"
    "get_frame_rate f9 = [fps_rate 90000 (8 * 3000) 8, Fin 0, Fin 0, Fin 0]"
    by auto
  have "f_of_int F32 90000 = Fin 90000" "f_of_int F32 24000 = Fin 24000" "f_of_int F32 8 = Fin 8"
    "f_div F32 (Fin 90000) (Fin 24000) = Fin (15 / 4)" "f_mul F32 (Fin (15 / 4)) (Fin 8) = Fin 30"
    by code_simp+
  then have r: "fps_rate 90000 (8 * 3000) 8 = Fin 30" by (simp add: fps_rate_def)
  have e: "?eps ! 8 = sample_frame 108 24000" by (simp del: upt_Suc)
  show ?thesis using f(1,2,4) f(3) [unfolded e] f(5) [unfolded r] by blast
qed

text \<open>
  Picture ids have 7 or 15 bits, but their differences are taken modulo \<open>2 ^ 16\<close>: after the ids
  of a stream have wrapped, every frame below the base frame is ignored, and the measurement stands
  still until the ids have come round to the base frame again.
\<close>

theorem fps_ignores_wrapped:
  assumes "baseFrame f = Some b" and "ExtPayload ep = Some v" and "PictureID v < fiFn b" and "fiFn b < 2 ^ 15"
    and "\<not> fpsCompleted f"
  shows "fps_recv_packet ep f = Some (False, f)"
proof -
  have "unat (PictureID v - fiFn b) = unat (PictureID v) + 65536 - unat (fiFn b)"
    using assms(3) by (simp add: unat_minus16 word_less_nat_alt)
  then have "PictureID v - fiFn b > 0x4000"
    using assms(4) by (simp add: word_less_nat_alt)
  then show ?thesis
    using assms unfolding fps_recv_packet_def Let_def by simp
qed

theorem fps_ignores_wrapped_witness:
  "\<exists>f. fps_step (sample_frame 0x7fff 0) (new_fps_vp8 90000) = Some f \<and>
     fps_recv_packet (sample_frame 0 3000) f = Some (False, f)"
proof -
  obtain f b where f: "fps_step (sample_frame 0x7fff 0) (new_fps_vp8 90000) = Some f"
    and b: "baseFrame f = Some b" "fiFn b = 0x7fff" "\<not> fpsCompleted f"
    by (simp add: fps_step_def fps_recv_packet_def sample_frame_def new_fps_vp8_def go_update_def Let_def)
  have "fps_recv_packet (sample_frame 0 3000) f = Some (False, f)"
    by (rule fps_ignores_wrapped [OF b(1) _ _ _ b(3), of _ "vp8_zero\<lparr>PictureID := 0\<rparr>"])
      (simp_all add: sample_frame_def b)
  with f show ?thesis by blast
qed

end
