(* ===== verification/AudioLevel.thy ===== *)
theory AudioLevel
  imports GoRuntime Interfaces
begin

text \<open>
  \<^verbatim>\<open>pkg/audio/audiolevel.go\<close>: the smoothed loudness of an audio stream, published once per observed
  window. \<^verbatim>\<open>math.Log10\<close> and \<^verbatim>\<open>math.Pow\<close>, whose rounding the language does not fix, are the
  parameters \<open>log10\<close> and \<open>pow\<close>; the atomic float is a field.
\<close>

section \<open>State and operations\<close>

definition silentAudioLevel :: u8 where "silentAudioLevel = 127"
definition negInv20 :: gofloat where "negInv20 = f_norm F64 (- 1 / 20)"

record audio_level_params =
  ActiveLevel :: u8
  MinPercentile :: u8
  ObserveDuration :: u32
  SmoothIntervals :: u32

record audio_level =
  alParams :: audio_level_params
  minActiveDuration :: u32
  smoothFactor :: gofloat
  activeThreshold :: gofloat
  smoothedLevel :: gofloat
  loudestObservedLevel :: u8
  activeDuration :: u32
  observedDuration :: u32

type_synonym float_fun = "gofloat \<Rightarrow> gofloat"

definition convert_audio_level :: "(gofloat \<Rightarrow> float_fun) \<Rightarrow> gofloat \<Rightarrow> gofloat" where
  "convert_audio_level pow level = pow (Fin 10) (f_mul F64 level negInv20)"

definition new_audio_level :: "(gofloat \<Rightarrow> float_fun) \<Rightarrow> audio_level_params \<Rightarrow> audio_level" where
  "new_audio_level pow p = \<lparr>alParams = p,
     minActiveDuration = ucast (MinPercentile p) * ObserveDuration p div 100,
     smoothFactor = (if SmoothIntervals p > 0
       then f_div F64 (Fin 2) (f_of_int F64 (uint (SmoothIntervals p + 1))) else Fin 1),
     activeThreshold = convert_audio_level pow (f_of_int F64 (uint (ActiveLevel p))),
     smoothedLevel = Fin 0, loudestObservedLevel = silentAudioLevel,
     activeDuration = 0, observedDuration = 0\<rparr>"

definition smoothed_window :: "float_fun \<Rightarrow> (gofloat \<Rightarrow> float_fun) \<Rightarrow> audio_level \<Rightarrow> gofloat" where
  "smoothed_window log10 pow l =
     (let activityWeight = f_mul F64 (Fin 20) (log10 (f_div F64 (f_of_int F64 (uint (activeDuration l)))
            (f_of_int F64 (uint (ObserveDuration (alParams l))))));
          adjustedLevel = f_sub F64 (f_of_int F64 (uint (loudestObservedLevel l))) activityWeight;
          linearLevel = convert_audio_level pow adjustedLevel;
          smoothed = smoothedLevel l
      in f_add F64 smoothed (f_mul F64 (f_sub F64 linearLevel smoothed) (smoothFactor l)))"

text \<open>The two halves of \<open>Observe\<close>: taking in the frame, and closing the window.\<close>

definition audio_take :: "u8 \<Rightarrow> u32 \<Rightarrow> audio_level \<Rightarrow> audio_level" where
  "audio_take level durationMs l =
     (let l = l\<lparr>observedDuration := observedDuration l + durationMs\<rparr> in
      if level \<le> ActiveLevel (alParams l)
      then let l = l\<lparr>activeDuration := activeDuration l + durationMs\<rparr> in
        if loudestObservedLevel l > level then l\<lparr>loudestObservedLevel := level\<rparr> else l
      else l)"

definition audio_publish :: "float_fun \<Rightarrow> (gofloat \<Rightarrow> float_fun) \<Rightarrow> audio_level \<Rightarrow> audio_level" where
  "audio_publish log10 pow l =
     (let l = (if activeDuration l \<ge> minActiveDuration l
               then l\<lparr>smoothedLevel := smoothed_window log10 pow l\<rparr>
               else l\<lparr>smoothedLevel := Fin 0\<rparr>)
      in l\<lparr>loudestObservedLevel := silentAudioLevel, activeDuration := 0, observedDuration := 0\<rparr>)"

definition audio_observe ::
  "float_fun \<Rightarrow> (gofloat \<Rightarrow> float_fun) \<Rightarrow> u8 \<Rightarrow> u32 \<Rightarrow> audio_level \<Rightarrow> audio_level"
where
  "audio_observe log10 pow level durationMs l =
     (let l = audio_take level durationMs l in
      if observedDuration l \<ge> ObserveDuration (alParams l) then audio_publish log10 pow l else l)"

definition audio_get_level :: "audio_level \<Rightarrow> gofloat \<times> bool" where
  "audio_get_level l = (smoothedLevel l, f_geq (smoothedLevel l) (activeThreshold l))"

section \<open>Windows\<close>

text \<open>Between observations the window is never full, and nothing is quieter than silence.\<close>

definition audio_inv :: "audio_level_params \<Rightarrow> audio_level \<Rightarrow> bool" where
  "audio_inv p l \<longleftrightarrow> alParams l = p \<and> (observedDuration l = 0 \<or> observedDuration l < ObserveDuration p) \<and>
     loudestObservedLevel l \<le> silentAudioLevel"

lemma audio_take_eq:
  "audio_take level d l = l\<lparr>observedDuration := observedDuration l + d,
     activeDuration := activeDuration l + (if level \<le> ActiveLevel (alParams l) then d else 0),
     loudestObservedLevel := (if level \<le> ActiveLevel (alParams l) then min level (loudestObservedLevel l)
       else loudestObservedLevel l)\<rparr>"
  by (simp add: audio_take_def Let_def min_def)

lemma audio_publish_fields [simp]:
  "alParams (audio_publish log10 pow l) = alParams l" "observedDuration (audio_publish log10 pow l) = 0"
  "activeDuration (audio_publish log10 pow l) = 0"
  "loudestObservedLevel (audio_publish log10 pow l) = silentAudioLevel"
  by (simp_all add: audio_publish_def Let_def)

lemma audio_observe_inv: "audio_inv p l \<Longrightarrow> audio_inv p (audio_observe log10 pow level d l)"
  by (auto simp: audio_observe_def Let_def audio_inv_def audio_take_eq min_le_iff_disj not_le)

interpretation audio: component "\<lambda>(level, d). audio_observe log10 pow level d" "\<lambda>_. True" "audio_inv p"
  for log10 pow p
  by unfold_locales (auto intro: audio_observe_inv)

lemma new_audio_inv: "audio_inv p (new_audio_level pow p)"
  by (simp add: audio_inv_def new_audio_level_def)

text \<open>What a list of observations adds up to.\<close>

definition observed_total :: "(u8 \<times> u32) list \<Rightarrow> nat" where
  "observed_total xs = sum_list (map (\<lambda>(_, d). unat d) xs)"

definition active_total :: "u8 \<Rightarrow> (u8 \<times> u32) list \<Rightarrow> u32" where
  "active_total a xs = sum_list (map snd (filter (\<lambda>(level, _). level \<le> a) xs))"

definition loudest_of :: "u8 \<Rightarrow> (u8 \<times> u32) list \<Rightarrow> u8 \<Rightarrow> u8" where
  "loudest_of a xs l = fold (\<lambda>(level, _) l. if level \<le> a then min level l else l) xs l"

lemma observe_partial:
  assumes "unat (observedDuration l) + observed_total xs < unat (ObserveDuration (alParams l))"
  shows "fold (\<lambda>(level, d). audio_observe log10 pow level d) xs l =
    l\<lparr>observedDuration := observedDuration l + of_nat (observed_total xs),
      activeDuration := activeDuration l + active_total (ActiveLevel (alParams l)) xs,
      loudestObservedLevel := loudest_of (ActiveLevel (alParams l)) xs (loudestObservedLevel l)\<rparr>"
  using assms
proof (induction xs arbitrary: l)
  case Nil
  then show ?case by (simp add: observed_total_def active_total_def loudest_of_def)
next
  case (Cons x xs)
  obtain level d where x: "x = (level, d)" by force
  let ?a = "level \<le> ActiveLevel (alParams l)"
  have t: "observed_total (x # xs) = unat d + observed_total xs" by (simp add: observed_total_def x)
  have lt: "unat (observedDuration l) + unat d < unat (ObserveDuration (alParams l))"
    using Cons.prems t by simp
  have "unat (ObserveDuration (alParams l)) < 2 ^ 32"
    using unsigned_less [of "ObserveDuration (alParams l)", where 'a = nat] by simp
  then have u: "unat (observedDuration l + d) = unat (observedDuration l) + unat d"
    using lt by (simp add: unat_word_ariths)
  then have "\<not> ObserveDuration (alParams l) \<le> observedDuration l + d"
    using lt by (simp add: word_le_nat_alt)
  then have o: "audio_observe log10 pow level d l = audio_take level d l"
    by (simp add: audio_observe_def audio_take_eq)
  have "unat (observedDuration (audio_take level d l)) + observed_total xs <
      unat (ObserveDuration (alParams (audio_take level d l)))"
    using Cons.prems t u by (simp add: audio_take_eq)
  from Cons.IH [OF this] show ?case
    by (simp add: x o) (simp add: audio_take_eq observed_total_def active_total_def loudest_of_def add.assoc)
qed

text \<open>
  C34: the level is published once per window. From the start of a window, observations whose
  durations add up to the window only with the last one leave the level alone until that one, which
  sets it from the loudest active level and the total active time if that reaches the minimum, and
  to zero otherwise, and starts a new window.
\<close>

theorem audio_window:
  assumes "observedDuration l = 0" "activeDuration l = 0" "loudestObservedLevel l = silentAudioLevel"
    and "observed_total xs < unat (ObserveDuration (alParams l))"
    and "observed_total (xs @ [(level, d)]) \<ge> unat (ObserveDuration (alParams l))"
    and "observed_total (xs @ [(level, d)]) < 2 ^ 32"
  shows "smoothedLevel (fold (\<lambda>(level, d). audio_observe log10 pow level d) xs l) = smoothedLevel l \<and>
    fold (\<lambda>(level, d). audio_observe log10 pow level d) (xs @ [(level, d)]) l =
      (let active = active_total (ActiveLevel (alParams l)) (xs @ [(level, d)]);
           loudest = loudest_of (ActiveLevel (alParams l)) (xs @ [(level, d)]) silentAudioLevel
       in l\<lparr>smoothedLevel := if active \<ge> minActiveDuration l
             then smoothed_window log10 pow (l\<lparr>activeDuration := active, loudestObservedLevel := loudest\<rparr>)
             else Fin 0\<rparr>)"
proof -
  let ?a = "ActiveLevel (alParams l)" and ?step = "\<lambda>(level, d). audio_observe log10 pow level d"
  have f: "fold ?step xs l = l\<lparr>observedDuration := of_nat (observed_total xs),
      activeDuration := active_total ?a xs, loudestObservedLevel := loudest_of ?a xs silentAudioLevel\<rparr>"
    using observe_partial [of l xs log10 pow] assms(1-4) by simp
  have t: "observed_total (xs @ [(level, d)]) = observed_total xs + unat d" by (simp add: observed_total_def)
  then have "unat (of_nat (observed_total xs) + d) = observed_total xs + unat d"
    using assms(6) by (simp add: unat_word_ariths unat_of_nat)
  then have full: "of_nat (observed_total xs) + d \<ge> ObserveDuration (alParams l)"
    using assms(5) t by (simp add: word_le_nat_alt)
  have at: "active_total ?a (xs @ [(level, d)]) = active_total ?a xs + (if level \<le> ?a then d else 0)"
    by (simp add: active_total_def)
  have lo: "loudest_of ?a (xs @ [(level, d)]) silentAudioLevel =
      (if level \<le> ?a then min level (loudest_of ?a xs silentAudioLevel) else loudest_of ?a xs silentAudioLevel)"
    by (simp add: loudest_of_def)
  have sm: "smoothed_window log10 pow (l\<lparr>observedDuration := x, activeDuration := y, loudestObservedLevel := z\<rparr>) =
      smoothed_window log10 pow (l\<lparr>activeDuration := y, loudestObservedLevel := z\<rparr>)" for x y z
    by (simp add: smoothed_window_def)
  have l: "l\<lparr>smoothedLevel := v, loudestObservedLevel := silentAudioLevel, activeDuration := 0, observedDuration := 0\<rparr> =
      l\<lparr>smoothedLevel := v\<rparr>" for v
    using assms(1-3) by (cases l) simp
  let ?A = "active_total ?a (xs @ [(level, d)])" and ?L = "loudest_of ?a (xs @ [(level, d)]) silentAudioLevel"
  let ?T = "l\<lparr>observedDuration := of_nat (observed_total xs) + d, activeDuration := ?A, loudestObservedLevel := ?L\<rparr>"
  have T: "audio_take level d (fold ?step xs l) = ?T"
    by (simp add: f audio_take_eq at lo)
  have "fold ?step (xs @ [(level, d)]) l = audio_publish log10 pow ?T"
    using full T by (simp add: audio_observe_def)
  also have "\<dots> = l\<lparr>smoothedLevel := if ?A \<ge> minActiveDuration l
      then smoothed_window log10 pow (l\<lparr>activeDuration := ?A, loudestObservedLevel := ?L\<rparr>) else Fin 0\<rparr>"
    using l by (cases "?A \<ge> minActiveDuration l") (simp_all add: audio_publish_def sm)
  finally show ?thesis using f by (simp add: Let_def)
qed

theorem audio_window_witness:
  "\<exists>l. l = new_audio_level (\<lambda>x y. Fin 1) \<lparr>ActiveLevel = 30, MinPercentile = 40, ObserveDuration = 100,
       SmoothIntervals = 0\<rparr> \<and>
     fold (\<lambda>(level, d). audio_observe (\<lambda>x. Fin 0) (\<lambda>x y. Fin 1) level d) [(20, 60), (50, 40)] l =
       l\<lparr>smoothedLevel := Fin 1\<rparr>"
proof -
  let ?p = "\<lparr>ActiveLevel = 30, MinPercentile = 40, ObserveDuration = 100, SmoothIntervals = 0\<rparr>"
  let ?l = "new_audio_level (\<lambda>x y. Fin 1) ?p"
  have l: "observedDuration ?l = 0" "activeDuration ?l = 0" "loudestObservedLevel ?l = silentAudioLevel"
    "alParams ?l = ?p" "minActiveDuration ?l = 40" "smoothFactor ?l = Fin 1" "smoothedLevel ?l = Fin 0"
    by (simp_all add: new_audio_level_def)
  have t: "active_total 30 [(20, 60), (50, 40)] = 60" by (simp add: active_total_def)
  have r: "f_sub F64 (Fin 1) (Fin 0) = Fin 1" "f_mul F64 (Fin 1) (Fin 1) = Fin 1" "f_add F64 (Fin 0) (Fin 1) = Fin 1"
    using f_norm_Fin [of 1 0 F64] rnd_int [of 1 F64] by (simp_all add: f_sub_def power_int_def)
  have "fold (\<lambda>(level, d). audio_observe (\<lambda>x. Fin 0) (\<lambda>x y. Fin 1) level d) ([(20, 60)] @ [(50, 40)]) ?l =
       ?l\<lparr>smoothedLevel := Fin 1\<rparr>"
    using audio_window [of ?l "[(20, 60)]" 50 40 "\<lambda>x. Fin 0" "\<lambda>x y. Fin 1"] l t r
    by (simp add: observed_total_def smoothed_window_def convert_audio_level_def Let_def)
  then show ?thesis by simp
qed

section \<open>Without parameters\<close>

definition audio_zero :: audio_level_params where
  "audio_zero = \<lparr>ActiveLevel = 0, MinPercentile = 0, ObserveDuration = 0, SmoothIntervals = 0\<rparr>"

definition observe_frames ::
  "float_fun \<Rightarrow> (gofloat \<Rightarrow> float_fun) \<Rightarrow> (u8 \<times> u32) list \<Rightarrow> audio_level \<Rightarrow> audio_level"
where
  "observe_frames log10 pow obs l = fold (\<lambda>(level, d). audio_observe log10 pow level d) obs l"

lemma audio_publish_nan:
  assumes "pow (Fin 10) NaN = NaN" and "log10 NaN = NaN" and "alParams l = audio_zero" and "minActiveDuration l = 0"
    and "smoothedLevel l = NaN \<or> activeDuration l = 0"
  shows "smoothedLevel (audio_publish log10 pow l) = NaN"
  using assms
  by (auto simp: audio_publish_def Let_def smoothed_window_def convert_audio_level_def audio_zero_def)

text \<open>
  With the zero parameters, which a buffer keeps unless \<open>SetAudioLevelParams\<close> is called, the
  first frame below the loudest level makes the published level NaN; it is NaN from then on,
  and \<open>GetLevel\<close> never reports activity.
\<close>

theorem audio_zero_params_nan:
  assumes "pow (Fin 10) NaN = NaN" and "log10 NaN = NaN" and "0 < level"
  shows "audio_get_level (observe_frames log10 pow ((level, d) # obs) (new_audio_level pow audio_zero)) = (NaN, False)"
proof -
  let ?nan = "\<lambda>l. alParams l = audio_zero \<and> minActiveDuration l = 0 \<and> smoothedLevel l = NaN"
  have fields: "alParams (audio_observe log10 pow level d l) = alParams l"
      "minActiveDuration (audio_observe log10 pow level d l) = minActiveDuration l" for level d l
    by (simp_all add: audio_observe_def audio_publish_def audio_take_eq Let_def)
  have first: "?nan (audio_observe log10 pow level d (new_audio_level pow audio_zero))"
    using assms audio_publish_nan [of pow log10, OF assms(1,2)]
    by (simp add: fields) (simp add: audio_observe_def audio_take_eq new_audio_level_def audio_zero_def Let_def)
  have next_nan: "?nan (audio_observe log10 pow level d l)" if "?nan l" for level d l
    using that audio_publish_nan [of pow log10, OF assms(1,2)]
    by (simp add: fields) (simp add: audio_observe_def audio_take_eq audio_zero_def Let_def)
  have "?nan (observe_frames log10 pow obs l)" if "?nan l" for l
    using that
  proof (induction obs arbitrary: l)
    case (Cons ob obs)
    show ?case
      using Cons.IH [OF next_nan [OF Cons.prems, of "fst ob" "snd ob"]]
      by (simp add: observe_frames_def split_beta)
  qed (simp add: observe_frames_def)
  from this [OF first] show ?thesis
    by (simp add: audio_get_level_def observe_frames_def f_geq_def)
qed

theorem audio_zero_params_nan_witness:
  "audio_get_level (observe_frames (\<lambda>x. x) (\<lambda>x y. y) [(30, 20), (0, 20)] (new_audio_level (\<lambda>x y. y) audio_zero))
   = (NaN, False)"
  by (rule audio_zero_params_nan) simp_all

end
