(* ===== verification/Buffer.thy ===== *)
theory Buffer
  imports Fps AudioLevel RtpReports Keyframe
begin

text \<open>
  \<^verbatim>\<open>pkg/buffer/buffer.go\<close>: the receiving end of a stream. A buffer takes in the raw packets,
  keeps the stream's statistics and the queue of packets to forward, asks for lost packets and
  reports to the sender. The lock serialises the operations, so each is one step of the state.
  An operation reads the clock once, \<open>now\<close>; run-time panics are \<open>None\<close>; the calls of installed
  callbacks and the slices put back into the pools are recorded, in order, in \<open>bCalls\<close>.
\<close>

section \<open>What the buffer takes from other packages\<close>

datatype bucket_error = ErrBufferTooSmall | ErrRTXPacket | ErrOtherBucket

datatype read_error = EOF | BucketError bucket_error

text \<open>
  The bucket (packets by sequence number), the queue of lost numbers and the congestion-control
  responder of livekit/mediatransportutil; the parsers and the constants of pion. A header
  extension is a slice of the packet's memory: its bytes, and those that follow it up to its
  capacity.
\<close>

record ('bk, 'nq, 'tw) media_lib =
  libStats :: stats_env
  newBucket :: "codec_type \<Rightarrow> 'bk"
  addPacket :: "u8 list \<Rightarrow> 'bk \<Rightarrow> (bucket_error + u8 list) \<times> 'bk"
  bucketGet :: "int \<Rightarrow> u16 \<Rightarrow> 'bk \<Rightarrow> bucket_error + u8 list"
  newNackQueue :: 'nq
  nackRemove :: "u16 \<Rightarrow> 'nq \<Rightarrow> 'nq"
  nackPush :: "u16 \<Rightarrow> 'nq \<Rightarrow> 'nq"
  nackPairs :: "gotime \<Rightarrow> 'nq \<Rightarrow> (nack_pair list \<times> int) \<times> 'nq"
  nackSetRTT :: "u32 \<Rightarrow> 'nq \<Rightarrow> 'nq"
  twccPush :: "u16 \<Rightarrow> int \<Rightarrow> bool \<Rightarrow> 'tw \<Rightarrow> 'tw"
  rtpUnmarshal :: "u8 list \<Rightarrow> rtp_packet option"
  getExtension :: "u8 \<Rightarrow> rtp_header \<Rightarrow> (u8 list \<times> u8 list) option"
  unmarshalLevel :: "u8 list \<Rightarrow> u8 option"
  libLog10 :: float_fun
  libPow :: "gofloat \<Rightarrow> float_fun"
  uriAudioLevel :: string
  uriTransportCC :: string
  fbTransportCC :: string
  fbNACK :: string
  mimeTypeVP8 :: string

abbreviation libMarshalSize :: "('bk, 'nq, 'tw) media_lib \<Rightarrow> rtp_header \<Rightarrow> int" where
  "libMarshalSize lib \<equiv> envMarshalSize (libStats lib)"

section \<open>State\<close>

definition ReportDelta :: int where "ReportDelta = 1000000000"

record pending_packet =
  ppArrivalTime :: int
  ppPacket :: "u8 list"

datatype buffer_call =
    CallRtcpFeedback "rtcp_packet list"
  | CallSenderReport sr_data
  | CallFpsChanged
  | CallClose
  | PutVideo
  | PutAudio

record ('bk, 'nq, 'tw) buffer =
  bBucket :: "'bk option"
  bNacker :: "'nq option"
  bCodecType :: codec_type
  bExtPackets :: "ext_packet list"
  bPPackets :: "pending_packet list"
  bMediaSSRC :: u32
  bClockRate :: u32
  bLastReport :: int
  bTwccExt :: u8
  bAudioLevelExt :: u8
  bBound :: bool
  bClosed :: bool
  bMime :: string
  bLatestTSInitialized :: bool
  bLatestTS :: u32
  bTwcc :: "'tw option"
  bAudioLevelParams :: audio_level_params
  bAudioLevel :: "audio_level option"
  bLastPacketRead :: int
  bPliThrottle :: int
  bStats :: "rtp_stats option"
  bRrSnapshotId :: u32
  bDeltaStatsSnapshotId :: u32
  bLastFractionLost :: u8
  bHasClose :: bool
  bHasRtcpFeedback :: bool
  bHasSenderReport :: bool
  bHasFpsChanged :: bool
  bPaused :: bool
  bFrameRateCalculator :: "fps_vp8 option list"
  bFrameRateCalculated :: bool
  bCalls :: "buffer_call list"

definition new_buffer :: "u32 \<Rightarrow> ('bk, 'nq, 'tw) buffer" where
  "new_buffer ssrc = \<lparr>bBucket = None, bNacker = None, bCodecType = CodecUnknown, bExtPackets = [],
     bPPackets = [], bMediaSSRC = ssrc, bClockRate = 0, bLastReport = 0, bTwccExt = 0,
     bAudioLevelExt = 0, bBound = False, bClosed = False, bMime = [],
     bLatestTSInitialized = False, bLatestTS = 0, bTwcc = None,
     bAudioLevelParams = \<lparr>ActiveLevel = 0, MinPercentile = 0, ObserveDuration = 0, SmoothIntervals = 0\<rparr>,
     bAudioLevel = None, bLastPacketRead = 0, bPliThrottle = 500000000, bStats = None,
     bRrSnapshotId = 0, bDeltaStatsSnapshotId = 0, bLastFractionLost = 0, bHasClose = False,
     bHasRtcpFeedback = False, bHasSenderReport = False, bHasFpsChanged = False, bPaused = False,
     bFrameRateCalculator = [None, None, None], bFrameRateCalculated = False, bCalls = []\<rparr>"

definition buffer_call :: "buffer_call \<Rightarrow> ('bk, 'nq, 'tw) buffer \<Rightarrow> ('bk, 'nq, 'tw) buffer" where
  "buffer_call c b = b\<lparr>bCalls := bCalls b @ [c]\<rparr>"

definition rtcp_feedback_call :: "rtcp_packet list \<Rightarrow> ('bk, 'nq, 'tw) buffer \<Rightarrow> ('bk, 'nq, 'tw) buffer" where
  "rtcp_feedback_call pkts b = (if bHasRtcpFeedback b then buffer_call (CallRtcpFeedback pkts) b else b)"

section \<open>Taking in a packet\<close>

definition update_stream_state ::
  "('bk, 'nq, 'tw) media_lib \<Rightarrow> gotime \<Rightarrow> rtp_packet \<Rightarrow> int \<Rightarrow> ('bk, 'nq, 'tw) buffer \<Rightarrow> ('bk, 'nq, 'tw) buffer option"
where
  "update_stream_state lib now p arrivalTime b = do {
     r \<leftarrow> bStats b;
     (flow, r) \<leftarrow> rtp_update (libMarshalSize lib) now (Header p) (int (length (Payload p)))
       (uint (PaddingSize p)) arrivalTime r;
     let b = b\<lparr>bStats := Some r\<rparr>;
     case bNacker b of None \<Rightarrow> Some b
     | Some q \<Rightarrow>
         let q = nackRemove lib (SequenceNumber (Header p)) q;
             q = (if HasLoss flow
               then fold (nackPush lib) (sn_range (LossStartInclusive flow) (LossEndExclusive flow)) q
               else q)
         in Some (b\<lparr>bNacker := Some q\<rparr>) }"

text \<open>\<^verbatim>\<open>binary.BigEndian.Uint16(ext[0:2])\<close>: the slice may reach into the extension's capacity.\<close>

definition twcc_number :: "u8 list \<times> u8 list \<Rightarrow> u16 option" where
  "twcc_number = (\<lambda>(ext, spare). do {
     s \<leftarrow> go_slice (ext @ spare) 0 2;
     hi \<leftarrow> go_index s 0;
     lo \<leftarrow> go_index s 1;
     Some (push_bit 8 (ucast hi) OR ucast lo) })"

definition process_twcc ::
  "('bk, 'nq, 'tw) media_lib \<Rightarrow> rtp_packet \<Rightarrow> int \<Rightarrow> ('bk, 'nq, 'tw) buffer \<Rightarrow> ('bk, 'nq, 'tw) buffer option"
where
  "process_twcc lib p arrivalTime b = (case bTwcc b of None \<Rightarrow> Some b
     | Some tw \<Rightarrow>
       if bTwccExt b \<noteq> 0 then
         (case getExtension lib (bTwccExt b) (Header p) of None \<Rightarrow> Some b
          | Some ext \<Rightarrow> do {
              n \<leftarrow> twcc_number ext;
              Some (b\<lparr>bTwcc := Some (twccPush lib n arrivalTime (Marker (Header p)) tw)\<rparr>) })
       else Some b)"

definition audio_duration :: "u32 \<Rightarrow> u32 \<Rightarrow> u32 \<Rightarrow> int option" where
  "audio_duration ts latest clockRate =
     (if clockRate = 0 then None else Some (go_div ((uint ts - uint latest) * 1000) (uint clockRate)))"

definition process_audio_level ::
  "('bk, 'nq, 'tw) media_lib \<Rightarrow> rtp_packet \<Rightarrow> ('bk, 'nq, 'tw) buffer \<Rightarrow> ('bk, 'nq, 'tw) buffer option"
where
  "process_audio_level lib p b =
     (if bAudioLevelExt b = 0 then Some b
      else
        let ts = Timestamp (Header p);
            b = (if \<not> bLatestTSInitialized b then b\<lparr>bLatestTSInitialized := True, bLatestTS := ts\<rparr> else b)
        in case getExtension lib (bAudioLevelExt b) (Header p) of None \<Rightarrow> Some b
           | Some (e, _) \<Rightarrow> (case unmarshalLevel lib e of None \<Rightarrow> Some b
             | Some level \<Rightarrow>
                 if ts - bLatestTS b < 2 ^ 31 then do {
                   duration \<leftarrow> audio_duration ts (bLatestTS b) (bClockRate b);
                   b \<leftarrow> (if duration > 0 then do {
                       l \<leftarrow> bAudioLevel b;
                       Some (b\<lparr>bAudioLevel := Some (audio_observe (libLog10 lib) (libPow lib) level
                         (word_of_int duration) l)\<rparr>) }
                     else Some b);
                   Some (b\<lparr>bLatestTS := ts\<rparr>) }
                 else Some b))"

definition process_header_extensions ::
  "('bk, 'nq, 'tw) media_lib \<Rightarrow> rtp_packet \<Rightarrow> int \<Rightarrow> ('bk, 'nq, 'tw) buffer \<Rightarrow> ('bk, 'nq, 'tw) buffer option"
where
  "process_header_extensions lib p arrivalTime b =
     Option.bind (process_twcc lib p arrivalTime b) (process_audio_level lib p)"

definition detect_keyframe :: "string \<Rightarrow> u8 list \<Rightarrow> bool option" where
  "detect_keyframe mime payload =
     (if mime = ''video/h264'' then is_h264_keyframe payload
      else if mime = ''video/av1'' then is_av1_keyframe payload
      else Some False)"

text \<open>The packet to forward; \<open>None\<close> inside is the code's \<open>nil\<close>.\<close>

definition get_ext_packet ::
  "gotime \<Rightarrow> rtp_packet \<Rightarrow> int \<Rightarrow> ('bk, 'nq, 'tw) buffer \<Rightarrow> (ext_packet option \<times> ('bk, 'nq, 'tw) buffer) option"
where
  "get_ext_packet now p arrivalTime b =
     (let ep = \<lparr>Layer = InvalidLayers, Arrival = arrivalTime, Packet = p, ExtPayload = None,
           KeyFrame = False, RawPacket = []\<rparr> in
      if Payload p = [] then Some (Some ep, b)
      else do {
        let ep = ep\<lparr>Layer := VideoLayer InvalidLayerSpatial 0\<rparr>;
        ep \<leftarrow> (if bMime b = ''video/vp8'' then
            (case vp8_unmarshal vp8_zero (Some (Payload p)) of
               Panic \<Rightarrow> None
             | Err _ \<Rightarrow> Some None
             | Ok v \<Rightarrow> Some (Some (ep\<lparr>KeyFrame := IsKeyFrame v, ExtPayload := Some (v\<lparr>TID := 0\<rparr>)\<rparr>)))
          else map_option (\<lambda>k. Some (ep\<lparr>KeyFrame := k\<rparr>)) (detect_keyframe (bMime b) (Payload p)));
        case ep of None \<Rightarrow> Some (None, b)
        | Some ep \<Rightarrow> Some (Some ep,
            if KeyFrame ep then b\<lparr>bStats := map_option (update_key_frame now 1) (bStats b)\<rparr> else b) })"

definition do_nacks ::
  "('bk, 'nq, 'tw) media_lib \<Rightarrow> gotime \<Rightarrow> ('bk, 'nq, 'tw) buffer \<Rightarrow> ('bk, 'nq, 'tw) buffer"
where
  "do_nacks lib now b = (case bNacker b of None \<Rightarrow> b
     | Some q \<Rightarrow> (case nackPairs lib now q of ((pairs, n), q) \<Rightarrow>
         let b = b\<lparr>bNacker := Some q\<rparr> in
         if pairs = [] then b
         else
           let b = rtcp_feedback_call [TransportLayerNack (bMediaSSRC b) (bMediaSSRC b) pairs] b
           in b\<lparr>bStats := map_option (update_nack (word_of_int n)) (bStats b)\<rparr>))"

text \<open>\<open>getRTCP\<close>, with the report of \<open>buildReceptionReport\<close>; \<open>[]\<close> is \<open>nil\<close>.\<close>

definition get_rtcp ::
  "('bk, 'nq, 'tw) media_lib \<Rightarrow> gotime \<Rightarrow> ('bk, 'nq, 'tw) buffer \<Rightarrow> (rtcp_packet list \<times> ('bk, 'nq, 'tw) buffer) option"
where
  "get_rtcp lib now b = (case bStats b of None \<Rightarrow> Some ([], b)
     | Some r \<Rightarrow> do {
         (rr, r) \<leftarrow> snapshot_rtcp_reception_report (envFrac (libStats lib)) (envJitter (libStats lib)) now now
           (bMediaSSRC b) (bLastFractionLost b) (bRrSnapshotId b) r;
         Some (case rr of None \<Rightarrow> [] | Some rr \<Rightarrow> [ReceiverReport (bMediaSSRC b) [rr]],
           b\<lparr>bStats := Some r\<rparr>) })"

definition do_reports ::
  "('bk, 'nq, 'tw) media_lib \<Rightarrow> gotime \<Rightarrow> int \<Rightarrow> ('bk, 'nq, 'tw) buffer \<Rightarrow> ('bk, 'nq, 'tw) buffer option"
where
  "do_reports lib now arrivalTime b =
     (if wrap64 (arrivalTime - bLastReport b) < ReportDelta then Some b
      else do {
        (pkts, b) \<leftarrow> get_rtcp lib now (b\<lparr>bLastReport := arrivalTime\<rparr>);
        Some (if pkts \<noteq> [] then rtcp_feedback_call pkts b else b) })"

definition do_fps_calc :: "ext_packet \<Rightarrow> ('bk, 'nq, 'tw) buffer \<Rightarrow> ('bk, 'nq, 'tw) buffer option" where
  "do_fps_calc ep b =
     (if bPaused b \<or> bFrameRateCalculated b \<or> Payload (Packet ep) = [] then Some b
      else do {
        let spatial = Spatial (Layer ep);
        let spatial = (if spatial < 0 \<or> spatial \<ge> int (length (bFrameRateCalculator b)) then 0 else spatial);
        fr \<leftarrow> go_index (bFrameRateCalculator b) spatial;
        case fr of None \<Rightarrow> Some b
        | Some f \<Rightarrow> do {
            (complete, f) \<leftarrow> fps_recv_packet ep f;
            frs \<leftarrow> go_update (bFrameRateCalculator b) spatial (Some f);
            let b = b\<lparr>bFrameRateCalculator := frs\<rparr>;
            Some (if complete \<and> list_all (\<lambda>fr. case fr of None \<Rightarrow> True | Some f \<Rightarrow> fpsCompleted f) frs
              then let b = b\<lparr>bFrameRateCalculated := True\<rparr> in
                if bHasFpsChanged b then buffer_call CallFpsChanged b else b
              else b) } })"

definition buffer_calc ::
  "('bk, 'nq, 'tw) media_lib \<Rightarrow> gotime \<Rightarrow> u8 list \<Rightarrow> int \<Rightarrow> ('bk, 'nq, 'tw) buffer \<Rightarrow> ('bk, 'nq, 'tw) buffer option"
where
  "buffer_calc lib now pkt arrivalTime b = do {
     bk \<leftarrow> bBucket b;
     case addPacket lib pkt bk of
       (Inl _, bk) \<Rightarrow>
         let b = b\<lparr>bBucket := Some bk\<rparr> in
         (case rtpUnmarshal lib pkt of None \<Rightarrow> Some b
          | Some p \<Rightarrow> do {
              b \<leftarrow> update_stream_state lib now p arrivalTime b;
              process_header_extensions lib p arrivalTime b })
     | (Inr pktBuf, bk) \<Rightarrow>
         let b = b\<lparr>bBucket := Some bk\<rparr> in
         (case rtpUnmarshal lib pktBuf of None \<Rightarrow> Some b
          | Some p \<Rightarrow> do {
              b \<leftarrow> update_stream_state lib now p arrivalTime b;
              b \<leftarrow> process_header_extensions lib p arrivalTime b;
              b \<leftarrow> do_reports lib now arrivalTime (do_nacks lib now b);
              (ep, b) \<leftarrow> get_ext_packet now p arrivalTime b;
              case ep of None \<Rightarrow> Some b
              | Some ep \<Rightarrow> do_fps_calc ep (b\<lparr>bExtPackets := bExtPackets b @ [ep]\<rparr>) }) }"

section \<open>Binding\<close>

text \<open>The header extensions: \<open>Bind\<close> creates the audio level for each audio-level extension.\<close>

definition bind_header_extension ::
  "('bk, 'nq, 'tw) media_lib \<Rightarrow> header_extension \<Rightarrow> ('bk, 'nq, 'tw) buffer \<Rightarrow> ('bk, 'nq, 'tw) buffer"
where
  "bind_header_extension lib ext b =
     (if extURI ext = uriAudioLevel lib
      then b\<lparr>bAudioLevelExt := word_of_int (extID ext),
        bAudioLevel := Some (new_audio_level (libPow lib) (bAudioLevelParams b))\<rparr>
      else b)"

definition bind_codec ::
  "('bk, 'nq, 'tw) media_lib \<Rightarrow> codec_parameters \<Rightarrow> ('bk, 'nq, 'tw) buffer \<Rightarrow> ('bk, 'nq, 'tw) buffer option"
where
  "bind_codec lib codec b =
     (if has_prefix (bMime b) ''audio/'' then
        Some (b\<lparr>bCodecType := CodecAudio, bBucket := Some (newBucket lib CodecAudio)\<rparr>)
      else if has_prefix (bMime b) ''video/'' then do {
        let b = b\<lparr>bCodecType := CodecVideo, bBucket := Some (newBucket lib CodecVideo)\<rparr>;
        fr \<leftarrow> go_index (bFrameRateCalculator b) 0;
        if fr = None \<and> equal_fold (MimeType (CodecCapability codec)) (mimeTypeVP8 lib) then do {
          frs \<leftarrow> go_update (bFrameRateCalculator b) 0 (Some (new_fps_vp8 (bClockRate b)));
          Some (b\<lparr>bFrameRateCalculator := frs\<rparr>) }
        else Some b }
      else Some (b\<lparr>bCodecType := CodecUnknown\<rparr>))"

text \<open>The loop over the feedback types; the flag tells that the code returned from \<open>Bind\<close>.\<close>

fun bind_feedback ::
  "('bk, 'nq, 'tw) media_lib \<Rightarrow> header_extension list \<Rightarrow> rtcp_feedback list \<Rightarrow> ('bk, 'nq, 'tw) buffer
   \<Rightarrow> bool \<times> ('bk, 'nq, 'tw) buffer"
where
  "bind_feedback lib exts [] b = (False, b)"
| "bind_feedback lib exts (fb # fbs) b =
     (if fbType fb = fbTransportCC lib then
        let b = (if bCodecType b = CodecVideo then
            (case find (\<lambda>ext. extURI ext = uriTransportCC lib) exts of None \<Rightarrow> b
             | Some ext \<Rightarrow> b\<lparr>bTwccExt := word_of_int (extID ext)\<rparr>)
          else b)
        in bind_feedback lib exts fbs b
      else if fbType fb = fbNACK lib then
        if equal_fold (bMime b) ''audio/red'' then (True, b)
        else bind_feedback lib exts fbs (b\<lparr>bNacker := Some (newNackQueue lib)\<rparr>)
      else bind_feedback lib exts fbs b)"

text \<open>The state once the parameters are set, before the packets that came early are taken in.\<close>

definition bind_params ::
  "('bk, 'nq, 'tw) media_lib \<Rightarrow> gotime \<Rightarrow> rtp_parameters \<Rightarrow> ('bk, 'nq, 'tw) buffer
   \<Rightarrow> (bool \<times> ('bk, 'nq, 'tw) buffer) option"
where
  "bind_params lib now prm b = do {
     codec \<leftarrow> go_index (Codecs prm) 0;
     let clock = CodecClockRate (CodecCapability codec);
     let r = new_rtp_stats \<lparr>ClockRate = clock, IsReceiverReportDriven = False\<rparr>;
     let (rrId, r) = new_snapshot_id now r;
     let (deltaId, r) = new_snapshot_id now r;
     let b = b\<lparr>bStats := Some r, bRrSnapshotId := rrId, bDeltaStatsSnapshotId := deltaId,
       bClockRate := clock, bLastReport := unix_nano now,
       bMime := to_lower (MimeType (CodecCapability codec))\<rparr>;
     let b = fold (bind_header_extension lib) (HeaderExtensions prm) b;
     b \<leftarrow> bind_codec lib codec b;
     Some (bind_feedback lib (HeaderExtensions prm) (RTCPFeedback (CodecCapability codec)) b) }"

definition calc_pending ::
  "('bk, 'nq, 'tw) media_lib \<Rightarrow> gotime \<Rightarrow> pending_packet \<Rightarrow> ('bk, 'nq, 'tw) buffer \<Rightarrow> ('bk, 'nq, 'tw) buffer option"
where
  "calc_pending lib now pp b = buffer_calc lib now (ppPacket pp) (ppArrivalTime pp) b"

definition buffer_bind ::
  "('bk, 'nq, 'tw) media_lib \<Rightarrow> gotime \<Rightarrow> rtp_parameters \<Rightarrow> ('bk, 'nq, 'tw) buffer \<Rightarrow> ('bk, 'nq, 'tw) buffer option"
where
  "buffer_bind lib now prm b =
     (if bBound b then Some b
      else do {
        (returned, b) \<leftarrow> bind_params lib now prm b;
        if returned then Some b
        else do {
          b \<leftarrow> run_panic (calc_pending lib now) (bPPackets b) b;
          Some (b\<lparr>bPPackets := [], bBound := True\<rparr>) } })"

section \<open>Writing and reading\<close>

definition buffer_write ::
  "('bk, 'nq, 'tw) media_lib \<Rightarrow> gotime \<Rightarrow> u8 list \<Rightarrow> ('bk, 'nq, 'tw) buffer
   \<Rightarrow> (read_error option \<times> ('bk, 'nq, 'tw) buffer) option"
where
  "buffer_write lib now pkt b =
     (if bClosed b then Some (Some EOF, b)
      else if \<not> bBound b then
        Some (None, b\<lparr>bPPackets := bPPackets b @ [\<lparr>ppArrivalTime = unix_nano now, ppPacket = pkt\<rparr>]\<rparr>)
      else map_option (Pair None) (buffer_calc lib now pkt (unix_nano now) b))"

text \<open>One round of a polling loop: a result, or a wait before the next round.\<close>

datatype 'a poll = Wait | Return 'a

definition buffer_read ::
  "int \<Rightarrow> ('bk, 'nq, 'tw) buffer \<Rightarrow> ((read_error + u8 list) poll \<times> ('bk, 'nq, 'tw) buffer) option"
where
  "buffer_read cap b =
     (if bClosed b then Some (Return (Inl EOF), b)
      else if int (length (bPPackets b)) > bLastPacketRead b then do {
        pp \<leftarrow> go_index (bPPackets b) (bLastPacketRead b);
        if cap < int (length (ppPacket pp)) then Some (Return (Inl (BucketError ErrBufferTooSmall)), b)
        else Some (Return (Inr (ppPacket pp)), b\<lparr>bLastPacketRead := bLastPacketRead b + 1\<rparr>) }
      else Some (Wait, b))"

definition get_packet ::
  "('bk, 'nq, 'tw) media_lib \<Rightarrow> int \<Rightarrow> u16 \<Rightarrow> ('bk, 'nq, 'tw) buffer \<Rightarrow> (read_error + u8 list) option"
where
  "get_packet lib cap sn b =
     (if bClosed b then Some (Inl EOF)
      else map_option (\<lambda>bk. case bucketGet lib cap sn bk of Inl e \<Rightarrow> Inl (BucketError e) | Inr raw \<Rightarrow> Inr raw)
        (bBucket b))"

text \<open>
  \<open>patchExtPacket\<close> reads the packet again into the caller's slice of \<open>cap\<close> bytes and points the
  payload there.
\<close>

definition patch_ext_packet ::
  "('bk, 'nq, 'tw) media_lib \<Rightarrow> int \<Rightarrow> ext_packet \<Rightarrow> ('bk, 'nq, 'tw) buffer \<Rightarrow> ext_packet option option"
where
  "patch_ext_packet lib cap ep b = do {
     r \<leftarrow> get_packet lib cap (SequenceNumber (Header (Packet ep))) b;
     case r of Inl _ \<Rightarrow> Some None
     | Inr raw \<Rightarrow> do {
         let payloadStart = libMarshalSize lib (Header (Packet ep));
         let payloadEnd = payloadStart + int (length (Payload (Packet ep)));
         if payloadEnd > int (length raw) then Some None
         else do {
           payload \<leftarrow> go_slice raw payloadStart payloadEnd;
           Some (Some (ep\<lparr>RawPacket := raw, Packet := (Packet ep)\<lparr>Payload := payload\<rparr>\<rparr>)) } } }"

text \<open>The loop of \<open>ReadExtended\<close> up to a result or a wait: packets that cannot be patched are skipped.\<close>

fun read_extended_from ::
  "('bk, 'nq, 'tw) media_lib \<Rightarrow> int \<Rightarrow> ext_packet list \<Rightarrow> ('bk, 'nq, 'tw) buffer
   \<Rightarrow> ((read_error + ext_packet) poll \<times> ('bk, 'nq, 'tw) buffer) option"
where
  "read_extended_from lib cap [] b = Some (Wait, b\<lparr>bExtPackets := []\<rparr>)"
| "read_extended_from lib cap (ep # eps) b = do {
     r \<leftarrow> patch_ext_packet lib cap ep b;
     case r of None \<Rightarrow> read_extended_from lib cap eps b
     | Some ep \<Rightarrow> Some (Return (Inr ep), b\<lparr>bExtPackets := eps\<rparr>) }"

definition read_extended ::
  "('bk, 'nq, 'tw) media_lib \<Rightarrow> int \<Rightarrow> ('bk, 'nq, 'tw) buffer
   \<Rightarrow> ((read_error + ext_packet) poll \<times> ('bk, 'nq, 'tw) buffer) option"
where
  "read_extended lib cap b =
     (if bClosed b then Some (Return (Inl EOF), b) else read_extended_from lib cap (bExtPackets b) b)"

section \<open>Closing, feedback and settings\<close>

text \<open>The body of \<open>closeOnce\<close> is the only place that sets \<open>closed\<close>, so it has run exactly then.\<close>

definition buffer_close :: "gotime \<Rightarrow> ('bk, 'nq, 'tw) buffer \<Rightarrow> ('bk, 'nq, 'tw) buffer" where
  "buffer_close now b =
     (if bClosed b then b
      else
        let b = (if bBucket b \<noteq> None \<and> bCodecType b = CodecVideo then buffer_call PutVideo b else b);
            b = (if bBucket b \<noteq> None \<and> bCodecType b = CodecAudio then buffer_call PutAudio b else b);
            b = b\<lparr>bClosed := True, bStats := map_option (stop now) (bStats b)\<rparr>
        in if bHasClose b then buffer_call CallClose b else b)"

definition send_pli :: "bool \<Rightarrow> gotime \<Rightarrow> ('bk, 'nq, 'tw) buffer \<Rightarrow> ('bk, 'nq, 'tw) buffer option" where
  "send_pli force now b =
     (if (case bStats b of None \<Rightarrow> True | Some r \<Rightarrow> time_since_last_pli now r < bPliThrottle b) \<and> \<not> force
      then Some b
      else do {
        r \<leftarrow> bStats b;
        Some (rtcp_feedback_call [PictureLossIndication (bMediaSSRC b) (bMediaSSRC b)]
          (b\<lparr>bStats := Some (update_pli_and_time now 1 r)\<rparr>)) })"

definition buffer_set_rtt ::
  "('bk, 'nq, 'tw) media_lib \<Rightarrow> u32 \<Rightarrow> ('bk, 'nq, 'tw) buffer \<Rightarrow> ('bk, 'nq, 'tw) buffer"
where
  "buffer_set_rtt lib v b =
     (if v = 0 then b
      else b\<lparr>bNacker := map_option (nackSetRTT lib v) (bNacker b),
        bStats := map_option (update_rtt v) (bStats b)\<rparr>)"

definition set_sender_report_data ::
  "('bk, 'nq, 'tw) media_lib \<Rightarrow> gotime \<Rightarrow> u32 \<Rightarrow> u64 \<Rightarrow> ('bk, 'nq, 'tw) buffer \<Rightarrow> ('bk, 'nq, 'tw) buffer"
where
  "set_sender_report_data lib now rtpTime ntpTime b =
     (let srData = \<lparr>srRTPTimestamp = rtpTime, srNTPTimestamp = ntpTime, srArrivalTime = now\<rparr>;
          b = b\<lparr>bStats := map_option (set_rtcp_sender_report_data (envNtpTime (libStats lib)) (Some srData)) (bStats b)\<rparr>
      in if bHasSenderReport b then buffer_call (CallSenderReport srData) b else b)"

definition get_sender_report_data_ext :: "('bk, 'nq, 'tw) buffer \<Rightarrow> sr_data_ext option" where
  "get_sender_report_data_ext b = Option.bind (bStats b) srDataExt"

definition get_delta_stats ::
  "gotime \<Rightarrow> ('bk, 'nq, 'tw) buffer \<Rightarrow> (delta_info option \<times> ('bk, 'nq, 'tw) buffer) option"
where
  "get_delta_stats now b = (case bStats b of None \<Rightarrow> Some (None, b)
     | Some r \<Rightarrow> do {
         (d, r) \<leftarrow> rtp_delta_info now (bDeltaStatsSnapshotId b) r;
         Some (d, b\<lparr>bStats := Some r\<rparr>) })"

definition buffer_audio_level :: "('bk, 'nq, 'tw) buffer \<Rightarrow> gofloat \<times> bool" where
  "buffer_audio_level b = (case bAudioLevel b of None \<Rightarrow> (Fin 0, False) | Some l \<Rightarrow> audio_get_level l)"

text \<open>The frame rates of a layer; \<open>None\<close> inside is \<open>nil\<close>.\<close>

definition temporal_layer_fps :: "int \<Rightarrow> ('bk, 'nq, 'tw) buffer \<Rightarrow> gofloat list option option" where
  "temporal_layer_fps layer b =
     (if layer \<ge> int (length (bFrameRateCalculator b)) then Some None
      else map_option (map_option get_frame_rate) (go_index (bFrameRateCalculator b) layer))"

definition set_paused :: "bool \<Rightarrow> ('bk, 'nq, 'tw) buffer \<Rightarrow> ('bk, 'nq, 'tw) buffer" where
  "set_paused p b = b\<lparr>bPaused := p\<rparr>"

definition set_twcc :: "'tw option \<Rightarrow> ('bk, 'nq, 'tw) buffer \<Rightarrow> ('bk, 'nq, 'tw) buffer" where
  "set_twcc tw b = b\<lparr>bTwcc := tw\<rparr>"

definition set_audio_level_params :: "audio_level_params \<Rightarrow> ('bk, 'nq, 'tw) buffer \<Rightarrow> ('bk, 'nq, 'tw) buffer" where
  "set_audio_level_params p b = b\<lparr>bAudioLevelParams := p\<rparr>"

definition set_pli_throttle :: "int \<Rightarrow> ('bk, 'nq, 'tw) buffer \<Rightarrow> ('bk, 'nq, 'tw) buffer" where
  "set_pli_throttle d b = b\<lparr>bPliThrottle := d\<rparr>"

definition set_last_fraction_lost :: "u8 \<Rightarrow> ('bk, 'nq, 'tw) buffer \<Rightarrow> ('bk, 'nq, 'tw) buffer" where
  "set_last_fraction_lost lost b = b\<lparr>bLastFractionLost := lost\<rparr>"

text \<open>Installing the callbacks.\<close>

definition on_close :: "('bk, 'nq, 'tw) buffer \<Rightarrow> ('bk, 'nq, 'tw) buffer" where
  "on_close b = b\<lparr>bHasClose := True\<rparr>"

definition on_rtcp_feedback :: "('bk, 'nq, 'tw) buffer \<Rightarrow> ('bk, 'nq, 'tw) buffer" where
  "on_rtcp_feedback b = b\<lparr>bHasRtcpFeedback := True\<rparr>"

definition on_rtcp_sender_report :: "('bk, 'nq, 'tw) buffer \<Rightarrow> ('bk, 'nq, 'tw) buffer" where
  "on_rtcp_sender_report b = b\<lparr>bHasSenderReport := True\<rparr>"

definition on_fps_changed :: "('bk, 'nq, 'tw) buffer \<Rightarrow> ('bk, 'nq, 'tw) buffer" where
  "on_fps_changed b = b\<lparr>bHasFpsChanged := True\<rparr>"

end
