(* ===== verification/BufferSpec.thy ===== *)
theory BufferSpec
  imports Buffer StatsSafe FpsSpec
begin

text \<open>
  What the buffer guarantees: packets that arrive before it is bound are treated as if they had
  arrived after; once bound, no operation panics and every one of them keeps the invariant that the
  statistics, the frame rate and the audio level rest on.
\<close>

section \<open>Packets that come early\<close>

text \<open>
  Taking in a packet neither reads nor changes the queue of early packets and the bound flag.
\<close>

definition with_queue ::
  "pending_packet list \<Rightarrow> int \<Rightarrow> bool \<Rightarrow> ('bk, 'nq, 'tw) buffer \<Rightarrow> ('bk, 'nq, 'tw) buffer"
where
  "with_queue q n bound b = b\<lparr>bPPackets := q, bBound := bound, bLastPacketRead := n\<rparr>"

lemma with_queue_sel [simp]:
  "bAudioLevelParams (with_queue q n bound b) = bAudioLevelParams b" "bBucket (with_queue q n bound b) = bBucket b" "bNacker (with_queue q n bound b) = bNacker b"
  "bCodecType (with_queue q n bound b) = bCodecType b" "bExtPackets (with_queue q n bound b) = bExtPackets b"
  "bMediaSSRC (with_queue q n bound b) = bMediaSSRC b" "bClockRate (with_queue q n bound b) = bClockRate b"
  "bLastReport (with_queue q n bound b) = bLastReport b" "bTwccExt (with_queue q n bound b) = bTwccExt b"
  "bAudioLevelExt (with_queue q n bound b) = bAudioLevelExt b" "bClosed (with_queue q n bound b) = bClosed b"
  "bMime (with_queue q n bound b) = bMime b" "bLatestTSInitialized (with_queue q n bound b) = bLatestTSInitialized b"
  "bLatestTS (with_queue q n bound b) = bLatestTS b" "bTwcc (with_queue q n bound b) = bTwcc b"
  "bAudioLevel (with_queue q n bound b) = bAudioLevel b" "bStats (with_queue q n bound b) = bStats b"
  "bRrSnapshotId (with_queue q n bound b) = bRrSnapshotId b" "bLastFractionLost (with_queue q n bound b) = bLastFractionLost b"
  "bHasRtcpFeedback (with_queue q n bound b) = bHasRtcpFeedback b" "bHasFpsChanged (with_queue q n bound b) = bHasFpsChanged b"
  "bPaused (with_queue q n bound b) = bPaused b" "bFrameRateCalculator (with_queue q n bound b) = bFrameRateCalculator b"
  "bFrameRateCalculated (with_queue q n bound b) = bFrameRateCalculated b" "bCalls (with_queue q n bound b) = bCalls b"
  "bPPackets (with_queue q n bound b) = q" "bBound (with_queue q n bound b) = bound"
  "bLastPacketRead (with_queue q n bound b) = n"
  by (simp_all add: with_queue_def)

lemma with_queue_upd [simp]:
  "with_queue q n bound b\<lparr>bBucket := x0\<rparr> = with_queue q n bound (b\<lparr>bBucket := x0\<rparr>)"
  "with_queue q n bound b\<lparr>bNacker := x1\<rparr> = with_queue q n bound (b\<lparr>bNacker := x1\<rparr>)"
  "with_queue q n bound b\<lparr>bExtPackets := x2\<rparr> = with_queue q n bound (b\<lparr>bExtPackets := x2\<rparr>)"
  "with_queue q n bound b\<lparr>bLastReport := x3\<rparr> = with_queue q n bound (b\<lparr>bLastReport := x3\<rparr>)"
  "with_queue q n bound b\<lparr>bLatestTSInitialized := x4\<rparr> = with_queue q n bound (b\<lparr>bLatestTSInitialized := x4\<rparr>)"
  "with_queue q n bound b\<lparr>bLatestTS := x5\<rparr> = with_queue q n bound (b\<lparr>bLatestTS := x5\<rparr>)"
  "with_queue q n bound b\<lparr>bTwcc := x6\<rparr> = with_queue q n bound (b\<lparr>bTwcc := x6\<rparr>)"
  "with_queue q n bound b\<lparr>bAudioLevel := x7\<rparr> = with_queue q n bound (b\<lparr>bAudioLevel := x7\<rparr>)"
  "with_queue q n bound b\<lparr>bStats := x8\<rparr> = with_queue q n bound (b\<lparr>bStats := x8\<rparr>)"
  "with_queue q n bound b\<lparr>bFrameRateCalculator := x9\<rparr> = with_queue q n bound (b\<lparr>bFrameRateCalculator := x9\<rparr>)"
  "with_queue q n bound b\<lparr>bFrameRateCalculated := x10\<rparr> = with_queue q n bound (b\<lparr>bFrameRateCalculated := x10\<rparr>)"
  "with_queue q n bound b\<lparr>bTwccExt := x20\<rparr> = with_queue q n bound (b\<lparr>bTwccExt := x20\<rparr>)"
  "with_queue q n bound b\<lparr>bAudioLevelExt := x21\<rparr> = with_queue q n bound (b\<lparr>bAudioLevelExt := x21\<rparr>)"
  "with_queue q n bound b\<lparr>bCodecType := x22\<rparr> = with_queue q n bound (b\<lparr>bCodecType := x22\<rparr>)"
  "with_queue q n bound b\<lparr>bRrSnapshotId := x23\<rparr> = with_queue q n bound (b\<lparr>bRrSnapshotId := x23\<rparr>)"
  "with_queue q n bound b\<lparr>bDeltaStatsSnapshotId := x24\<rparr> = with_queue q n bound (b\<lparr>bDeltaStatsSnapshotId := x24\<rparr>)"
  "with_queue q n bound b\<lparr>bClockRate := x25\<rparr> = with_queue q n bound (b\<lparr>bClockRate := x25\<rparr>)"
  "with_queue q n bound b\<lparr>bMime := x26\<rparr> = with_queue q n bound (b\<lparr>bMime := x26\<rparr>)"
  "with_queue q n bound b\<lparr>bCalls := x11\<rparr> = with_queue q n bound (b\<lparr>bCalls := x11\<rparr>)"
  by (simp_all add: with_queue_def)

lemma with_queue_own [simp]: "with_queue (bPPackets b) (bLastPacketRead b) (bBound b) b = b"
  by (simp add: with_queue_def)

lemma update_stream_state_queue:
  "update_stream_state lib now p t (with_queue q n bound b) =
   map_option (with_queue q n bound) (update_stream_state lib now p t b)"
proof (cases "bStats b")
  case (Some r)
  show ?thesis
  proof (cases "rtp_update (libMarshalSize lib) now (Header p) (int (length (Payload p))) (uint (PaddingSize p)) t r")
    case None
    then show ?thesis using Some by (simp add: update_stream_state_def)
  next
    case u: (Some fr)
    then show ?thesis using Some
      by (cases fr; cases "bNacker b") (simp_all add: update_stream_state_def Let_def)
  qed
qed (simp add: update_stream_state_def)

lemma process_header_extensions_queue:
  "process_header_extensions lib p t (with_queue q n bound b) =
   map_option (with_queue q n bound) (process_header_extensions lib p t b)"
proof -
  have twcc: "process_twcc lib p t (with_queue q n bound b) = map_option (with_queue q n bound) (process_twcc lib p t b)"
    for b :: "('a, 'b, 'c) buffer"
    by (cases "bTwcc b"; cases "getExtension lib (bTwccExt b) (Header p)"; cases "twcc_number (the (getExtension lib (bTwccExt b) (Header p)))")
      (simp_all add: process_twcc_def)
  have audio: "process_audio_level lib p (with_queue q n bound b) = map_option (with_queue q n bound) (process_audio_level lib p b)"
    for b :: "('a, 'b, 'c) buffer"
    by (cases "bAudioLevel b"; cases "audio_duration (Timestamp (Header p)) (bLatestTS b) (bClockRate b)";
        cases "audio_duration (Timestamp (Header p)) (Timestamp (Header p)) (bClockRate b)")
      (auto simp: process_audio_level_def Let_def split: option.split prod.split)
  show ?thesis
    by (cases "process_twcc lib p t b") (simp_all add: process_header_extensions_def twcc audio)
qed

lemma do_nacks_queue:
  "do_nacks lib now (with_queue q n bound b) = with_queue q n bound (do_nacks lib now b)"
  by (auto simp: do_nacks_def Let_def rtcp_feedback_call_def buffer_call_def split: option.split prod.split)

lemma do_reports_queue:
  "do_reports lib now t (with_queue q n bound b) = map_option (with_queue q n bound) (do_reports lib now t b)"
  by (cases "bStats b"; cases "snapshot_rtcp_reception_report (envFrac (libStats lib)) (envJitter (libStats lib)) now now
      (bMediaSSRC b) (bLastFractionLost b) (bRrSnapshotId b) (the (bStats b))")
    (simp_all add: do_reports_def get_rtcp_def rtcp_feedback_call_def buffer_call_def split: prod.split option.split)

lemma get_ext_packet_queue:
  "get_ext_packet now p t (with_queue q n bound b) =
   map_option (\<lambda>(ep, b). (ep, with_queue q n bound b)) (get_ext_packet now p t b)"
  by (cases "detect_keyframe (bMime b) (Payload p)"; cases "vp8_unmarshal vp8_zero (Some (Payload p))")
    (simp_all add: get_ext_packet_def Let_def)

lemma do_fps_calc_queue:
  "do_fps_calc ep (with_queue q n bound b) = map_option (with_queue q n bound) (do_fps_calc ep b)"
proof -
  define sp where "sp = (if Spatial (Layer ep) < 0 \<or> Spatial (Layer ep) \<ge> int (length (bFrameRateCalculator b)) then 0 else Spatial (Layer ep))"
  have sp': "sp = (if Spatial (Layer ep) < 0 \<or> Spatial (Layer ep) \<ge> int (length (bFrameRateCalculator (with_queue q n bound b))) then 0 else Spatial (Layer ep))"
    by (simp add: sp_def)
  show ?thesis
  proof (cases "go_index (bFrameRateCalculator b) sp")
    case None
    then show ?thesis unfolding do_fps_calc_def Let_def sp_def [symmetric] sp' [symmetric] by simp
  next
    case (Some fr)
    show ?thesis
    proof (cases fr)
      case None
      then show ?thesis using Some unfolding do_fps_calc_def Let_def sp_def [symmetric] sp' [symmetric] by simp
    next
      case f: (Some f)
      then show ?thesis
        using Some unfolding do_fps_calc_def Let_def sp_def [symmetric] sp' [symmetric]
        by (cases "fps_recv_packet ep f"; cases "go_update (bFrameRateCalculator b) sp (Some (snd (the (fps_recv_packet ep f))))")
          (simp_all add: split_beta buffer_call_def)
    qed
  qed
qed

lemma buffer_calc_queue:
  "buffer_calc lib now pkt t (with_queue q n bound b) = map_option (with_queue q n bound) (buffer_calc lib now pkt t b)"
proof -
  define fin where "fin p b = Option.bind (do_reports lib now t (do_nacks lib now b)) (\<lambda>b.
      Option.bind (get_ext_packet now p t b) (\<lambda>(ep, b). case ep of None \<Rightarrow> Some b
        | Some ep \<Rightarrow> do_fps_calc ep (b\<lparr>bExtPackets := bExtPackets b @ [ep]\<rparr>)))"
    for p and b :: "('a, 'b, 'c) buffer"
  have tail: "fin p (with_queue q n bound b) = map_option (with_queue q n bound) (fin p b)" for p b
  proof (cases "do_reports lib now t (do_nacks lib now b)")
    case None
    then show ?thesis by (simp add: fin_def do_nacks_queue do_reports_queue)
  next
    case (Some b1)
    then show ?thesis
      by (cases "get_ext_packet now p t b1")
        (auto simp: fin_def do_nacks_queue do_reports_queue get_ext_packet_queue do_fps_calc_queue split: option.split)
  qed
  have upd: "Option.bind (update_stream_state lib now p t (with_queue q n bound b)) (\<lambda>b.
      Option.bind (process_header_extensions lib p t b) g)
    = map_option (with_queue q n bound) (Option.bind (update_stream_state lib now p t b) (\<lambda>b.
      Option.bind (process_header_extensions lib p t b) g))"
    if "\<And>b. g (with_queue q n bound b) = map_option (with_queue q n bound) (g b)"
    for p g and b :: "('a, 'b, 'c) buffer"
  proof (cases "update_stream_state lib now p t b")
    case None
    then show ?thesis by (simp add: update_stream_state_queue)
  next
    case (Some b1)
    then show ?thesis
      by (cases "process_header_extensions lib p t b1")
        (simp_all add: update_stream_state_queue process_header_extensions_queue that)
  qed
  have short: "Option.bind (update_stream_state lib now p t (with_queue q n bound b)) (process_header_extensions lib p t)
    = map_option (with_queue q n bound) (Option.bind (update_stream_state lib now p t b) (process_header_extensions lib p t))"
    for p and b :: "('a, 'b, 'c) buffer"
    using upd [of Some p b] by simp
  have full: "Option.bind (update_stream_state lib now p t (with_queue q n bound b)) (\<lambda>b.
      Option.bind (process_header_extensions lib p t b) (fin p))
    = map_option (with_queue q n bound) (Option.bind (update_stream_state lib now p t b) (\<lambda>b.
      Option.bind (process_header_extensions lib p t b) (fin p)))"
    for p and b :: "('a, 'b, 'c) buffer"
    by (rule upd) (rule tail)
  show ?thesis
  proof (cases "bBucket b")
    case None
    then show ?thesis by (simp add: buffer_calc_def)
  next
    case (Some bk)
    then show ?thesis
      by (cases "addPacket lib pkt bk"; cases "fst (addPacket lib pkt bk)";
          cases "rtpUnmarshal lib pkt"; cases "rtpUnmarshal lib (projr (fst (addPacket lib pkt bk)))")
        (simp_all add: buffer_calc_def fin_def [symmetric, abs_def] short full)
  qed
qed


lemma bind_header_extensions_queue:
  "fold (bind_header_extension lib) exts (with_queue q n bound b) =
   with_queue q n bound (fold (bind_header_extension lib) exts b)"
  by (induction exts arbitrary: b) (simp_all add: bind_header_extension_def)

lemma bind_feedback_queue:
  "bind_feedback lib exts fbs (with_queue q n bound b) =
   map_prod id (with_queue q n bound) (bind_feedback lib exts fbs b)"
  by (induction fbs arbitrary: b) (simp_all add: Let_def split: option.split)

lemma bind_codec_queue:
  "bind_codec lib codec (with_queue q n bound b) = map_option (with_queue q n bound) (bind_codec lib codec b)"
  by (cases "go_index (bFrameRateCalculator b) 0";
      cases "go_update (bFrameRateCalculator b) 0 (Some (new_fps_vp8 (bClockRate b)))")
    (simp_all add: bind_codec_def Let_def)

lemma bind_params_queue:
  "bind_params lib now prm (with_queue q n bound b) =
   map_option (map_prod id (with_queue q n bound)) (bind_params lib now prm b)"
proof (cases "go_index (Codecs prm) 0")
  case (Some codec)
  obtain i r1 where 1: "new_snapshot_id now (new_rtp_stats \<lparr>ClockRate = CodecClockRate (CodecCapability codec),
      IsReceiverReportDriven = False\<rparr>) = (i, r1)"
    by force
  obtain j r2 where 2: "new_snapshot_id now r1 = (j, r2)" by force
  define b1 where "b1 = fold (bind_header_extension lib) (HeaderExtensions prm)
    (b\<lparr>bStats := Some r2, bRrSnapshotId := i, bDeltaStatsSnapshotId := j,
       bClockRate := CodecClockRate (CodecCapability codec), bLastReport := unix_nano now,
       bMime := to_lower (MimeType (CodecCapability codec))\<rparr>)"
  show ?thesis
    by (cases "bind_codec lib codec b1")
      (simp_all add: bind_params_def Some 1 2 bind_header_extensions_queue bind_codec_queue bind_feedback_queue
        flip: b1_def)
qed (simp add: bind_params_def)

lemma run_calc_queue:
  "run_panic (calc_pending lib now) pps (with_queue q n bound b) =
   map_option (with_queue q n bound) (run_panic (calc_pending lib now) pps b)"
proof (induction pps arbitrary: b)
  case (Cons pp pps)
  then show ?case
    by (cases "calc_pending lib now pp b") (simp_all add: calc_pending_def buffer_calc_queue)
qed simp

definition early :: "(gotime \<times> u8 list) list \<Rightarrow> pending_packet list" where
  "early = map (\<lambda>(t, pkt). \<lparr>ppArrivalTime = unix_nano t, ppPacket = pkt\<rparr>)"

definition write_at ::
  "('bk, 'nq, 'tw) media_lib \<Rightarrow> gotime \<times> u8 list \<Rightarrow> ('bk, 'nq, 'tw) buffer \<Rightarrow> ('bk, 'nq, 'tw) buffer option"
where
  "write_at lib = (\<lambda>(t, pkt) b. map_option snd (buffer_write lib t pkt b))"

lemma write_early:
  "\<not> bBound b \<Longrightarrow> \<not> bClosed b \<Longrightarrow>
   run_panic (write_at lib) ws b = Some (b\<lparr>bPPackets := bPPackets b @ early ws\<rparr>)"
  by (induction ws arbitrary: b) (auto simp: write_at_def buffer_write_def early_def)

lemma queue_as: "b\<lparr>bPPackets := q\<rparr> = with_queue q (bLastPacketRead b) (bBound b) b"
  by (simp add: with_queue_def)

text \<open>
  C17: packets written before \<open>Bind\<close> are not lost and not treated differently: writing them and
  then binding is the same as binding and then taking in each of them, in their order and with the
  time at which it arrived. Where \<open>Bind\<close> returns early (\<open>audio/red\<close> with negative
  acknowledgements), or the parameters make it panic, nothing is taken in.
\<close>

theorem early_packets_replayed:
  assumes "\<not> bBound b" and "\<not> bClosed b" and "bPPackets b = []"
  shows "Option.bind (run_panic (write_at lib) ws b) (buffer_bind lib now prm) =
    Option.bind (buffer_bind lib now prm b) (\<lambda>b'.
      if bBound b' then run_panic (calc_pending lib now) (early ws) b'
      else Some (b'\<lparr>bPPackets := early ws\<rparr>))"
proof -
  let ?q = "with_queue (early ws) (bLastPacketRead b) False"
  have b: "b\<lparr>bPPackets := early ws\<rparr> = ?q b" using assms by (simp add: queue_as)
  show ?thesis
  proof (cases "bind_params lib now prm b")
    case None
    then show ?thesis using assms by (simp add: write_early b buffer_bind_def bind_params_queue)
  next
    case (Some rb)
    obtain returned b' where rb: "rb = (returned, b')" by force
    have own: "bPPackets b' = []" "\<not> bBound b'" "bLastPacketRead b' = bLastPacketRead b"
    proof -
      have "bind_params lib now prm b = map_option (map_prod id (with_queue [] (bLastPacketRead b) False)) (bind_params lib now prm b)"
        using bind_params_queue [of lib now prm "[]" "bLastPacketRead b" False b] with_queue_own [of b] assms by simp
      then have "b' = with_queue [] (bLastPacketRead b) False b'" using Some rb by simp
      then show "bPPackets b' = []" "\<not> bBound b'" "bLastPacketRead b' = bLastPacketRead b"
        using with_queue_sel by metis+
    qed
    have up: "b'\<lparr>bPPackets := [], bBound := True\<rparr> = with_queue [] (bLastPacketRead b) True b'"
      using own by (simp add: with_queue_def)
    have "(\<lambda>b. b\<lparr>bPPackets := [], bBound := True\<rparr>) \<circ> ?q = with_queue [] (bLastPacketRead b) True"
      by (rule ext) (simp add: with_queue_def)
    then have fin: "Option.bind (map_option ?q x) (\<lambda>b. Some (b\<lparr>bPPackets := [], bBound := True\<rparr>))
        = map_option (with_queue [] (bLastPacketRead b) True) x" for x :: "('a, 'b, 'c) buffer option"
      by (cases x) (auto simp: fun_eq_iff)
    show ?thesis
      using assms Some rb own
      by (cases returned)
        (simp_all add: write_early b buffer_bind_def bind_params_queue run_calc_queue fin up, simp add: with_queue_def)
  qed
qed

section \<open>Assumptions on the packages\<close>

text \<open>
  What the code relies on: a header is never shorter than nothing, and the memory of an extension
  has room for the two bytes of a transport-wide number.
\<close>

definition lib_ok :: "('bk, 'nq, 'tw) media_lib \<Rightarrow> bool" where
  "lib_ok lib \<longleftrightarrow> (\<forall>h. 0 \<le> libMarshalSize lib h) \<and>
     (\<forall>i h ext spare. getExtension lib i h = Some (ext, spare) \<longrightarrow> 2 \<le> length ext + length spare)"

section \<open>The invariant of a bound buffer\<close>

definition fps_list_ok :: "fps_vp8 option list \<Rightarrow> bool" where
  "fps_list_ok frs \<longleftrightarrow> length frs = 3 \<and> list_all (\<lambda>fr. case fr of None \<Rightarrow> True | Some f \<Rightarrow> fps_inv f) frs"

definition audio_ok :: "('bk, 'nq, 'tw) buffer \<Rightarrow> bool" where
  "audio_ok b \<longleftrightarrow> (bAudioLevelExt b \<noteq> 0 \<longrightarrow> bAudioLevel b \<noteq> None \<and> bClockRate b \<noteq> 0)"

definition has_stats :: "('bk, 'nq, 'tw) buffer \<Rightarrow> bool" where
  "has_stats b \<longleftrightarrow> (case bStats b of None \<Rightarrow> False | Some r \<Rightarrow> stats_ok r)"

definition calc_ok :: "('bk, 'nq, 'tw) buffer \<Rightarrow> bool" where
  "calc_ok b \<longleftrightarrow> bBucket b \<noteq> None \<and> has_stats b \<and> audio_ok b \<and> fps_list_ok (bFrameRateCalculator b) \<and>
     bMime b \<noteq> ''video/av1''"

lemma calc_ok_updates [simp]:
  "calc_ok (b\<lparr>bCalls := c\<rparr>) = calc_ok b" "calc_ok (b\<lparr>bNacker := n\<rparr>) = calc_ok b"
  "calc_ok (b\<lparr>bTwcc := tw\<rparr>) = calc_ok b" "calc_ok (b\<lparr>bLastReport := t\<rparr>) = calc_ok b"
  "calc_ok (b\<lparr>bLatestTS := ts\<rparr>) = calc_ok b" "calc_ok (b\<lparr>bLatestTSInitialized := i\<rparr>) = calc_ok b"
  "calc_ok (b\<lparr>bExtPackets := q\<rparr>) = calc_ok b" "calc_ok (b\<lparr>bFrameRateCalculated := fc\<rparr>) = calc_ok b"
  "calc_ok (b\<lparr>bPPackets := pp\<rparr>) = calc_ok b" "calc_ok (b\<lparr>bBound := x\<rparr>) = calc_ok b"
  "calc_ok (b\<lparr>bClosed := x\<rparr>) = calc_ok b" "calc_ok (b\<lparr>bLastPacketRead := k\<rparr>) = calc_ok b"
  "calc_ok (b\<lparr>bPaused := x\<rparr>) = calc_ok b" "calc_ok (b\<lparr>bPliThrottle := k\<rparr>) = calc_ok b"
  "calc_ok (b\<lparr>bLastFractionLost := u\<rparr>) = calc_ok b" "calc_ok (b\<lparr>bAudioLevelParams := ap\<rparr>) = calc_ok b"
  "calc_ok (b\<lparr>bHasClose := x\<rparr>) = calc_ok b" "calc_ok (b\<lparr>bHasRtcpFeedback := x\<rparr>) = calc_ok b"
  "calc_ok (b\<lparr>bHasSenderReport := x\<rparr>) = calc_ok b" "calc_ok (b\<lparr>bHasFpsChanged := x\<rparr>) = calc_ok b"
  by (simp_all add: calc_ok_def has_stats_def audio_ok_def)

lemma calc_ok_bucket [simp]: "calc_ok b \<Longrightarrow> calc_ok (b\<lparr>bBucket := Some bk\<rparr>)"
  by (simp add: calc_ok_def has_stats_def audio_ok_def)

lemma calc_ok_stats [simp]: "calc_ok b \<Longrightarrow> stats_ok r \<Longrightarrow> calc_ok (b\<lparr>bStats := Some r\<rparr>)"
  by (simp add: calc_ok_def has_stats_def audio_ok_def)

lemma calc_ok_fps: "calc_ok b \<Longrightarrow> fps_list_ok frs \<Longrightarrow> calc_ok (b\<lparr>bFrameRateCalculator := frs\<rparr>)"
  by (simp add: calc_ok_def has_stats_def audio_ok_def)

lemma calc_ok_audio: "calc_ok b \<Longrightarrow> calc_ok (b\<lparr>bAudioLevel := Some l\<rparr>)"
  by (simp add: calc_ok_def has_stats_def audio_ok_def)

lemma calc_ok_r: "calc_ok b \<Longrightarrow> \<exists>r. bStats b = Some r \<and> stats_ok r"
  by (auto simp: calc_ok_def has_stats_def split: option.splits)

lemma rtcp_feedback_call_ok [simp]: "calc_ok (rtcp_feedback_call pkts b) = calc_ok b"
  by (simp add: rtcp_feedback_call_def buffer_call_def)

text \<open>The operations of the statistics that the buffer calls, from \<open>stats_step_ok\<close>.\<close>

lemma stats_update_ok:
  assumes "stats_ok r"
  shows "\<exists>flow r'. rtp_update ms now h payload pad t r = Some (flow, r') \<and> stats_ok r'"
proof -
  let ?env = "\<lparr>envMarshalSize = ms, envGetRtt = \<lambda>_. (0, False), envNtpTime = \<lambda>_. 0, envFrac = \<lambda>_. 0,
    envJitter = \<lambda>_. 0\<rparr>"
  let ?a = "\<lparr>arrNow = now, arrHeader = h, arrPayloadSize = payload, arrPaddingSize = pad, arrTime = t\<rparr>"
  show ?thesis
    using stats_step_ok [OF assms, of "EvUpdate ?a" ?env] by (auto simp: receive_def)
qed

lemma stats_calls_ok:
  assumes "stats_ok r"
  shows "stats_ok (update_key_frame now n r)" "stats_ok (update_nack n r)" "stats_ok (stop now r)"
    "stats_ok (update_pli_and_time now n r)" "stats_ok (update_rtt n r)"
    "stats_ok (snd (new_snapshot_id now r))"
  using stats_step_ok [OF assms, of "EvKeyFrame now n"] stats_step_ok [OF assms, of "EvNack n"]
    stats_step_ok [OF assms, of "EvStop now"] stats_step_ok [OF assms, of "EvPliAndTime now n"]
    stats_step_ok [OF assms, of "EvRtt n"] stats_step_ok [OF assms, of "EvNewSnapshot now"]
  by simp_all

lemma sender_report_data_ok: "stats_ok r \<Longrightarrow> stats_ok (set_rtcp_sender_report_data ntp d r)"
  using stats_step_ok [of r "EvSenderReport d" "\<lparr>envMarshalSize = \<lambda>_. 0, envGetRtt = \<lambda>_. (0, False),
    envNtpTime = ntp, envFrac = \<lambda>_. 0, envJitter = \<lambda>_. 0\<rparr>"] by simp

lemma stats_reception_ok:
  assumes "stats_ok r"
  shows "\<exists>rr r'. snapshot_rtcp_reception_report fi ji now later ssrc proxy i r = Some (rr, r') \<and> stats_ok r'"
  using stats_step_ok [OF assms, of "EvReceptionReport now later ssrc proxy i" "\<lparr>envMarshalSize = \<lambda>_. 0,
    envGetRtt = \<lambda>_. (0, False), envNtpTime = \<lambda>_. 0, envFrac = fi, envJitter = ji\<rparr>"]
  by auto

lemma stats_delta_ok: "stats_ok r \<Longrightarrow> \<exists>d r'. rtp_delta_info now i r = Some (d, r') \<and> stats_ok r'"
  using stats_step_ok [of r "EvDeltaInfo now i"] by auto

section \<open>Taking in a packet does not panic\<close>

lemma update_stream_state_ok:
  assumes "calc_ok b"
  shows "\<exists>b'. update_stream_state lib now p t b = Some b' \<and> calc_ok b'"
proof -
  obtain r where r: "bStats b = Some r" "stats_ok r" using calc_ok_r [OF assms] by blast
  obtain flow r' where u: "rtp_update (libMarshalSize lib) now (Header p) (int (length (Payload p)))
      (uint (PaddingSize p)) t r = Some (flow, r')" "stats_ok r'"
    using stats_update_ok [OF r(2)] by blast
  then show ?thesis
    using assms r by (cases "bNacker b") (simp_all add: update_stream_state_def Let_def del: option_bind_eq_Some)
qed

lemma process_twcc_ok:
  assumes "lib_ok lib" and "calc_ok b"
  shows "\<exists>b'. process_twcc lib p t b = Some b' \<and> calc_ok b'"
proof -
  have "\<exists>n. twcc_number ext = Some n" if e: "getExtension lib i h = Some ext" for i h ext
  proof -
    obtain x y where xy: "ext = (x, y)" by force
    then have "2 \<le> length (x @ y)" using assms(1) e by (simp add: lib_ok_def)
    then obtain a c zs where "x @ y = a # c # zs"
      by (cases "x @ y"; cases "tl (x @ y)") auto
    moreover from this have "length x + length y = length zs + 2"
      by (metis add_2_eq_Suc' length_Cons length_append)
    then have "2 \<le> int (length x) + int (length y)" by linarith
    ultimately show ?thesis by (simp add: twcc_number_def xy go_slice_def go_index_def numeral_2_eq_2)
  qed
  then show ?thesis
    using assms(2) by (auto simp: process_twcc_def split: option.split) fastforce
qed

lemma audio_duration_some: "c \<noteq> 0 \<Longrightarrow> \<exists>d. audio_duration ts latest c = Some d"
  by (simp add: audio_duration_def)

lemma process_audio_level_ok:
  assumes "calc_ok b"
  shows "\<exists>b'. process_audio_level lib p b = Some b' \<and> calc_ok b'"
proof (cases "bAudioLevelExt b = 0")
  case True
  then show ?thesis using assms by (simp add: process_audio_level_def)
next
  case False
  define ts where "ts = Timestamp (Header p)"
  define b1 where "b1 = (if \<not> bLatestTSInitialized b then b\<lparr>bLatestTSInitialized := True, bLatestTS := ts\<rparr> else b)"
  have ok: "calc_ok b1" using assms by (simp add: b1_def)
  have "bAudioLevel b1 = bAudioLevel b" "bClockRate b1 = bClockRate b" by (simp_all add: b1_def)
  then obtain l where l: "bAudioLevel b1 = Some l" and c: "bClockRate b1 \<noteq> 0"
    using assms False by (auto simp: calc_ok_def audio_ok_def)
  obtain d where d: "audio_duration ts (bLatestTS b1) (bClockRate b1) = Some d"
    using audio_duration_some [OF c] by blast
  have eq: "process_audio_level lib p b =
     (case getExtension lib (bAudioLevelExt b1) (Header p) of None \<Rightarrow> Some b1
      | Some (e, _) \<Rightarrow> (case unmarshalLevel lib e of None \<Rightarrow> Some b1
        | Some level \<Rightarrow>
            if ts - bLatestTS b1 < 2 ^ 31 then
              Some ((if d > 0 then b1\<lparr>bAudioLevel := Some (audio_observe (libLog10 lib) (libPow lib) level
                (word_of_int d) l)\<rparr> else b1)\<lparr>bLatestTS := ts\<rparr>)
            else Some b1))"
    using False unfolding process_audio_level_def Let_def ts_def [symmetric] b1_def [symmetric]
    by (simp add: l d split: option.split prod.split)
  show ?thesis
    unfolding eq using ok calc_ok_audio [OF ok] by (auto split: option.split)
qed

lemma process_header_extensions_ok:
  assumes "lib_ok lib" and "calc_ok b"
  shows "\<exists>b'. process_header_extensions lib p t b = Some b' \<and> calc_ok b'"
  using process_twcc_ok [OF assms, of p t] process_audio_level_ok [of _ lib p]
  by (auto simp: process_header_extensions_def)

lemma do_nacks_ok: "calc_ok b \<Longrightarrow> calc_ok (do_nacks lib now b)"
  using calc_ok_r [of b] stats_calls_ok(2)
  by (auto simp: do_nacks_def Let_def rtcp_feedback_call_def buffer_call_def split: option.split prod.split)

lemma do_reports_ok:
  assumes "calc_ok b"
  shows "\<exists>b'. do_reports lib now t b = Some b' \<and> calc_ok b'"
proof -
  obtain r where r: "bStats b = Some r" "stats_ok r" using calc_ok_r [OF assms] by blast
  obtain rr r' where u: "snapshot_rtcp_reception_report (envFrac (libStats lib)) (envJitter (libStats lib)) now now
      (bMediaSSRC b) (bLastFractionLost b) (bRrSnapshotId b) r = Some (rr, r')" "stats_ok r'"
    using stats_reception_ok [OF r(2)] by blast
  show ?thesis
    using assms r u by (simp add: do_reports_def get_rtcp_def del: option_bind_eq_Some)
qed

lemma get_ext_packet_ok:
  assumes "calc_ok b"
  shows "\<exists>ep b'. get_ext_packet now p t b = Some (ep, b') \<and> calc_ok b'"
proof -
  obtain r where r: "bStats b = Some r" "stats_ok r" using calc_ok_r [OF assms] by blast
  have key: "calc_ok (b\<lparr>bStats := map_option (update_key_frame now 1) (bStats b)\<rparr>)"
    using assms r stats_calls_ok(1) [OF r(2)] by simp
  obtain k where k: "detect_keyframe (bMime b) (Payload p) = Some k"
    using is_h264_keyframe_total [of "Payload p"] assms
    by (cases "bMime b = ''video/h264''") (auto simp: detect_keyframe_def calc_ok_def)
  show ?thesis
  proof (cases "bMime b = ''video/vp8''")
    case True
    then show ?thesis
      using key assms vp8_unmarshal_total [of vp8_zero "Some (Payload p)"]
      by (auto simp: get_ext_packet_def Let_def split: go_res.split)
  next
    case False
    then show ?thesis using key assms k by (auto simp: get_ext_packet_def Let_def)
  qed
qed

lemma do_fps_calc_ok:
  assumes "calc_ok b"
  shows "\<exists>b'. do_fps_calc ep b = Some b' \<and> calc_ok b'"
proof -
  let ?frs = "bFrameRateCalculator b"
  have frs: "length ?frs = 3" "list_all (\<lambda>fr. case fr of None \<Rightarrow> True | Some f \<Rightarrow> fps_inv f) ?frs"
    using assms by (simp_all add: calc_ok_def fps_list_ok_def)
  define sp where "sp = (if Spatial (Layer ep) < 0 \<or> Spatial (Layer ep) \<ge> int (length ?frs) then 0 else Spatial (Layer ep))"
  have sp: "0 \<le> sp" "sp < 3" "nat sp < 3" using frs(1) by (auto simp: sp_def)
  have i: "go_index ?frs sp = Some (?frs ! nat sp)" and u: "go_update ?frs sp x = Some (?frs[nat sp := x])" for x
    using sp frs(1) by (simp_all add: go_index_def go_update_def)
  show ?thesis
  proof (cases "bPaused b \<or> bFrameRateCalculated b \<or> Payload (Packet ep) = [] \<or> ?frs ! nat sp = None")
    case True
    then show ?thesis
      using assms unfolding do_fps_calc_def Let_def sp_def [symmetric] by (auto simp: i)
  next
    case False
    then obtain f where f: "?frs ! nat sp = Some f" by auto
    then have "fps_inv f" using frs sp(3) by (auto simp: list_all_length)
    then obtain r f' where rf: "fps_recv_packet ep f = Some (r, f')" "fps_inv f'"
      using fps_recv_packet_inv by blast
    let ?frs' = "?frs[nat sp := Some f']"
    have "fps_list_ok ?frs'" using frs rf(2) by (simp add: fps_list_ok_def list_all_update)
    from calc_ok_fps [OF assms this] show ?thesis
      using False unfolding do_fps_calc_def Let_def sp_def [symmetric]
      by (simp add: i u f rf buffer_call_def del: option_bind_eq_Some)
  qed
qed

lemma buffer_calc_ok:
  assumes lib: "lib_ok lib" and ok: "calc_ok b"
  shows "\<exists>b'. buffer_calc lib now pkt t b = Some b' \<and> calc_ok b'"
proof -
  obtain bk where bk: "bBucket b = Some bk" using ok by (auto simp: calc_ok_def)
  obtain r bk' where a: "addPacket lib pkt bk = (r, bk')" by force
  have ok1: "calc_ok (b\<lparr>bBucket := Some bk'\<rparr>)" using ok by simp
  show ?thesis
  proof (cases r)
    case (Inl e)
    show ?thesis
    proof (cases "rtpUnmarshal lib pkt")
      case None
      then show ?thesis using Inl bk a ok1 by (simp add: buffer_calc_def)
    next
      case (Some p)
      obtain b2 where 2: "update_stream_state lib now p t (b\<lparr>bBucket := Some bk'\<rparr>) = Some b2" "calc_ok b2"
        using update_stream_state_ok [OF ok1] by blast
      show ?thesis
        using Inl bk a Some 2 process_header_extensions_ok [OF lib 2(2), of p t]
        by (simp add: buffer_calc_def)
    qed
  next
    case (Inr buf)
    show ?thesis
    proof (cases "rtpUnmarshal lib buf")
      case None
      then show ?thesis using Inr bk a ok1 by (simp add: buffer_calc_def)
    next
      case (Some p)
      obtain b2 where 2: "update_stream_state lib now p t (b\<lparr>bBucket := Some bk'\<rparr>) = Some b2" "calc_ok b2"
        using update_stream_state_ok [OF ok1] by blast
      obtain b3 where 3: "process_header_extensions lib p t b2 = Some b3" "calc_ok b3"
        using process_header_extensions_ok [OF lib 2(2)] by blast
      obtain b4 where 4: "do_reports lib now t (do_nacks lib now b3) = Some b4" "calc_ok b4"
        using do_reports_ok [OF do_nacks_ok [OF 3(2)]] by blast
      obtain ep b5 where 5: "get_ext_packet now p t b4 = Some (ep, b5)" "calc_ok b5"
        using get_ext_packet_ok [OF 4(2)] by blast
      have "\<exists>b'. (case ep of None \<Rightarrow> Some b5
          | Some ep \<Rightarrow> do_fps_calc ep (b5\<lparr>bExtPackets := bExtPackets b5 @ [ep]\<rparr>)) = Some b' \<and> calc_ok b'"
        using 5(2) do_fps_calc_ok [of "b5\<lparr>bExtPackets := bExtPackets b5 @ [e]\<rparr>" e for e] by (cases ep) simp_all
      then show ?thesis
        using Inr bk a Some 2 3 4 5 by (simp add: buffer_calc_def del: option_bind_eq_Some)
    qed
  qed
qed

section \<open>The other operations\<close>

lemma get_packet_ok: "calc_ok b \<Longrightarrow> \<exists>r. get_packet lib cap sn b = Some r"
  by (auto simp: get_packet_def calc_ok_def)

lemma patch_ext_packet_ok:
  assumes "lib_ok lib" and "calc_ok b"
  shows "\<exists>r. patch_ext_packet lib cap ep b = Some r"
proof -
  obtain r where r: "get_packet lib cap (SequenceNumber (Header (Packet ep))) b = Some r"
    using get_packet_ok [OF assms(2)] by blast
  have "0 \<le> libMarshalSize lib (Header (Packet ep))" using assms(1) by (simp add: lib_ok_def)
  then show ?thesis
    by (cases r) (simp_all add: patch_ext_packet_def r go_slice_def Let_def del: option_bind_eq_Some)
qed

lemma read_extended_from_ok:
  assumes "lib_ok lib" and "calc_ok b"
  shows "\<exists>r b'. read_extended_from lib cap eps b = Some (r, b') \<and> calc_ok b' \<and> bBound b' = bBound b"
proof (induction eps)
  case Nil
  then show ?case using assms by simp
next
  case (Cons ep eps)
  obtain r where "patch_ext_packet lib cap ep b = Some r" using patch_ext_packet_ok [OF assms] by blast
  then show ?case using Cons assms(2) by (cases r) simp_all
qed

lemma buffer_read_ok:
  fixes b :: "('bk, 'nq, 'tw) buffer"
  assumes "0 \<le> bLastPacketRead b"
  shows "\<exists>r n. buffer_read cap b = Some (r, b\<lparr>bLastPacketRead := n\<rparr>) \<and> 0 \<le> n"
proof -
  have same: "\<exists>n. (Some (r, b) :: ((read_error + u8 list) poll \<times> ('bk, 'nq, 'tw) buffer) option)
      = Some (r, b\<lparr>bLastPacketRead := n\<rparr>) \<and> 0 \<le> n" for r
    using assms by (intro exI [of _ "bLastPacketRead b"]) simp
  show ?thesis
  proof (cases "bClosed b \<or> \<not> int (length (bPPackets b)) > bLastPacketRead b")
    case True
    then have "buffer_read cap b = Some (if bClosed b then Return (Inl EOF) else Wait, b)"
      by (auto simp: buffer_read_def)
    then show ?thesis using same by metis
  next
    case False
    then have idx: "go_index (bPPackets b) (bLastPacketRead b) = Some (bPPackets b ! nat (bLastPacketRead b))"
      using assms by (simp add: go_index_def)
    show ?thesis
    proof (cases "cap < int (length (ppPacket (bPPackets b ! nat (bLastPacketRead b))))")
      case True
      then have "buffer_read cap b = Some (Return (Inl (BucketError ErrBufferTooSmall)), b)"
        using False idx by (simp add: buffer_read_def)
      then show ?thesis using same by metis
    next
      case small: False
      have "buffer_read cap b = Some (Return (Inr (ppPacket (bPPackets b ! nat (bLastPacketRead b)))),
          b\<lparr>bLastPacketRead := bLastPacketRead b + 1\<rparr>)"
        using False small idx by (simp add: buffer_read_def)
      moreover have "0 \<le> bLastPacketRead b + 1" using assms by simp
      ultimately show ?thesis by blast
    qed
  qed
qed

lemma buffer_close_ok: "calc_ok b \<Longrightarrow> calc_ok (buffer_close now b)"
  using calc_ok_r [of b] stats_calls_ok(3)
  by (auto simp: buffer_close_def Let_def buffer_call_def)

lemma send_pli_ok:
  assumes "calc_ok b"
  shows "\<exists>b'. send_pli force now b = Some b' \<and> calc_ok b' \<and> bBound b' = bBound b \<and>
    bLastPacketRead b' = bLastPacketRead b \<and> bPPackets b' = bPPackets b"
proof -
  obtain r where "bStats b = Some r" "stats_ok r" using calc_ok_r [OF assms] by blast
  then show ?thesis
    using assms stats_calls_ok(4)
    by (simp add: send_pli_def rtcp_feedback_call_def buffer_call_def)
qed

section \<open>Binding does not panic\<close>

definition buffer_unbound :: "('bk, 'nq, 'tw) buffer \<Rightarrow> bool" where
  "buffer_unbound b \<longleftrightarrow> \<not> bBound b \<and> 0 \<le> bLastPacketRead b \<and> bStats b = None \<and> bNacker b = None \<and>
     bBucket b = None \<and> bAudioLevelExt b = 0 \<and> bFrameRateCalculator b = [None, None, None] \<and>
     bExtPackets b = []"

definition buffer_bound :: "('bk, 'nq, 'tw) buffer \<Rightarrow> bool" where
  "buffer_bound b \<longleftrightarrow> bBound b \<and> 0 \<le> bLastPacketRead b \<and> bPPackets b = [] \<and> calc_ok b"

text \<open>
  The parameters that \<open>Bind\<close> can work with: an audio or video codec that is not AV1, a clock rate
  where the audio level is measured, and no negative acknowledgements of \<^verbatim>\<open>audio/red\<close>.
\<close>

definition bind_ok :: "('bk, 'nq, 'tw) media_lib \<Rightarrow> rtp_parameters \<Rightarrow> bool" where
  "bind_ok lib prm \<longleftrightarrow> (case Codecs prm of [] \<Rightarrow> False
     | codec # _ \<Rightarrow>
         let cap = CodecCapability codec; mime = to_lower (MimeType cap) in
         (has_prefix mime ''audio/'' \<or> has_prefix mime ''video/'') \<and> mime \<noteq> ''video/av1'' \<and>
         (list_ex (\<lambda>ext. extURI ext = uriAudioLevel lib) (HeaderExtensions prm) \<longrightarrow> CodecClockRate cap \<noteq> 0) \<and>
         (equal_fold mime ''audio/red'' \<longrightarrow> \<not> list_ex (\<lambda>fb. fbType fb = fbNACK lib) (RTCPFeedback cap)))"

lemma bind_header_extensions_fields:
  "\<exists>e l. fold (bind_header_extension lib) exts b = b\<lparr>bAudioLevelExt := e, bAudioLevel := l\<rparr> \<and>
     (e \<noteq> 0 \<longrightarrow> (l \<noteq> None \<and> list_ex (\<lambda>ext. extURI ext = uriAudioLevel lib) exts) \<or> (e = bAudioLevelExt b \<and> l = bAudioLevel b))"
proof (induction exts arbitrary: b)
  case Nil
  show ?case by (intro exI [of _ "bAudioLevelExt b"] exI [of _ "bAudioLevel b"]) simp
next
  case (Cons x xs)
  let ?b = "bind_header_extension lib x b"
  from Cons.IH [of ?b] obtain e l where
    el: "fold (bind_header_extension lib) xs ?b = ?b\<lparr>bAudioLevelExt := e, bAudioLevel := l\<rparr>"
      "e \<noteq> 0 \<longrightarrow> (l \<noteq> None \<and> list_ex (\<lambda>ext. extURI ext = uriAudioLevel lib) xs) \<or> (e = bAudioLevelExt ?b \<and> l = bAudioLevel ?b)"
    by blast
  have "?b\<lparr>bAudioLevelExt := e, bAudioLevel := l\<rparr> = b\<lparr>bAudioLevelExt := e, bAudioLevel := l\<rparr>"
    by (simp add: bind_header_extension_def)
  then have "fold (bind_header_extension lib) (x # xs) b = b\<lparr>bAudioLevelExt := e, bAudioLevel := l\<rparr>"
    using el(1) by simp
  moreover have "(e \<noteq> 0 \<longrightarrow> (l \<noteq> None \<and> list_ex (\<lambda>ext. extURI ext = uriAudioLevel lib) (x # xs)) \<or>
      (e = bAudioLevelExt b \<and> l = bAudioLevel b))"
    using el(2) by (cases "extURI x = uriAudioLevel lib") (auto simp: bind_header_extension_def)
  ultimately show ?case by blast
qed

lemma bind_feedback_ok:
  assumes "calc_ok b" and "equal_fold (bMime b) ''audio/red'' \<longrightarrow> \<not> list_ex (\<lambda>fb. fbType fb = fbNACK lib) fbs"
  shows "\<exists>b'. bind_feedback lib exts fbs b = (False, b') \<and> calc_ok b'"
  using assms
proof (induction fbs arbitrary: b)
  case (Cons fb fbs)
  have "calc_ok (b\<lparr>bTwccExt := e\<rparr>)" for e using Cons.prems(1) by (simp add: calc_ok_def has_stats_def audio_ok_def)
  then show ?case using Cons by (auto simp: Let_def split: option.split)
qed simp

lemma bind_codec_ok:
  assumes "bFrameRateCalculator b = [None, None, None]" and "has_stats b" and "audio_ok b"
    and "has_prefix (bMime b) ''audio/'' \<or> has_prefix (bMime b) ''video/''" and "bMime b \<noteq> ''video/av1''"
  shows "\<exists>b'. bind_codec lib codec b = Some b' \<and> calc_ok b' \<and> bMime b' = bMime b"
  using assms new_fps_inv
  by (auto simp: bind_codec_def Let_def go_index_def go_update_def calc_ok_def has_stats_def audio_ok_def fps_list_ok_def)

lemma bind_params_ok:
  assumes "buffer_unbound b" and "bind_ok lib prm"
  shows "\<exists>b'. bind_params lib now prm b = Some (False, b') \<and> calc_ok b'"
proof -
  obtain codec rest where codec: "Codecs prm = codec # rest"
    using assms(2) by (auto simp: bind_ok_def split: list.splits)
  let ?cap = "CodecCapability codec"
  let ?clock = "CodecClockRate ?cap"
  obtain i r1 where 1: "new_snapshot_id now (new_rtp_stats \<lparr>ClockRate = ?clock, IsReceiverReportDriven = False\<rparr>) = (i, r1)"
    by force
  obtain j r2 where 2: "new_snapshot_id now r1 = (j, r2)" by force
  have ok: "stats_ok r2"
    using stats_calls_ok(6) [OF stats_calls_ok(6) [OF stats_ok_new]] 1 2 by (metis snd_conv)
  define b1 where "b1 = b\<lparr>bStats := Some r2, bRrSnapshotId := i, bDeltaStatsSnapshotId := j,
       bClockRate := ?clock, bLastReport := unix_nano now, bMime := to_lower (MimeType ?cap)\<rparr>"
  define b2 where "b2 = fold (bind_header_extension lib) (HeaderExtensions prm) b1"
  obtain e l where "b2 = b1\<lparr>bAudioLevelExt := e, bAudioLevel := l\<rparr>"
     "e \<noteq> 0 \<longrightarrow> (l \<noteq> None \<and> list_ex (\<lambda>ext. extURI ext = uriAudioLevel lib) (HeaderExtensions prm)) \<or> (e = bAudioLevelExt b1 \<and> l = bAudioLevel b1)"
    using bind_header_extensions_fields unfolding b2_def by blast
  then have "bFrameRateCalculator b2 = [None, None, None]" "has_stats b2" "audio_ok b2" "bMime b2 = to_lower (MimeType ?cap)"
    using assms ok by (auto simp: b1_def buffer_unbound_def has_stats_def audio_ok_def bind_ok_def codec Let_def)
  then obtain b3 where b3: "bind_codec lib codec b2 = Some b3" "calc_ok b3" "bMime b3 = to_lower (MimeType ?cap)"
    using bind_codec_ok [of b2 lib codec] assms(2) by (auto simp: bind_ok_def codec Let_def)
  then obtain b4 where "bind_feedback lib (HeaderExtensions prm) (RTCPFeedback ?cap) b3 = (False, b4)" "calc_ok b4"
    using bind_feedback_ok [of b3 lib "RTCPFeedback ?cap"] assms(2) by (auto simp: bind_ok_def codec Let_def)
  then show ?thesis
    using b3 by (simp add: bind_params_def codec go_index_def 1 2 Let_def flip: b1_def b2_def)
qed

lemma calc_frame:
  assumes "buffer_calc lib now pkt t b = Some b'"
  shows "bPPackets b' = bPPackets b" "bBound b' = bBound b" "bLastPacketRead b' = bLastPacketRead b"
proof -
  let ?q = "with_queue (bPPackets b) (bLastPacketRead b) (bBound b)"
  have "buffer_calc lib now pkt t b = map_option ?q (buffer_calc lib now pkt t b)"
    using buffer_calc_queue [of lib now pkt t "bPPackets b" "bLastPacketRead b" "bBound b" b] by simp
  then have "b' = ?q b'" unfolding assms by simp
  then show "bPPackets b' = bPPackets b" "bBound b' = bBound b" "bLastPacketRead b' = bLastPacketRead b"
    using with_queue_sel by metis+
qed

lemma run_calc_ok:
  assumes "lib_ok lib" and "calc_ok b"
  shows "\<exists>b'. run_panic (calc_pending lib now) pps b = Some b' \<and> calc_ok b' \<and> bLastPacketRead b' = bLastPacketRead b"
  using assms(2)
proof (induction pps arbitrary: b)
  case (Cons pp pps)
  obtain b1 where 1: "calc_pending lib now pp b = Some b1" "calc_ok b1"
    using buffer_calc_ok [OF assms(1) Cons.prems] unfolding calc_pending_def by blast
  moreover have "bLastPacketRead b1 = bLastPacketRead b" using 1(1) calc_frame(3) by (auto simp: calc_pending_def)
  ultimately show ?case using Cons.IH [OF 1(2)] by simp
qed simp

lemma buffer_bind_ok:
  assumes "lib_ok lib" and "buffer_unbound b" and "bind_ok lib prm"
  shows "\<exists>b'. buffer_bind lib now prm b = Some b' \<and> buffer_bound b'"
proof -
  obtain b1 where 1: "bind_params lib now prm b = Some (False, b1)" "calc_ok b1"
    using bind_params_ok [OF assms(2,3)] by blast
  let ?q = "with_queue (bPPackets b) (bLastPacketRead b) (bBound b)"
  have "bind_params lib now prm b = map_option (map_prod id ?q) (bind_params lib now prm b)"
    using bind_params_queue [of lib now prm "bPPackets b" "bLastPacketRead b" "bBound b" b] by simp
  then have "b1 = ?q b1" unfolding 1 by simp
  then have n: "bLastPacketRead b1 = bLastPacketRead b" using with_queue_sel by metis
  obtain b2 where "run_panic (calc_pending lib now) (bPPackets b1) b1 = Some b2" "calc_ok b2"
      "bLastPacketRead b2 = bLastPacketRead b1"
    using run_calc_ok [OF assms(1) 1(2)] by blast
  then show ?thesis
    using 1 assms(2) n by (simp add: buffer_bind_def buffer_unbound_def buffer_bound_def)
qed

section \<open>Every operation\<close>

datatype 'tw buffer_event =
    EvWrite gotime "u8 list"
  | EvRead int
  | EvReadExtended int
  | EvGetPacket int u16
  | EvSendPLI bool gotime
  | EvSetRTT u32
  | EvSenderReport gotime u32 u64
  | EvDeltaStats gotime
  | EvLayerFps int
  | EvSetPaused bool
  | EvSetTWCC "'tw option"
  | EvAudioParams audio_level_params
  | EvPliThrottle int
  | EvFractionLost u8
  | EvCallbacks
  | EvBind gotime rtp_parameters
  | EvClose gotime

fun buffer_step ::
  "('bk, 'nq, 'tw) media_lib \<Rightarrow> 'tw buffer_event \<Rightarrow> ('bk, 'nq, 'tw) buffer \<Rightarrow> ('bk, 'nq, 'tw) buffer option"
where
  "buffer_step lib (EvWrite now pkt) b = map_option snd (buffer_write lib now pkt b)"
| "buffer_step lib (EvRead cap) b = map_option snd (buffer_read cap b)"
| "buffer_step lib (EvReadExtended cap) b = map_option snd (read_extended lib cap b)"
| "buffer_step lib (EvGetPacket cap sn) b = map_option (\<lambda>_. b) (get_packet lib cap sn b)"
| "buffer_step lib (EvSendPLI force now) b = send_pli force now b"
| "buffer_step lib (EvSetRTT v) b = Some (buffer_set_rtt lib v b)"
| "buffer_step lib (EvSenderReport now ts ntp) b = Some (set_sender_report_data lib now ts ntp b)"
| "buffer_step lib (EvDeltaStats now) b = map_option snd (get_delta_stats now b)"
| "buffer_step lib (EvLayerFps l) b = map_option (\<lambda>_. b) (temporal_layer_fps l b)"
| "buffer_step lib (EvSetPaused x) b = Some (set_paused x b)"
| "buffer_step lib (EvSetTWCC tw) b = Some (set_twcc tw b)"
| "buffer_step lib (EvAudioParams ap) b = Some (set_audio_level_params ap b)"
| "buffer_step lib (EvPliThrottle d) b = Some (set_pli_throttle d b)"
| "buffer_step lib (EvFractionLost u) b = Some (set_last_fraction_lost u b)"
| "buffer_step lib EvCallbacks b = Some (on_fps_changed (on_rtcp_sender_report (on_rtcp_feedback (on_close b))))"
| "buffer_step lib (EvBind now prm) b = buffer_bind lib now prm b"
| "buffer_step lib (EvClose now) b = Some (buffer_close now b)"

text \<open>What may be called before \<open>Bind\<close>, and after it.\<close>

fun early_ok :: "'tw buffer_event \<Rightarrow> bool" where
  "early_ok (EvGetPacket cap sn) = False"
| "early_ok (EvSendPLI force now) = (\<not> force)"
| "early_ok (EvLayerFps l) = (0 \<le> l)"
| "early_ok (EvBind now prm) = False"
| "early_ok e = True"

fun bound_event_ok :: "'tw buffer_event \<Rightarrow> bool" where
  "bound_event_ok (EvLayerFps l) = (0 \<le> l)"
| "bound_event_ok e = True"

lemmas buffer_settings = set_paused_def set_twcc_def set_audio_level_params_def set_pli_throttle_def
  set_last_fraction_lost_def on_fps_changed_def on_rtcp_sender_report_def on_rtcp_feedback_def on_close_def

lemma early_step_ok:
  assumes "buffer_unbound b" and "early_ok e"
  shows "\<exists>b'. buffer_step lib e b = Some b' \<and> buffer_unbound b'"
proof (cases e)
  case (EvRead cap)
  have "0 \<le> bLastPacketRead b" using assms(1) by (simp add: buffer_unbound_def)
  then show ?thesis using buffer_read_ok [of b cap] assms(1) EvRead by (auto simp: buffer_unbound_def)
next
  case (EvWrite now pkt)
  then show ?thesis using assms by (simp add: buffer_write_def buffer_unbound_def)
next
  case (EvReadExtended cap)
  then show ?thesis using assms by (simp add: read_extended_def buffer_unbound_def)
next
  case (EvClose now)
  then show ?thesis using assms by (simp add: buffer_close_def buffer_unbound_def buffer_call_def Let_def)
qed (use assms in \<open>auto simp: buffer_unbound_def send_pli_def buffer_set_rtt_def set_sender_report_data_def
    get_delta_stats_def temporal_layer_fps_def go_index_def buffer_call_def buffer_settings Let_def\<close>)

lemma bound_fields [simp]:
  "buffer_bound (b\<lparr>bClosed := x1\<rparr>) = buffer_bound b" "buffer_bound (b\<lparr>bPaused := x1\<rparr>) = buffer_bound b"
  "buffer_bound (b\<lparr>bTwcc := x2\<rparr>) = buffer_bound b" "buffer_bound (b\<lparr>bAudioLevelParams := x3\<rparr>) = buffer_bound b"
  "buffer_bound (b\<lparr>bPliThrottle := x4\<rparr>) = buffer_bound b" "buffer_bound (b\<lparr>bLastFractionLost := x5\<rparr>) = buffer_bound b"
  "buffer_bound (b\<lparr>bHasClose := x1\<rparr>) = buffer_bound b" "buffer_bound (b\<lparr>bHasRtcpFeedback := x1\<rparr>) = buffer_bound b"
  "buffer_bound (b\<lparr>bHasSenderReport := x1\<rparr>) = buffer_bound b" "buffer_bound (b\<lparr>bHasFpsChanged := x1\<rparr>) = buffer_bound b"
  "buffer_bound (b\<lparr>bCalls := x6\<rparr>) = buffer_bound b" "buffer_bound (b\<lparr>bNacker := x7\<rparr>) = buffer_bound b"
  by (simp_all add: buffer_bound_def)

lemma bound_calc: "buffer_bound b \<Longrightarrow> calc_ok b"
  by (simp add: buffer_bound_def)

lemma bound_stats: "buffer_bound b \<Longrightarrow> stats_ok r \<Longrightarrow> buffer_bound (b\<lparr>bStats := Some r\<rparr>)"
  by (simp add: buffer_bound_def)

lemma bound_rtt_report:
  assumes "buffer_bound b"
  shows "buffer_bound (buffer_set_rtt lib v b)" "buffer_bound (set_sender_report_data lib now ts ntp b)"
    "\<exists>d b'. get_delta_stats now b = Some (d, b') \<and> buffer_bound b'"
proof -
  obtain r where r: "bStats b = Some r" "stats_ok r" using calc_ok_r [OF bound_calc [OF assms]] by blast
  show "buffer_bound (buffer_set_rtt lib v b)"
    using assms r stats_calls_ok(5) [OF r(2), of v] by (simp add: buffer_set_rtt_def buffer_bound_def)
  show "buffer_bound (set_sender_report_data lib now ts ntp b)"
    using bound_stats [OF assms sender_report_data_ok [OF r(2)]] r(1)
    by (simp add: set_sender_report_data_def buffer_call_def Let_def)
  obtain d r' where "rtp_delta_info now (bDeltaStatsSnapshotId b) r = Some (d, r')" "stats_ok r'"
    using stats_delta_ok [OF r(2)] by blast
  then show "\<exists>d b'. get_delta_stats now b = Some (d, b') \<and> buffer_bound b'"
    using bound_stats [OF assms] r(1) by (simp add: get_delta_stats_def)
qed

lemma bound_write:
  assumes "lib_ok lib" and "buffer_bound b"
  shows "\<exists>r b'. buffer_write lib now pkt b = Some (r, b') \<and> buffer_bound b'"
proof -
  obtain b' where "buffer_calc lib now pkt (unix_nano now) b = Some b'" "calc_ok b'"
    using buffer_calc_ok [OF assms(1) bound_calc [OF assms(2)]] by blast
  then show ?thesis
    using calc_frame [of lib now pkt "unix_nano now" b b'] assms(2)
    by (simp add: buffer_write_def buffer_bound_def)
qed

lemma bound_read_extended:
  assumes "lib_ok lib" and "buffer_bound b"
  shows "\<exists>r b'. read_extended lib cap b = Some (r, b') \<and> buffer_bound b'"
proof -
  have "\<exists>r q. read_extended_from lib cap eps b = Some (r, b\<lparr>bExtPackets := q\<rparr>)" for eps
  proof (induction eps)
    case (Cons ep eps)
    obtain r where "patch_ext_packet lib cap ep b = Some r"
      using patch_ext_packet_ok [OF assms(1) bound_calc [OF assms(2)]] by blast
    then show ?case using Cons by (cases r) auto
  qed auto
  moreover have "buffer_bound (b\<lparr>bExtPackets := q\<rparr>)" for q using assms(2) by (simp add: buffer_bound_def)
  moreover have "\<exists>r. read_extended lib cap b = Some (r, b)" if "bClosed b"
    using that by (simp add: read_extended_def)
  ultimately show ?thesis using assms(2) unfolding read_extended_def by metis
qed

lemma bound_step_ok:
  assumes "lib_ok lib" and "buffer_bound b" and "bound_event_ok e"
  shows "\<exists>b'. buffer_step lib e b = Some b' \<and> buffer_bound b'"
proof (cases e)
  case (EvRead cap)
  have "0 \<le> bLastPacketRead b" using assms(2) by (simp add: buffer_bound_def)
  then show ?thesis using buffer_read_ok [of b cap] assms(2) EvRead by (auto simp: buffer_bound_def)
next
  case (EvWrite now pkt)
  then show ?thesis using bound_write [OF assms(1,2), of now pkt] by auto
next
  case (EvReadExtended cap)
  then show ?thesis using bound_read_extended [OF assms(1,2), of cap] by auto
next
  case (EvGetPacket cap sn)
  then show ?thesis using get_packet_ok [OF bound_calc [OF assms(2)], of lib cap sn] assms(2) by auto
next
  case (EvSendPLI force now)
  obtain b' where "send_pli force now b = Some b'" "calc_ok b'" "bBound b' = bBound b"
      "bLastPacketRead b' = bLastPacketRead b" "bPPackets b' = bPPackets b"
    using send_pli_ok [OF bound_calc [OF assms(2)]] by blast
  then show ?thesis using assms(2) EvSendPLI by (simp add: buffer_bound_def)
next
  case (EvSetRTT v)
  then show ?thesis using bound_rtt_report(1) [OF assms(2)] by simp
next
  case (EvSenderReport now ts ntp)
  then show ?thesis using bound_rtt_report(2) [OF assms(2)] by simp
next
  case (EvDeltaStats now)
  then show ?thesis using bound_rtt_report(3) [OF assms(2), of now] by auto
next
  case (EvClose now)
  then show ?thesis
    using buffer_close_ok [OF bound_calc [OF assms(2)], of now] assms(2)
    by (auto simp: buffer_bound_def buffer_close_def Let_def buffer_call_def)
next
  case (EvLayerFps l)
  then show ?thesis
    using assms by (auto simp: temporal_layer_fps_def go_index_def buffer_bound_def calc_ok_def fps_list_ok_def)
qed (use assms in \<open>auto simp: buffer_bind_def buffer_bound_def buffer_settings\<close>)

lemma new_buffer_unbound: "buffer_unbound (new_buffer ssrc)"
  by (simp add: buffer_unbound_def new_buffer_def)

text \<open>Before \<open>Bind\<close> and after it, the buffer is a component that does not panic.\<close>

interpretation unbound_buffer: panic_free "buffer_step lib" early_ok buffer_unbound for lib
  by unfold_locales (rule early_step_ok)

interpretation bound_buffer: panic_free "buffer_step lib" "\<lambda>e. lib_ok lib \<and> bound_event_ok e" buffer_bound for lib
  by unfold_locales (auto intro: bound_step_ok)


section \<open>Witnesses\<close>

text \<open>
  Packages to evaluate with: a bucket and a queue of lost numbers that are lists, packets with a
  header of twelve bytes.
\<close>

definition sample_unmarshal :: "u8 list \<Rightarrow> rtp_packet option" where
  "sample_unmarshal pkt =
     (if length pkt < 12 then None
      else Some \<lparr>Header = rtp_header_zero\<lparr>Version := 2, PayloadType := pkt ! 1,
          SequenceNumber := ucast (pkt ! 2) * 256 + ucast (pkt ! 3), Timestamp := ucast (pkt ! 7)\<rparr>,
        Payload = drop 12 pkt, PaddingSize = 0\<rparr>)"

definition sample_lib :: "(u8 list list, u16 list, u16 list) media_lib" where
  "sample_lib = \<lparr>libStats = \<lparr>envMarshalSize = \<lambda>_. 12, envGetRtt = \<lambda>_. (20, True), envNtpTime = \<lambda>_. 0,
       envFrac = \<lambda>_. 0, envJitter = \<lambda>_. 0\<rparr>,
     newBucket = \<lambda>_. [], addPacket = \<lambda>pkt bk. (Inr pkt, pkt # bk),
     bucketGet = \<lambda>cap sn bk. (case find (\<lambda>pkt. map_option (SequenceNumber \<circ> Header) (sample_unmarshal pkt) = Some sn) bk of
       None \<Rightarrow> Inl ErrOtherBucket
     | Some pkt \<Rightarrow> if cap < int (length pkt) then Inl ErrBufferTooSmall else Inr pkt),
     newNackQueue = [], nackRemove = removeAll, nackPush = \<lambda>sn q. q @ [sn],
     nackPairs = \<lambda>now q. ((map (\<lambda>sn. \<lparr>PacketID = sn, LostPackets = 0\<rparr>) q, int (length q)), q),
     nackSetRTT = \<lambda>v q. q, twccPush = \<lambda>n t marker tw. tw @ [n], rtpUnmarshal = sample_unmarshal,
     getExtension = \<lambda>i h. None, unmarshalLevel = \<lambda>e. None, libLog10 = \<lambda>x. x, libPow = \<lambda>x y. y,
     uriAudioLevel = ''urn:ietf:params:rtp-hdrext:ssrc-audio-level'',
     uriTransportCC = ''http://www.ietf.org/id/draft-holmer-rmcat-transport-wide-cc-extensions-01'',
     fbTransportCC = ''transport-cc'', fbNACK = ''nack'', mimeTypeVP8 = ''video/VP8''\<rparr>"

definition sample_prm :: rtp_parameters where
  "sample_prm = \<lparr>HeaderExtensions = [],
     Codecs = [\<lparr>CodecCapability = \<lparr>MimeType = ''video/H264'', CodecClockRate = 90000, CodecChannels = 0,
       SDPFmtpLine = [], RTCPFeedback = [\<lparr>fbType = ''nack'', fbParameter = []\<rparr>]\<rparr>,
     CodecPayloadType = 102\<rparr>]\<rparr>"

definition sample_pkt :: "u8 \<Rightarrow> u8 list" where
  "sample_pkt sn = [128, 102, 0, sn, 0, 0, 0, sn, 0, 0, 0, 1, 7]"

lemma sample_lib_ok: "lib_ok sample_lib"
  by (simp add: lib_ok_def sample_lib_def)

lemma sample_bind_ok: "bind_ok sample_lib sample_prm"
  by code_simp


theorem early_packets_replayed_witness:
  "Option.bind (run_panic (write_at sample_lib) [(7, sample_pkt 1), (8, sample_pkt 3)] (new_buffer 5))
      (buffer_bind sample_lib 9 sample_prm) =
    Option.bind (buffer_bind sample_lib 9 sample_prm (new_buffer 5)) (\<lambda>b'.
      if bBound b' then run_panic (calc_pending sample_lib 9) (early [(7, sample_pkt 1), (8, sample_pkt 3)]) b'
      else Some (b'\<lparr>bPPackets := early [(7, sample_pkt 1), (8, sample_pkt 3)]\<rparr>))"
  by (rule early_packets_replayed) (simp_all add: new_buffer_def)

end
