(* ===== verification/BufferNacks.thy ===== *)
theory BufferNacks
  imports BufferSpec
begin

text \<open>
  What a buffer asks its sender for again: the numbers in its negative acknowledgements are missing
  in an abstract receiver that runs beside it.
\<close>

section \<open>The abstract receiver\<close>

text \<open>
  The highest number received, and the numbers skipped on the way to it that have not been received
  since.
\<close>

type_synonym missing = "(u16 \<times> u16 set) option"

fun missing_step :: "u16 \<Rightarrow> missing \<Rightarrow> missing" where
  "missing_step sn None = Some (sn, {})"
| "missing_step sn (Some (h, M)) =
     (if 0 < unat (sn - h) \<and> unat (sn - h) \<le> 2 ^ 15
      then Some (sn, M \<union> {n. 0 < unat (n - h) \<and> unat (n - h) < unat (sn - h)} - {sn})
      else Some (h, M - {sn}))"

definition missing_set :: "missing \<Rightarrow> u16 set" where
  "missing_set g = (case g of None \<Rightarrow> {} | Some (h, M) \<Rightarrow> M)"

lemma missing_step_keeps: "missing_set g - {sn} \<subseteq> missing_set (missing_step sn g)"
proof (cases g)
  case (Some p)
  obtain h M where p: "p = (h, M)" by force
  have "missing_set (missing_step sn (Some (h, M))) =
      (if 0 < unat (sn - h) \<and> unat (sn - h) \<le> 2 ^ 15
       then M \<union> {n. 0 < unat (n - h) \<and> unat (n - h) < unat (sn - h)} - {sn} else M - {sn})"
    by (simp add: missing_set_def del: unat_gt_0)
  then show ?thesis unfolding Some p by (auto simp: missing_set_def)
qed (simp add: missing_set_def)

lemma missing_step_range:
  assumes "0 < unat (sn - h)" and "unat (sn - h) \<le> 2 ^ 15"
  shows "{n. 0 < unat (n - h) \<and> unat (n - h) < unat (sn - h)} - {sn} \<subseteq> missing_set (missing_step sn (Some (h, M)))"
  unfolding missing_set_def missing_step.simps using assms by (simp del: unat_gt_0) blast

section \<open>The statistics follow it\<close>

definition stats_track :: "rtp_stats \<Rightarrow> missing \<Rightarrow> bool" where
  "stats_track r g \<longleftrightarrow> stats_inv r \<and> (case g of
     None \<Rightarrow> \<not> initialized r \<and> \<not> ended r \<and> \<not> resyncOnNextPacket r
   | Some (h, M) \<Rightarrow> receiving r \<and> highestSN r = h)"

lemma unat_minus1_16: "unat (- 1 :: u16) = 65535"
  by (simp add: unsigned_minus_1_eq_mask mask_eq_exp_minus_1)

lemma set_sn_range: "set (sn_range a b) = {n. unat (n - a) < unat (b - a)}"
proof (induction a b rule: sn_range.induct)
  case (1 a b)
  show ?case
  proof (cases "a = b")
    case True
    then show ?thesis by (simp add: sn_range.simps)
  next
    case False
    have d: "unat (b - (a + 1)) = unat (b - a) - 1" "0 < unat (b - a)"
      using False unat_minus_one [of "b - a"] unat_gt_0 [of "b - a"] by (simp_all add: diff_diff_eq)
    have "unat (n - (a + 1)) < unat (b - a) - 1 \<longleftrightarrow> n \<noteq> a \<and> unat (n - a) < unat (b - a)" for n
    proof (cases "n = a")
      case True
      then show ?thesis using unat_minus1_16 u16_bound [of "b - a"] by simp
    next
      case False
      then have "unat (n - (a + 1)) = unat (n - a) - 1" "0 < unat (n - a)"
        using unat_minus_one [of "n - a"] unat_gt_0 [of "n - a"] by (simp_all add: diff_diff_eq)
      then show ?thesis using False d by linarith
    qed
    then have step: "unat (n - (a + 1)) < unat (b - (a + 1)) \<longleftrightarrow> n \<noteq> a \<and> unat (n - a) < unat (b - a)" for n
      by (simp only: d(1))
    have "set (sn_range a b) = insert a (set (sn_range (a + 1) b))"
      using False by (subst sn_range.simps) simp
    also have "\<dots> = insert a {n. n \<noteq> a \<and> unat (n - a) < unat (b - a)}"
      unfolding 1 [OF False] step ..
    also have "\<dots> = {n. unat (n - a) < unat (b - a)}" using d(2) by (auto simp del: unat_sub_if')
    finally show ?thesis .
  qed
qed

lemma rx_ahead_dist: "rx_ahead sn a \<longleftrightarrow> (let d = unat (sn - ucast (rxExt a)) in 0 < d \<and> d \<le> 2 ^ 15)"
  by (auto simp: rx_ahead_def sn_behind_def Let_def word_less_nat_alt unat_gt_0 not_less)

lemma rtp_update_tracks:
  assumes "stats_track r g"
  shows "\<exists>flow r'. rtp_update ms now h payload pad t r = Some (flow, r') \<and>
    stats_track r' (missing_step (SequenceNumber h) g) \<and>
    (HasLoss flow \<longrightarrow> (\<exists>hd M. g = Some (hd, M) \<and> 0 < unat (SequenceNumber h - hd) \<and> unat (SequenceNumber h - hd) \<le> 2 ^ 15 \<and>
       LossStartInclusive flow = hd + 1 \<and> LossEndExclusive flow = SequenceNumber h))"
proof (cases g)
  case (Some p)
  obtain hd M where p: "p = (hd, M)" by force
  have inv: "stats_inv r" "receiving r" and hd: "highestSN r = hd" using assms Some p by (simp_all add: stats_track_def)
  let ?sn = "SequenceNumber h"
  obtain flow r' where u: "rtp_update ms now h payload pad t r = Some (flow, r')"
    and r': "stats_inv r'" "receiving r'" and abs: "abs_rx r' = rx_step ?sn (ucast (word_of_int (ms h) + word_of_int (payload + pad) :: u64)) (abs_rx r)"
    and flow: "flow = (if rx_ahead ?sn (abs_rx r) \<and> ?sn \<noteq> highestSN r + 1
      then \<lparr>HasLoss = True, LossStartInclusive = highestSN r + 1, LossEndExclusive = ?sn\<rparr> else no_flow)"
    using rtp_update_rx [OF inv] by blast
  have ext: "ucast (rxExt (abs_rx r)) = hd" using hd by (simp add: abs_rx_def)
  have "highestSN r' = ucast (rxExt (abs_rx r'))" by (simp add: abs_rx_def)
  also have "\<dots> = (if rx_ahead ?sn (abs_rx r) then ?sn else hd)"
    by (simp add: abs rx_step_def Let_def ext ucast_add_16 ucast_16_32_16)
  finally show ?thesis
    using u r' flow by (auto simp: stats_track_def Some p rx_ahead_dist ext hd no_flow_def Let_def)
next
  case None
  have r: "stats_inv r" "\<not> initialized r" "\<not> ended r" "\<not> resyncOnNextPacket r"
    using assms None by (simp_all add: stats_track_def)
  let ?sn = "SequenceNumber h"
  let ?hdr = "word_of_int (ms h) :: u64"
  let ?pkt = "?hdr + word_of_int (payload + pad)"
  obtain r1 where first: "update_first now h t r = (r1, True)"
    and r1: "initialized r1" "endTime r1 = endTime r" "\<not> resyncOnNextPacket r1"
      "highestSN r1 = ?sn - 1" "cycles r1 = 0" "ring_of r1 = ring_of r" "gapHistogram r1 = gapHistogram r"
    using r by (simp add: update_first_def ring_of_def)
  have inv1: "stats_inv r1" using r r1 by (simp add: stats_inv_def)
  have rec1: "receiving r1" using r r1 by (simp add: receiving_def)
  have sn: "?sn \<noteq> highestSN r1" "\<not> sn_behind (highestSN r1) ?sn" "?sn - highestSN r1 = 1"
    using r1 by (simp_all add: sn_behind_def)
  obtain r3 where a: "update_ahead h ?pkt ?hdr payload t True r1 = Some (no_flow, r3)"
    and r3: "stats_inv r3" "receiving r3 = receiving r1"
    and ext: "rxExt (abs_rx r3) = of_nat (65536 * unat (cycles r1) + unat ?sn)"
    using update_ahead_rx [OF inv1, of h ?pkt ?hdr payload t True] sn r1(4) by auto
  have "highestSN r3 = ucast (rxExt (abs_rx r3))" by (simp add: abs_rx_def)
  also have "\<dots> = ?sn" unfolding ext ucast_of_nat_16 r1 by simp
  finally have hd: "highestSN r3 = ?sn" .
  have resync: "update_resync h t r1 = r1" using r1 by (simp add: update_resync_def)
  define r4 where "r4 = update_totals h ?pkt ?hdr payload t r3"
  note core = core_eqD [OF update_totals_core [of h ?pkt ?hdr payload t r3], folded r4_def]
  have "highestSN r4 = highestSN r3"
    using core ucast_ext by (metis abs_rx_def rx.select_convs(1))
  moreover have "rtp_update ms now h payload pad t r = Some (no_flow, r4)"
    using a sn unfolding rtp_update_def Let_def r4_def by (simp add: r first resync)
  ultimately show ?thesis
    using r3 rec1 hd core by (simp add: None stats_track_def no_flow_def)
qed

text \<open>The other operations on the statistics leave what the receiver tracks alone.\<close>

definition same_track :: "rtp_stats \<Rightarrow> rtp_stats \<Rightarrow> bool" where
  "same_track r r' \<longleftrightarrow> initialized r = initialized r' \<and> endTime r = endTime r' \<and>
     resyncOnNextPacket r = resyncOnNextPacket r' \<and> ring_of r = ring_of r' \<and>
     gapHistogram r = gapHistogram r' \<and> highestSN r = highestSN r'"

lemma same_track_stats: "same_track r r' \<Longrightarrow> stats_track r g = stats_track r' g"
  by (simp add: same_track_def stats_track_def stats_inv_def receiving_def split: option.split)

lemma same_track_ops:
  "same_track (update_nack n r) r" "same_track (update_key_frame now n r) r"
  "same_track (update_pli_and_time now n r) r" "same_track (update_rtt v r) r"
  "same_track (set_rtcp_sender_report_data ntp d r) r" "same_track (snd (new_snapshot_id now r)) r"
  "same_track (snd (get_and_reset_snapshot now i r)) r"
  by (simp_all add: same_track_def update_nack_def update_key_frame_def update_pli_and_time_def
      update_rtt_def set_rtcp_sender_report_data_def new_snapshot_id_def get_and_reset_snapshot_def
      for_snapshots_def Let_def ring_of_def split: option.split)

lemma same_track_report:
  assumes "snapshot_rtcp_reception_report fi ji now later ssrc proxy i r = Some (rr, r')"
  shows "same_track r' r"
proof -
  obtain p r1 where p: "get_and_reset_snapshot now i r = (p, r1)" by force
  then have "same_track r1 r" using same_track_ops(7) [of now i r] by simp
  moreover have "r' = r1"
    using assms p by (cases p)
      (auto simp: snapshot_rtcp_reception_report_def Let_def split: if_splits prod.splits)
  ultimately show ?thesis by simp
qed

lemma same_track_delta:
  assumes "rtp_delta_info now i r = Some (d, r')"
  shows "same_track r' r"
proof -
  obtain p r1 where p: "get_and_reset_snapshot now i r = (p, r1)" by force
  then have "same_track r1 r" using same_track_ops(7) [of now i r] by simp
  moreover have "r' = r1"
    using assms p by (cases p) (auto simp: rtp_delta_info_def Let_def split: if_splits prod.splits)
  ultimately show ?thesis by simp
qed

section \<open>The queue of lost numbers\<close>

text \<open>The numbers that a pair of a negative acknowledgement names.\<close>

definition nack_numbers :: "nack_pair \<Rightarrow> u16 set" where
  "nack_numbers pr = insert (PacketID pr)
     ((\<lambda>i. PacketID pr + of_nat i + 1) ` {i. i < 16 \<and> bit (LostPackets pr) i})"

text \<open>
  What the code relies on in the queue of mediatransportutil, which holds the numbers \<open>held q\<close>: a
  number removed is not asked for until it is pushed again, and only numbers pushed are asked for.
\<close>

definition nack_laws :: "('nq \<Rightarrow> u16 set) \<Rightarrow> ('bk, 'nq, 'tw) media_lib \<Rightarrow> bool" where
  "nack_laws held lib \<longleftrightarrow>
     held (newNackQueue lib) = {} \<and>
     (\<forall>sn q. held (nackRemove lib sn q) \<subseteq> held q - {sn}) \<and>
     (\<forall>sn q. held (nackPush lib sn q) \<subseteq> insert sn (held q)) \<and>
     (\<forall>v q. held (nackSetRTT lib v q) \<subseteq> held q) \<and>
     (\<forall>now q pairs n q'. nackPairs lib now q = ((pairs, n), q') \<longrightarrow>
        \<Union> (nack_numbers ` set pairs) \<subseteq> held q \<and> held q' \<subseteq> held q)"

definition nacks_within :: "('nq \<Rightarrow> u16 set) \<Rightarrow> missing \<Rightarrow> 'nq option \<Rightarrow> bool" where
  "nacks_within held g nq = (case nq of None \<Rightarrow> True
     | Some q \<Rightarrow> held q \<subseteq> missing_set g)"

definition nack_inv :: "('nq \<Rightarrow> u16 set) \<Rightarrow> missing \<Rightarrow> ('bk, 'nq, 'tw) buffer \<Rightarrow> bool" where
  "nack_inv held g b \<longleftrightarrow> nacks_within held g (bNacker b) \<and>
     (case bStats b of None \<Rightarrow> False | Some r \<Rightarrow> stats_track r g)"

lemma held_fold_push:
  assumes "nack_laws held lib"
  shows "held (fold (nackPush lib) sns q) \<subseteq> held q \<union> set sns"
proof (induction sns arbitrary: q)
  case (Cons sn sns)
  have "held (nackPush lib sn q) \<subseteq> insert sn (held q)" using assms by (simp add: nack_laws_def)
  then show ?case using Cons [of "nackPush lib sn q"] by auto
qed simp

lemma update_stream_state_nacks:
  assumes laws: "nack_laws held lib" and inv: "nack_inv held g b"
    and upd: "update_stream_state lib now p t b = Some b'"
  shows "nack_inv held (missing_step (SequenceNumber (Header p)) g) b'"
proof -
  let ?sn = "SequenceNumber (Header p)"
  obtain r where r: "bStats b = Some r" "stats_track r g"
    using inv by (auto simp: nack_inv_def split: option.splits)
  obtain flow r' where u: "rtp_update (libMarshalSize lib) now (Header p) (int (length (Payload p)))
      (uint (PaddingSize p)) t r = Some (flow, r')" "stats_track r' (missing_step ?sn g)"
    and loss: "HasLoss flow \<longrightarrow> (\<exists>hd M. g = Some (hd, M) \<and> 0 < unat (?sn - hd) \<and>
       unat (?sn - hd) \<le> 2 ^ 15 \<and> LossStartInclusive flow = hd + 1 \<and> LossEndExclusive flow = ?sn)"
    using rtp_update_tracks [OF r(2)] by blast
  show ?thesis
  proof (cases "bNacker b")
    case None
    then show ?thesis using upd r u by (auto simp: update_stream_state_def nack_inv_def nacks_within_def)
  next
    case (Some q)
    define q1 where "q1 = nackRemove lib ?sn q"
    define q2 where "q2 = (if HasLoss flow
        then fold (nackPush lib) (sn_range (LossStartInclusive flow) (LossEndExclusive flow)) q1 else q1)"
    have b': "b' = b\<lparr>bStats := Some r', bNacker := Some q2\<rparr>"
      using upd r u Some by (auto simp: update_stream_state_def Let_def q1_def q2_def)
    have q1: "held q1 \<subseteq> held q - {?sn}" using laws by (simp add: nack_laws_def q1_def)
    have q: "held q \<subseteq> missing_set g"
      using inv Some by (simp add: nack_inv_def nacks_within_def)
    have "nacks_within held (missing_step ?sn g) (Some q2)"
    proof (cases "HasLoss flow")
      case False
      then show ?thesis using q1 q missing_step_keeps [of g ?sn] by (auto simp: q2_def nacks_within_def)
    next
      case True
      then obtain hd M where g: "g = Some (hd, M)" and d: "0 < unat (?sn - hd)" "unat (?sn - hd) \<le> 2 ^ 15"
        and f: "LossStartInclusive flow = hd + 1" "LossEndExclusive flow = ?sn" using loss by blast
      have range: "set (sn_range (hd + 1) ?sn) \<subseteq> {n. 0 < unat (n - hd) \<and> unat (n - hd) < unat (?sn - hd)} - {?sn}"
      proof -
        have ne: "?sn \<noteq> hd" using d(1) by auto
        have "unat (?sn - (hd + 1)) = unat (?sn - hd) - 1"
          using ne unat_minus_one [of "?sn - hd"] by (simp add: diff_diff_eq)
        moreover have "unat (n - (hd + 1)) = (if n = hd then 65535 else unat (n - hd) - 1)" for n
          using unat_minus_one [of "n - hd"] unat_minus1_16 by (auto simp: diff_diff_eq)
        ultimately show ?thesis
          using d(2) by (auto simp: set_sn_range unat_gt_0 simp del: unat_sub_if' split: if_splits)
      qed
      have "held q2 \<subseteq> held q1 \<union> set (sn_range (hd + 1) ?sn)"
        using held_fold_push [OF laws] True by (simp add: q2_def f)
      also have "\<dots> \<subseteq> (missing_set g - {?sn}) \<union> ({n. 0 < unat (n - hd) \<and> unat (n - hd) < unat (?sn - hd)} - {?sn})"
        using q1 q range by blast
      also have "\<dots> \<subseteq> missing_set (missing_step ?sn g)"
        using missing_step_keeps [of g ?sn] missing_step_range [OF d] unfolding g by (rule Un_least)
      finally show ?thesis by (simp add: nacks_within_def)
    qed
    then show ?thesis using u b' by (simp add: nack_inv_def)
  qed
qed


text \<open>What a step of the buffer adds to the calls, and what it asks for in them.\<close>

fun asked_rtcp :: "rtcp_packet \<Rightarrow> u16 set" where
  "asked_rtcp (TransportLayerNack s m pairs) = \<Union> (nack_numbers ` set pairs)"
| "asked_rtcp _ = {}"

fun asked_call :: "buffer_call \<Rightarrow> u16 set" where
  "asked_call (CallRtcpFeedback pkts) = \<Union> (asked_rtcp ` set pkts)"
| "asked_call _ = {}"

definition asked :: "buffer_call list \<Rightarrow> u16 set" where
  "asked calls = \<Union> (asked_call ` set calls)"

lemma asked_simps [simp]:
  "asked [] = {}" "asked (xs @ ys) = asked xs \<union> asked ys" "asked (c # cs) = asked_call c \<union> asked cs"
  by (auto simp: asked_def)

text \<open>
  A step keeps the invariant for \<open>g\<close>, and asks only for numbers missing there.
\<close>

definition nack_step :: "('nq \<Rightarrow> u16 set) \<Rightarrow> missing \<Rightarrow> ('bk, 'nq, 'tw) buffer \<Rightarrow> ('bk, 'nq, 'tw) buffer \<Rightarrow> bool" where
  "nack_step held g b b' \<longleftrightarrow> nack_inv held g b' \<and>
     (\<exists>cs. bCalls b' = bCalls b @ cs \<and> asked cs \<subseteq> missing_set g)"

lemma nack_step_trans: "nack_step held g a b \<Longrightarrow> nack_step held g b c \<Longrightarrow> nack_step held g a c"
  by (auto simp: nack_step_def)

lemma nack_step_quiet:
  "nack_inv held g b \<Longrightarrow> bNacker b' = bNacker b \<Longrightarrow> bStats b' = bStats b \<Longrightarrow> bCalls b' = bCalls b \<Longrightarrow>
   nack_step held g b b'"
  by (simp add: nack_step_def nack_inv_def)

lemma nack_step_call:
  "nack_inv held g b \<Longrightarrow> bNacker b' = bNacker b \<Longrightarrow> bStats b' = map_option f (bStats b) \<Longrightarrow>
   (\<And>r. same_track (f r) r) \<Longrightarrow> bCalls b' = bCalls b @ cs \<Longrightarrow> asked cs = {} \<Longrightarrow> nack_step held g b b'"
  using same_track_stats [of "f r" r g for r]
  by (auto simp: nack_step_def nack_inv_def split: option.splits)

definition same_view :: "('bk, 'nq, 'tw) buffer \<Rightarrow> ('bk, 'nq, 'tw) buffer \<Rightarrow> bool" where
  "same_view b b' \<longleftrightarrow> bNacker b' = bNacker b \<and> bStats b' = bStats b \<and> bCalls b' = bCalls b"

lemma same_view_nacks: "nack_inv held g b \<Longrightarrow> same_view b b' \<Longrightarrow> nack_step held g b b'"
  by (rule nack_step_quiet) (simp_all add: same_view_def)

lemma same_view_simps [simp]:
  "same_view b b" "same_view b (b'\<lparr>bTwcc := x1\<rparr>) = same_view b b'" "same_view b (b'\<lparr>bLatestTS := x2\<rparr>) = same_view b b'"
  "same_view b (b'\<lparr>bLatestTSInitialized := x3\<rparr>) = same_view b b'" "same_view b (b'\<lparr>bAudioLevel := x4\<rparr>) = same_view b b'"
  by (simp_all add: same_view_def)

lemma process_twcc_view: "process_twcc lib p t b = Some b' \<Longrightarrow> same_view b b'"
  by (cases "bTwcc b"; cases "getExtension lib (bTwccExt b) (Header p)"; cases "bTwccExt b = 0")
    (auto simp: process_twcc_def)

lemma process_audio_level_view:
  assumes "process_audio_level lib p b = Some b'"
  shows "same_view b b'"
proof (cases "bAudioLevelExt b = 0")
  case True
  then show ?thesis using assms by (simp add: process_audio_level_def)
next
  case False
  define ts where "ts = Timestamp (Header p)"
  define b1 where "b1 = (if \<not> bLatestTSInitialized b then b\<lparr>bLatestTSInitialized := True, bLatestTS := ts\<rparr> else b)"
  have same: "same_view b b1" by (simp add: b1_def)
  have "case process_audio_level lib p b of None \<Rightarrow> True | Some b' \<Rightarrow> same_view b b'"
    using False same unfolding process_audio_level_def Let_def ts_def [symmetric] b1_def [symmetric]
    by (cases "bAudioLevel b1"; cases "audio_duration ts (bLatestTS b1) (bClockRate b1)")
      (auto split: option.split prod.split)
  then show ?thesis using assms by simp
qed

lemma process_header_extensions_nacks:
  assumes "nack_inv held g b" and "process_header_extensions lib p t b = Some b'"
  shows "nack_step held g b b'"
proof -
  obtain b1 where "process_twcc lib p t b = Some b1" and "process_audio_level lib p b1 = Some b'"
    using assms(2) by (auto simp: process_header_extensions_def)
  then have "same_view b b1" and "same_view b1 b'"
    by (auto dest: process_twcc_view process_audio_level_view)
  then show ?thesis by (intro same_view_nacks [OF assms(1)]) (simp add: same_view_def)
qed

lemma do_nacks_nacks:
  assumes laws: "nack_laws held lib" and inv: "nack_inv held g b"
  shows "nack_step held g b (do_nacks lib now b)"
proof (cases "bNacker b")
  case None
  then show ?thesis using inv by (simp add: do_nacks_def nack_step_quiet)
next
  case (Some q)
  obtain pairs n q' where pr: "nackPairs lib now q = ((pairs, n), q')" by (metis prod.collapse)
  then have h: "\<Union> (nack_numbers ` set pairs) \<subseteq> held q" "held q' \<subseteq> held q"
    using laws unfolding nack_laws_def by blast+
  then show ?thesis
    using inv Some pr same_track_stats [OF same_track_ops(1)]
    by (cases "bStats b")
      (auto simp: do_nacks_def Let_def nack_step_def nack_inv_def nacks_within_def rtcp_feedback_call_def
        buffer_call_def)
qed

lemma do_reports_nacks:
  assumes "nack_inv held g b" and "do_reports lib now t b = Some b'"
  shows "nack_step held g b b'"
proof -
  obtain r where r: "bStats b = Some r" using assms(1) by (auto simp: nack_inv_def split: option.splits)
  show ?thesis
  proof (cases "wrap64 (t - bLastReport b) < ReportDelta")
    case True
    then show ?thesis using assms by (simp add: do_reports_def nack_step_quiet)
  next
    case False
    then obtain rr r' where s: "snapshot_rtcp_reception_report (envFrac (libStats lib)) (envJitter (libStats lib)) now now
        (bMediaSSRC b) (bLastFractionLost b) (bRrSnapshotId b) r = Some (rr, r')"
      using assms(2) r by (auto simp: do_reports_def get_rtcp_def)
    show ?thesis
    proof (rule nack_step_call [OF assms(1)])
      show "bNacker b' = bNacker b"
        using assms(2) r s False by (auto simp: do_reports_def get_rtcp_def rtcp_feedback_call_def buffer_call_def split: option.splits)
      show "bStats b' = map_option (\<lambda>r0. if r0 = r then r' else r0) (bStats b)"
        using assms(2) r s False by (auto simp: do_reports_def get_rtcp_def rtcp_feedback_call_def buffer_call_def split: option.splits)
      show "same_track (if r0 = r then r' else r0) r0" for r0
        using same_track_report [OF s] by (simp add: same_track_def)
      show "bCalls b' = bCalls b @ (case rr of None \<Rightarrow> [] | Some rr \<Rightarrow>
          if bHasRtcpFeedback b then [CallRtcpFeedback [ReceiverReport (bMediaSSRC b) [rr]]] else [])"
        using assms(2) r s False by (auto simp: do_reports_def get_rtcp_def rtcp_feedback_call_def buffer_call_def split: option.splits)
      show "asked (case rr of None \<Rightarrow> [] | Some rr \<Rightarrow>
          if bHasRtcpFeedback b then [CallRtcpFeedback [ReceiverReport (bMediaSSRC b) [rr]]] else []) = {}"
        by (simp split: option.split)
    qed
  qed
qed


lemma get_ext_packet_nacks:
  assumes "nack_inv held g b" and "get_ext_packet now p t b = Some (ep, b')"
  shows "nack_step held g b b'"
proof -
  have "case get_ext_packet now p t b of None \<Rightarrow> True
    | Some (ep, b') \<Rightarrow> b' = b \<or> b' = b\<lparr>bStats := map_option (update_key_frame now 1) (bStats b)\<rparr>"
    by (cases "detect_keyframe (bMime b) (Payload p)"; cases "vp8_unmarshal vp8_zero (Some (Payload p))")
      (simp_all add: get_ext_packet_def Let_def)
  then consider "b' = b" | "b' = b\<lparr>bStats := map_option (update_key_frame now 1) (bStats b)\<rparr>"
    unfolding assms(2) by auto
  then show ?thesis
  proof cases
    case 1
    then show ?thesis by (simp add: same_view_nacks assms(1))
  next
    case 2
    then show ?thesis
      by (intro nack_step_call [OF assms(1), where f = "update_key_frame now 1" and cs = "[]"])
        (simp_all add: same_track_ops)
  qed
qed

lemma do_fps_calc_nacks:
  assumes "nack_inv held g b" and "do_fps_calc ep b = Some b'"
  shows "nack_step held g b b'"
proof -
  let ?ok = "\<lambda>b'. bNacker b' = bNacker b \<and> bStats b' = bStats b \<and>
    (bCalls b' = bCalls b \<or> bCalls b' = bCalls b @ [CallFpsChanged])"
  define sp where "sp = (if Spatial (Layer ep) < 0 \<or> Spatial (Layer ep) \<ge> int (length (bFrameRateCalculator b)) then 0 else Spatial (Layer ep))"
  have "case do_fps_calc ep b of None \<Rightarrow> True | Some b' \<Rightarrow> ?ok b'"
    unfolding do_fps_calc_def Let_def sp_def [symmetric]
    by (cases "go_index (bFrameRateCalculator b) sp"; cases "the (go_index (bFrameRateCalculator b) sp)";
        cases "fps_recv_packet ep (the (the (go_index (bFrameRateCalculator b) sp)))";
        cases "go_update (bFrameRateCalculator b) sp (Some (snd (the (fps_recv_packet ep (the (the (go_index (bFrameRateCalculator b) sp)))))))")
      (simp_all add: split_beta buffer_call_def)
  then show ?thesis using assms by (auto simp: nack_step_def nack_inv_def)
qed

section \<open>Taking in a packet, and the other operations\<close>

text \<open>The number of the packet that a write takes in, if it takes one in.\<close>

fun taken :: "('bk, 'nq, 'tw) media_lib \<Rightarrow> 'tw buffer_event \<Rightarrow> ('bk, 'nq, 'tw) buffer \<Rightarrow> u16 option" where
  "taken lib (EvWrite now pkt) b =
     (if bClosed b \<or> \<not> bBound b then None
      else Option.bind (bBucket b) (\<lambda>bk. map_option (SequenceNumber \<circ> Header)
        (rtpUnmarshal lib (case fst (addPacket lib pkt bk) of Inl _ \<Rightarrow> pkt | Inr buf \<Rightarrow> buf))))"
| "taken lib _ b = None"

definition missing_after ::
  "('bk, 'nq, 'tw) media_lib \<Rightarrow> 'tw buffer_event \<Rightarrow> ('bk, 'nq, 'tw) buffer \<Rightarrow> missing \<Rightarrow> missing"
where
  "missing_after lib e b g = (case taken lib e b of None \<Rightarrow> g | Some sn \<Rightarrow> missing_step sn g)"

text \<open>The buffer beside the abstract receiver.\<close>

definition tracked_step ::
  "('bk, 'nq, 'tw) media_lib \<Rightarrow> 'tw buffer_event \<Rightarrow> ('bk, 'nq, 'tw) buffer \<times> missing
   \<Rightarrow> (('bk, 'nq, 'tw) buffer \<times> missing) option"
where
  "tracked_step lib e = (\<lambda>(b, g). map_option (\<lambda>b'. (b', missing_after lib e b g)) (buffer_step lib e b))"

lemma update_stream_state_calls: "update_stream_state lib now p t b = Some b' \<Longrightarrow> bCalls b' = bCalls b"
  by (cases "bNacker b") (auto simp: update_stream_state_def Let_def)

lemma buffer_calc_nacks:
  assumes laws: "nack_laws held lib" and inv: "nack_inv held g b" and bk: "bBucket b = Some bk"
    and calc: "buffer_calc lib now pkt t b = Some b'"
  defines "g' \<equiv> (case map_option (SequenceNumber \<circ> Header)
      (rtpUnmarshal lib (case fst (addPacket lib pkt bk) of Inl _ \<Rightarrow> pkt | Inr buf \<Rightarrow> buf)) of
    None \<Rightarrow> g | Some sn \<Rightarrow> missing_step sn g)"
  shows "nack_inv held g' b' \<and> (\<exists>cs. bCalls b' = bCalls b @ cs \<and> asked cs \<subseteq> missing_set g')"
proof -
  obtain r bk' where a: "addPacket lib pkt bk = (r, bk')" by force
  define raw where "raw = (case r of Inl _ \<Rightarrow> pkt | Inr buf \<Rightarrow> buf)"
  let ?b = "b\<lparr>bBucket := Some bk'\<rparr>"
  have inv': "nack_inv held g ?b" using inv by (simp add: nack_inv_def)
  show ?thesis
  proof (cases "rtpUnmarshal lib raw")
    case None
    then have "b' = ?b" using calc bk a by (cases r) (simp_all add: buffer_calc_def raw_def)
    moreover have "g' = g" using None a by (simp add: g'_def raw_def)
    ultimately show ?thesis using inv' by simp
  next
    case (Some p)
    let ?g = "missing_step (SequenceNumber (Header p)) g"
    have g': "g' = ?g" using Some a by (simp add: g'_def raw_def)
    obtain b1 where 1: "update_stream_state lib now p t ?b = Some b1"
      using calc bk a Some by (cases r) (auto simp: buffer_calc_def raw_def)
    have n1: "nack_inv held ?g b1" by (rule update_stream_state_nacks [OF laws inv' 1])
    obtain b2 where 2: "process_header_extensions lib p t b1 = Some b2"
      using calc bk a Some 1 by (cases r) (auto simp: buffer_calc_def raw_def)
    have n2: "nack_step held ?g b1 b2" by (rule process_header_extensions_nacks [OF n1 2])
    then have n2': "nack_inv held ?g b2" by (simp add: nack_step_def)
    have "nack_step held ?g b1 b'"
    proof (cases r)
      case (Inl e)
      then show ?thesis using calc bk a Some 1 2 n2 by (simp add: buffer_calc_def raw_def)
    next
      case (Inr buf)
      let ?b3 = "do_nacks lib now b2"
      have n3: "nack_step held ?g b2 ?b3" by (rule do_nacks_nacks [OF laws n2'])
      then have n3': "nack_inv held ?g ?b3" by (simp add: nack_step_def)
      obtain b4 where 4: "do_reports lib now t ?b3 = Some b4"
        using calc bk a Some 1 2 Inr by (auto simp: buffer_calc_def raw_def)
      have n4: "nack_step held ?g ?b3 b4" by (rule do_reports_nacks [OF n3' 4])
      then have n4': "nack_inv held ?g b4" by (simp add: nack_step_def)
      obtain ep b5 where 5: "get_ext_packet now p t b4 = Some (ep, b5)"
        using calc bk a Some 1 2 4 Inr by (auto simp: buffer_calc_def raw_def)
      have n5: "nack_step held ?g b4 b5" by (rule get_ext_packet_nacks [OF n4' 5])
      then have n5': "nack_inv held ?g b5" by (simp add: nack_step_def)
      have "nack_step held ?g b5 b'"
      proof (cases ep)
        case None
        then show ?thesis using calc bk a Some 1 2 4 5 Inr n5'
          by (simp add: buffer_calc_def raw_def same_view_nacks)
      next
        case (Some ep')
        let ?b5 = "b5\<lparr>bExtPackets := bExtPackets b5 @ [ep']\<rparr>"
        have "do_fps_calc ep' ?b5 = Some b'"
          using calc bk a \<open>rtpUnmarshal lib raw = Some p\<close> 1 2 4 5 Inr Some by (simp add: buffer_calc_def raw_def)
        moreover have "nack_inv held ?g ?b5" using n5' by (simp add: nack_inv_def)
        ultimately show ?thesis using do_fps_calc_nacks by (fastforce simp: nack_step_def)
      qed
      then show ?thesis using n2 n3 n4 n5 nack_step_trans by blast
    qed
    then show ?thesis using update_stream_state_calls [OF 1] by (simp add: nack_step_def g')
  qed
qed

lemma send_pli_nacks:
  assumes "send_pli force now b = Some b'"
  shows "bClosed b' = bClosed b" "\<exists>cs. bCalls b' = bCalls b @ cs \<and> asked cs = {}"
    "nack_inv held g b \<Longrightarrow> nack_inv held g b'"
  using assms same_track_stats [OF same_track_ops(3)]
  by (auto simp: send_pli_def rtcp_feedback_call_def buffer_call_def nack_inv_def split: option.splits if_splits)

lemma set_rtt_nacks:
  assumes "nack_laws held lib" and "nack_inv held g b"
  shows "nack_inv held g (buffer_set_rtt lib v b)"
proof -
  obtain r where r: "bStats b = Some r" "stats_track r g"
    using assms(2) by (auto simp: nack_inv_def split: option.splits)
  have "held (nackSetRTT lib v q) \<subseteq> held q" for q using assms(1) by (simp add: nack_laws_def)
  then show ?thesis
    using assms(2) r same_track_stats [OF same_track_ops(4), of v r g]
    by (cases "bNacker b") (auto simp: buffer_set_rtt_def nack_inv_def nacks_within_def)
qed

lemma set_rtt_fields: "bClosed (buffer_set_rtt lib v b) = bClosed b" "bCalls (buffer_set_rtt lib v b) = bCalls b"
  by (simp_all add: buffer_set_rtt_def)

lemma sender_report_nacks:
  "bClosed (set_sender_report_data lib now ts ntp b) = bClosed b"
  "\<exists>cs. bCalls (set_sender_report_data lib now ts ntp b) = bCalls b @ cs \<and> asked cs = {}"
  "nack_inv held g b \<Longrightarrow> nack_inv held g (set_sender_report_data lib now ts ntp b)"
proof -
  show "nack_inv held g b \<Longrightarrow> nack_inv held g (set_sender_report_data lib now ts ntp b)"
    using same_track_stats [OF same_track_ops(5)]
    by (cases "bStats b") (simp_all add: set_sender_report_data_def nack_inv_def buffer_call_def Let_def)
qed (simp_all add: set_sender_report_data_def buffer_call_def Let_def)

lemma close_nacks: "bClosed (buffer_close now b)"
  "\<exists>cs. bCalls (buffer_close now b) = bCalls b @ cs \<and> asked cs = {}"
  by (simp_all add: buffer_close_def buffer_call_def Let_def)

lemma buffer_step_nacks:
  assumes laws: "nack_laws held lib" and bound: "buffer_bound b" and inv: "bClosed b \<or> nack_inv held g b"
    and step: "buffer_step lib e b = Some b'"
  shows "(bClosed b' \<or> nack_inv held (missing_after lib e b g) b') \<and>
    (\<exists>cs. bCalls b' = bCalls b @ cs \<and> asked cs \<subseteq> missing_set (missing_after lib e b g))"
proof (cases e)
  case (EvWrite now pkt)
  show ?thesis
  proof (cases "bClosed b")
    case True
    then show ?thesis using step EvWrite by (auto simp: buffer_write_def)
  next
    case False
    obtain bk where bk: "bBucket b = Some bk" using bound by (auto simp: buffer_bound_def calc_ok_def)
    have "bBound b" using bound by (simp add: buffer_bound_def)
    then show ?thesis
      using buffer_calc_nacks [OF laws _ bk, of g now pkt "unix_nano now" b'] inv step False bk EvWrite
      by (auto simp: buffer_write_def missing_after_def)
  qed
next
  case (EvSendPLI force now)
  then show ?thesis using send_pli_nacks [of force now b b'] inv step by (fastforce simp: missing_after_def)
next
  case (EvReadExtended cap)
  have "\<exists>q. b' = b\<lparr>bExtPackets := q\<rparr>" if "read_extended_from lib cap eps b = Some (r, b')" for eps r
    using that by (induction eps) (auto split: option.splits)
  then have "\<exists>q. b' = b\<lparr>bExtPackets := q\<rparr>" if "\<not> bClosed b"
    using step EvReadExtended that by (auto simp: read_extended_def)
  then show ?thesis
    using inv step EvReadExtended by (cases "bClosed b") (auto simp: missing_after_def read_extended_def nack_inv_def)
next
  case (EvRead cap)
  have "0 \<le> bLastPacketRead b" using bound by (simp add: buffer_bound_def)
  then obtain n where "b' = b\<lparr>bLastPacketRead := n\<rparr>" using buffer_read_ok [of b cap] step EvRead by auto
  then show ?thesis using inv EvRead by (auto simp: missing_after_def nack_inv_def)
next
  case (EvSetRTT v)
  then show ?thesis
    using inv step set_rtt_nacks [OF laws, of g b v] by (auto simp: missing_after_def set_rtt_fields)
next
  case (EvSenderReport now ts ntp)
  obtain cs where "bCalls b' = bCalls b @ cs" "asked cs = {}" "bClosed b' = bClosed b"
    using sender_report_nacks(1,2) [of lib now ts ntp b] step EvSenderReport by auto
  then show ?thesis
    using inv step EvSenderReport sender_report_nacks(3) [of held g b] by (auto simp: missing_after_def)
next
  case (EvDeltaStats now)
  then show ?thesis
    using inv step same_track_stats [OF same_track_delta]
    by (auto simp: missing_after_def get_delta_stats_def nack_inv_def split: option.splits)
next
  case (EvClose now)
  then show ?thesis using step close_nacks [of now b] by (auto simp: missing_after_def)
qed (use inv step bound in \<open>auto simp: missing_after_def nack_inv_def buffer_settings buffer_bind_def buffer_bound_def\<close>)

section \<open>A bound buffer\<close>

lemma bind_header_extension_frame:
  "bNacker (fold (bind_header_extension lib) exts b) = bNacker b"
  "bStats (fold (bind_header_extension lib) exts b) = bStats b"
  "bPPackets (fold (bind_header_extension lib) exts b) = bPPackets b"
  by (induction exts arbitrary: b) (simp_all add: bind_header_extension_def)

lemma bind_codec_frame:
  "bind_codec lib codec b = Some b' \<Longrightarrow> bNacker b' = bNacker b \<and> bStats b' = bStats b \<and> bPPackets b' = bPPackets b"
proof -
  have "case bind_codec lib codec b of None \<Rightarrow> True
    | Some b' \<Rightarrow> bNacker b' = bNacker b \<and> bStats b' = bStats b \<and> bPPackets b' = bPPackets b"
    by (cases "go_index (bFrameRateCalculator b) 0";
        cases "go_update (bFrameRateCalculator b) 0 (Some (new_fps_vp8 (bClockRate b)))")
      (simp_all add: bind_codec_def Let_def)
  then show "bind_codec lib codec b = Some b' \<Longrightarrow> ?thesis" by simp
qed

lemma bind_feedback_frame:
  "bind_feedback lib exts fbs b = (ret, b') \<Longrightarrow>
   bStats b' = bStats b \<and> bPPackets b' = bPPackets b \<and> (bNacker b' = bNacker b \<or> bNacker b' = Some (newNackQueue lib))"
  by (induction fbs arbitrary: b) (auto simp: Let_def split: if_splits option.splits)

lemma stats_track_new: "stats_track (new_rtp_stats p) None"
  using stats_inv_new [of p] by (simp add: stats_track_def new_rtp_stats_def is_zero_time_def)

lemma bind_params_nacks:
  assumes "nack_laws held lib" and "bNacker b = None" and "bind_params lib now prm b = Some (ret, b')"
  shows "nack_inv held None b'" "bPPackets b' = bPPackets b"
proof -
  obtain codec where codec: "go_index (Codecs prm) 0 = Some codec"
    using assms(3) by (auto simp: bind_params_def)
  let ?cap = "CodecCapability codec"
  obtain i r1 where 1: "new_snapshot_id now (new_rtp_stats \<lparr>ClockRate = CodecClockRate ?cap, IsReceiverReportDriven = False\<rparr>) = (i, r1)"
    by force
  obtain j r2 where 2: "new_snapshot_id now r1 = (j, r2)" by force
  have track: "stats_track r2 None"
    using same_track_stats [OF same_track_ops(6)] stats_track_new 1 2 by (metis snd_conv)
  define b2 where "b2 = fold (bind_header_extension lib) (HeaderExtensions prm)
    (b\<lparr>bStats := Some r2, bRrSnapshotId := i, bDeltaStatsSnapshotId := j,
       bClockRate := CodecClockRate ?cap, bLastReport := unix_nano now, bMime := to_lower (MimeType ?cap)\<rparr>)"
  obtain b3 where 3: "bind_codec lib codec b2 = Some b3"
    and 4: "bind_feedback lib (HeaderExtensions prm) (RTCPFeedback ?cap) b3 = (ret, b')"
    using assms(3) by (auto simp: bind_params_def codec 1 2 Let_def b2_def)
  have "bNacker b2 = None" "bStats b2 = Some r2" "bPPackets b2 = bPPackets b"
    using assms(2) by (simp_all add: b2_def bind_header_extension_frame)
  then have b': "bStats b' = Some r2" "bPPackets b' = bPPackets b" "bNacker b' = None \<or> bNacker b' = Some (newNackQueue lib)"
    using bind_codec_frame [OF 3] bind_feedback_frame [OF 4] by auto
  then show "nack_inv held None b'"
    using track assms(1) by (auto simp: nack_inv_def nacks_within_def nack_laws_def)
  show "bPPackets b' = bPPackets b" by (rule b')
qed

definition tracked_inv :: "('nq \<Rightarrow> u16 set) \<Rightarrow> ('bk, 'nq, 'tw) buffer \<times> missing \<Rightarrow> bool" where
  "tracked_inv held = (\<lambda>(b, g). buffer_bound b \<and> (bClosed b \<or> nack_inv held g b))"

interpretation tracked: panic_free "tracked_step lib" "\<lambda>e. lib_ok lib \<and> nack_laws held lib \<and> bound_event_ok e"
  "tracked_inv held" for lib :: "('bk, 'nq, 'tw) media_lib" and held
proof unfold_locales
  fix s :: "('bk, 'nq, 'tw) buffer \<times> missing" and e :: "'tw buffer_event"
  assume inv: "tracked_inv held s" and ok: "lib_ok lib \<and> nack_laws held lib \<and> bound_event_ok e"
  obtain b g where s: "s = (b, g)" by force
  obtain b' where "buffer_step lib e b = Some b'" "buffer_bound b'"
    using bound_step_ok [of lib b e] inv ok by (auto simp: s tracked_inv_def)
  then show "\<exists>s'. tracked_step lib e s = Some s' \<and> tracked_inv held s'"
    using buffer_step_nacks [of held lib b g e b'] inv ok by (simp add: s tracked_step_def tracked_inv_def)
qed

lemma tracked_bind:
  fixes lib :: "('bk, 'nq, 'tw) media_lib"
  assumes "lib_ok lib" and "nack_laws held lib" and "bind_ok lib prm"
  shows "\<exists>b. buffer_bind lib now prm (new_buffer ssrc) = Some b \<and> tracked_inv held (b, None)"
proof -
  have unbound: "buffer_unbound (new_buffer ssrc :: ('bk, 'nq, 'tw) buffer)" by (simp add: buffer_unbound_def new_buffer_def)
  obtain b1 where 1: "bind_params lib now prm (new_buffer ssrc) = Some (False, b1)"
    using bind_params_ok [OF unbound assms(3)] by blast
  have b1: "nack_inv held None b1" "bPPackets b1 = []"
    using bind_params_nacks [OF assms(2) _ 1] by (simp_all add: new_buffer_def)
  obtain b2 where 2: "buffer_bind lib now prm (new_buffer ssrc) = Some b2" "buffer_bound b2"
    using buffer_bind_ok [OF assms(1) unbound assms(3)] by blast
  then have "b2 = b1\<lparr>bPPackets := [], bBound := True\<rparr>"
    using 1 b1(2) unbound by (simp add: buffer_bind_def buffer_unbound_def)
  then show ?thesis using 2 b1(1) by (simp add: tracked_inv_def nack_inv_def)
qed

text \<open>
  C7: a buffer asks only for packets that are missing. Beside the buffer runs an abstract receiver
  that keeps the highest number received and the set of numbers skipped and not received since; after
  any operations on a bound buffer, the numbers named by the negative acknowledgements that a further
  operation sends are in that set. The queue of mediatransportutil is taken to ask only for numbers
  that were pushed and not removed since.
\<close>

theorem nacks_only_missing:
  assumes "lib_ok lib" and "nack_laws held lib" and "bind_ok lib prm"
    and "list_all bound_event_ok es" and "bound_event_ok e"
  shows "\<exists>b0 b g b' g' cs. buffer_bind lib now prm (new_buffer ssrc) = Some b0 \<and>
    run_panic (tracked_step lib) es (b0, None) = Some (b, g) \<and>
    tracked_step lib e (b, g) = Some (b', g') \<and>
    bCalls b' = bCalls b @ cs \<and> asked cs \<subseteq> missing_set g'"
proof -
  obtain b0 where b0: "buffer_bind lib now prm (new_buffer ssrc) = Some b0" "tracked_inv held (b0, None)"
    using tracked_bind [OF assms(1-3)] by blast
  have "list_all (\<lambda>e. lib_ok lib \<and> nack_laws held lib \<and> bound_event_ok e) es"
    using assms by (simp add: list_all_iff)
  then obtain b g where run: "run_panic (tracked_step lib) es (b0, None) = Some (b, g)"
    and inv: "tracked_inv held (b, g)"
    using tracked.run_total [OF b0(2)] by (metis prod.collapse)
  obtain b' where step: "buffer_step lib e b = Some b'"
    using bound_step_ok [of lib b e] inv assms by (auto simp: tracked_inv_def)
  then have "tracked_step lib e (b, g) = Some (b', missing_after lib e b g)" by (simp add: tracked_step_def)
  then show ?thesis
    using buffer_step_nacks [OF assms(2) _ _ step, of g] inv b0(1) run unfolding tracked_inv_def by blast
qed

lemma sample_nack_laws: "nack_laws set sample_lib"
  by (auto simp: nack_laws_def sample_lib_def nack_numbers_def)

theorem nacks_only_missing_witness:
  "\<exists>b0 b g b' g' cs. buffer_bind sample_lib 8 sample_prm (new_buffer 5) = Some b0 \<and>
    run_panic (tracked_step sample_lib) [EvCallbacks, EvWrite 9 (sample_pkt 1)] (b0, None) = Some (b, g) \<and>
    tracked_step sample_lib (EvWrite 11 (sample_pkt 4)) (b, g) = Some (b', g') \<and>
    bCalls b' = bCalls b @ cs \<and> asked cs \<subseteq> missing_set g'"
  by (rule nacks_only_missing [OF sample_lib_ok sample_nack_laws sample_bind_ok]) simp_all

end
