(* ===== verification/BufferControl.thy ===== *)
theory BufferControl
  imports BufferSpec
begin

text \<open>
  Control of a buffer: key frames are asked for at a bounded rate, and the stream that \<open>Bind\<close> gives up on.
\<close>

section \<open>Asking for key frames\<close>

text \<open>
  A key frame is asked for at most once per throttle interval: after a request that was sent at
  \<open>t1\<close>, an unforced one before the interval has passed sends nothing and changes nothing. A first
  request is sent when the last one is old enough.
\<close>

theorem pli_throttled:
  assumes "bStats b = Some r" and "\<not> ended r" and "bHasRtcpFeedback b"
    and "force \<or> \<not> time_since_last_pli t1 r < bPliThrottle b"
    and "wrap64 (unix_nano t2 - unix_nano t1) < bPliThrottle b"
  shows "\<exists>b'. send_pli force t1 b = Some b' \<and>
    bCalls b' = bCalls b @ [CallRtcpFeedback [PictureLossIndication (bMediaSSRC b) (bMediaSSRC b)]] \<and>
    send_pli False t2 b' = Some b'"
  using assms
  by (auto simp: send_pli_def rtcp_feedback_call_def buffer_call_def update_pli_and_time_def
      time_since_last_pli_def)

theorem pli_throttled_witness:
  "\<exists>b'. send_pli True 1000 ((new_buffer 5 :: (nat, nat, nat) buffer)\<lparr>bStats := Some (new_rtp_stats \<lparr>ClockRate = 90000, IsReceiverReportDriven = False\<rparr>),
      bHasRtcpFeedback := True\<rparr>) = Some b' \<and>
    bCalls b' = [CallRtcpFeedback [PictureLossIndication 5 5]] \<and> send_pli False 2000 b' = Some b'"
  using pli_throttled [of "(new_buffer 5 :: (nat, nat, nat) buffer)\<lparr>bStats := Some (new_rtp_stats \<lparr>ClockRate = 90000, IsReceiverReportDriven = False\<rparr>),
      bHasRtcpFeedback := True\<rparr>" _ True 1000 2000]
  by (simp add: new_buffer_def new_rtp_stats_def is_zero_time_def unix_nano_def wrap64_small)

section \<open>Bind of a redundant audio stream\<close>

lemma bind_feedback_red:
  assumes "equal_fold (bMime b) ''audio/red''" and "fbNACK lib \<noteq> fbTransportCC lib"
    and "list_ex (\<lambda>fb. fbType fb = fbNACK lib) fbs"
  shows "\<exists>b'. bind_feedback lib exts fbs b = (True, b') \<and> bBound b' = bBound b \<and> bPPackets b' = bPPackets b \<and> bClosed b' = bClosed b"
  using assms
proof (induction fbs arbitrary: b)
  case (Cons fb fbs)
  have "\<exists>b'. bind_feedback lib exts fbs (b\<lparr>bTwccExt := e\<rparr>) = (True, b') \<and> bBound b' = bBound b \<and>
      bPPackets b' = bPPackets b \<and> bClosed b' = bClosed b" if "list_ex (\<lambda>fb. fbType fb = fbNACK lib) fbs" for e
    using Cons.IH [of "b\<lparr>bTwccExt := e\<rparr>"] Cons.prems that by simp
  then show ?case using Cons by (cases "find (\<lambda>ext. extURI ext = uriTransportCC lib) exts") (auto simp: Let_def)
qed simp

text \<open>
  A stream of \<^verbatim>\<open>audio/red\<close> negotiated with negative acknowledgements is never bound: \<open>Bind\<close>
  returns from the middle of the loop over the feedback types, so that the packets written before and
  after pile up and no packet is ever taken in.
\<close>

theorem audio_red_never_bound:
  assumes "\<not> bBound b" and "\<not> bClosed b" and "fbNACK lib \<noteq> fbTransportCC lib"
    and "Codecs prm = [\<lparr>CodecCapability = cap, CodecPayloadType = pt\<rparr>]" and "to_lower (MimeType cap) = ''audio/red''"
    and "list_ex (\<lambda>fb. fbType fb = fbNACK lib) (RTCPFeedback cap)"
  shows "\<exists>b'. Option.bind (buffer_bind lib now prm b) (run_panic (write_at lib) ws) = Some b' \<and>
    \<not> bBound b' \<and> bPPackets b' = bPPackets b @ early ws"
proof -
  obtain i r1 where 1: "new_snapshot_id now (new_rtp_stats \<lparr>ClockRate = CodecClockRate cap, IsReceiverReportDriven = False\<rparr>) = (i, r1)"
    by force
  obtain j r2 where 2: "new_snapshot_id now r1 = (j, r2)" by force
  define b1 where "b1 = fold (bind_header_extension lib) (HeaderExtensions prm)
    (b\<lparr>bStats := Some r2, bRrSnapshotId := i, bDeltaStatsSnapshotId := j, bClockRate := CodecClockRate cap,
       bLastReport := unix_nano now, bMime := ''audio/red''\<rparr>)"
  have frame: "bMime b1 = ''audio/red''" "bBound b1 = bBound b" "bPPackets b1 = bPPackets b" "bClosed b1 = bClosed b"
  proof -
    have "bMime (fold (bind_header_extension lib) exts c) = bMime c \<and> bBound (fold (bind_header_extension lib) exts c) = bBound c \<and>
      bPPackets (fold (bind_header_extension lib) exts c) = bPPackets c \<and> bClosed (fold (bind_header_extension lib) exts c) = bClosed c" for exts c
      by (induction exts arbitrary: c) (simp_all add: bind_header_extension_def)
    then show "bMime b1 = ''audio/red''" "bBound b1 = bBound b" "bPPackets b1 = bPPackets b" "bClosed b1 = bClosed b"
      by (simp_all add: b1_def)
  qed
  let ?b2 = "b1\<lparr>bCodecType := CodecAudio, bBucket := Some (newBucket lib CodecAudio)\<rparr>"
  have codec: "bind_codec lib codec b1 = Some ?b2" for codec
    by (simp add: bind_codec_def frame has_prefix_def)
  obtain b3 where 3: "bind_feedback lib (HeaderExtensions prm) (RTCPFeedback cap) ?b2 = (True, b3)"
      "bBound b3 = bBound ?b2" "bPPackets b3 = bPPackets ?b2" "bClosed b3 = bClosed ?b2"
    using bind_feedback_red [of ?b2 lib "RTCPFeedback cap"] assms frame by (auto simp: equal_fold_def)
  have "buffer_bind lib now prm b = Some b3"
    using assms 3(1) by (simp add: buffer_bind_def bind_params_def go_index_def 1 2 Let_def codec flip: b1_def)
  then show ?thesis using 3 frame assms(1,2) by (simp add: write_early)
qed

theorem audio_red_never_bound_witness:
  "\<exists>b'. Option.bind (buffer_bind sample_lib 9 \<lparr>HeaderExtensions = [], Codecs = [\<lparr>CodecCapability =
      \<lparr>MimeType = ''audio/red'', CodecClockRate = 48000, CodecChannels = 2, SDPFmtpLine = [],
        RTCPFeedback = [\<lparr>fbType = ''nack'', fbParameter = []\<rparr>]\<rparr>, CodecPayloadType = 63\<rparr>]\<rparr> (new_buffer 5))
      (run_panic (write_at sample_lib) [(10, sample_pkt 1)]) = Some b' \<and>
    \<not> bBound b' \<and> bPPackets b' = early [(10, sample_pkt 1)]"
proof -
  let ?cap = "\<lparr>MimeType = ''audio/red'', CodecClockRate = 48000, CodecChannels = 2, SDPFmtpLine = [],
        RTCPFeedback = [\<lparr>fbType = ''nack'', fbParameter = []\<rparr>]\<rparr>"
  let ?prm = "\<lparr>HeaderExtensions = [], Codecs = [\<lparr>CodecCapability = ?cap, CodecPayloadType = 63\<rparr>]\<rparr>"
  let ?b = "new_buffer 5 :: (u8 list list, u16 list, u16 list) buffer"
  have b: "\<not> bBound ?b" "\<not> bClosed ?b" "bPPackets ?b = []" by (simp_all add: new_buffer_def)
  have lib: "fbNACK sample_lib \<noteq> fbTransportCC sample_lib" "to_lower (MimeType ?cap) = ''audio/red''"
    "list_ex (\<lambda>fb. fbType fb = fbNACK sample_lib) (RTCPFeedback ?cap)" by code_simp+
  have "Codecs ?prm = [\<lparr>CodecCapability = ?cap, CodecPayloadType = 63\<rparr>]" by simp
  from audio_red_never_bound [OF b(1,2) lib(1) this lib(2,3), of 9 "[(10, sample_pkt 1)]"] b(3)
  show ?thesis by simp
qed

end
