(* ===== verification/GoStrings.thy ===== *)
theory GoStrings
  imports GoRuntime
begin

text \<open>
  The functions on strings of the Go library that the program uses, beside those of the runtime
  theory. A Go string is a list of bytes, here a list of characters.
\<close>

section \<open>Numbers\<close>

definition digit :: "nat \<Rightarrow> char" where
  "digit n = char_of (48 + n)"

fun digits :: "nat \<Rightarrow> string" where
  "digits n = (if n < 10 then [digit n] else digits (n div 10) @ [digit (n mod 10)])"

declare digits.simps [simp del]

text \<open>\<^verbatim>\<open>strconv.Itoa\<close>\<close>

definition itoa :: "int \<Rightarrow> string" where
  "itoa n = (if n < 0 then CHR ''-'' # digits (nat (- n)) else digits (nat n))"

text \<open>The bytes of a string, \<^verbatim>\<open>[]byte(s)\<close>.\<close>

definition string_bytes :: "string \<Rightarrow> u8 list" where
  "string_bytes s = map of_char s"

section \<open>Splitting and trimming\<close>

text \<open>\<^verbatim>\<open>strings.Split\<close> at a separator of one byte.\<close>

fun split_at :: "char \<Rightarrow> string \<Rightarrow> string list" where
  "split_at c [] = [[]]"
| "split_at c (x # xs) =
     (if x = c then [] # split_at c xs
      else case split_at c xs of [] \<Rightarrow> [[x]] | y # ys \<Rightarrow> (x # y) # ys)"

text \<open>\<^verbatim>\<open>strings.TrimSpace\<close> on ASCII text: tab, line feed, vertical tab, form feed, return and blank.\<close>

definition is_space :: "char \<Rightarrow> bool" where
  "is_space c = (let n = of_char c :: nat in (9 \<le> n \<and> n \<le> 13) \<or> n = 32)"

definition trim_space :: "string \<Rightarrow> string" where
  "trim_space s = rev (dropWhile is_space (rev (dropWhile is_space s)))"

definition trim_suffix :: "string \<Rightarrow> string \<Rightarrow> string" where
  "trim_suffix s suf =
     (if length suf \<le> length s \<and> drop (length s - length suf) s = suf then take (length s - length suf) s else s)"

fun contains :: "string \<Rightarrow> string \<Rightarrow> bool" where
  "contains [] sub = (sub = [])"
| "contains (x # xs) sub = (take (length sub) (x # xs) = sub \<or> contains xs sub)"

text \<open>
  \<^verbatim>\<open>strconv.Atoi\<close>: the value, and whether there was no error. A syntax error gives 0, a number
  that does not fit into 64 bits the nearest one that does.
\<close>

definition digit_value :: "char \<Rightarrow> nat option" where
  "digit_value c = (let n = of_char c :: nat in if 48 \<le> n \<and> n \<le> 57 then Some (n - 48) else None)"

fun digits_value :: "nat \<Rightarrow> string \<Rightarrow> nat option" where
  "digits_value acc [] = Some acc"
| "digits_value acc (c # cs) = (case digit_value c of None \<Rightarrow> None | Some n \<Rightarrow> digits_value (10 * acc + n) cs)"

definition atoi :: "string \<Rightarrow> int \<times> bool" where
  "atoi s =
     (let neg = (case s of c # _ \<Rightarrow> c = CHR ''-'' | [] \<Rightarrow> False);
          s = (case s of c # cs \<Rightarrow> if c = CHR ''-'' \<or> c = CHR ''+'' then cs else s | [] \<Rightarrow> s)
      in case (if s = [] then None else digits_value 0 s) of
        None \<Rightarrow> (0, False)
      | Some n \<Rightarrow>
          (let v = if neg then - int n else int n in
           if v < - (2 ^ 63) then (- (2 ^ 63), False)
           else if 2 ^ 63 - 1 < v then (2 ^ 63 - 1, False)
           else (v, True)))"

lemma split_at_not_Nil [simp]: "split_at c s \<noteq> []"
  by (induction s) (auto split: list.split)

lemma split_at_free: "c \<notin> set s \<Longrightarrow> split_at c s = [s]"
  by (induction s) auto

lemma split_at_append: "c \<notin> set s \<Longrightarrow> split_at c (s @ c # t) = s # split_at c t"
  by (induction s) auto

lemma trim_space_id:
  assumes "s \<noteq> []" and "\<not> is_space (hd s)" and "\<not> is_space (last s)"
  shows "trim_space s = s"
proof -
  have "dropWhile is_space s = s" using assms by (subst dropWhile_eq_self_iff) simp
  moreover have "dropWhile is_space (rev s) = rev s" using assms by (subst dropWhile_eq_self_iff) (simp add: hd_rev)
  ultimately show ?thesis by (simp add: trim_space_def)
qed

lemma digit_value_digit: "n < 10 \<Longrightarrow> digit_value (digit n) = Some n"
  by (simp add: digit_value_def digit_def)

lemma digits_value_append:
  "digits_value a (s @ t) = (case digits_value a s of None \<Rightarrow> None | Some b \<Rightarrow> digits_value b t)"
  by (induction s arbitrary: a) (auto split: option.split)

lemma digits_value_digits: "digits_value 0 (digits n) = Some n"
proof (induction n rule: digits.induct)
  case (1 n)
  then show ?case
    by (subst digits.simps) (simp add: digits_value_append digit_value_digit)
qed

lemma digits_chars: "c \<in> set (digits n) \<Longrightarrow> 48 \<le> (of_char c :: nat) \<and> (of_char c :: nat) \<le> 57"
proof (induction n rule: digits.induct)
  case (1 n)
  have "48 \<le> (of_char (digit m) :: nat) \<and> (of_char (digit m) :: nat) \<le> 57" if "m < 10" for m
    using that by (simp add: digit_def)
  with 1 show ?case by (subst (asm) digits.simps) (auto split: if_splits)
qed

lemma digits_not_Nil [simp]: "digits n \<noteq> []"
  by (subst digits.simps) simp

lemma itoa_chars: "c \<in> set (itoa n) \<Longrightarrow> c = CHR ''-'' \<or> 48 \<le> (of_char c :: nat) \<and> (of_char c :: nat) \<le> 57"
  by (auto simp: itoa_def digits_chars split: if_splits)

lemma itoa_last: "48 \<le> (of_char (last (itoa n)) :: nat)" "of_char (last (itoa n)) \<le> (57 :: nat)"
  using digits_chars [OF last_in_set [OF digits_not_Nil]] by (simp_all add: itoa_def)

lemma atoi_itoa:
  assumes "- (2 ^ 63) \<le> n" and "n < 2 ^ 63"
  shows "atoi (itoa n) = (n, True)"
proof (cases "n < 0")
  case True
  have "digits_value 0 (digits (nat (- n))) = Some (nat (- n))" by (rule digits_value_digits)
  then show ?thesis using True assms by (simp add: atoi_def itoa_def Let_def)
next
  case False
  obtain c cs where c: "digits (nat n) = c # cs" by (cases "digits (nat n)") simp_all
  then have "c \<noteq> CHR ''-''" "c \<noteq> CHR ''+''" using digits_chars [of c "nat n"] by auto
  moreover have "digits_value 0 (c # cs) = Some (nat n)" using digits_value_digits [of "nat n"] by (simp only: c)
  ultimately show ?thesis using False assms c by (simp add: atoi_def itoa_def Let_def del: digits_value.simps)
qed

end
