(* ===== verification/Params.thy ===== *)
theory Params
  imports GoStrings Rtp
begin

text \<open>
  \<^verbatim>\<open>pkg/rtc/rtp_parameters.go\<close>: the parameters that clients and server negotiate with, their
  translation to the types of pion/webrtc and back, and the format parameters of a codec, which travel
  as one line of text.
\<close>

section \<open>Types\<close>

text \<open>
  The parameters of the signalling. The code's records nest by embedding; a field is that of the
  embedded structure. A value of a codec's parameters is a number, a string, or anything else a
  decoded message can hold.
\<close>

datatype 'a go_any = AnyInt int | AnyString string | AnyOther 'a

type_synonym media_kind = codec_type

abbreviation AudioMediaKind :: media_kind where "AudioMediaKind \<equiv> CodecAudio"
abbreviation VideoMediaKind :: media_kind where "VideoMediaKind \<equiv> CodecVideo"

definition media_kind_string :: "media_kind \<Rightarrow> string" where
  "media_kind_string k =
     (if k = AudioMediaKind then ''audio'' else if k = VideoMediaKind then ''video'' else ''unknown'')"

record ortc_feedback =
  oFbType :: string
  oFbParameter :: string

record 'a ortc_codec =
  oMimeType :: string
  oPayloadType :: u8
  oClockRate :: u32
  oChannels :: u16
  oMaxptime :: u32
  oPtime :: u32
  oFeedback :: "ortc_feedback list"
  oParameters :: "string \<rightharpoonup> 'a go_any"

record 'a ortc_header_extension =
  oURI :: string
  oId :: int
  oEncrypt :: bool
  oExtParameters :: "string \<rightharpoonup> 'a go_any"

record rtcp_parameters =
  oRtcpSSRC :: u64
  oCname :: string
  oReducedSize :: bool
  oMux :: bool

record 'a ortc_parameters =
  oMid :: string
  oHeaderExtensions :: "'a ortc_header_extension list"
  oCodecs :: "'a ortc_codec list"
  oRtcp :: rtcp_parameters

record fec_parameters =
  fecSsrc :: u32
  fecMechanism :: string

record coding_parameters =
  encSsrc :: u32
  encPayloadType :: u8
  encFec :: "fec_parameters option"
  encRtx :: "u32 option"
  encActive :: bool
  encRid :: string
  encEncodingId :: string
  encDependencies :: "string list"

record encoding_parameters =
  encCoding :: coding_parameters
  encDtx :: string

record 'a receive_parameters =
  recvParameters :: "'a ortc_parameters"
  recvEncodings :: "coding_parameters list"

record 'a send_parameters =
  sendParameters :: "'a ortc_parameters"
  sendEncodings :: "encoding_parameters list"

record 'a ortc_codec_capability =
  capMimeType :: string
  capPreferredPayloadType :: u8
  capClockRate :: u32
  capChannels :: u16
  capMaxptime :: u32
  capPtime :: u32
  capFmtp :: string
  capFeedback :: "ortc_feedback list"
  capKind :: string
  capParameters :: "string \<rightharpoonup> 'a go_any"

record ortc_extension_capability =
  capURI :: string
  capExtKind :: string
  capPreferredID :: int
  capPreferredEncrypt :: bool

record 'a ortc_capabilities =
  capCodecs :: "'a ortc_codec_capability list"
  capHeaderExtensions :: "ortc_extension_capability list"

text \<open>Of pion/webrtc: the encodings of a receiver and of a sender, and the capabilities.\<close>

record webrtc_encoding =
  wRID :: string
  wSSRC :: u32
  wPayloadType :: u8
  wRTX :: u32

record webrtc_send_parameters =
  wParameters :: rtp_parameters
  wEncodings :: "webrtc_encoding list"

record webrtc_capabilities =
  wCapCodecs :: "codec_capability list"
  wCapExtensions :: "string list"

section \<open>Format parameters\<close>

text \<open>
  The loop over a Go map meets its keys in any order: \<open>ord\<close>. \<open>fmtv\<close> prints, as \<^verbatim>\<open>%v\<close> does, the values
  that are neither numbers nor strings.
\<close>

fun format_any :: "('a \<Rightarrow> string) \<Rightarrow> 'a go_any \<Rightarrow> string" where
  "format_any fmtv (AnyInt n) = itoa n"
| "format_any fmtv (AnyString s) = s"
| "format_any fmtv (AnyOther x) = fmtv x"

definition format_entry :: "('a \<Rightarrow> string) \<Rightarrow> (string \<rightharpoonup> 'a go_any) \<Rightarrow> string \<Rightarrow> string" where
  "format_entry fmtv m k = k @ ''='' @ format_any fmtv (the (m k)) @ '';''"

definition parameters_to_fmtp :: "('a \<Rightarrow> string) \<Rightarrow> string list \<Rightarrow> (string \<rightharpoonup> 'a go_any) \<Rightarrow> string" where
  "parameters_to_fmtp fmtv ord m = trim_suffix (fold (\<lambda>k parsed. parsed @ format_entry fmtv m k) ord []) '';''"

text \<open>Taking in one parameter; the index of the value panics when there is no \<^verbatim>\<open>=\<close>.\<close>

definition parse_entry :: "string \<Rightarrow> (string \<rightharpoonup> 'a go_any) \<Rightarrow> (string \<rightharpoonup> 'a go_any) option" where
  "parse_entry v parsed =
     (if v = [] then Some parsed
      else let ff = split_at (CHR ''='') v in
        if length ff \<le> 1 then None
        else Some (parsed(ff ! 0 \<mapsto> AnyInt (fst (atoi (ff ! 1))))))"

fun parse_entries :: "string list \<Rightarrow> (string \<rightharpoonup> 'a go_any) \<Rightarrow> (string \<rightharpoonup> 'a go_any) option" where
  "parse_entries [] parsed = Some parsed"
| "parse_entries (v # vs) parsed = Option.bind (parse_entry v parsed) (parse_entries vs)"

definition fmtp_to_parameters :: "string \<Rightarrow> (string \<rightharpoonup> 'a go_any) option" where
  "fmtp_to_parameters fmtp =
     (if fmtp = [] then Some Map.empty
      else parse_entries (split_at (CHR '';'') (trim_space fmtp)) Map.empty)"

section \<open>From the signalling to pion\<close>

text \<open>How the runtime prints parameters: the order of each map, and the values.\<close>

record 'a printing =
  rangeOrder :: "(string \<rightharpoonup> 'a go_any) \<Rightarrow> string list"
  printValue :: "'a \<Rightarrow> string"

definition feedback_from_ortc :: "ortc_feedback list \<Rightarrow> rtcp_feedback list" where
  "feedback_from_ortc = map (\<lambda>fb. \<lparr>fbType = oFbType fb, fbParameter = oFbParameter fb\<rparr>)"

definition codec_capability_from_ortc :: "'a ortc_codec_capability \<Rightarrow> codec_capability" where
  "codec_capability_from_ortc c = \<lparr>MimeType = capMimeType c, CodecClockRate = capClockRate c,
     CodecChannels = capChannels c, SDPFmtpLine = capFmtp c, RTCPFeedback = feedback_from_ortc (capFeedback c)\<rparr>"

definition codec_from_ortc :: "'a printing \<Rightarrow> 'a ortc_codec \<Rightarrow> codec_parameters" where
  "codec_from_ortc pr c =
     \<lparr>CodecCapability = \<lparr>MimeType = oMimeType c, CodecClockRate = oClockRate c, CodecChannels = oChannels c,
        SDPFmtpLine = parameters_to_fmtp (printValue pr) (rangeOrder pr (oParameters c)) (oParameters c),
        RTCPFeedback = feedback_from_ortc (oFeedback c)\<rparr>,
      CodecPayloadType = oPayloadType c\<rparr>"

definition extension_capability_from_ortc :: "ortc_extension_capability \<Rightarrow> string" where
  "extension_capability_from_ortc h = capURI h"

definition extension_from_ortc :: "'a ortc_header_extension \<Rightarrow> header_extension" where
  "extension_from_ortc h = \<lparr>extURI = oURI h, extID = oId h\<rparr>"

definition capabilities_from_ortc :: "'a ortc_capabilities \<Rightarrow> webrtc_capabilities" where
  "capabilities_from_ortc caps = \<lparr>wCapCodecs = map codec_capability_from_ortc (capCodecs caps),
     wCapExtensions = map extension_capability_from_ortc (capHeaderExtensions caps)\<rparr>"

definition parameters_from_ortc :: "'a printing \<Rightarrow> 'a ortc_parameters \<Rightarrow> rtp_parameters" where
  "parameters_from_ortc pr p = \<lparr>HeaderExtensions = map extension_from_ortc (oHeaderExtensions p),
     Codecs = map (codec_from_ortc pr) (oCodecs p)\<rparr>"

definition receive_from_ortc :: "'a receive_parameters \<Rightarrow> webrtc_encoding list" where
  "receive_from_ortc p = map (\<lambda>e. \<lparr>wRID = encRid e, wSSRC = encSsrc e, wPayloadType = encPayloadType e,
     wRTX = (case encRtx e of None \<Rightarrow> 0 | Some r \<Rightarrow> r)\<rparr>) (recvEncodings p)"

section \<open>From pion to the signalling\<close>

definition feedback_to_ortc :: "rtcp_feedback list \<Rightarrow> ortc_feedback list" where
  "feedback_to_ortc = map (\<lambda>fb. \<lparr>oFbType = fbType fb, oFbParameter = fbParameter fb\<rparr>)"

definition codec_to_ortc :: "codec_parameters \<Rightarrow> 'a ortc_codec option" where
  "codec_to_ortc c = do {
     ps \<leftarrow> fmtp_to_parameters (SDPFmtpLine (CodecCapability c));
     Some \<lparr>oMimeType = MimeType (CodecCapability c), oPayloadType = CodecPayloadType c,
       oClockRate = CodecClockRate (CodecCapability c), oChannels = CodecChannels (CodecCapability c),
       oMaxptime = 0, oPtime = 0, oFeedback = feedback_to_ortc (RTCPFeedback (CodecCapability c)), oParameters = ps\<rparr> }"

definition codec_capability_to_ortc :: "media_kind \<Rightarrow> codec_capability \<Rightarrow> 'a ortc_codec_capability" where
  "codec_capability_to_ortc kind c = \<lparr>capMimeType = MimeType c, capPreferredPayloadType = 0,
     capClockRate = CodecClockRate c, capChannels = CodecChannels c, capMaxptime = 0, capPtime = 0,
     capFmtp = SDPFmtpLine c, capFeedback = feedback_to_ortc (RTCPFeedback c),
     capKind = (if kind = AudioMediaKind then ''audio'' else ''video''), capParameters = Map.empty\<rparr>"

definition extension_capability_to_ortc :: "media_kind \<Rightarrow> string \<Rightarrow> ortc_extension_capability" where
  "extension_capability_to_ortc kind uri = \<lparr>capURI = uri,
     capExtKind = (if kind = AudioMediaKind then ''audio'' else ''video''), capPreferredID = 0,
     capPreferredEncrypt = False\<rparr>"

definition capabilities_to_ortc :: "media_kind \<Rightarrow> webrtc_capabilities \<Rightarrow> 'a ortc_capabilities" where
  "capabilities_to_ortc kind caps = \<lparr>capCodecs = map (codec_capability_to_ortc kind) (wCapCodecs caps),
     capHeaderExtensions = map (extension_capability_to_ortc kind) (wCapExtensions caps)\<rparr>"

definition extension_to_ortc :: "header_extension \<Rightarrow> 'a ortc_header_extension" where
  "extension_to_ortc h = \<lparr>oURI = extURI h, oId = extID h, oEncrypt = False, oExtParameters = Map.empty\<rparr>"

definition rtcp_parameters_zero :: rtcp_parameters where
  "rtcp_parameters_zero = \<lparr>oRtcpSSRC = 0, oCname = [], oReducedSize = False, oMux = False\<rparr>"

fun map_panic :: "('x \<Rightarrow> 'y option) \<Rightarrow> 'x list \<Rightarrow> 'y list option" where
  "map_panic f [] = Some []"
| "map_panic f (x # xs) = do { y \<leftarrow> f x; ys \<leftarrow> map_panic f xs; Some (y # ys) }"

definition parameters_to_ortc :: "rtp_parameters \<Rightarrow> 'a ortc_parameters option" where
  "parameters_to_ortc p = do {
     cs \<leftarrow> map_panic codec_to_ortc (Codecs p);
     Some \<lparr>oMid = [], oHeaderExtensions = map extension_to_ortc (HeaderExtensions p), oCodecs = cs,
       oRtcp = rtcp_parameters_zero\<rparr> }"

definition encoding_to_ortc :: "webrtc_encoding \<Rightarrow> encoding_parameters" where
  "encoding_to_ortc e = \<lparr>encCoding = \<lparr>encSsrc = wSSRC e, encPayloadType = wPayloadType e, encFec = None,
     encRtx = Some (wRTX e), encActive = False, encRid = wRID e, encEncodingId = [], encDependencies = []\<rparr>,
     encDtx = []\<rparr>"

definition send_to_ortc :: "webrtc_send_parameters \<Rightarrow> 'a send_parameters option" where
  "send_to_ortc p = do {
     ps \<leftarrow> parameters_to_ortc (wParameters p);
     Some \<lparr>sendParameters = ps, sendEncodings = map encoding_to_ortc (wEncodings p)\<rparr> }"

section \<open>Between the two kinds of parameters\<close>

definition receive_to_parameters :: "'a receive_parameters \<Rightarrow> 'a ortc_parameters" where
  "receive_to_parameters p = \<lparr>oMid = oMid (recvParameters p), oHeaderExtensions = oHeaderExtensions (recvParameters p),
     oCodecs = oCodecs (recvParameters p), oRtcp = oRtcp (recvParameters p)\<rparr>"

definition send_to_receive :: "'a send_parameters \<Rightarrow> 'a receive_parameters" where
  "send_to_receive p = \<lparr>recvParameters = sendParameters p, recvEncodings = map encCoding (sendEncodings p)\<rparr>"

end
