(* ===== verification/ParamsSpec.thy ===== *)
theory ParamsSpec
  imports Params Interfaces
begin

text \<open>
  What the translation of parameters keeps: numbers under plain names survive the way through the
  format line, other values do not, and some make the reader panic. The translations of feedback and of
  codecs are interpretations of \<^verbatim>\<open>format\<close>.
\<close>

section \<open>Format parameters\<close>

definition fmtp_entry :: "('a \<Rightarrow> string) \<Rightarrow> (string \<rightharpoonup> 'a go_any) \<Rightarrow> string \<Rightarrow> string" where
  "fmtp_entry fmtv m k = k @ CHR ''='' # format_any fmtv (the (m k))"

lemma format_entries:
  "fold (\<lambda>k parsed. parsed @ format_entry fmtv m k) ks acc =
   acc @ concat (map (\<lambda>k. fmtp_entry fmtv m k @ [CHR '';'']) ks)"
  by (induction ks arbitrary: acc) (simp_all add: format_entry_def fmtp_entry_def)

lemma parameters_to_fmtp_Nil: "parameters_to_fmtp fmtv [] m = []"
  by (simp add: parameters_to_fmtp_def trim_suffix_def)

lemma parameters_to_fmtp_snoc:
  "parameters_to_fmtp fmtv (ks @ [k]) m = concat (map (\<lambda>k. fmtp_entry fmtv m k @ [CHR '';'']) ks) @ fmtp_entry fmtv m k"
  unfolding parameters_to_fmtp_def format_entries by (simp add: trim_suffix_def)

lemma split_entries:
  assumes "\<And>k. k \<in> set ks \<Longrightarrow> c \<notin> set (e k)"
  shows "split_at c (concat (map (\<lambda>k. e k @ [c]) ks) @ t) = map e ks @ split_at c t"
  using assms by (induction ks) (simp_all add: split_at_append)

text \<open>
  A key of a parameter that survives: no separator and no blank in it; and a map of numbers under such keys.
\<close>

definition fmtp_key :: "string \<Rightarrow> bool" where
  "fmtp_key k \<longleftrightarrow> list_all (\<lambda>c. c \<noteq> CHR ''='' \<and> c \<noteq> CHR '';'' \<and> \<not> is_space c) k"

definition fmtp_numbers :: "(string \<rightharpoonup> 'a go_any) \<Rightarrow> bool" where
  "fmtp_numbers m \<longleftrightarrow> (\<forall>k v. m k = Some v \<longrightarrow> fmtp_key k \<and> (\<exists>n. v = AnyInt n \<and> - (2 ^ 63) \<le> n \<and> n < 2 ^ 63))"

lemma itoa_plain: "c \<in> set (itoa n) \<Longrightarrow> c \<noteq> CHR ''='' \<and> c \<noteq> CHR '';'' \<and> \<not> is_space c"
  using itoa_chars [of c n] by (auto simp: is_space_def)

lemma fmtp_numbersD:
  assumes "fmtp_numbers m" and "k \<in> dom m"
  obtains n where "m k = Some (AnyInt n)" "fmtp_entry fmtv m k = k @ CHR ''='' # itoa n" "fmtp_key k"
    "- (2 ^ 63) \<le> n" "n < 2 ^ 63"
proof -
  from assms(2) obtain v where v: "m k = Some v" by blast
  then obtain n where "fmtp_key k" "v = AnyInt n" "- (2 ^ 63) \<le> n" "n < 2 ^ 63"
    using assms(1) by (auto simp: fmtp_numbers_def)
  then show ?thesis using v that by (simp add: fmtp_entry_def)
qed

lemma fmtp_entry_plain:
  assumes "fmtp_numbers m" and "k \<in> dom m"
  shows "CHR '';'' \<notin> set (fmtp_entry fmtv m k)" "\<not> is_space (hd (fmtp_entry fmtv m k))"
    "\<not> is_space (last (fmtp_entry fmtv m k))"
proof -
  obtain n where n: "fmtp_entry fmtv m k = k @ CHR ''='' # itoa n" "fmtp_key k"
    by (rule fmtp_numbersD [OF assms])
  have "itoa n \<noteq> []" by (simp add: itoa_def)
  then have "\<not> is_space (last (itoa n))" using itoa_plain [OF last_in_set] by blast
  then show "\<not> is_space (last (fmtp_entry fmtv m k))" using \<open>itoa n \<noteq> []\<close> by (simp add: n(1))
  have "CHR '';'' \<notin> set (itoa n)" using itoa_plain by blast
  moreover have "CHR '';'' \<notin> set k" using n(2) by (auto simp: fmtp_key_def list_all_iff)
  ultimately show "CHR '';'' \<notin> set (fmtp_entry fmtv m k)" by (simp add: n(1))
  show "\<not> is_space (hd (fmtp_entry fmtv m k))"
    using n by (cases k) (auto simp: fmtp_key_def is_space_def)
qed

lemma parse_numbers:
  assumes "fmtp_numbers m"
  shows "set ks \<subseteq> dom m \<Longrightarrow> parse_entries (map (fmtp_entry fmtv m) ks) acc = Some (acc ++ (m |` set ks))"
proof (induction ks arbitrary: acc)
  case (Cons k ks)
  have "k \<in> dom m" using Cons.prems by simp
  then obtain n where n: "m k = Some (AnyInt n)" "fmtp_entry fmtv m k = k @ CHR ''='' # itoa n" "fmtp_key k"
      "- (2 ^ 63) \<le> n" "n < 2 ^ 63"
    by (rule fmtp_numbersD [OF assms])
  have eq: "CHR ''='' \<notin> set k" "CHR ''='' \<notin> set (itoa n)" using n(3) itoa_plain by (auto simp: fmtp_key_def list_all_iff)
  have "split_at (CHR ''='') (fmtp_entry fmtv m k) = [k, itoa n]"
    using split_at_append [OF eq(1), of "itoa n"] split_at_free [OF eq(2)] by (simp add: n(2))
  then have "parse_entry (fmtp_entry fmtv m k) acc = Some (acc(k \<mapsto> AnyInt n))"
    using atoi_itoa [OF n(4,5)] by (simp add: parse_entry_def n(2))
  moreover have "acc(k \<mapsto> AnyInt n) ++ (m |` set ks) = acc ++ (m |` set (k # ks))"
    using n(1) by (auto simp: fun_eq_iff map_add_def restrict_map_def split: option.split)
  ultimately show ?case using Cons by simp
qed simp

lemma fmtp_roundtrip_numbers:
  assumes m: "fmtp_numbers m" and ord: "set ord = dom m"
  shows "fmtp_to_parameters (parameters_to_fmtp fmtv ord m) = Some m"
proof (cases ord rule: rev_cases)
  case Nil
  then have "m = Map.empty" using ord by auto
  then show ?thesis using Nil by (simp add: parameters_to_fmtp_Nil fmtp_to_parameters_def)
next
  case (snoc ks k)
  define s where "s = parameters_to_fmtp fmtv ord m"
  have s: "s = concat (map (\<lambda>k. fmtp_entry fmtv m k @ [CHR '';'']) ks) @ fmtp_entry fmtv m k"
    unfolding s_def snoc by (rule parameters_to_fmtp_snoc)
  have dom: "k \<in> dom m" "\<And>k. k \<in> set ks \<Longrightarrow> k \<in> dom m" using ord snoc by auto
  have ne: "fmtp_entry fmtv m k \<noteq> []" for k by (simp add: fmtp_entry_def)
  note plain = fmtp_entry_plain [OF m]
  have hd: "\<not> is_space (hd s)"
    using plain(2) [of _ fmtv] dom ne by (cases ks) (auto simp: s hd_append)
  have last: "\<not> is_space (last s)" using plain(3) [OF dom(1), of fmtv] ne by (simp add: s)
  have "s \<noteq> []" using ne by (simp add: s)
  have "split_at (CHR '';'') s = map (fmtp_entry fmtv m) ks @ [fmtp_entry fmtv m k]"
    unfolding s using plain(1) dom by (subst split_entries) (auto simp: split_at_free)
  then have "fmtp_to_parameters s = parse_entries (map (fmtp_entry fmtv m) ord) Map.empty"
    using trim_space_id [OF \<open>s \<noteq> []\<close> hd last] \<open>s \<noteq> []\<close> by (simp add: fmtp_to_parameters_def snoc)
  also have "\<dots> = Some (m |` dom m)" using parse_numbers [OF m, of ord] ord by simp
  finally show ?thesis by (simp add: s_def restrict_map_def fun_eq_iff domIff)
qed

lemma split_at_single: "length (split_at c s) \<le> 1 \<longleftrightarrow> c \<notin> set s"
proof (induction s)
  case (Cons x s)
  obtain y ys where "split_at c s = y # ys" by (cases "split_at c s") simp_all
  then show ?case using Cons by auto
qed simp

lemma parse_entries_None: "parse_entries vs acc = None \<longleftrightarrow> (\<exists>v\<in>set vs. v \<noteq> [] \<and> CHR ''='' \<notin> set v)"
proof (induction vs arbitrary: acc)
  case (Cons v vs)
  have "parse_entry v acc = None \<longleftrightarrow> v \<noteq> [] \<and> CHR ''='' \<notin> set v"
    using split_at_single [of "CHR ''=''" v] by (simp add: parse_entry_def Let_def)
  then show ?case using Cons.IH by (cases "parse_entry v acc") auto
qed simp

text \<open>
  Exactly when reading format parameters panics: when one of the parts between the semicolons is
  not empty and has no equals sign.
\<close>

theorem fmtp_panics:
  "fmtp_to_parameters fmtp = None \<longleftrightarrow>
     (\<exists>v. v \<in> set (split_at (CHR '';'') (trim_space fmtp)) \<and> v \<noteq> [] \<and> CHR ''='' \<notin> set v)"
proof (cases "fmtp = []")
  case True
  then show ?thesis by (simp add: fmtp_to_parameters_def trim_space_def)
next
  case False
  then show ?thesis using parse_entries_None by (auto simp: fmtp_to_parameters_def)
qed

section \<open>Parameters there and back\<close>

definition codec_plain :: "'a printing \<Rightarrow> 'a ortc_codec \<Rightarrow> bool" where
  "codec_plain pr c \<longleftrightarrow> fmtp_numbers (oParameters c) \<and> set (rangeOrder pr (oParameters c)) = dom (oParameters c) \<and>
     oMaxptime c = 0 \<and> oPtime c = 0"

lemma feedback_roundtrip: "feedback_to_ortc (feedback_from_ortc fbs) = fbs"
  by (induction fbs) (simp_all add: feedback_to_ortc_def feedback_from_ortc_def)

interpretation feedback: format feedback_from_ortc "\<lambda>fbs. Some (feedback_to_ortc fbs)" "\<lambda>_. True"
  by unfold_locales (simp add: feedback_roundtrip)

interpretation codec: format "codec_from_ortc pr" codec_to_ortc "codec_plain pr" for pr
  by unfold_locales
    (simp add: codec_to_ortc_def codec_from_ortc_def codec_plain_def fmtp_roundtrip_numbers feedback_roundtrip)

lemma map_panic_format:
  assumes "format enc dec good" and "list_all good xs"
  shows "map_panic dec (map enc xs) = Some xs"
  using assms by (induction xs) (simp_all add: format.dec_enc)

text \<open>What the signalling keeps of a codec and of the parameters when they come back from pion.\<close>

definition kept_codec :: "'a ortc_codec \<Rightarrow> 'a ortc_codec" where
  "kept_codec c = c\<lparr>oMaxptime := 0, oPtime := 0\<rparr>"

definition kept_parameters :: "'a ortc_parameters \<Rightarrow> 'a ortc_parameters" where
  "kept_parameters p = \<lparr>oMid = [],
     oHeaderExtensions = map (\<lambda>h. h\<lparr>oEncrypt := False, oExtParameters := Map.empty\<rparr>) (oHeaderExtensions p),
     oCodecs = map kept_codec (oCodecs p), oRtcp = rtcp_parameters_zero\<rparr>"

lemma codec_from_kept: "codec_from_ortc pr (kept_codec c) = codec_from_ortc pr c"
  by (simp add: codec_from_ortc_def kept_codec_def)

definition printable :: "'a printing \<Rightarrow> 'a ortc_codec \<Rightarrow> bool" where
  "printable pr c \<longleftrightarrow> fmtp_numbers (oParameters c) \<and> set (rangeOrder pr (oParameters c)) = dom (oParameters c)"

text \<open>
  C28: parameters survive the way through pion. Codecs whose format parameters are numbers under plain
  names come back with all their parameters, whatever the order in which the maps are printed, and
  header extensions with their identifiers; what is dropped is the media line, the RTCP parameters, the
  packet times and the encryption of extensions.
\<close>

theorem parameters_roundtrip:
  assumes "list_all (printable pr) (oCodecs p)"
  shows "parameters_to_ortc (parameters_from_ortc pr p) = Some (kept_parameters p)"
proof -
  have "list_all (codec_plain pr) (map kept_codec (oCodecs p))"
    using assms by (simp add: list_all_iff printable_def codec_plain_def kept_codec_def)
  from map_panic_format [OF codec.format_axioms this]
  have "map_panic codec_to_ortc (map (codec_from_ortc pr) (oCodecs p)) = Some (map kept_codec (oCodecs p))"
    by (simp add: codec_from_kept comp_def)
  moreover have "map (extension_to_ortc \<circ> extension_from_ortc) hs = map (\<lambda>h. h\<lparr>oEncrypt := False, oExtParameters := Map.empty\<rparr>) hs"
    for hs :: "'a ortc_header_extension list"
    by (simp add: extension_to_ortc_def extension_from_ortc_def)
  ultimately show ?thesis
    by (simp add: parameters_to_ortc_def parameters_from_ortc_def kept_parameters_def)
qed

text \<open>
  A parameter that is not a number is lost on the way: its value comes back as 0.
\<close>

theorem fmtp_value_lost:
  assumes "fmtp_key k" and "fmtp_key s" and "s \<noteq> []" and "digits_value 0 s = None"
    and "hd s \<noteq> CHR ''-''" and "hd s \<noteq> CHR ''+''"
  shows "fmtp_to_parameters (parameters_to_fmtp fmtv [k] [k \<mapsto> AnyString s]) = Some [k \<mapsto> AnyInt 0]"
proof -
  let ?e = "k @ CHR ''='' # s"
  have eq: "CHR ''='' \<notin> set k" "CHR ''='' \<notin> set s" "CHR '';'' \<notin> set ?e"
    using assms(1,2) by (auto simp: fmtp_key_def list_all_iff)
  have "parameters_to_fmtp fmtv [k] [k \<mapsto> AnyString s] = ?e"
    using parameters_to_fmtp_snoc [of fmtv "[]" k] by (simp add: fmtp_entry_def)
  moreover have "\<not> is_space (hd ?e)" using assms(1) by (cases k) (auto simp: fmtp_key_def is_space_def)
  moreover have "\<not> is_space (last ?e)" using assms(2,3) last_in_set by (auto simp: fmtp_key_def list_all_iff)
  moreover have "split_at (CHR ''='') ?e = [k, s]"
    using split_at_append [OF eq(1), of s] split_at_free [OF eq(2)] by simp
  moreover have "fst (atoi s) = 0" using assms(3-6) by (cases s) (auto simp: atoi_def Let_def)
  ultimately show ?thesis
    using trim_space_id [of ?e] split_at_free [OF eq(3)] by (simp add: fmtp_to_parameters_def parse_entry_def)
qed


lemma split_at_sep: "split_at c (a @ c # b) = split_at c a @ split_at c b"
  by (induction a) (auto split: list.split)

lemma map_panic_None: "map_panic f xs = None \<longleftrightarrow> (\<exists>x\<in>set xs. f x = None)"
proof (induction xs)
  case (Cons x xs)
  then show ?case by (cases "f x"; cases "map_panic f xs") auto
qed simp

text \<open>
  C36: a client can make the server panic with a parameter of its codec: a string with a semicolon in it,
  followed by a text without an equals sign, is split in two when the parameters come back from pion,
  and reading the second part panics.
\<close>

theorem parameters_panic:
  fixes p :: "'a ortc_parameters"
  assumes "c \<in> set (oCodecs p)" and "oParameters c = [k \<mapsto> AnyString (a @ CHR '';'' # b)]"
    and "rangeOrder pr (oParameters c) = [k]" and "fmtp_key k"
    and "b \<noteq> []" and "CHR ''='' \<notin> set b" and "CHR '';'' \<notin> set b" and "\<not> is_space (last b)"
  shows "(parameters_to_ortc (parameters_from_ortc pr p) :: 'a ortc_parameters option) = None"
proof -
  let ?s = "k @ CHR ''='' # a @ CHR '';'' # b"
  have s: "SDPFmtpLine (CodecCapability (codec_from_ortc pr c)) = ?s"
    using parameters_to_fmtp_snoc [of "printValue pr" "[]" k] assms(2,3) by (simp add: codec_from_ortc_def fmtp_entry_def)
  have "\<not> is_space (hd ?s)" using assms(4) by (cases k) (auto simp: fmtp_key_def is_space_def)
  then have "trim_space ?s = ?s" using assms(5,8) by (intro trim_space_id) simp_all
  moreover have "b \<in> set (split_at (CHR '';'') ?s)"
    using split_at_sep [of "CHR '';''" "k @ CHR ''='' # a" b] split_at_free [OF assms(7)] by simp
  ultimately have "(fmtp_to_parameters ?s :: (string \<rightharpoonup> 'a go_any) option) = None"
    using assms(5,6) parse_entries_None by (auto simp: fmtp_to_parameters_def)
  then have "(codec_to_ortc (codec_from_ortc pr c) :: 'a ortc_codec option) = None" by (simp add: codec_to_ortc_def s)
  then have "map_panic (codec_to_ortc :: _ \<Rightarrow> 'a ortc_codec option) (map (codec_from_ortc pr) (oCodecs p)) = None"
    using assms(1) by (auto simp: map_panic_None)
  then show ?thesis by (simp add: parameters_to_ortc_def parameters_from_ortc_def)
qed

section \<open>Examples\<close>

definition sample_printing :: "nat printing" where
  "sample_printing = \<lparr>rangeOrder = \<lambda>m. filter (\<lambda>k. m k \<noteq> None) [''useinbandfec'', ''minptime'', ''x''], printValue = \<lambda>_. ''?''\<rparr>"

definition sample_ortc :: "(string \<rightharpoonup> nat go_any) \<Rightarrow> nat ortc_parameters" where
  "sample_ortc m = \<lparr>oMid = ''0'', oHeaderExtensions = [\<lparr>oURI = ''u'', oId = 3, oEncrypt = True, oExtParameters = Map.empty\<rparr>],
     oCodecs = [\<lparr>oMimeType = ''audio/opus'', oPayloadType = 111, oClockRate = 48000, oChannels = 2, oMaxptime = 60,
       oPtime = 20, oFeedback = [\<lparr>oFbType = ''nack'', oFbParameter = []\<rparr>], oParameters = m\<rparr>],
     oRtcp = rtcp_parameters_zero\<rparr>"

theorem parameters_roundtrip_witness:
  "parameters_to_ortc (parameters_from_ortc sample_printing (sample_ortc [''minptime'' \<mapsto> AnyInt 20, ''useinbandfec'' \<mapsto> AnyInt 1])) =
   Some (kept_parameters (sample_ortc [''minptime'' \<mapsto> AnyInt 20, ''useinbandfec'' \<mapsto> AnyInt 1]))"
proof -
  have "fmtp_numbers [''minptime'' \<mapsto> AnyInt 20, ''useinbandfec'' \<mapsto> AnyInt 1 :: nat go_any]"
    by (auto simp: fmtp_numbers_def fmtp_key_def is_space_def split: if_splits)
  then show ?thesis
    by (intro parameters_roundtrip) (auto simp: sample_ortc_def printable_def sample_printing_def)
qed

theorem fmtp_value_lost_witness:
  "fmtp_to_parameters (parameters_to_fmtp (\<lambda>_ :: nat. []) [''profile-level-id''] [''profile-level-id'' \<mapsto> AnyString ''42e01f'']) =
   Some [''profile-level-id'' \<mapsto> AnyInt 0]"
  by (rule fmtp_value_lost) code_simp+

theorem parameters_panic_witness:
  "(parameters_to_ortc (parameters_from_ortc sample_printing (sample_ortc [''x'' \<mapsto> AnyString ''a;b''])) :: nat ortc_parameters option) = None"
  using parameters_panic [of "hd (oCodecs (sample_ortc [''x'' \<mapsto> AnyString ''a;b'']))" "sample_ortc [''x'' \<mapsto> AnyString ''a;b'']"
    "''x''" "''a''" "''b''" sample_printing]
  by (simp add: sample_ortc_def sample_printing_def fmtp_key_def is_space_def)

end
