(* ===== verification/MediaEngine.thy ===== *)
theory MediaEngine
  imports ParamsSpec
begin

text \<open>
  \<^verbatim>\<open>pkg/rtc/mediaengine.go\<close>: the codecs and extensions of the server, the capabilities of a router, and
  what is registered with the engine of pion for a producer or a consumer.
\<close>

section \<open>What the media engine takes from pion\<close>

record media_consts =
  mcOpus :: string
  mcVP8 :: string
  mcGoogREMB :: string
  mcTransportCC :: string
  mcCCM :: string
  mcNACK :: string
  mcMidURI :: string
  mcAbsSendTimeURI :: string
  mcAudioLevelURI :: string
  mcTransportCCURI :: string

text \<open>Registering a codec or a header extension with an engine; the flag is the absence of an error.\<close>

record 'me engine_lib =
  registerCodec :: "codec_parameters \<Rightarrow> codec_type \<Rightarrow> 'me \<Rightarrow> bool \<times> 'me"
  registerExtension :: "string \<Rightarrow> codec_type \<Rightarrow> 'me \<Rightarrow> bool \<times> 'me"

definition VideoOrientationURI :: string where "VideoOrientationURI = ''urn:3gpp:video-orientation''"
definition VideoOrientationID :: int where "VideoOrientationID = 8"
definition TimeOffsetURI :: string where "TimeOffsetURI = ''urn:ietf:params:rtp-hdrext:toffset''"
definition TimeOffsetID :: int where "TimeOffsetID = 9"

section \<open>Codecs and extensions of the server\<close>

definition make_codec ::
  "string \<Rightarrow> u32 \<Rightarrow> u16 \<Rightarrow> string \<Rightarrow> rtcp_feedback list \<Rightarrow> u8 \<Rightarrow> codec_parameters"
where
  "make_codec mime rate channels fmtp fbs pt =
     \<lparr>CodecCapability = \<lparr>MimeType = mime, CodecClockRate = rate, CodecChannels = channels, SDPFmtpLine = fmtp,
        RTCPFeedback = fbs\<rparr>, CodecPayloadType = pt\<rparr>"

definition get_codecs_for_kind :: "media_consts \<Rightarrow> media_kind \<Rightarrow> codec_parameters list" where
  "get_codecs_for_kind mc kind = (case kind of
     CodecAudio \<Rightarrow> [make_codec (mcOpus mc) 48000 2 ''minptime=20;useinbandfec=1'' [] 111]
   | CodecVideo \<Rightarrow>
       (let fb = [\<lparr>fbType = mcGoogREMB mc, fbParameter = []\<rparr>, \<lparr>fbType = mcTransportCC mc, fbParameter = []\<rparr>,
          \<lparr>fbType = mcCCM mc, fbParameter = ''fir''\<rparr>, \<lparr>fbType = mcNACK mc, fbParameter = []\<rparr>,
          \<lparr>fbType = mcNACK mc, fbParameter = ''pli''\<rparr>]
        in [make_codec (mcVP8 mc) 90000 0 [] fb 96, make_codec ''video/rtx'' 90000 0 ''apt=96'' [] 97])
   | CodecUnknown \<Rightarrow> [])"

definition get_header_extension_for_kind :: "media_consts \<Rightarrow> media_kind \<Rightarrow> header_extension list" where
  "get_header_extension_for_kind mc kind = (case kind of
     CodecAudio \<Rightarrow> [\<lparr>extURI = mcMidURI mc, extID = 1\<rparr>, \<lparr>extURI = mcAbsSendTimeURI mc, extID = 3\<rparr>,
       \<lparr>extURI = mcAudioLevelURI mc, extID = 10\<rparr>]
   | CodecVideo \<Rightarrow> [\<lparr>extURI = mcMidURI mc, extID = 1\<rparr>, \<lparr>extURI = mcAbsSendTimeURI mc, extID = 3\<rparr>,
       \<lparr>extURI = mcTransportCCURI mc, extID = 5\<rparr>,
       \<lparr>extURI = ''urn:ietf:params:rtp-hdrext:framemarking'', extID = 7\<rparr>,
       \<lparr>extURI = VideoOrientationURI, extID = VideoOrientationID\<rparr>, \<lparr>extURI = TimeOffsetURI, extID = TimeOffsetID\<rparr>]
   | CodecUnknown \<Rightarrow> [])"

definition default_extension :: "string \<Rightarrow> header_extension \<Rightarrow> ortc_extension_capability" where
  "default_extension kind h = \<lparr>capURI = extURI h, capExtKind = kind, capPreferredID = extID h, capPreferredEncrypt = False\<rparr>"

definition default_codec :: "string \<Rightarrow> codec_parameters \<Rightarrow> 'a ortc_codec_capability option" where
  "default_codec kind c = do {
     ps \<leftarrow> fmtp_to_parameters (SDPFmtpLine (CodecCapability c));
     Some \<lparr>capMimeType = MimeType (CodecCapability c), capPreferredPayloadType = CodecPayloadType c,
       capClockRate = CodecClockRate (CodecCapability c), capChannels = CodecChannels (CodecCapability c),
       capMaxptime = 0, capPtime = 0, capFmtp = [], capFeedback = feedback_to_ortc (RTCPFeedback (CodecCapability c)),
       capKind = kind, capParameters = ps\<rparr> }"

definition default_router_capabilities :: "media_consts \<Rightarrow> 'a ortc_capabilities option" where
  "default_router_capabilities mc = do {
     acodecs \<leftarrow> map_panic (default_codec ''audio'') (get_codecs_for_kind mc AudioMediaKind);
     vcodecs \<leftarrow> map_panic (default_codec ''video'') (get_codecs_for_kind mc VideoMediaKind);
     Some \<lparr>capCodecs = acodecs @ vcodecs,
       capHeaderExtensions = map (default_extension ''audio'') (get_header_extension_for_kind mc AudioMediaKind) @
         map (default_extension ''video'') (get_header_extension_for_kind mc VideoMediaKind)\<rparr> }"

section \<open>Setting up an engine\<close>

text \<open>A loop that registers entries until one fails.\<close>

fun register_all :: "('x \<Rightarrow> 'me \<Rightarrow> bool \<times> 'me) \<Rightarrow> 'x list \<Rightarrow> 'me \<Rightarrow> bool \<times> 'me" where
  "register_all reg [] me = (True, me)"
| "register_all reg (x # xs) me = (case reg x me of (False, me) \<Rightarrow> (False, me) | (True, me) \<Rightarrow> register_all reg xs me)"

definition without_transport_cc :: "codec_parameters \<Rightarrow> codec_parameters" where
  "without_transport_cc c = c\<lparr>CodecCapability := (CodecCapability c)\<lparr>RTCPFeedback :=
     filter (\<lambda>fb. fbType fb \<noteq> ''transport-cc'') (RTCPFeedback (CodecCapability c))\<rparr>\<rparr>"

definition setup_consumer_media_engine ::
  "'me engine_lib \<Rightarrow> media_consts \<Rightarrow> rtp_parameters \<Rightarrow> codec_type \<Rightarrow> 'me \<Rightarrow> bool \<times> 'me"
where
  "setup_consumer_media_engine el mc p kind me =
     (case register_all (\<lambda>c. registerCodec el (without_transport_cc c) kind) (Codecs p) me of
        (False, me) \<Rightarrow> (False, me)
      | (True, me) \<Rightarrow> register_all (\<lambda>h me. if extURI h = mcTransportCCURI mc then (True, me)
          else registerExtension el (extURI h) kind me) (HeaderExtensions p) me)"

definition setup_producer_media_engine ::
  "'me engine_lib \<Rightarrow> media_consts \<Rightarrow> media_kind \<Rightarrow> 'me \<Rightarrow> bool \<times> 'me"
where
  "setup_producer_media_engine el mc kind me =
     (case register_all (\<lambda>c. registerCodec el c kind) (get_codecs_for_kind mc kind) me of
        (False, me) \<Rightarrow> (False, me)
      | (True, me) \<Rightarrow> register_all (\<lambda>h. registerExtension el (extURI h) kind) (get_header_extension_for_kind mc kind) me)"

definition remove_rtx_codecs :: "rtp_parameters \<Rightarrow> rtp_parameters" where
  "remove_rtx_codecs p = p\<lparr>Codecs := filter (\<lambda>c. \<not> contains (MimeType (CodecCapability c)) ''rtx'') (Codecs p)\<rparr>"

section \<open>The capabilities of a router\<close>

lemma default_fmtp:
  "fmtp_to_parameters ''minptime=20;useinbandfec=1'' = Some [''minptime'' \<mapsto> AnyInt 20, ''useinbandfec'' \<mapsto> AnyInt 1]"
  "fmtp_to_parameters ''apt=96'' = Some [''apt'' \<mapsto> AnyInt 96]"
  "fmtp_to_parameters [] = Some Map.empty"
  by (simp_all add: fmtp_to_parameters_def parse_entry_def trim_space_def is_space_def atoi_def digit_value_def Let_def)


section \<open>The engine of a consumer\<close>

lemma register_all_cong:
  "(\<And>x me. x \<in> set xs \<Longrightarrow> reg x me = reg' x me) \<Longrightarrow> register_all reg xs me = register_all reg' xs me"
  by (induction xs arbitrary: me) (auto split: prod.split bool.split)

text \<open>
  The engine of a consumer never gets transport-wide feedback: two ways of registering that differ only
  on codecs with that feedback and on the extension of the transport-wide number give the same engine.
\<close>

lemma consumer_engine_filtered:
  assumes "\<And>c k me. list_all (\<lambda>fb. fbType fb \<noteq> ''transport-cc'') (RTCPFeedback (CodecCapability c)) \<Longrightarrow>
      registerCodec el c k me = registerCodec el' c k me"
    and "\<And>uri k me. uri \<noteq> mcTransportCCURI mc \<Longrightarrow> registerExtension el uri k me = registerExtension el' uri k me"
  shows "setup_consumer_media_engine el mc p kind me = setup_consumer_media_engine el' mc p kind me"
proof -
  have "registerCodec el (without_transport_cc c) kind me = registerCodec el' (without_transport_cc c) kind me" for c me
    by (rule assms(1)) (simp add: without_transport_cc_def list_all_iff)
  then have "register_all (\<lambda>c. registerCodec el (without_transport_cc c) kind) (Codecs p) me =
      register_all (\<lambda>c. registerCodec el' (without_transport_cc c) kind) (Codecs p) me"
    by (intro register_all_cong) simp
  moreover have "register_all (\<lambda>h me. if extURI h = mcTransportCCURI mc then (True, me)
        else registerExtension el (extURI h) kind me) (HeaderExtensions p) me =
      register_all (\<lambda>h me. if extURI h = mcTransportCCURI mc then (True, me)
        else registerExtension el' (extURI h) kind me) (HeaderExtensions p) me" for me
    by (intro register_all_cong) (simp add: assms(2))
  ultimately show ?thesis by (auto simp: setup_consumer_media_engine_def split: prod.split bool.split)
qed

end
