(* ===== verification/Factory.thy ===== *)
theory Factory
  imports Buffer Interfaces
begin

text \<open>
  \<^verbatim>\<open>pkg/buffer/factory.go\<close> and \<^verbatim>\<open>pkg/buffer/rtcpreader.go\<close>: the transport asks the factory for the buffer
  or the RTCP reader of a source; it makes one when there is none, and forgets it when it is closed.
  \<^verbatim>\<open>panic_free\<close> is interpreted on the runs of the factory.
\<close>

section \<open>Readers of RTCP\<close>

text \<open>
  A reader has no queue: it hands each packet to the handler that was installed last. A handler is
  named by the object whose method it is.
\<close>

datatype packet_handler = ToProducer nat | ToConsumer nat

record rtcp_reader =
  rdSSRC :: u32
  rdClosed :: bool
  rdOnPacket :: "packet_handler option"
  rdHasClose :: bool

definition new_rtcp_reader :: "u32 \<Rightarrow> rtcp_reader" where
  "new_rtcp_reader ssrc = \<lparr>rdSSRC = ssrc, rdClosed = False, rdOnPacket = None, rdHasClose = False\<rparr>"

text \<open>The error of a write, or the handler that gets the packet, if there is one.\<close>

definition reader_write :: "rtcp_reader \<Rightarrow> read_error + packet_handler option" where
  "reader_write r = (if rdClosed r then Inl EOF else Inr (rdOnPacket r))"

definition reader_on_close :: "rtcp_reader \<Rightarrow> rtcp_reader" where
  "reader_on_close r = r\<lparr>rdHasClose := True\<rparr>"

definition reader_on_packet :: "packet_handler \<Rightarrow> rtcp_reader \<Rightarrow> rtcp_reader" where
  "reader_on_packet h r = r\<lparr>rdOnPacket := Some h\<rparr>"

text \<open>The flag tells that the close handler was called; calling it panics when there is none.\<close>

definition reader_close :: "rtcp_reader \<Rightarrow> (bool \<times> rtcp_reader) option" where
  "reader_close r =
     (if rdClosed r then Some (False, r)
      else if \<not> rdHasClose r then None else Some (True, r\<lparr>rdClosed := True\<rparr>))"

section \<open>The factory\<close>

text \<open>
  The buffers and readers live on a heap, here two lists that only grow; the maps of the factory hold
  their positions.
\<close>

datatype packet_type = RTPBufferPacket | RTCPBufferPacket | OtherBufferPacket

datatype io_handle = BufferHandle nat | ReaderHandle nat

record ('bk, 'nq, 'tw) factory =
  fcBuffers :: "u32 \<rightharpoonup> nat"
  fcReaders :: "u32 \<rightharpoonup> nat"
  fcBufferHeap :: "('bk, 'nq, 'tw) buffer list"
  fcReaderHeap :: "rtcp_reader list"

definition create_buffer_factory :: "('bk, 'nq, 'tw) factory" where
  "create_buffer_factory = \<lparr>fcBuffers = Map.empty, fcReaders = Map.empty, fcBufferHeap = [], fcReaderHeap = []\<rparr>"

definition get_or_new ::
  "packet_type \<Rightarrow> u32 \<Rightarrow> ('bk, 'nq, 'tw) factory \<Rightarrow> io_handle option \<times> ('bk, 'nq, 'tw) factory"
where
  "get_or_new pt ssrc f = (case pt of
     RTCPBufferPacket \<Rightarrow>
       (case fcReaders f ssrc of Some r \<Rightarrow> (Some (ReaderHandle r), f)
        | None \<Rightarrow>
            let n = length (fcReaderHeap f) in
            (Some (ReaderHandle n), f\<lparr>fcReaderHeap := fcReaderHeap f @ [reader_on_close (new_rtcp_reader ssrc)],
               fcReaders := (fcReaders f)(ssrc \<mapsto> n)\<rparr>))
   | RTPBufferPacket \<Rightarrow>
       (case fcBuffers f ssrc of Some b \<Rightarrow> (Some (BufferHandle b), f)
        | None \<Rightarrow>
            let n = length (fcBufferHeap f) in
            (Some (BufferHandle n), f\<lparr>fcBufferHeap := fcBufferHeap f @ [on_close (new_buffer ssrc)],
               fcBuffers := (fcBuffers f)(ssrc \<mapsto> n)\<rparr>))
   | OtherBufferPacket \<Rightarrow> (None, f))"

definition get_buffer_pair :: "u32 \<Rightarrow> ('bk, 'nq, 'tw) factory \<Rightarrow> nat option \<times> nat option" where
  "get_buffer_pair ssrc f = (fcBuffers f ssrc, fcReaders f ssrc)"

definition get_buffer :: "u32 \<Rightarrow> ('bk, 'nq, 'tw) factory \<Rightarrow> nat option" where
  "get_buffer ssrc f = fcBuffers f ssrc"

definition get_rtcp_reader :: "u32 \<Rightarrow> ('bk, 'nq, 'tw) factory \<Rightarrow> nat option" where
  "get_rtcp_reader ssrc f = fcReaders f ssrc"

text \<open>
  Closing an object of the heap; the handler that the factory installed deletes the entry of the map.
\<close>

definition factory_close_buffer :: "gotime \<Rightarrow> nat \<Rightarrow> ('bk, 'nq, 'tw) factory \<Rightarrow> ('bk, 'nq, 'tw) factory option" where
  "factory_close_buffer now n f = do {
     b \<leftarrow> go_index (fcBufferHeap f) (int n);
     let f' = f\<lparr>fcBufferHeap := (fcBufferHeap f)[n := buffer_close now b]\<rparr>;
     Some (if \<not> bClosed b \<and> bHasClose b then f'\<lparr>fcBuffers := (fcBuffers f')(bMediaSSRC b := None)\<rparr> else f') }"

definition factory_close_reader :: "nat \<Rightarrow> ('bk, 'nq, 'tw) factory \<Rightarrow> ('bk, 'nq, 'tw) factory option" where
  "factory_close_reader n f = do {
     r \<leftarrow> go_index (fcReaderHeap f) (int n);
     (called, r) \<leftarrow> reader_close r;
     let f = f\<lparr>fcReaderHeap := (fcReaderHeap f)[n := r]\<rparr>;
     Some (if called then f\<lparr>fcReaders := (fcReaders f)(rdSSRC r := None)\<rparr> else f) }"

text \<open>Any other operation on a buffer or a reader of the heap.\<close>

definition factory_on_buffer ::
  "(('bk, 'nq, 'tw) buffer \<Rightarrow> ('bk, 'nq, 'tw) buffer option) \<Rightarrow> nat \<Rightarrow> ('bk, 'nq, 'tw) factory \<Rightarrow> ('bk, 'nq, 'tw) factory option"
where
  "factory_on_buffer op n f = do {
     b \<leftarrow> go_index (fcBufferHeap f) (int n);
     b \<leftarrow> op b;
     Some (f\<lparr>fcBufferHeap := (fcBufferHeap f)[n := b]\<rparr>) }"

definition factory_on_packet :: "packet_handler \<Rightarrow> nat \<Rightarrow> ('bk, 'nq, 'tw) factory \<Rightarrow> ('bk, 'nq, 'tw) factory option" where
  "factory_on_packet h n f = do {
     r \<leftarrow> go_index (fcReaderHeap f) (int n);
     Some (f\<lparr>fcReaderHeap := (fcReaderHeap f)[n := reader_on_packet h r]\<rparr>) }"

section \<open>One live object for each source\<close>

text \<open>
  The entries of the maps are exactly the live objects: an entry names an object of its source that is
  not closed, and every object that is not closed is the entry of its source.
\<close>

definition live_entries :: "(u32 \<rightharpoonup> nat) \<Rightarrow> (u32 \<times> bool) list \<Rightarrow> bool" where
  "live_entries m objs \<longleftrightarrow>
     (\<forall>ssrc n. m ssrc = Some n \<longleftrightarrow> n < length objs \<and> objs ! n = (ssrc, False))"

definition buffer_tag :: "('bk, 'nq, 'tw) buffer \<Rightarrow> u32 \<times> bool" where
  "buffer_tag b = (bMediaSSRC b, bClosed b)"

definition reader_tag :: "rtcp_reader \<Rightarrow> u32 \<times> bool" where
  "reader_tag r = (rdSSRC r, rdClosed r)"

definition factory_ok :: "('bk, 'nq, 'tw) factory \<Rightarrow> bool" where
  "factory_ok f \<longleftrightarrow> live_entries (fcBuffers f) (map buffer_tag (fcBufferHeap f)) \<and>
     live_entries (fcReaders f) (map reader_tag (fcReaderHeap f)) \<and>
     list_all bHasClose (fcBufferHeap f) \<and> list_all rdHasClose (fcReaderHeap f)"

lemma live_entriesD: "live_entries m objs \<Longrightarrow> m ssrc = Some n \<longleftrightarrow> n < length objs \<and> objs ! n = (ssrc, False)"
  by (simp add: live_entries_def)

lemma live_entries_add:
  assumes "live_entries m objs" and "m ssrc = None"
  shows "live_entries (m(ssrc \<mapsto> length objs)) (objs @ [(ssrc, False)])"
proof -
  have "\<not> (n < length objs \<and> objs ! n = (ssrc, False))" for n
    using live_entriesD [OF assms(1), of ssrc n] assms(2) by simp
  then show ?thesis
    unfolding live_entries_def by (auto simp: nth_append less_Suc_eq live_entriesD [OF assms(1)])
qed

lemma live_entries_close:
  assumes "live_entries m objs" and "n < length objs" and "objs ! n = (ssrc, False)"
  shows "live_entries (m(ssrc := None)) (objs[n := (ssrc, True)])"
proof -
  have "m ssrc = Some n" using assms live_entriesD by blast
  then have "k = n" if "k < length objs" "objs ! k = (ssrc, False)" for k
    using live_entriesD [OF assms(1), of ssrc k] that by simp
  then show ?thesis
    unfolding live_entries_def using assms(3) by (auto simp: nth_list_update assms(2) live_entriesD [OF assms(1)] split: if_splits)
qed

lemma live_entries_same: "objs ! n = x \<Longrightarrow> live_entries m objs \<Longrightarrow> live_entries m (objs[n := x])"
  by (metis list_update_id)

lemma buffer_close_tag:
  "bMediaSSRC (buffer_close now b) = bMediaSSRC b" "bClosed (buffer_close now b)" "bHasClose (buffer_close now b) = bHasClose b"
  by (simp_all add: buffer_close_def buffer_call_def buffer_tag_def Let_def)

lemma go_index_mem: "go_index xs i = Some x \<Longrightarrow> x \<in> set xs"
  by (auto simp: go_index_eq_Some_iff)

lemma factory_ok_create: "factory_ok create_buffer_factory"
  by (simp add: factory_ok_def create_buffer_factory_def live_entries_def)

lemma get_or_new_ok:
  fixes f :: "('bk, 'nq, 'tw) factory"
  assumes "factory_ok f"
  shows "factory_ok (snd (get_or_new pt ssrc f))"
proof (cases pt)
  case RTPBufferPacket
  have "buffer_tag (on_close (new_buffer ssrc :: ('bk, 'nq, 'tw) buffer)) = (ssrc, False)"
    by (simp add: buffer_tag_def on_close_def new_buffer_def)
  moreover have "bHasClose (on_close (new_buffer ssrc :: ('bk, 'nq, 'tw) buffer))" by (simp add: on_close_def)
  ultimately show ?thesis
    using assms RTPBufferPacket live_entries_add [of "fcBuffers f" "map buffer_tag (fcBufferHeap f)" ssrc]
    by (cases "fcBuffers f ssrc") (simp_all add: get_or_new_def factory_ok_def Let_def)
next
  case RTCPBufferPacket
  have "reader_tag (reader_on_close (new_rtcp_reader ssrc)) = (ssrc, False)"
    by (simp add: reader_tag_def reader_on_close_def new_rtcp_reader_def)
  moreover have "rdHasClose (reader_on_close (new_rtcp_reader ssrc))" by (simp add: reader_on_close_def)
  ultimately show ?thesis
    using assms RTCPBufferPacket live_entries_add [of "fcReaders f" "map reader_tag (fcReaderHeap f)" ssrc]
    by (cases "fcReaders f ssrc") (simp_all add: get_or_new_def factory_ok_def Let_def)
qed (use assms in \<open>simp add: get_or_new_def\<close>)

lemma factory_close_buffer_ok:
  assumes "factory_ok f" and "n < length (fcBufferHeap f)"
  shows "\<exists>f'. factory_close_buffer now n f = Some f' \<and> factory_ok f'"
proof -
  let ?b = "fcBufferHeap f ! n"
  have close: "bHasClose ?b" using assms by (simp add: factory_ok_def list_all_length)
  show ?thesis
  proof (cases "bClosed ?b")
    case True
    then have "buffer_close now ?b = ?b" by (simp add: buffer_close_def)
    then show ?thesis using True assms by (simp add: factory_close_buffer_def go_index_Some)
  next
    case False
    then have "live_entries ((fcBuffers f)(bMediaSSRC ?b := None)) (map buffer_tag ((fcBufferHeap f)[n := buffer_close now ?b]))"
      using assms live_entries_close [of "fcBuffers f" "map buffer_tag (fcBufferHeap f)" n "bMediaSSRC ?b"]
      by (simp add: factory_ok_def map_update buffer_close_tag buffer_tag_def)
    then show ?thesis
      using False assms close by (simp add: factory_close_buffer_def go_index_Some factory_ok_def list_all_update buffer_close_tag)
  qed
qed

lemma factory_close_reader_ok:
  assumes "factory_ok f" and "n < length (fcReaderHeap f)"
  shows "\<exists>f'. factory_close_reader n f = Some f' \<and> factory_ok f'"
proof -
  let ?r = "fcReaderHeap f ! n"
  have close: "rdHasClose ?r" using assms by (simp add: factory_ok_def list_all_length)
  show ?thesis
  proof (cases "rdClosed ?r")
    case True
    then show ?thesis using assms by (simp add: factory_close_reader_def reader_close_def go_index_Some)
  next
    case False
    then have "live_entries ((fcReaders f)(rdSSRC ?r := None)) (map reader_tag ((fcReaderHeap f)[n := ?r\<lparr>rdClosed := True\<rparr>]))"
      using assms live_entries_close [of "fcReaders f" "map reader_tag (fcReaderHeap f)" n "rdSSRC ?r"]
      by (simp add: factory_ok_def map_update reader_tag_def)
    then show ?thesis
      using False assms close by (simp add: factory_close_reader_def reader_close_def go_index_Some factory_ok_def list_all_update)
  qed
qed

section \<open>Runs\<close>

text \<open>An event on an object that does not exist changes nothing.\<close>

datatype ('bk, 'nq, 'tw) factory_event =
    FaGet packet_type u32
  | FaCloseBuffer gotime nat
  | FaCloseReader nat
  | FaOnPacket packet_handler nat
  | FaBuffer "('bk, 'nq, 'tw) buffer \<Rightarrow> ('bk, 'nq, 'tw) buffer option" nat

fun factory_step ::
  "('bk, 'nq, 'tw) factory_event \<Rightarrow> ('bk, 'nq, 'tw) factory \<Rightarrow> ('bk, 'nq, 'tw) factory option"
where
  "factory_step (FaGet pt ssrc) f = Some (snd (get_or_new pt ssrc f))"
| "factory_step (FaCloseBuffer now n) f = (if n < length (fcBufferHeap f) then factory_close_buffer now n f else Some f)"
| "factory_step (FaCloseReader n) f = (if n < length (fcReaderHeap f) then factory_close_reader n f else Some f)"
| "factory_step (FaOnPacket h n) f = (if n < length (fcReaderHeap f) then factory_on_packet h n f else Some f)"
| "factory_step (FaBuffer op n) f = (if n < length (fcBufferHeap f) then factory_on_buffer op n f else Some f)"

text \<open>The other operations on a buffer do not panic, and leave its source, its closing and its handler alone.\<close>

fun factory_event_ok :: "('bk, 'nq, 'tw) factory_event \<Rightarrow> bool" where
  "factory_event_ok (FaBuffer op n) \<longleftrightarrow>
     (\<forall>b. \<exists>b'. op b = Some b' \<and> buffer_tag b' = buffer_tag b \<and> bHasClose b' = bHasClose b)"
| "factory_event_ok _ \<longleftrightarrow> True"

lemma factory_on_packet_ok:
  assumes "factory_ok f" and "n < length (fcReaderHeap f)"
  shows "\<exists>f'. factory_on_packet h n f = Some f' \<and> factory_ok f'"
proof -
  have "rdHasClose (fcReaderHeap f ! n)" using assms by (simp add: factory_ok_def list_all_length)
  then show ?thesis
    using assms live_entries_same [of "map reader_tag (fcReaderHeap f)" n _ "fcReaders f"]
    by (simp add: factory_on_packet_def go_index_Some factory_ok_def map_update reader_tag_def reader_on_packet_def
        list_all_update)
qed

lemma factory_on_buffer_ok:
  assumes "factory_ok f" and "n < length (fcBufferHeap f)" and "factory_event_ok (FaBuffer op n)"
  shows "\<exists>f'. factory_on_buffer op n f = Some f' \<and> factory_ok f'"
proof -
  let ?b = "fcBufferHeap f ! n"
  obtain b' where b': "op ?b = Some b'" "buffer_tag b' = buffer_tag ?b" "bHasClose b' = bHasClose ?b"
    using assms(3) by auto
  have "bHasClose ?b" using assms by (simp add: factory_ok_def list_all_length)
  then show ?thesis
    using assms b' live_entries_same [of "map buffer_tag (fcBufferHeap f)" n _ "fcBuffers f"]
    by (simp add: factory_on_buffer_def go_index_Some factory_ok_def map_update list_all_update)
qed

interpretation factory: panic_free factory_step factory_event_ok factory_ok
proof unfold_locales
  fix f :: "('bk, 'nq, 'tw) factory" and e :: "('bk, 'nq, 'tw) factory_event"
  assume "factory_ok f" and "factory_event_ok e"
  then show "\<exists>f'. factory_step e f = Some f' \<and> factory_ok f'"
    by (cases e) (simp_all add: get_or_new_ok factory_close_buffer_ok factory_close_reader_ok factory_on_packet_ok
        factory_on_buffer_ok del: factory_event_ok.simps(1))
qed



end
