(* ===== verification/DownTrack.thy ===== *)
theory DownTrack
  imports MediaEngine Buffer Sequencer
begin

text \<open>
  \<^verbatim>\<open>pkg/rtc/downtrack.go\<close>: the sending end of a stream. A down track forwards the producer's packets
  under its own sequence numbers and time stamps, answers requests for lost ones from the
  producer's buffer, and takes the subscriber's RTCP. The buffer of the producer is a second part of
  the state of the operations that use it. A goroutine that the code starts is an entry of
  \<open>dtSpawned\<close> and a step of its own.
\<close>

section \<open>What the track takes from other packages\<close>

text \<open>
  The buffer's packages, and of pion: the header extensions, the transport's writer (whether it
  accepts a packet), the RTCP parser and the codecs' constants.
\<close>

record ('bk, 'nq, 'tw) track_lib =
  tlMedia :: "('bk, 'nq, 'tw) media_lib"
  setExtension :: "u8 \<Rightarrow> u8 list \<Rightarrow> rtp_header \<Rightarrow> rtp_header option"
  absSendTime :: "gotime \<Rightarrow> u8 list option"
  transportCCBytes :: "u16 \<Rightarrow> u8 list option"
  packetList :: "nack_pair \<Rightarrow> u16 list"
  rtcpUnmarshal :: "u8 list \<Rightarrow> rtcp_packet list option"
  writeRTP :: "rtp_header \<Rightarrow> u8 list \<Rightarrow> bool"
  toNtp :: "gotime \<Rightarrow> u64"
  uriSdesMid :: string
  uriAbsSendTime :: string

definition maxPadding :: int where "maxPadding = 2000"
definition MidMaxLength :: u8 where "MidMaxLength = 8"
definition VideoOrientationExtensionID :: u8 where "VideoOrientationExtensionID = 8"

text \<open>The size of the slices of \<open>packetFactory\<close>.\<close>

definition packetFactorySize :: int where "packetFactorySize = 1460"

section \<open>State\<close>

datatype track_call =
    CallOnBind
  | CallOnClose
  | CallOnREMB gofloat
  | CallOnTransportCC
  | CallReaderClosed

record down_track =
  dtId :: string
  dtBound :: bool
  dtMime :: string
  dtSSRC :: u32
  dtStreamID :: string
  dtMid :: string
  dtMaxTrack :: int
  dtPayloadType :: u8
  dtSequencer :: "sequencer option"
  dtStarted :: bool
  dtHasReader :: bool
  dtEnabled :: bool
  dtSyncRequired :: bool
  dtSnOffset :: u16
  dtTsOffset :: u32
  dtLastSN :: u16
  dtLastTS :: u32
  dtTwccSN :: u32
  dtCodec :: codec_capability
  dtEnabledHeaders :: "header_extension list"
  dtHasClose :: bool
  dtHasBind :: bool
  dtHasTransportCC :: bool
  dtHasREMB :: bool
  dtRtpStats :: rtp_stats
  dtDeltaId :: u32
  dtSent :: "(rtp_header \<times> u8 list) list"
  dtCalls :: "track_call list"
  dtSpawned :: "u16 list list"

text \<open>
  \<open>NewDownTrack\<close>; the random identifier and the stream of the producer are arguments. \<open>dtSent\<close> is
  what the transport accepted, \<open>dtCalls\<close> the calls of the installed handlers, \<open>dtSpawned\<close> the
  requests whose goroutine has not run yet.
\<close>

definition new_down_track ::
  "gotime \<Rightarrow> string \<Rightarrow> string \<Rightarrow> u64 \<Rightarrow> codec_capability \<Rightarrow> int \<Rightarrow> down_track"
where
  "new_down_track now ident streamID mid c mt =
     (let r = new_rtp_stats \<lparr>ClockRate = CodecClockRate c, IsReceiverReportDriven = True\<rparr>;
          (deltaId, r) = new_snapshot_id now r
      in \<lparr>dtId = ident, dtBound = False, dtMime = [], dtSSRC = 0, dtStreamID = streamID,
        dtMid = itoa (sint mid), dtMaxTrack = mt, dtPayloadType = 0, dtSequencer = None, dtStarted = False,
        dtHasReader = False, dtEnabled = False, dtSyncRequired = False, dtSnOffset = 0, dtTsOffset = 0,
        dtLastSN = 0, dtLastTS = 0, dtTwccSN = 0, dtCodec = c, dtEnabledHeaders = [], dtHasClose = False,
        dtHasBind = False, dtHasTransportCC = False, dtHasREMB = False, dtRtpStats = r, dtDeltaId = deltaId,
        dtSent = [], dtCalls = [], dtSpawned = []\<rparr>)"

definition track_call :: "track_call \<Rightarrow> down_track \<Rightarrow> down_track" where
  "track_call c d = d\<lparr>dtCalls := dtCalls d @ [c]\<rparr>"

definition track_kind :: "down_track \<Rightarrow> codec_type" where
  "track_kind d =
     (if has_prefix (MimeType (dtCodec d)) ''audio/'' then CodecAudio
      else if has_prefix (MimeType (dtCodec d)) ''video/'' then CodecVideo
      else CodecUnknown)"

section \<open>Binding and closing\<close>

text \<open>\<open>codecParametersFuzzySearch\<close>; \<open>None\<close> is its error.\<close>

definition codec_fuzzy_search :: "codec_parameters \<Rightarrow> codec_parameters list \<Rightarrow> codec_parameters option" where
  "codec_fuzzy_search needle haystack =
     (case find (\<lambda>c. equal_fold (MimeType (CodecCapability c)) (MimeType (CodecCapability needle)) \<and>
          SDPFmtpLine (CodecCapability c) = SDPFmtpLine (CodecCapability needle)) haystack of
        Some c \<Rightarrow> Some c
      | None \<Rightarrow> find (\<lambda>c. equal_fold (MimeType (CodecCapability c)) (MimeType (CodecCapability needle))) haystack)"

record track_context =
  ctxSSRC :: u32
  ctxCodecs :: "codec_parameters list"
  ctxHeaders :: "header_extension list"

definition track_bind ::
  "gotime \<Rightarrow> track_context \<Rightarrow> down_track \<Rightarrow> (codec_parameters option \<times> down_track) option"
where
  "track_bind now t d =
     (case codec_fuzzy_search \<lparr>CodecCapability = dtCodec d, CodecPayloadType = 0\<rparr> (ctxCodecs t) of
        None \<Rightarrow> Some (None, d)
      | Some codec \<Rightarrow> do {
          let d = d\<lparr>dtSSRC := ctxSSRC t, dtPayloadType := CodecPayloadType codec,
            dtMime := to_lower (MimeType (CodecCapability codec)), dtSyncRequired := True,
            dtEnabled := True, dtHasReader := True\<rparr>;
          d \<leftarrow> (if track_kind d = CodecVideo then do {
              s \<leftarrow> new_sequencer now (dtMaxTrack d) maxPadding;
              Some (d\<lparr>dtSequencer := Some s\<rparr>) }
            else Some d);
          let d = (if dtHasBind d then track_call CallOnBind d else d);
          Some (Some codec, d\<lparr>dtBound := True, dtEnabledHeaders := ctxHeaders t\<rparr>) })"

definition track_unbind :: "down_track \<Rightarrow> down_track" where
  "track_unbind d = d\<lparr>dtBound := False\<rparr>"

definition mute :: "bool \<Rightarrow> down_track \<Rightarrow> down_track" where
  "mute val d = (if dtEnabled d \<noteq> val then d else d\<lparr>dtEnabled := \<not> val, dtSyncRequired := True\<rparr>)"

definition track_close :: "gotime \<Rightarrow> down_track \<Rightarrow> down_track" where
  "track_close now d =
     (if \<not> dtBound d then d
      else
        let d = d\<lparr>dtBound := False, dtRtpStats := stop now (dtRtpStats d)\<rparr>;
            d = (if dtHasReader d then track_call CallReaderClosed d else d)
        in if dtHasClose d then track_call CallOnClose d else d)"

section \<open>Forwarding\<close>

text \<open>
  One negotiated extension: the header, or the error the code returns, and the counter of the
  transport-wide numbers, which counts the packets that fail, too.
\<close>

definition forward_extension ::
  "('bk, 'nq, 'tw) track_lib \<Rightarrow> gotime \<Rightarrow> string \<Rightarrow> u8 list \<Rightarrow> header_extension \<Rightarrow> u32 \<Rightarrow> rtp_header
   \<Rightarrow> rtp_header option \<times> u32"
where
  "forward_extension lib now mid orientation ext twcc hdr =
     (let eid = word_of_int (extID ext) in
      if extURI ext = uriSdesMid lib then
        if length mid > unat MidMaxLength then (None, twcc)
        else (setExtension lib eid (string_bytes mid) hdr, twcc)
      else if extURI ext = uriAbsSendTime lib then
        case absSendTime lib now of None \<Rightarrow> (Some hdr, twcc)
        | Some b \<Rightarrow> (setExtension lib eid b hdr, twcc)
      else if extURI ext = uriTransportCC (tlMedia lib) then
        case transportCCBytes lib (ucast twcc) of None \<Rightarrow> (Some hdr, twcc + 1)
        | Some b \<Rightarrow> (setExtension lib eid b hdr, twcc + 1)
      else if extURI ext = VideoOrientationURI then
        if orientation \<noteq> [] then (setExtension lib VideoOrientationExtensionID orientation hdr, twcc)
        else (Some hdr, twcc)
      else (Some hdr, twcc))"

fun forward_extensions ::
  "('bk, 'nq, 'tw) track_lib \<Rightarrow> gotime \<Rightarrow> string \<Rightarrow> u8 list \<Rightarrow> header_extension list \<Rightarrow> u32 \<Rightarrow> rtp_header
   \<Rightarrow> rtp_header option \<times> u32"
where
  "forward_extensions lib now mid orientation [] twcc hdr = (Some hdr, twcc)"
| "forward_extensions lib now mid orientation (ext # exts) twcc hdr =
     (case forward_extension lib now mid orientation ext twcc hdr of
        (None, twcc) \<Rightarrow> (None, twcc)
      | (Some hdr, twcc) \<Rightarrow> forward_extensions lib now mid orientation exts twcc hdr)"

definition forwarded_header :: "down_track \<Rightarrow> u32 \<Rightarrow> u16 \<Rightarrow> rtp_header \<Rightarrow> rtp_header" where
  "forwarded_header d ts sn hdr = hdr\<lparr>PayloadType := dtPayloadType d, Timestamp := ts, SequenceNumber := sn,
     SSRC := dtSSRC d, Extension := False, ExtensionProfile := 0, Extensions := []\<rparr>"

definition prepare_rtp_header ::
  "('bk, 'nq, 'tw) track_lib \<Rightarrow> gotime \<Rightarrow> rtp_header \<Rightarrow> u32 \<Rightarrow> u16 \<Rightarrow> down_track \<Rightarrow> rtp_header option \<times> down_track"
where
  "prepare_rtp_header lib now hdr ts sn d =
     (let orientation = (case getExtension (tlMedia lib) VideoOrientationExtensionID hdr of
            None \<Rightarrow> [] | Some (e, _) \<Rightarrow> e);
          (res, twcc) = forward_extensions lib now (dtMid d) orientation (dtEnabledHeaders d) (dtTwccSN d)
            (forwarded_header d ts sn hdr)
      in (res, d\<lparr>dtTwccSN := twcc\<rparr>))"

text \<open>Writing to the transport, and counting the packet in the statistics when it is accepted.\<close>

definition send_rtp ::
  "('bk, 'nq, 'tw) track_lib \<Rightarrow> gotime \<Rightarrow> rtp_header \<Rightarrow> u8 list \<Rightarrow> down_track \<Rightarrow> (bool \<times> down_track) option"
where
  "send_rtp lib now hdr payload d =
     (if \<not> writeRTP lib hdr payload then Some (False, d)
      else do {
        (_, r) \<leftarrow> rtp_update (libMarshalSize (tlMedia lib)) now hdr (int (length payload)) 0 (unix_nano now)
          (dtRtpStats d);
        Some (True, d\<lparr>dtRtpStats := r, dtSent := dtSent d @ [(hdr, payload)]\<rparr>) })"

definition synchronize :: "ext_packet \<Rightarrow> down_track \<Rightarrow> down_track" where
  "synchronize ep d =
     (let h = Header (Packet ep);
          d = (if dtLastSN d \<noteq> 0 then d\<lparr>dtSnOffset := SequenceNumber h - dtLastSN d - 1,
            dtTsOffset := Timestamp h - dtLastTS d - 1\<rparr> else d)
      in d\<lparr>dtSyncRequired := False\<rparr>)"

definition forward ::
  "('bk, 'nq, 'tw) track_lib \<Rightarrow> gotime \<Rightarrow> ext_packet \<Rightarrow> down_track \<Rightarrow> (bool \<times> down_track) option"
where
  "forward lib now ep d = do {
     let h = Header (Packet ep);
     let newSN = SequenceNumber h - dtSnOffset d;
     let newTS = Timestamp h - dtTsOffset d;
     d \<leftarrow> (case dtSequencer d of None \<Rightarrow> Some d
       | Some s \<Rightarrow> do {
           (_, s) \<leftarrow> sq_push (SequenceNumber h) newSN newTS 0 s;
           Some (d\<lparr>dtSequencer := Some s\<rparr>) });
     let d = (if \<not> dtStarted d then d\<lparr>dtLastSN := newSN, dtLastTS := newTS, dtStarted := True\<rparr> else d);
     case prepare_rtp_header lib now h newTS newSN d of
       (None, d) \<Rightarrow> Some (False, d)
     | (Some hdr, d) \<Rightarrow> send_rtp lib now hdr (Payload (Packet ep)) d }"

text \<open>The result tells whether the code returned without an error.\<close>

definition write_simple_rtp ::
  "('bk, 'nq, 'tw) track_lib \<Rightarrow> gotime \<Rightarrow> ext_packet \<Rightarrow> down_track \<Rightarrow> ('bk, 'nq, 'tw) buffer
   \<Rightarrow> (bool \<times> down_track \<times> ('bk, 'nq, 'tw) buffer) option"
where
  "write_simple_rtp lib now ep d b =
     (if dtSyncRequired d \<and> track_kind d = CodecVideo \<and> \<not> KeyFrame ep then do {
        b \<leftarrow> send_pli True now b;
        Some (True, d, b) }
      else do {
        (ok, d) \<leftarrow> forward lib now ep (if dtSyncRequired d then synchronize ep d else d);
        Some (ok, d, b) })"

definition write_rtp ::
  "('bk, 'nq, 'tw) track_lib \<Rightarrow> gotime \<Rightarrow> ext_packet \<Rightarrow> down_track \<Rightarrow> ('bk, 'nq, 'tw) buffer
   \<Rightarrow> (bool \<times> down_track \<times> ('bk, 'nq, 'tw) buffer) option"
where
  "write_rtp lib now ep d b =
     (if \<not> dtEnabled d \<or> \<not> dtBound d then Some (True, d, b) else write_simple_rtp lib now ep d b)"

section \<open>Retransmission\<close>

record retransmission =
  rxTrack :: down_track
  rxAcks :: u32
  rxMisses :: u32
  rxRepeated :: u32

text \<open>One packet of the answer; the flag tells that the loop goes on.\<close>

definition retransmit_one ::
  "('bk, 'nq, 'tw) track_lib \<Rightarrow> gotime \<Rightarrow> packet_meta \<Rightarrow> ('bk, 'nq, 'tw) buffer \<Rightarrow> retransmission
   \<Rightarrow> (bool \<times> retransmission) option"
where
  "retransmit_one lib now meta b x = do {
     let x = x\<lparr>rxAcks := rxAcks x + 1\<rparr>;
     res \<leftarrow> get_packet (tlMedia lib) packetFactorySize (sourceSeqNo meta) b;
     case res of
       Inl EOF \<Rightarrow> Some (False, x)
     | Inl (BucketError _) \<Rightarrow> Some (True, x\<lparr>rxMisses := rxMisses x + 1\<rparr>)
     | Inr raw \<Rightarrow>
         let x = (if nacked meta > 1 then x\<lparr>rxRepeated := rxRepeated x + 1\<rparr> else x) in
         (case rtpUnmarshal (tlMedia lib) raw of None \<Rightarrow> Some (True, x)
          | Some p \<Rightarrow>
              (case prepare_rtp_header lib now (Header p) (pmTimestamp meta) (targetSeqNo meta) (rxTrack x) of
                 (None, d) \<Rightarrow> Some (True, x\<lparr>rxTrack := d\<rparr>)
               | (Some hdr, d) \<Rightarrow> do {
                   (_, d) \<leftarrow> send_rtp lib now hdr (Payload p) d;
                   Some (True, x\<lparr>rxTrack := d\<rparr>) })) }"

fun retransmit_loop ::
  "('bk, 'nq, 'tw) track_lib \<Rightarrow> gotime \<Rightarrow> packet_meta list \<Rightarrow> ('bk, 'nq, 'tw) buffer \<Rightarrow> retransmission
   \<Rightarrow> retransmission option"
where
  "retransmit_loop lib now [] b x = Some x"
| "retransmit_loop lib now (meta # metas) b x = do {
     (more, x) \<leftarrow> retransmit_one lib now meta b x;
     if more then retransmit_loop lib now metas b x else Some x }"

definition retransmit_packets ::
  "('bk, 'nq, 'tw) track_lib \<Rightarrow> gotime \<Rightarrow> u16 list \<Rightarrow> down_track \<Rightarrow> ('bk, 'nq, 'tw) buffer \<Rightarrow> down_track option"
where
  "retransmit_packets lib now sns d b = (case dtSequencer d of None \<Rightarrow> Some d
     | Some s \<Rightarrow> do {
         (metas, s) \<leftarrow> sq_get_packets_meta now sns s;
         x \<leftarrow> retransmit_loop lib now (map (\<lambda>i. sqMeta s ! i) metas) b
           \<lparr>rxTrack = d\<lparr>dtSequencer := Some s\<rparr>, rxAcks = 0, rxMisses = 0, rxRepeated = 0\<rparr>;
         Some ((rxTrack x)\<lparr>dtRtpStats :=
           update_nack_processed (rxAcks x) (rxMisses x) (rxRepeated x) (dtRtpStats (rxTrack x))\<rparr>) })"

section \<open>Feedback\<close>

record ('bk, 'nq, 'tw) rtcp_state =
  fbTrack :: down_track
  fbBuffer :: "('bk, 'nq, 'tw) buffer"
  fbPliOnce :: bool
  fbRtt :: u32
  fbPLIs :: u32
  fbFIRs :: u32

definition send_pli_once ::
  "gotime \<Rightarrow> ('bk, 'nq, 'tw) rtcp_state \<Rightarrow> ('bk, 'nq, 'tw) rtcp_state option"
where
  "send_pli_once now x =
     (if fbPliOnce x \<and> dtEnabled (fbTrack x) then do {
        b \<leftarrow> send_pli False now (fbBuffer x);
        Some (x\<lparr>fbBuffer := b, fbPliOnce := False,
          fbTrack := (fbTrack x)\<lparr>dtRtpStats := update_pli_time now (dtRtpStats (fbTrack x))\<rparr>\<rparr>) }
      else Some x)"

definition take_report ::
  "('bk, 'nq, 'tw) track_lib \<Rightarrow> gotime \<Rightarrow> reception_report \<Rightarrow> ('bk, 'nq, 'tw) rtcp_state \<Rightarrow> ('bk, 'nq, 'tw) rtcp_state"
where
  "take_report lib now rr x =
     (if rrSSRC rr \<noteq> dtSSRC (fbTrack x) then x
      else case update_from_receiver_report (envGetRtt (libStats (tlMedia lib))) now rr (dtRtpStats (fbTrack x)) of
        ((v, changed), r) \<Rightarrow>
          let x = x\<lparr>fbTrack := (fbTrack x)\<lparr>dtRtpStats := r\<rparr>\<rparr> in
          if changed then x\<lparr>fbRtt := v\<rparr> else x)"

fun handle_rtcp_packet ::
  "('bk, 'nq, 'tw) track_lib \<Rightarrow> gotime \<Rightarrow> rtcp_packet \<Rightarrow> ('bk, 'nq, 'tw) rtcp_state \<Rightarrow> ('bk, 'nq, 'tw) rtcp_state option"
where
  "handle_rtcp_packet lib now (PictureLossIndication s m) x = send_pli_once now (x\<lparr>fbPLIs := fbPLIs x + 1\<rparr>)"
| "handle_rtcp_packet lib now (FullIntraRequest s m) x = send_pli_once now (x\<lparr>fbFIRs := fbFIRs x + 1\<rparr>)"
| "handle_rtcp_packet lib now (ReceiverEstimatedMaximumBitrate bitrate) x =
     Some (if dtHasREMB (fbTrack x) then x\<lparr>fbTrack := track_call (CallOnREMB bitrate) (fbTrack x)\<rparr> else x)"
| "handle_rtcp_packet lib now (ReceiverReport s rrs) x = Some (fold (take_report lib now) rrs x)"
| "handle_rtcp_packet lib now (TransportLayerNack s m pairs) x =
     Some (x\<lparr>fbTrack := (fbTrack x)\<lparr>dtSpawned := dtSpawned (fbTrack x) @ [concat (map (packetList lib) pairs)]\<rparr>\<rparr>)"
| "handle_rtcp_packet lib now (TransportLayerCC s m) x =
     Some (if m = dtSSRC (fbTrack x) \<and> dtHasTransportCC (fbTrack x)
       then x\<lparr>fbTrack := track_call CallOnTransportCC (fbTrack x)\<rparr> else x)"
| "handle_rtcp_packet lib now _ x = Some x"

definition handle_rtcp ::
  "('bk, 'nq, 'tw) track_lib \<Rightarrow> gotime \<Rightarrow> u8 list \<Rightarrow> down_track \<Rightarrow> ('bk, 'nq, 'tw) buffer
   \<Rightarrow> (down_track \<times> ('bk, 'nq, 'tw) buffer) option"
where
  "handle_rtcp lib now raw d b = (case rtcpUnmarshal lib raw of None \<Rightarrow> Some (d, b)
     | Some pkts \<Rightarrow> do {
         x \<leftarrow> run_panic (handle_rtcp_packet lib now) pkts
           \<lparr>fbTrack = d, fbBuffer = b, fbPliOnce = True, fbRtt = 0, fbPLIs = 0, fbFIRs = 0\<rparr>;
         let d = fbTrack x;
         let d = d\<lparr>dtRtpStats := update_fir (fbFIRs x) (update_pli (fbPLIs x) (dtRtpStats d))\<rparr>;
         Some (if fbRtt x \<noteq> 0 then d\<lparr>dtSequencer := map_option (sq_set_rtt (fbRtt x)) (dtSequencer d)\<rparr> else d,
           fbBuffer x) })"

section \<open>Reports\<close>

definition create_source_description :: "down_track \<Rightarrow> (u32 \<times> string) list" where
  "create_source_description d = (if \<not> dtBound d then [] else [(dtSSRC d, dtStreamID d)])"

definition create_sender_report ::
  "('bk, 'nq, 'tw) track_lib \<Rightarrow> gotime \<Rightarrow> down_track \<Rightarrow> ('bk, 'nq, 'tw) buffer \<Rightarrow> sender_report option"
where
  "create_sender_report lib now d b =
     (if \<not> dtBound d then None
      else get_rtcp_sender_report (envNtpTime (libStats (tlMedia lib))) (toNtp lib) now (dtSSRC d)
        (get_sender_report_data_ext b) (dtRtpStats d))"

text \<open>Installing the handlers.\<close>

definition track_on_close :: "down_track \<Rightarrow> down_track" where
  "track_on_close d = d\<lparr>dtHasClose := True\<rparr>"

definition track_on_bind :: "down_track \<Rightarrow> down_track" where
  "track_on_bind d = d\<lparr>dtHasBind := True\<rparr>"

definition on_transport_cc_feedback :: "down_track \<Rightarrow> down_track" where
  "on_transport_cc_feedback d = d\<lparr>dtHasTransportCC := True\<rparr>"

definition on_remb_feedback :: "down_track \<Rightarrow> down_track" where
  "on_remb_feedback d = d\<lparr>dtHasREMB := True\<rparr>"

end
