(* ===== verification/Sfu.thy ===== *)
theory Sfu
  imports Factory DownTrack "HOL-Library.AList"
begin

text \<open>
  The objects of the server: \<^verbatim>\<open>pkg/rtc/sfu.go\<close>, \<^verbatim>\<open>router.go\<close>, \<^verbatim>\<open>webrtc_transport.go\<close>, \<^verbatim>\<open>producer.go\<close>,
  \<^verbatim>\<open>consumer.go\<close>, \<^verbatim>\<open>data_producer.go\<close> and \<^verbatim>\<open>data_consumer.go\<close>. The operations of a router, a transport
  and their streams work on one state, in which the objects refer to each other.
\<close>

section \<open>What the server takes from other packages\<close>

text \<open>
  The packages of the tracks and buffers, the engine of pion, the congestion-control responder, and the
  largest size of a packet.
\<close>

record ('bk, 'nq, 'tw, 'me, 'a) sfu_lib =
  slTrack :: "('bk, 'nq, 'tw) track_lib"
  slEngine :: "'me engine_lib"
  slConsts :: media_consts
  slPrinting :: "'a printing"
  slNewEngine :: 'me
  slNewTwcc :: "u32 \<Rightarrow> 'tw"
  slMaxPktSize :: int

section \<open>State\<close>

datatype id_type = RTPProducerID | DataProducerID | RTPConsumerID | DataConsumerID | MidID

record stream_parameters =
  stMaxPacketLifeTime :: u64
  stMaxRetransmits :: u64
  stOrdered :: bool
  stStreamID :: u64

text \<open>A data channel of pion; what is a pointer there may be absent.\<close>

record data_channel =
  dcLabel :: string
  dcID :: "u16 option"
  dcMaxPacketLifeTime :: "u16 option"
  dcMaxRetransmits :: "u16 option"
  dcOrdered :: bool

text \<open>What pion knows of a transport before it is connected, and what the server tells the client of it.\<close>

record ice_parameters =
  iceFragment :: string
  icePassword :: string
  iceLite :: bool

record local_parameters =
  lpCandidates :: "string list option"
  lpIce :: "ice_parameters option"
  lpDtls :: "string list option"
  lpMaxMessageSize :: u32

record transport_capabilities =
  tcCandidates :: "string list"
  tcIce :: ice_parameters
  tcDtls :: "string list"
  tcMaxMessageSize :: u32
  tcPort :: u16
  tcIsDataChannel :: bool

text \<open>
  The objects live on heaps, lists that only grow; a reference is a position. A Go map is a list of
  pairs, in the order in which a loop meets them; where the code sets a map to \<^verbatim>\<open>nil\<close> it is \<open>None\<close>.
\<close>

record ('tw, 'me) transport =
  tpId :: u64
  tpRouter :: nat
  tpClosed :: bool
  tpCloseOnce :: bool
  tpIds :: "id_type \<rightharpoonup> u64"
  tpProducers :: "(u64 \<times> nat) list option"
  tpConsumers :: "(u64 \<times> nat) list option"
  tpDataProducers :: "(u64 \<times> nat) list"
  tpDataConsumers :: "(u64 \<times> nat) list"
  tpPending :: "(u64 \<times> data_channel) list"
  tpTwcc :: "'tw option"
  tpBwe :: bool
  tpEngine :: 'me
  tpConsuming :: "bool option"
  tpRtcpOut :: "rtcp_packet list list"
  tpCaps :: transport_capabilities
  tpIceUp :: bool
  tpDtlsUp :: bool
  tpSctpUp :: bool

record ('tw, 'a) producer =
  pdId :: u64
  pdTransport :: nat
  pdClosed :: bool
  pdPaused :: bool
  pdParameters :: "'a receive_parameters"
  pdKind :: media_kind
  pdSSRC :: u32
  pdCodec :: codec_capability
  pdEncodings :: "webrtc_encoding list"
  pdReceiving :: rtp_parameters
  pdTwcc :: "'tw option"
  pdTrackID :: string
  pdStreamID :: string
  pdBuffer :: "nat option"
  pdOnRTP :: "nat option"
  pdOnRTCP :: "nat option"
  pdStops :: nat
  pdReading :: bool

record 'a consumer =
  csId :: u64
  csTransport :: nat
  csProducer :: nat
  csClosed :: bool
  csPaused :: bool
  csKind :: media_kind
  csParameters :: "'a send_parameters"
  csTrack :: down_track
  csBitrate :: gofloat

record data_producer =
  dpId :: u64
  dpLabel :: string
  dpParameters :: stream_parameters
  dpChannel :: "data_channel option"
  dpOnMessage :: "nat option"

record data_consumer =
  dqId :: u64
  dqLabel :: string
  dqParameters :: stream_parameters
  dqChannel :: data_channel
  dqTransportConnected :: bool
  dqSctpAssociated :: bool
  dqMaxMessageSize :: u32
  dqMessageSent :: u64
  dqBytesSent :: u64
  dqOut :: "u8 list list"

record 'a router =
  roId :: u64
  roClosed :: bool
  roTransports :: "(u64 \<times> nat) list option"
  roProducers :: "(u64 \<times> nat) list option"
  roConsumers :: "(u64 \<times> nat) list option"
  roDataProducers :: "(u64 \<times> nat) list"
  roDataConsumers :: "(u64 \<times> nat) list"
  roConsumersOf :: "(u64 \<times> u64 list) list option"
  roCurrentTransportId :: u64
  roCapabilities :: "'a ortc_capabilities"

record ('bk, 'nq, 'tw, 'me, 'a) sfu =
  sfCurrentRouterId :: u16
  sfFactory :: "('bk, 'nq, 'tw) factory"
  sfRouters :: "'a router list"
  sfTransports :: "('tw, 'me) transport list"
  sfProducers :: "('tw, 'a) producer list"
  sfConsumers :: "'a consumer list"
  sfDataProducers :: "data_producer list"
  sfDataConsumers :: "data_consumer list"

text \<open>Reading a map that may be \<^verbatim>\<open>nil\<close> finds nothing, writing to one panics.\<close>

definition nil_get :: "('k \<times> 'v) list option \<Rightarrow> 'k \<Rightarrow> 'v option" where
  "nil_get m k = (case m of None \<Rightarrow> None | Some kvs \<Rightarrow> map_of kvs k)"

definition nil_put :: "'k \<Rightarrow> 'v \<Rightarrow> ('k \<times> 'v) list option \<Rightarrow> ('k \<times> 'v) list option option" where
  "nil_put k v m = map_option (\<lambda>kvs. Some (AList.update k v kvs)) m"

text \<open>Changing one object of a heap.\<close>

definition modify :: "nat \<Rightarrow> ('x \<Rightarrow> 'x) \<Rightarrow> 'x list \<Rightarrow> 'x list" where
  "modify n f xs = xs[n := f (xs ! n)]"

definition with_router where "with_router n f s = s\<lparr>sfRouters := modify n f (sfRouters s)\<rparr>"
definition with_transport where "with_transport n f s = s\<lparr>sfTransports := modify n f (sfTransports s)\<rparr>"
definition with_producer where "with_producer n f s = s\<lparr>sfProducers := modify n f (sfProducers s)\<rparr>"
definition with_consumer where "with_consumer n f s = s\<lparr>sfConsumers := modify n f (sfConsumers s)\<rparr>"

datatype sfu_error =
    ErrEngine
  | ErrReceiver
  | ErrReceive
  | ErrBufferNil
  | ErrProducerNotFound u64
  | ErrEstimator
  | ErrSender
  | ErrSend
  | ErrNoConsumerEntry u64
  | ErrTransport
  | ErrDataProducerExists
  | ErrNoDataChannel
  | ErrDataProducerNotFound u64
  | ErrDataChannel
  | ErrInactive
  | ErrTooBig

section \<open>Identifiers\<close>

definition generate_new_router_id :: "u16 \<Rightarrow> (u16 \<times> u16) option" where
  "generate_new_router_id cur = (if cur = -1 then None else Some (cur + 1, cur + 1))"

definition generate_new_transport_id :: "u64 \<Rightarrow> (u64 \<times> u64) option" where
  "generate_new_transport_id cur = (if cur = 65535 then None else Some (cur + 1, cur + 1))"

definition get_next_id :: "id_type \<Rightarrow> (id_type \<rightharpoonup> u64) \<Rightarrow> (u64 \<times> (id_type \<rightharpoonup> u64)) option" where
  "get_next_id k ids = do {
     n \<leftarrow> (case ids k of
         None \<Rightarrow> Some (if k = MidID then 0 else 1)
       | Some lastID \<Rightarrow> if k \<noteq> MidID \<and> lastID = -1 then None else Some (lastID + 1));
     Some (n, ids(k \<mapsto> n)) }"

definition transport_next_id ::
  "id_type \<Rightarrow> nat \<Rightarrow> ('bk, 'nq, 'tw, 'me, 'a) sfu \<Rightarrow> (u64 \<times> ('bk, 'nq, 'tw, 'me, 'a) sfu) option"
where
  "transport_next_id k tr s = do {
     (n, ids) \<leftarrow> get_next_id k (tpIds (sfTransports s ! tr));
     Some (n, with_transport tr (\<lambda>t. t\<lparr>tpIds := ids\<rparr>) s) }"

section \<open>Routers\<close>

definition new_sfu :: "('bk, 'nq, 'tw, 'me, 'a) sfu" where
  "new_sfu = \<lparr>sfCurrentRouterId = 0, sfFactory = create_buffer_factory, sfRouters = [], sfTransports = [],
     sfProducers = [], sfConsumers = [], sfDataProducers = [], sfDataConsumers = []\<rparr>"

definition make_router :: "u64 \<Rightarrow> 'a ortc_capabilities \<Rightarrow> 'a router" where
  "make_router ident caps = \<lparr>roId = ident, roClosed = False, roTransports = Some [], roProducers = Some [],
     roConsumers = Some [], roDataProducers = [], roDataConsumers = [], roConsumersOf = Some [],
     roCurrentTransportId = 0, roCapabilities = caps\<rparr>"

text \<open>The result is the reference of the new router.\<close>

definition new_router ::
  "('bk, 'nq, 'tw, 'me, 'a) sfu_lib \<Rightarrow> ('bk, 'nq, 'tw, 'me, 'a) sfu \<Rightarrow> (nat \<times> ('bk, 'nq, 'tw, 'me, 'a) sfu) option"
where
  "new_router lib s = do {
     (n, cur) \<leftarrow> generate_new_router_id (sfCurrentRouterId s);
     caps \<leftarrow> default_router_capabilities (slConsts lib);
     Some (length (sfRouters s), s\<lparr>sfCurrentRouterId := cur, sfRouters := sfRouters s @ [make_router (ucast n) caps]\<rparr>) }"

text \<open>\<^verbatim>\<open>generateCapabilitites\<close>, once the candidates are gathered: an error of pion there panics.\<close>

definition generate_capabilities :: "local_parameters \<Rightarrow> transport_capabilities option" where
  "generate_capabilities l = do {
     cands \<leftarrow> lpCandidates l;
     ice \<leftarrow> lpIce l;
     dtls \<leftarrow> lpDtls l;
     Some \<lparr>tcCandidates = cands, tcIce = ice\<lparr>iceLite := True\<rparr>, tcDtls = dtls,
       tcMaxMessageSize = lpMaxMessageSize l, tcPort = 5000, tcIsDataChannel = True\<rparr> }"

definition make_transport ::
  "u64 \<Rightarrow> nat \<Rightarrow> 'me \<Rightarrow> transport_capabilities \<Rightarrow> bool option \<Rightarrow> ('tw, 'me) transport"
where
  "make_transport ident r me caps consuming = \<lparr>tpId = ident, tpRouter = r, tpClosed = False, tpCloseOnce = False,
     tpIds = Map.empty, tpProducers = Some [], tpConsumers = Some [], tpDataProducers = [], tpDataConsumers = [],
     tpPending = [], tpTwcc = None, tpBwe = False, tpEngine = me, tpConsuming = consuming, tpRtcpOut = [],
     tpCaps = caps, tpIceUp = False, tpDtlsUp = False, tpSctpUp = False\<rparr>"

text \<open>
  What pion answers when a transport is made: it fails to make its parts or to gather candidates, or
  tells its parameters. An identifier is used up in any case.
\<close>

datatype transport_outcome = NoGatherer | NoDtls | GatherFails | Gathers local_parameters

definition new_webrtc_transport ::
  "('bk, 'nq, 'tw, 'me, 'a) sfu_lib \<Rightarrow> transport_outcome \<Rightarrow> bool option \<Rightarrow> nat \<Rightarrow> ('bk, 'nq, 'tw, 'me, 'a) sfu
   \<Rightarrow> ((sfu_error + nat) \<times> ('bk, 'nq, 'tw, 'me, 'a) sfu) option"
where
  "new_webrtc_transport lib outcome consuming r s = do {
     (n, cur) \<leftarrow> generate_new_transport_id (roCurrentTransportId (sfRouters s ! r));
     let s = with_router r (\<lambda>x. x\<lparr>roCurrentTransportId := cur\<rparr>) s;
     case outcome of
       Gathers l \<Rightarrow> do {
         caps \<leftarrow> generate_capabilities l;
         let tr = length (sfTransports s);
         let s = s\<lparr>sfTransports := sfTransports s @ [make_transport n r (slNewEngine lib) caps consuming]\<rparr>;
         m \<leftarrow> nil_put n tr (roTransports (sfRouters s ! r));
         Some (Inr tr, with_router r (\<lambda>x. x\<lparr>roTransports := m\<rparr>) s) }
     | _ \<Rightarrow> Some (Inl ErrTransport, s) }"

text \<open>\<^verbatim>\<open>Router.AddProducer\<close>: the buffer and the reader of the stream must exist.\<close>

definition add_producer ::
  "('bk, 'nq, 'tw, 'me, 'a) sfu_lib \<Rightarrow> gotime \<Rightarrow> nat \<Rightarrow> nat \<Rightarrow> ('bk, 'nq, 'tw, 'me, 'a) sfu
   \<Rightarrow> (sfu_error option \<times> ('bk, 'nq, 'tw, 'me, 'a) sfu) option"
where
  "add_producer lib now r pr s =
     (let p = sfProducers s ! pr in
      case get_buffer_pair (pdSSRC p) (sfFactory s) of
        (Some bn, Some rn) \<Rightarrow> do {
          f \<leftarrow> factory_on_buffer (Some \<circ> on_rtcp_feedback) bn (sfFactory s);
          f \<leftarrow> factory_on_packet (ToProducer pr) rn f;
          f \<leftarrow> factory_on_buffer (\<lambda>b. buffer_bind (tlMedia (slTrack lib)) now
              (parameters_from_ortc (slPrinting lib) (receive_to_parameters (pdParameters p)))
              (set_twcc (pdTwcc p) b)) bn f;
          let s = s\<lparr>sfFactory := f\<rparr>;
          let s = with_producer pr (\<lambda>p. p\<lparr>pdBuffer := Some bn, pdOnRTP := Some r, pdOnRTCP := Some r\<rparr>) s;
          ps \<leftarrow> nil_put (pdId p) pr (roProducers (sfRouters s ! r));
          cs \<leftarrow> nil_put (pdId p) [] (roConsumersOf (sfRouters s ! r));
          Some (None, with_router r (\<lambda>x. x\<lparr>roProducers := ps, roConsumersOf := cs\<rparr>) s) }
      | _ \<Rightarrow> Some (Some ErrBufferNil, s))"

definition add_consumer ::
  "nat \<Rightarrow> nat \<Rightarrow> ('bk, 'nq, 'tw, 'me, 'a) sfu \<Rightarrow> (sfu_error option \<times> ('bk, 'nq, 'tw, 'me, 'a) sfu) option"
where
  "add_consumer r c s = do {
     let x = sfConsumers s ! c;
     let pid = pdId (sfProducers s ! csProducer x);
     cs \<leftarrow> nil_put (csId x) c (roConsumers (sfRouters s ! r));
     let s = with_router r (\<lambda>x. x\<lparr>roConsumers := cs\<rparr>) s;
     case nil_get (roConsumersOf (sfRouters s ! r)) pid of
       None \<Rightarrow> Some (Some (ErrNoConsumerEntry pid), s)
     | Some ids \<Rightarrow> do {
         m \<leftarrow> nil_put pid (ids @ [csId x]) (roConsumersOf (sfRouters s ! r));
         Some (None, with_router r (\<lambda>x. x\<lparr>roConsumersOf := m\<rparr>) s) } }"

section \<open>Consumers and producers\<close>

definition consumer_close :: "nat \<Rightarrow> ('bk, 'nq, 'tw, 'me, 'a) sfu \<Rightarrow> ('bk, 'nq, 'tw, 'me, 'a) sfu" where
  "consumer_close c = with_consumer c (\<lambda>x. if csClosed x then x else x\<lparr>csClosed := True\<rparr>)"

definition consumer_resume :: "nat \<Rightarrow> ('bk, 'nq, 'tw, 'me, 'a) sfu \<Rightarrow> ('bk, 'nq, 'tw, 'me, 'a) sfu" where
  "consumer_resume c = with_consumer c (\<lambda>x. x\<lparr>csPaused := False\<rparr>)"

definition consumer_pause :: "nat \<Rightarrow> ('bk, 'nq, 'tw, 'me, 'a) sfu \<Rightarrow> ('bk, 'nq, 'tw, 'me, 'a) sfu" where
  "consumer_pause c = with_consumer c (\<lambda>x. x\<lparr>csPaused := True\<rparr>)"

definition handle_remb :: "gofloat \<Rightarrow> nat \<Rightarrow> ('bk, 'nq, 'tw, 'me, 'a) sfu \<Rightarrow> ('bk, 'nq, 'tw, 'me, 'a) sfu" where
  "handle_remb bitrate c = with_consumer c (\<lambda>x. x\<lparr>csBitrate := bitrate\<rparr>)"

text \<open>
  An operation of a consumer's track, with the buffer of the producer that the track was made for.
  A producer has its buffer before it has consumers; without one the use would panic.
\<close>

definition on_track ::
  "(down_track \<Rightarrow> ('bk, 'nq, 'tw) buffer \<Rightarrow> ('r \<times> down_track \<times> ('bk, 'nq, 'tw) buffer) option) \<Rightarrow> nat
   \<Rightarrow> ('bk, 'nq, 'tw, 'me, 'a) sfu \<Rightarrow> ('r \<times> ('bk, 'nq, 'tw, 'me, 'a) sfu) option"
where
  "on_track op c s = do {
     bn \<leftarrow> pdBuffer (sfProducers s ! csProducer (sfConsumers s ! c));
     (r, d, b) \<leftarrow> op (csTrack (sfConsumers s ! c)) (fcBufferHeap (sfFactory s) ! bn);
     Some (r, with_consumer c (\<lambda>x. x\<lparr>csTrack := d\<rparr>)
       (s\<lparr>sfFactory := (sfFactory s)\<lparr>fcBufferHeap := (fcBufferHeap (sfFactory s))[bn := b]\<rparr>\<rparr>)) }"

text \<open>The flag is the absence of an error.\<close>

definition consumer_write ::
  "('bk, 'nq, 'tw, 'me, 'a) sfu_lib \<Rightarrow> gotime \<Rightarrow> ext_packet \<Rightarrow> nat \<Rightarrow> ('bk, 'nq, 'tw, 'me, 'a) sfu
   \<Rightarrow> (bool \<times> ('bk, 'nq, 'tw, 'me, 'a) sfu) option"
where
  "consumer_write lib now ep c s =
     (if csPaused (sfConsumers s ! c) then Some (True, s) else on_track (write_rtp (slTrack lib) now ep) c s)"

text \<open>The loop of \<^verbatim>\<open>Router.OnRTPPacket\<close> over the consumers of the producer; an unknown one ends it.\<close>

fun forward_to ::
  "('bk, 'nq, 'tw, 'me, 'a) sfu_lib \<Rightarrow> gotime \<Rightarrow> nat \<Rightarrow> ext_packet \<Rightarrow> u64 list \<Rightarrow> ('bk, 'nq, 'tw, 'me, 'a) sfu
   \<Rightarrow> ('bk, 'nq, 'tw, 'me, 'a) sfu option"
where
  "forward_to lib now r ep [] s = Some s"
| "forward_to lib now r ep (cid # cids) s = (case nil_get (roConsumers (sfRouters s ! r)) cid of
     None \<Rightarrow> Some s
   | Some c \<Rightarrow> do { (_, s) \<leftarrow> consumer_write lib now ep c s; forward_to lib now r ep cids s })"

definition on_rtp_packet ::
  "('bk, 'nq, 'tw, 'me, 'a) sfu_lib \<Rightarrow> gotime \<Rightarrow> nat \<Rightarrow> u64 \<Rightarrow> ext_packet \<Rightarrow> ('bk, 'nq, 'tw, 'me, 'a) sfu
   \<Rightarrow> ('bk, 'nq, 'tw, 'me, 'a) sfu option"
where
  "on_rtp_packet lib now r pid ep s = (case nil_get (roConsumersOf (sfRouters s ! r)) pid of
     None \<Rightarrow> Some s
   | Some cids \<Rightarrow> forward_to lib now r ep cids s)"

definition producer_close :: "nat \<Rightarrow> ('bk, 'nq, 'tw, 'me, 'a) sfu \<Rightarrow> ('bk, 'nq, 'tw, 'me, 'a) sfu" where
  "producer_close pr = with_producer pr (\<lambda>p. if pdClosed p then p else p\<lparr>pdClosed := True, pdStops := pdStops p + 1\<rparr>)"

definition producer_pause :: "bool \<Rightarrow> nat \<Rightarrow> ('bk, 'nq, 'tw, 'me, 'a) sfu \<Rightarrow> ('bk, 'nq, 'tw, 'me, 'a) sfu" where
  "producer_pause v pr = with_producer pr (\<lambda>p. if pdClosed p then p else p\<lparr>pdPaused := v\<rparr>)"

definition write_rtcp :: "rtcp_packet list \<Rightarrow> nat \<Rightarrow> ('bk, 'nq, 'tw, 'me, 'a) sfu \<Rightarrow> ('bk, 'nq, 'tw, 'me, 'a) sfu" where
  "write_rtcp pkts tr = with_transport tr (\<lambda>t. t\<lparr>tpRtcpOut := tpRtcpOut t @ [pkts]\<rparr>)"

text \<open>What a producer's buffer calls with the packets it wants sent.\<close>

definition producer_send_rtcp :: "rtcp_packet list \<Rightarrow> nat \<Rightarrow> ('bk, 'nq, 'tw, 'me, 'a) sfu \<Rightarrow> ('bk, 'nq, 'tw, 'me, 'a) sfu" where
  "producer_send_rtcp pkts pr s =
     (if pkts = [] \<or> pdClosed (sfProducers s ! pr) then s else write_rtcp pkts (pdTransport (sfProducers s ! pr)) s)"

text \<open>
  One round of \<^verbatim>\<open>Producer.readRTPWorker\<close>. When it returns, the producer is closed.
\<close>

definition read_rtp_round ::
  "('bk, 'nq, 'tw, 'me, 'a) sfu_lib \<Rightarrow> gotime \<Rightarrow> nat \<Rightarrow> ('bk, 'nq, 'tw, 'me, 'a) sfu
   \<Rightarrow> ('bk, 'nq, 'tw, 'me, 'a) sfu option"
where
  "read_rtp_round lib now pr s =
     (let p = sfProducers s ! pr; stopped = (\<lambda>s. producer_close pr (with_producer pr (\<lambda>p. p\<lparr>pdReading := False\<rparr>) s)) in
      if \<not> pdReading p then Some s
      else if pdClosed p then Some (stopped s)
      else do {
        bn \<leftarrow> pdBuffer p;
        (res, b) \<leftarrow> read_extended (tlMedia (slTrack lib)) (slMaxPktSize lib) (fcBufferHeap (sfFactory s) ! bn);
        let s = s\<lparr>sfFactory := (sfFactory s)\<lparr>fcBufferHeap := (fcBufferHeap (sfFactory s))[bn := b]\<rparr>\<rparr>;
        case res of
          Wait \<Rightarrow> Some s
        | Return (Inl e) \<Rightarrow> Some (stopped s)
        | Return (Inr ep) \<Rightarrow>
            (case pdOnRTP p of None \<Rightarrow> Some s
             | Some r \<Rightarrow> if pdPaused p then Some s else on_rtp_packet lib now r (pdId p) ep s) })"

text \<open>The sender reports of a producer's client.\<close>

definition producer_handle_rtcp ::
  "('bk, 'nq, 'tw, 'me, 'a) sfu_lib \<Rightarrow> gotime \<Rightarrow> u8 list \<Rightarrow> nat \<Rightarrow> ('bk, 'nq, 'tw, 'me, 'a) sfu
   \<Rightarrow> ('bk, 'nq, 'tw, 'me, 'a) sfu option"
where
  "producer_handle_rtcp lib now raw pr s = (case rtcpUnmarshal (slTrack lib) raw of None \<Rightarrow> Some s
     | Some pkts \<Rightarrow> run_panic (\<lambda>pkt s. case pkt of
         SenderReport sr \<Rightarrow> do {
           bn \<leftarrow> pdBuffer (sfProducers s ! pr);
           f \<leftarrow> factory_on_buffer (Some \<circ> set_sender_report_data (tlMedia (slTrack lib)) now (repRTPTime sr) (repNTPTime sr))
             bn (sfFactory s);
           Some (s\<lparr>sfFactory := f\<rparr>) }
       | _ \<Rightarrow> Some s) pkts s)"

text \<open>
  RTCP of a subscriber: the track takes it, and its calls of the estimate handler reach the consumer.
\<close>

definition take_estimate :: "nat \<Rightarrow> track_call \<Rightarrow> ('bk, 'nq, 'tw, 'me, 'a) sfu \<Rightarrow> ('bk, 'nq, 'tw, 'me, 'a) sfu" where
  "take_estimate c call s = (case call of CallOnREMB bitrate \<Rightarrow> handle_remb bitrate c s | _ \<Rightarrow> s)"

definition consumer_handle_rtcp ::
  "('bk, 'nq, 'tw, 'me, 'a) sfu_lib \<Rightarrow> gotime \<Rightarrow> u8 list \<Rightarrow> nat \<Rightarrow> ('bk, 'nq, 'tw, 'me, 'a) sfu
   \<Rightarrow> ('bk, 'nq, 'tw, 'me, 'a) sfu option"
where
  "consumer_handle_rtcp lib now raw c s = do {
     let old = length (dtCalls (csTrack (sfConsumers s ! c)));
     (_, s) \<leftarrow> on_track (\<lambda>d b. map_option (Pair ()) (handle_rtcp (slTrack lib) now raw d b)) c s;
     Some (fold (take_estimate c) (drop old (dtCalls (csTrack (sfConsumers s ! c)))) s) }"

text \<open>RTCP that arrives for a source: the reader hands it to the object that installed the handler.\<close>

definition deliver_rtcp ::
  "('bk, 'nq, 'tw, 'me, 'a) sfu_lib \<Rightarrow> gotime \<Rightarrow> nat \<Rightarrow> u8 list \<Rightarrow> ('bk, 'nq, 'tw, 'me, 'a) sfu
   \<Rightarrow> ('bk, 'nq, 'tw, 'me, 'a) sfu option"
where
  "deliver_rtcp lib now rn raw s = (case reader_write (fcReaderHeap (sfFactory s) ! rn) of
     Inr (Some (ToProducer pr)) \<Rightarrow> producer_handle_rtcp lib now raw pr s
   | Inr (Some (ToConsumer c)) \<Rightarrow> consumer_handle_rtcp lib now raw c s
   | _ \<Rightarrow> Some s)"

end
