(* ===== verification/Transport.thy ===== *)
theory Transport
  imports Sfu
begin

text \<open>
  What a transport does: producing and consuming streams and data channels, the reports of a
  subscriber, and closing (\<^verbatim>\<open>webrtc_transport.go\<close>, \<^verbatim>\<open>consumer.go\<close>, \<^verbatim>\<open>data_consumer.go\<close>,
  \<^verbatim>\<open>data_producer.go\<close>). What pion answers is an argument of an operation.
\<close>

section \<open>Reports\<close>

definition sdBatchSize :: nat where "sdBatchSize = 20"

text \<open>
  The loop of \<^verbatim>\<open>rtcpWriteWorker\<close> over the reports and the source descriptions: the packets of each
  round that is sent. A round that has no description left sends nothing, though it takes reports.
\<close>

function report_batches :: "rtcp_packet list \<Rightarrow> (u32 \<times> string) list \<Rightarrow> rtcp_packet list list" where
  "report_batches srs sd =
     (if sd = [] \<and> srs = [] then []
      else
        let pkts = take (min (length srs) sdBatchSize) srs;
            srs' = drop (min (length srs) sdBatchSize) srs;
            n = min (length sd) sdBatchSize
        in if n > 0 then (pkts @ [SourceDescription (take n sd)]) # report_batches srs' (drop n sd)
           else report_batches srs' sd)"
  by pat_completeness auto
termination
  by (relation "measure (\<lambda>(srs, sd). length srs + length sd)") (auto simp: sdBatchSize_def min_def split: if_splits)

declare report_batches.simps [simp del]

text \<open>One round of \<^verbatim>\<open>rtcpWriteWorker\<close>, every five seconds; it ends when the consumer is closed.\<close>

definition write_reports ::
  "('bk, 'nq, 'tw, 'me, 'a) sfu_lib \<Rightarrow> gotime \<Rightarrow> nat \<Rightarrow> ('bk, 'nq, 'tw, 'me, 'a) sfu
   \<Rightarrow> ('bk, 'nq, 'tw, 'me, 'a) sfu option"
where
  "write_reports lib now c s =
     (if csClosed (sfConsumers s ! c) then Some s
      else do {
        let d = csTrack (sfConsumers s ! c);
        bn \<leftarrow> pdBuffer (sfProducers s ! csProducer (sfConsumers s ! c));
        Some (case create_sender_report (slTrack lib) now d (fcBufferHeap (sfFactory s) ! bn) of
          None \<Rightarrow> s
        | Some sr \<Rightarrow>
            if create_source_description d = [] then s
            else fold (\<lambda>pkts. write_rtcp pkts (csTransport (sfConsumers s ! c)))
              (report_batches [SenderReport sr] (create_source_description d)) s) })"

section \<open>Data channels\<close>

text \<open>\<^verbatim>\<open>NewDataConsumer\<close> follows the pointers of the channel; an absent one panics.\<close>

definition new_data_consumer :: "u64 \<Rightarrow> u32 \<Rightarrow> data_channel \<Rightarrow> data_consumer option" where
  "new_data_consumer ident limit ch = do {
     chId \<leftarrow> dcID ch;
     life \<leftarrow> dcMaxPacketLifeTime ch;
     rtx \<leftarrow> dcMaxRetransmits ch;
     Some \<lparr>dqId = ident, dqLabel = dcLabel ch,
       dqParameters = \<lparr>stMaxPacketLifeTime = ucast life, stMaxRetransmits = ucast rtx, stOrdered = dcOrdered ch,
         stStreamID = ucast chId\<rparr>,
       dqChannel = ch, dqTransportConnected = False, dqSctpAssociated = False, dqMaxMessageSize = limit,
       dqMessageSent = 0, dqBytesSent = 0, dqOut = []\<rparr> }"

definition data_consumer_open :: "data_consumer \<Rightarrow> data_consumer" where
  "data_consumer_open d = d\<lparr>dqSctpAssociated := True\<rparr>"

definition data_consumer_active :: "data_consumer \<Rightarrow> bool" where
  "data_consumer_active d \<longleftrightarrow> dqTransportConnected d \<and> dqSctpAssociated d"

definition data_consumer_send :: "u8 list \<Rightarrow> data_consumer \<Rightarrow> sfu_error option \<times> data_consumer" where
  "data_consumer_send msg d =
     (if \<not> data_consumer_active d then (Some ErrInactive, d)
      else if int (length msg) > uint (dqMaxMessageSize d) then (Some ErrTooBig, d)
      else (None, d\<lparr>dqBytesSent := dqBytesSent d + of_nat (length msg), dqMessageSent := dqMessageSent d + 1,
        dqOut := dqOut d @ [msg]\<rparr>))"

text \<open>\<^verbatim>\<open>Router.OnDataChannelMessage\<close>: to every data consumer of the router, whatever producer it consumes.\<close>

definition on_data_channel_message ::
  "nat \<Rightarrow> u8 list \<Rightarrow> ('bk, 'nq, 'tw, 'me, 'a) sfu \<Rightarrow> ('bk, 'nq, 'tw, 'me, 'a) sfu"
where
  "on_data_channel_message r msg s =
     s\<lparr>sfDataConsumers := fold (\<lambda>(_, d). modify d (snd \<circ> data_consumer_send msg)) (roDataConsumers (sfRouters s ! r))
       (sfDataConsumers s)\<rparr>"

text \<open>A message of a data producer's client goes to the handler that \<^verbatim>\<open>ProduceData\<close> installed.\<close>

definition data_producer_message ::
  "nat \<Rightarrow> u8 list \<Rightarrow> ('bk, 'nq, 'tw, 'me, 'a) sfu \<Rightarrow> ('bk, 'nq, 'tw, 'me, 'a) sfu"
where
  "data_producer_message dp msg s = (case dpOnMessage (sfDataProducers s ! dp) of
     None \<Rightarrow> s
   | Some r \<Rightarrow> on_data_channel_message r msg s)"

text \<open>The listener of a transport for a new channel: a data producer of its stream takes it, or it waits for one.\<close>

definition on_data_channel ::
  "data_channel \<Rightarrow> nat \<Rightarrow> ('bk, 'nq, 'tw, 'me, 'a) sfu \<Rightarrow> ('bk, 'nq, 'tw, 'me, 'a) sfu option"
where
  "on_data_channel ch tr s = do {
     chId \<leftarrow> dcID ch;
     case find (\<lambda>(_, dp). stStreamID (dpParameters (sfDataProducers s ! dp)) = ucast chId)
         (tpDataProducers (sfTransports s ! tr)) of
       Some (_, dp) \<Rightarrow> Some (s\<lparr>sfDataProducers := modify dp (\<lambda>x. x\<lparr>dpChannel := Some ch\<rparr>) (sfDataProducers s)\<rparr>)
     | None \<Rightarrow> Some (with_transport tr (\<lambda>t. t\<lparr>tpPending := AList.update (ucast chId) ch (tpPending t)\<rparr>) s) }"

definition produce_data ::
  "string \<Rightarrow> stream_parameters \<Rightarrow> nat \<Rightarrow> ('bk, 'nq, 'tw, 'me, 'a) sfu
   \<Rightarrow> ((sfu_error + nat) \<times> ('bk, 'nq, 'tw, 'me, 'a) sfu) option"
where
  "produce_data label p tr s =
     (let t = sfTransports s ! tr in
      if map_of (tpDataProducers t) (stStreamID p) \<noteq> None then Some (Inl ErrDataProducerExists, s)
      else case map_of (tpPending t) (stStreamID p) of
        None \<Rightarrow> Some (Inl ErrNoDataChannel, s)
      | Some ch \<Rightarrow> do {
          (ident, s) \<leftarrow> transport_next_id DataProducerID tr s;
          let dp = length (sfDataProducers s);
          let s = s\<lparr>sfDataProducers := sfDataProducers s @ [\<lparr>dpId = ident, dpLabel = label, dpParameters = p,
            dpChannel = Some ch, dpOnMessage = Some (tpRouter t)\<rparr>]\<rparr>;
          let s = with_router (tpRouter t) (\<lambda>x. x\<lparr>roDataProducers := AList.update ident dp (roDataProducers x)\<rparr>) s;
          Some (Inr dp, with_transport tr (\<lambda>t. t\<lparr>tpDataProducers := AList.update (stStreamID p) dp (tpDataProducers t)\<rparr>) s) })"

text \<open>
  \<open>made\<close> is the channel that pion makes, with the limit of its messages, unless it fails;
  \<open>up\<close> tells whether the connection stands.
\<close>

definition consume_data ::
  "(data_channel \<times> u32) option \<Rightarrow> bool \<Rightarrow> u64 \<Rightarrow> nat \<Rightarrow> ('bk, 'nq, 'tw, 'me, 'a) sfu
   \<Rightarrow> ((sfu_error + nat) \<times> ('bk, 'nq, 'tw, 'me, 'a) sfu) option"
where
  "consume_data made up pid tr s =
     (let t = sfTransports s ! tr in
      case map_of (roDataProducers (sfRouters s ! tpRouter t)) pid of
        None \<Rightarrow> Some (Inl (ErrDataProducerNotFound pid), s)
      | Some dp \<Rightarrow> do {
          _ \<leftarrow> dpChannel (sfDataProducers s ! dp);
          case made of None \<Rightarrow> Some (Inl ErrDataChannel, s)
          | Some (ch, limit) \<Rightarrow> do {
              (ident, s) \<leftarrow> transport_next_id DataConsumerID tr s;
              dc \<leftarrow> new_data_consumer ident limit ch;
              let dc = (if up then dc\<lparr>dqTransportConnected := True\<rparr> else dc);
              let n = length (sfDataConsumers s);
              let s = s\<lparr>sfDataConsumers := sfDataConsumers s @ [dc]\<rparr>;
              let s = with_router (tpRouter t) (\<lambda>x. x\<lparr>roDataConsumers := AList.update ident n (roDataConsumers x)\<rparr>) s;
              Some (Inr n, with_transport tr (\<lambda>t. t\<lparr>tpDataConsumers := AList.update ident n (tpDataConsumers t)\<rparr>) s) } })"

section \<open>Producing and consuming\<close>

text \<open>What pion answers when a receiver is made and started: a failure, or the stream it will receive.\<close>

datatype receiver_outcome = ReceiverFails | ReceiveFails | Receives u32 codec_capability

definition new_producer ::
  "('bk, 'nq, 'tw, 'me, 'a) sfu_lib \<Rightarrow> u64 \<Rightarrow> string \<Rightarrow> u32 \<Rightarrow> codec_capability \<Rightarrow> media_kind \<Rightarrow> 'a receive_parameters \<Rightarrow> nat
   \<Rightarrow> 'tw option \<Rightarrow> ('tw, 'a) producer"
where
  "new_producer lib pid ident ssrc codec kind prm tr twcc = \<lparr>pdId = pid, pdTransport = tr, pdClosed = False,
     pdPaused = False, pdParameters = prm, pdKind = kind, pdSSRC = ssrc, pdCodec = codec,
     pdEncodings = receive_from_ortc prm,
     pdReceiving = remove_rtx_codecs (parameters_from_ortc (slPrinting lib) (receive_to_parameters prm)),
     pdTwcc = twcc, pdTrackID = ident, pdStreamID = oCname (oRtcp (recvParameters prm)),
     pdBuffer = None, pdOnRTP = None, pdOnRTCP = None, pdStops = 0, pdReading = False\<rparr>"

text \<open>\<^verbatim>\<open>Produce\<close> once the receiver works; the reading loop is started before the transport knows the producer.\<close>

definition produce_stream ::
  "('bk, 'nq, 'tw, 'me, 'a) sfu_lib \<Rightarrow> gotime \<Rightarrow> string \<Rightarrow> u32 \<Rightarrow> codec_capability \<Rightarrow> media_kind \<Rightarrow> 'a receive_parameters \<Rightarrow> nat
   \<Rightarrow> ('bk, 'nq, 'tw, 'me, 'a) sfu \<Rightarrow> ((sfu_error + nat) \<times> ('bk, 'nq, 'tw, 'me, 'a) sfu) option"
where
  "produce_stream lib now ident ssrc codec kind prm tr s = do {
     let s = with_transport tr (\<lambda>t. if tpTwcc t = None then t\<lparr>tpTwcc := Some (slNewTwcc lib ssrc)\<rparr> else t) s;
     (pid, s) \<leftarrow> transport_next_id RTPProducerID tr s;
     let pr = length (sfProducers s);
     let s = s\<lparr>sfProducers := sfProducers s @
       [new_producer lib pid ident ssrc codec kind prm tr (tpTwcc (sfTransports s ! tr))]\<rparr>;
     (err, s) \<leftarrow> add_producer lib now (tpRouter (sfTransports s ! tr)) pr s;
     case err of
       Some e \<Rightarrow> Some (Inl e, s)
     | None \<Rightarrow> do {
         let s = with_producer pr (\<lambda>p. p\<lparr>pdReading := True\<rparr>) s;
         m \<leftarrow> nil_put pid pr (tpProducers (sfTransports s ! tr));
         Some (Inr pr, with_transport tr (\<lambda>t. t\<lparr>tpProducers := m\<rparr>) s) } }"

definition produce ::
  "('bk, 'nq, 'tw, 'me, 'a) sfu_lib \<Rightarrow> gotime \<Rightarrow> string \<Rightarrow> receiver_outcome \<Rightarrow> media_kind \<Rightarrow> 'a receive_parameters \<Rightarrow> nat
   \<Rightarrow> ('bk, 'nq, 'tw, 'me, 'a) sfu \<Rightarrow> ((sfu_error + nat) \<times> ('bk, 'nq, 'tw, 'me, 'a) sfu) option"
where
  "produce lib now ident outcome kind prm tr s =
     (case setup_producer_media_engine (slEngine lib) (slConsts lib) kind (tpEngine (sfTransports s ! tr)) of (ok, me) \<Rightarrow>
      let s = with_transport tr (\<lambda>t. t\<lparr>tpEngine := me\<rparr>) s in
      if \<not> ok then Some (Inl ErrEngine, s)
      else case outcome of
        ReceiverFails \<Rightarrow> Some (Inl ErrReceiver, s)
      | ReceiveFails \<Rightarrow> Some (Inl ErrReceive, s)
      | Receives ssrc codec \<Rightarrow> produce_stream lib now ident ssrc codec kind prm tr s)"

text \<open>
  What pion answers when a sender is made and started: it binds the track in a context, and returns the
  parameters it sends with.
\<close>

datatype sender_outcome = EstimatorFails | SenderFails | SendFails | Sends webrtc_send_parameters track_context

text \<open>
  Starting the sender: the track is bound, and the RTCP reader of its source gets the track's handler.
  The flag tells that the code found a codec.
\<close>

definition bind_track ::
  "gotime \<Rightarrow> track_context \<Rightarrow> nat \<Rightarrow> down_track \<Rightarrow> ('bk, 'nq, 'tw) factory
   \<Rightarrow> (bool \<times> down_track \<times> ('bk, 'nq, 'tw) factory) option"
where
  "bind_track now ctx c d f = do {
     (codec, d) \<leftarrow> track_bind now ctx d;
     case codec of None \<Rightarrow> Some (False, d, f)
     | Some _ \<Rightarrow> (case get_or_new RTCPBufferPacket (ctxSSRC ctx) f of
         (Some (ReaderHandle rn), f) \<Rightarrow> map_option (\<lambda>f. (True, d, f)) (factory_on_packet (ToConsumer c) rn f)
       | (_, f) \<Rightarrow> Some (True, d, f)) }"

definition new_consumer ::
  "gotime \<Rightarrow> sender_outcome \<Rightarrow> u64 \<Rightarrow> nat \<Rightarrow> down_track \<Rightarrow> nat \<Rightarrow> bool \<Rightarrow> ('bk, 'nq, 'tw, 'me, 'a) sfu
   \<Rightarrow> ((sfu_error + nat) \<times> ('bk, 'nq, 'tw, 'me, 'a) sfu) option"
where
  "new_consumer now outcome ident pr d tr paused s = (case outcome of
     Sends prm ctx \<Rightarrow> do {
       let c = length (sfConsumers s);
       (found, d, f) \<leftarrow> bind_track now ctx c d (sfFactory s);
       let s = s\<lparr>sfFactory := f\<rparr>;
       if \<not> found then Some (Inl ErrSend, s)
       else do {
         ps \<leftarrow> send_to_ortc prm;
         let ps = ps\<lparr>sendParameters := (sendParameters ps)\<lparr>
           oRtcp := \<lparr>oRtcpSSRC = 0, oCname = dtStreamID d, oReducedSize = True, oMux = True\<rparr>, oMid := dtMid d\<rparr>\<rparr>;
         Some (Inr c, s\<lparr>sfConsumers := sfConsumers s @ [\<lparr>csId = ident, csTransport = tr, csProducer = pr,
           csClosed = False, csPaused = paused, csKind = pdKind (sfProducers s ! pr), csParameters = ps,
           csTrack = on_remb_feedback d, csBitrate = Fin 0\<rparr>]\<rparr>) } }
   | SendFails \<Rightarrow> Some (Inl ErrSend, s)
   | _ \<Rightarrow> Some (Inl ErrSender, s))"

text \<open>The consumer is returned beside the error of the router, as \<open>Inr\<close> with the error.\<close>

definition consume ::
  "('bk, 'nq, 'tw, 'me, 'a) sfu_lib \<Rightarrow> gotime \<Rightarrow> string \<Rightarrow> sender_outcome \<Rightarrow> u64 \<Rightarrow> bool \<Rightarrow> nat
   \<Rightarrow> ('bk, 'nq, 'tw, 'me, 'a) sfu \<Rightarrow> ((sfu_error + (nat \<times> sfu_error option)) \<times> ('bk, 'nq, 'tw, 'me, 'a) sfu) option"
where
  "consume lib now ident outcome pid paused tr s =
     (let r = tpRouter (sfTransports s ! tr) in
      case nil_get (roProducers (sfRouters s ! r)) pid of
        None \<Rightarrow> Some (Inl (ErrProducerNotFound pid), s)
      | Some pr \<Rightarrow>
          let p = sfProducers s ! pr in
          (case setup_consumer_media_engine (slEngine lib) (slConsts lib)
              (parameters_from_ortc (slPrinting lib) (receive_to_parameters (pdParameters p))) (pdKind p)
              (tpEngine (sfTransports s ! tr)) of (ok, me) \<Rightarrow>
            let s = with_transport tr (\<lambda>t. t\<lparr>tpEngine := me\<rparr>) s in
            if \<not> ok then Some (Inl ErrEngine, s)
            else if \<not> tpBwe (sfTransports s ! tr) \<and> outcome = EstimatorFails then Some (Inl ErrEstimator, s)
            else do {
              let s = with_transport tr (\<lambda>t. t\<lparr>tpBwe := True\<rparr>) s;
              (mid, s) \<leftarrow> transport_next_id MidID tr s;
              let d = on_transport_cc_feedback (new_down_track now ident (pdStreamID p) mid (pdCodec p) 500);
              (cid, s) \<leftarrow> transport_next_id RTPConsumerID tr s;
              (res, s) \<leftarrow> new_consumer now outcome cid pr d tr paused s;
              case res of
                Inl e \<Rightarrow> Some (Inl e, s)
              | Inr c \<Rightarrow> do {
                  (err, s) \<leftarrow> add_consumer r c s;
                  m \<leftarrow> nil_put cid c (tpConsumers (sfTransports s ! tr));
                  let s = with_transport tr (\<lambda>t. t\<lparr>tpConsumers := m\<rparr>) s;
                  Some (Inr (c, err), with_consumer c (\<lambda>x. x\<lparr>csTrack := track_on_close (csTrack x)\<rparr>) s) } }))"

section \<open>Connecting\<close>

text \<open>
  What pion answers when the parts of a transport are started. When one fails, the parts started before
  it are stopped. The flag tells that the transport is connected.
\<close>

record connect_outcome =
  startsIce :: bool
  startsDtls :: bool
  startsSctp :: bool

definition transport_connect ::
  "connect_outcome \<Rightarrow> nat \<Rightarrow> ('bk, 'nq, 'tw, 'me, 'a) sfu \<Rightarrow> bool \<times> ('bk, 'nq, 'tw, 'me, 'a) sfu"
where
  "transport_connect outcome tr s =
     (if \<not> startsIce outcome then (False, s)
      else let s = with_transport tr (\<lambda>t. t\<lparr>tpIceUp := True\<rparr>) s in
        if \<not> startsDtls outcome then (False, with_transport tr (\<lambda>t. t\<lparr>tpIceUp := False\<rparr>) s)
        else let s = with_transport tr (\<lambda>t. t\<lparr>tpDtlsUp := True\<rparr>) s in
          if \<not> startsSctp outcome
          then (False, with_transport tr (\<lambda>t. t\<lparr>tpDtlsUp := False\<rparr>) (with_transport tr (\<lambda>t. t\<lparr>tpIceUp := False\<rparr>) s))
          else (True, with_transport tr (\<lambda>t. t\<lparr>tpSctpUp := True\<rparr>) s))"

section \<open>Closing\<close>

text \<open>
  The order in which a loop over a map closes the streams makes no difference: each closes its own.
  At last \<^verbatim>\<open>Stop\<close> stops the three parts of the transport.
\<close>

definition transport_close :: "nat \<Rightarrow> ('bk, 'nq, 'tw, 'me, 'a) sfu \<Rightarrow> ('bk, 'nq, 'tw, 'me, 'a) sfu" where
  "transport_close tr s =
     (let t = sfTransports s ! tr in
      if tpClosed t then s
      else
        let s = with_transport tr (\<lambda>t. t\<lparr>tpClosed := True\<rparr>) s;
            s = fold (\<lambda>(_, pr). producer_close pr) (case tpProducers t of None \<Rightarrow> [] | Some ps \<Rightarrow> ps) s;
            s = fold (\<lambda>(_, c). consumer_close c) (case tpConsumers t of None \<Rightarrow> [] | Some cs \<Rightarrow> cs) s
        in with_transport tr (\<lambda>t. t\<lparr>tpProducers := None, tpConsumers := None,
          tpIceUp := False, tpDtlsUp := False, tpSctpUp := False\<rparr>) s)"

datatype ice_state = IceDisconnected | IceFailed | IceOther

definition on_ice_state :: "ice_state \<Rightarrow> nat \<Rightarrow> ('bk, 'nq, 'tw, 'me, 'a) sfu \<Rightarrow> ('bk, 'nq, 'tw, 'me, 'a) sfu" where
  "on_ice_state st tr s =
     (if st = IceDisconnected \<or> st = IceFailed then
        if tpCloseOnce (sfTransports s ! tr) then s
        else transport_close tr (with_transport tr (\<lambda>t. t\<lparr>tpCloseOnce := True\<rparr>) s)
      else s)"

definition router_close :: "nat \<Rightarrow> ('bk, 'nq, 'tw, 'me, 'a) sfu \<Rightarrow> ('bk, 'nq, 'tw, 'me, 'a) sfu" where
  "router_close r s =
     (let x = sfRouters s ! r in
      if roClosed x then s
      else
        let s = with_router r (\<lambda>x. x\<lparr>roClosed := True\<rparr>) s;
            s = fold (\<lambda>(_, tr). transport_close tr) (case roTransports x of None \<Rightarrow> [] | Some ts \<Rightarrow> ts) s
        in with_router r (\<lambda>x. x\<lparr>roTransports := None, roConsumersOf := None, roConsumers := None, roProducers := None\<rparr>) s)"

end
