(* ===== verification/Rooms.thy ===== *)
theory Rooms
  imports Transport
begin

text \<open>
  \<^verbatim>\<open>cmd/peer.go\<close>, the rooms of \<^verbatim>\<open>cmd/room.go\<close> and the start of a connection in \<^verbatim>\<open>cmd/ws.go\<close>: peers, the
  transports they make, and what they ask of the server.
\<close>

section \<open>State\<close>

text \<open>
  Peers and rooms live on heaps, as the objects of the server do. A connection holds references to its
  room and its peer.
\<close>

record peer =
  peId :: u64
  peClosed :: bool
  peRouter :: nat
  peTransports :: "(u64 \<times> nat) list"
  peProducers :: "(u64 \<times> nat) list"
  peConsumers :: "(u64 \<times> nat) list"
  peDataProducers :: "(u64 \<times> nat) list"
  peDataConsumers :: "(u64 \<times> nat) list"

record room =
  rmId :: u64
  rmRouter :: nat
  rmPeers :: "(u64 \<times> nat) list"

record ('bk, 'nq, 'tw, 'me, 'a) server =
  svSfu :: "('bk, 'nq, 'tw, 'me, 'a) sfu"
  svRooms :: "(u64 \<times> nat) list"
  svRoomHeap :: "room list"
  svPeerHeap :: "peer list"

datatype room_error =
    ErrSfu sfu_error
  | ErrTransportNotFound u64
  | ErrNoProducingTransport
  | ErrNoConsumingTransport
  | ErrKind string
  | ErrNoProducer u64
  | ErrNoConsumer u64
  | ErrPayload
  | ErrConnect
  | ErrStop
  | ErrMarshal

definition with_peer :: "nat \<Rightarrow> (peer \<Rightarrow> peer) \<Rightarrow> ('bk, 'nq, 'tw, 'me, 'a) server \<Rightarrow> ('bk, 'nq, 'tw, 'me, 'a) server" where
  "with_peer n f v = v\<lparr>svPeerHeap := modify n f (svPeerHeap v)\<rparr>"

definition with_room :: "nat \<Rightarrow> (room \<Rightarrow> room) \<Rightarrow> ('bk, 'nq, 'tw, 'me, 'a) server \<Rightarrow> ('bk, 'nq, 'tw, 'me, 'a) server" where
  "with_room n f v = v\<lparr>svRoomHeap := modify n f (svRoomHeap v)\<rparr>"

section \<open>Peers\<close>

definition new_peer :: "u64 \<Rightarrow> nat \<Rightarrow> peer" where
  "new_peer ident r = \<lparr>peId = ident, peClosed = False, peRouter = r, peTransports = [], peProducers = [],
     peConsumers = [], peDataProducers = [], peDataConsumers = []\<rparr>"

definition peer_close :: "peer \<Rightarrow> peer" where
  "peer_close p = p\<lparr>peClosed := True\<rparr>"

text \<open>The first transport, in the order of the map, that was made for the direction.\<close>

definition get_transport_for :: "bool \<Rightarrow> nat \<Rightarrow> ('bk, 'nq, 'tw, 'me, 'a) server \<Rightarrow> nat option" where
  "get_transport_for consuming pe v =
     map_option snd (find (\<lambda>(_, tr). tpConsuming (sfTransports (svSfu v) ! tr) = Some consuming)
       (peTransports (svPeerHeap v ! pe)))"

definition peer_create_transport ::
  "('bk, 'nq, 'tw, 'me, 'a) sfu_lib \<Rightarrow> transport_outcome \<Rightarrow> bool \<Rightarrow> nat \<Rightarrow> ('bk, 'nq, 'tw, 'me, 'a) server
   \<Rightarrow> ((room_error + nat) \<times> ('bk, 'nq, 'tw, 'me, 'a) server) option"
where
  "peer_create_transport lib outcome consuming pe v = do {
     (res, s) \<leftarrow> new_webrtc_transport lib outcome (Some consuming) (peRouter (svPeerHeap v ! pe)) (svSfu v);
     let v = v\<lparr>svSfu := s\<rparr>;
     Some (case res of
       Inl e \<Rightarrow> (Inl (ErrSfu e), v)
     | Inr tr \<Rightarrow> (Inr tr, with_peer pe (\<lambda>p. p\<lparr>peTransports :=
         AList.update (tpId (sfTransports s ! tr)) tr (peTransports p)\<rparr>) v)) }"

definition peer_connect_transport ::
  "connect_outcome \<Rightarrow> u64 \<Rightarrow> nat \<Rightarrow> ('bk, 'nq, 'tw, 'me, 'a) server \<Rightarrow> room_error option \<times> ('bk, 'nq, 'tw, 'me, 'a) server"
where
  "peer_connect_transport outcome ident pe v = (case map_of (peTransports (svPeerHeap v ! pe)) ident of
     None \<Rightarrow> (Some (ErrTransportNotFound ident), v)
   | Some tr \<Rightarrow> (case transport_connect outcome tr (svSfu v) of
       (up, s) \<Rightarrow> (if up then None else Some ErrConnect, v\<lparr>svSfu := s\<rparr>)))"

text \<open>\<open>ok\<close>: pion stops the first part of the transport without an error; the errors of the others are dropped.\<close>

definition peer_close_transport ::
  "bool \<Rightarrow> u64 \<Rightarrow> nat \<Rightarrow> ('bk, 'nq, 'tw, 'me, 'a) server \<Rightarrow> room_error option \<times> ('bk, 'nq, 'tw, 'me, 'a) server"
where
  "peer_close_transport ok ident pe v = (case map_of (peTransports (svPeerHeap v ! pe)) ident of
     None \<Rightarrow> (Some (ErrTransportNotFound ident), v)
   | Some tr \<Rightarrow> (if tpClosed (sfTransports (svSfu v) ! tr) \<or> ok then None else Some ErrStop,
       v\<lparr>svSfu := transport_close tr (svSfu v)\<rparr>))"

definition peer_produce ::
  "('bk, 'nq, 'tw, 'me, 'a) sfu_lib \<Rightarrow> gotime \<Rightarrow> string \<Rightarrow> receiver_outcome \<Rightarrow> string \<Rightarrow> 'a receive_parameters \<Rightarrow> nat
   \<Rightarrow> ('bk, 'nq, 'tw, 'me, 'a) server \<Rightarrow> ((room_error + nat) \<times> ('bk, 'nq, 'tw, 'me, 'a) server) option"
where
  "peer_produce lib now ident outcome kind prm pe v = (case get_transport_for False pe v of
     None \<Rightarrow> Some (Inl ErrNoProducingTransport, v)
   | Some tr \<Rightarrow>
       if kind \<noteq> ''video'' \<and> kind \<noteq> ''audio'' then Some (Inl (ErrKind kind), v)
       else do {
         (res, s) \<leftarrow> produce lib now ident outcome (if kind = ''video'' then VideoMediaKind else AudioMediaKind) prm tr (svSfu v);
         let v = v\<lparr>svSfu := s\<rparr>;
         Some (case res of
           Inl e \<Rightarrow> (Inl (ErrSfu e), v)
         | Inr pr \<Rightarrow> (Inr pr, with_peer pe (\<lambda>p. p\<lparr>peProducers := AList.update (pdId (sfProducers s ! pr)) pr (peProducers p)\<rparr>) v)) })"

definition peer_consume ::
  "('bk, 'nq, 'tw, 'me, 'a) sfu_lib \<Rightarrow> gotime \<Rightarrow> string \<Rightarrow> sender_outcome \<Rightarrow> nat \<Rightarrow> bool \<Rightarrow> nat
   \<Rightarrow> ('bk, 'nq, 'tw, 'me, 'a) server \<Rightarrow> ((room_error + nat) \<times> ('bk, 'nq, 'tw, 'me, 'a) server) option"
where
  "peer_consume lib now ident outcome pr paused pe v = (case get_transport_for True pe v of
     None \<Rightarrow> Some (Inl ErrNoConsumingTransport, v)
   | Some tr \<Rightarrow> do {
       (res, s) \<leftarrow> consume lib now ident outcome (pdId (sfProducers (svSfu v) ! pr)) paused tr (svSfu v);
       let v = v\<lparr>svSfu := s\<rparr>;
       Some (case res of
         Inl e \<Rightarrow> (Inl (ErrSfu e), v)
       | Inr (c, Some e) \<Rightarrow> (Inl (ErrSfu e), v)
       | Inr (c, None) \<Rightarrow> (Inr c, v)) })"

definition peer_produce_data ::
  "string \<Rightarrow> stream_parameters \<Rightarrow> nat \<Rightarrow> ('bk, 'nq, 'tw, 'me, 'a) server
   \<Rightarrow> ((room_error + nat) \<times> ('bk, 'nq, 'tw, 'me, 'a) server) option"
where
  "peer_produce_data label prm pe v = (case get_transport_for False pe v of
     None \<Rightarrow> Some (Inl ErrNoProducingTransport, v)
   | Some tr \<Rightarrow> do {
       (res, s) \<leftarrow> produce_data label prm tr (svSfu v);
       Some (case res of Inl e \<Rightarrow> Inl (ErrSfu e) | Inr dp \<Rightarrow> Inr dp, v\<lparr>svSfu := s\<rparr>) })"

definition peer_consume_data ::
  "(data_channel \<times> u32) option \<Rightarrow> bool \<Rightarrow> u64 \<Rightarrow> nat \<Rightarrow> ('bk, 'nq, 'tw, 'me, 'a) server
   \<Rightarrow> ((room_error + nat) \<times> ('bk, 'nq, 'tw, 'me, 'a) server) option"
where
  "peer_consume_data made up pid pe v = (case get_transport_for True pe v of
     None \<Rightarrow> Some (Inl ErrNoConsumingTransport, v)
   | Some tr \<Rightarrow> do {
       (res, s) \<leftarrow> consume_data made up pid tr (svSfu v);
       Some (case res of Inl e \<Rightarrow> Inl (ErrSfu e) | Inr dc \<Rightarrow> Inr dc, v\<lparr>svSfu := s\<rparr>) })"

section \<open>Rooms\<close>

definition new_room :: "u64 \<Rightarrow> nat \<Rightarrow> room" where
  "new_room ident r = \<lparr>rmId = ident, rmRouter = r, rmPeers = []\<rparr>"

definition get_peer :: "u64 \<Rightarrow> nat \<Rightarrow> ('bk, 'nq, 'tw, 'me, 'a) server \<Rightarrow> nat option" where
  "get_peer ident rm v = map_of (rmPeers (svRoomHeap v ! rm)) ident"

definition get_peer_ids :: "nat \<Rightarrow> ('bk, 'nq, 'tw, 'me, 'a) server \<Rightarrow> u64 list" where
  "get_peer_ids rm v = map fst (rmPeers (svRoomHeap v ! rm))"

definition set_peer :: "u64 \<Rightarrow> nat \<Rightarrow> nat \<Rightarrow> ('bk, 'nq, 'tw, 'me, 'a) server \<Rightarrow> ('bk, 'nq, 'tw, 'me, 'a) server" where
  "set_peer ident pe rm = with_room rm (\<lambda>x. x\<lparr>rmPeers := AList.update ident pe (rmPeers x)\<rparr>)"

definition remove_peer :: "u64 \<Rightarrow> nat \<Rightarrow> ('bk, 'nq, 'tw, 'me, 'a) server \<Rightarrow> ('bk, 'nq, 'tw, 'me, 'a) server" where
  "remove_peer ident rm = with_room rm (\<lambda>x. x\<lparr>rmPeers := AList.delete ident (rmPeers x)\<rparr>)"

text \<open>The peer of that identifier, if there is one, is closed and replaced.\<close>

definition add_peer :: "u64 \<Rightarrow> nat \<Rightarrow> ('bk, 'nq, 'tw, 'me, 'a) server \<Rightarrow> nat \<times> ('bk, 'nq, 'tw, 'me, 'a) server" where
  "add_peer ident rm v =
     (let v = (case get_peer ident rm v of None \<Rightarrow> v | Some pe \<Rightarrow> with_peer pe peer_close v);
          pe = length (svPeerHeap v);
          v = v\<lparr>svPeerHeap := svPeerHeap v @ [new_peer ident (rmRouter (svRoomHeap v ! rm))]\<rparr>
      in (pe, set_peer ident pe rm v))"

definition create_or_get_room ::
  "('bk, 'nq, 'tw, 'me, 'a) sfu_lib \<Rightarrow> u64 \<Rightarrow> ('bk, 'nq, 'tw, 'me, 'a) server
   \<Rightarrow> (nat \<times> ('bk, 'nq, 'tw, 'me, 'a) server) option"
where
  "create_or_get_room lib ident v = (case map_of (svRooms v) ident of
     Some rm \<Rightarrow> Some (rm, v)
   | None \<Rightarrow> do {
       (r, s) \<leftarrow> new_router lib (svSfu v);
       let rm = length (svRoomHeap v);
       Some (rm, v\<lparr>svSfu := s, svRoomHeap := svRoomHeap v @ [new_room ident r],
         svRooms := AList.update ident rm (svRooms v)\<rparr>) })"

definition new_server :: "('bk, 'nq, 'tw, 'me, 'a) server" where
  "new_server = \<lparr>svSfu = new_sfu, svRooms = [], svRoomHeap = [], svPeerHeap = []\<rparr>"

text \<open>
  The start of a connection: the two parameters of the request, and the room and the peer that the
  connection works for; \<open>Inl\<close> is the answer to a bad request.
\<close>

datatype bad_request = NoRoomId | NoPeerId | BadRoomId | BadPeerId

definition open_connection ::
  "('bk, 'nq, 'tw, 'me, 'a) sfu_lib \<Rightarrow> string \<Rightarrow> string \<Rightarrow> ('bk, 'nq, 'tw, 'me, 'a) server
   \<Rightarrow> (bad_request + (nat \<times> nat) \<times> ('bk, 'nq, 'tw, 'me, 'a) server) option"
where
  "open_connection lib roomId peerId v =
     (if roomId = [] then Some (Inl NoRoomId)
      else if peerId = [] then Some (Inl NoPeerId)
      else if \<not> snd (atoi roomId) then Some (Inl BadRoomId)
      else if \<not> snd (atoi peerId) then Some (Inl BadPeerId)
      else do {
        (rm, v) \<leftarrow> create_or_get_room lib (word_of_int (fst (atoi roomId))) v;
        let (pe, v) = add_peer (word_of_int (fst (atoi peerId))) rm v;
        Some (Inr ((rm, pe), v)) })"

end
