(* ===== verification/Signalling.thy ===== *)
theory Signalling
  imports Rooms
begin

text \<open>
  The messages of a connection: \<^verbatim>\<open>Room.HandleIncomingMessage\<close> of \<^verbatim>\<open>cmd/room.go\<close>, one handler for each kind,
  and \<^verbatim>\<open>WSServer.handle\<close> of \<^verbatim>\<open>cmd/ws.go\<close>, which answers through a callback.
\<close>

section \<open>Messages\<close>

datatype message_type =
    JoinRoomMessage
  | LeaveRoomMessage
  | GetRouterCapability
  | CreateTransport
  | CloseTransport
  | ConnectTransport
  | ProduceMessage
  | ProduceDataMessage
  | ProducerToggle
  | CloseProducer
  | ConsumeMessage
  | ConsumeDataMessage
  | ConsumerResume
  | ConsumerPause
  | OtherMessage u8

definition message_type_of :: "u8 \<Rightarrow> message_type" where
  "message_type_of n =
     (let known = [JoinRoomMessage, LeaveRoomMessage, GetRouterCapability, CreateTransport, CloseTransport,
        ConnectTransport, ProduceMessage, ProduceDataMessage, ProducerToggle, CloseProducer, ConsumeMessage,
        ConsumeDataMessage, ConsumerResume, ConsumerPause]
      in if unat n < length known then known ! unat n else OtherMessage n)"

record ws_message =
  msgMethod :: u8
  msgIsError :: bool
  msgPayload :: string

text \<open>
  The decoding of each kind of payload, and whether an answer can be encoded; \<open>encoding/json\<close> is not
  modelled.
\<close>

record 'a json_lib =
  parseJoin :: "string \<Rightarrow> u64 option"
  parseCreate :: "string \<Rightarrow> bool option"
  parseConnect :: "string \<Rightarrow> u64 option"
  parseClose :: "string \<Rightarrow> u64 option"
  parseProduce :: "string \<Rightarrow> (string \<times> 'a receive_parameters) option"
  parseProduceData :: "string \<Rightarrow> (string \<times> stream_parameters) option"
  parseToggle :: "string \<Rightarrow> (u64 \<times> bool) option"
  parseConsume :: "string \<Rightarrow> (u64 \<times> bool) option"
  parseConsumeData :: "string \<Rightarrow> u64 option"
  parseResume :: "string \<Rightarrow> u64 option"

datatype 'a reply =
    ReplyNothing
  | ReplyPeers "u64 list"
  | ReplyCapabilities "'a ortc_capabilities"
  | ReplyTransport string transport_capabilities
  | ReplyId u64
  | ReplyConsumer string string string "'a send_parameters"
  | ReplyDataConsumer string string string stream_parameters

text \<open>What pion answers while a message is handled.\<close>

record outcomes =
  outIdent :: string
  outTransport :: transport_outcome
  outConnect :: connect_outcome
  outStop :: bool
  outReceiver :: receiver_outcome
  outSender :: sender_outcome
  outChannel :: "(data_channel \<times> u32) option"
  outUp :: bool

definition build_message :: "('a reply \<Rightarrow> bool) \<Rightarrow> 'a reply \<Rightarrow> room_error + 'a reply" where
  "build_message encodes r = (if encodes r then Inr r else Inl ErrMarshal)"

section \<open>Handling a message\<close>

text \<open>
  A handler returns its calls of the callback, in order: the code answers through it. \<open>rm\<close> and \<open>pe\<close> are
  the room and the peer of the connection.
\<close>

type_synonym ('bk, 'nq, 'tw, 'me, 'a) handled =
  "((room_error + 'a reply) list \<times> ('bk, 'nq, 'tw, 'me, 'a) server) option"

definition handle_join :: "('a reply \<Rightarrow> bool) \<Rightarrow> u64 \<Rightarrow> nat \<Rightarrow> ('bk, 'nq, 'tw, 'me, 'a) server \<Rightarrow> ('bk, 'nq, 'tw, 'me, 'a) handled" where
  "handle_join enc ident rm v =
     (let (_, v) = add_peer ident rm v in Some ([build_message enc (ReplyPeers (get_peer_ids rm v))], v))"

definition handle_create ::
  "('bk, 'nq, 'tw, 'me, 'a) sfu_lib \<Rightarrow> ('a reply \<Rightarrow> bool) \<Rightarrow> outcomes \<Rightarrow> bool \<Rightarrow> nat \<Rightarrow> ('bk, 'nq, 'tw, 'me, 'a) server
   \<Rightarrow> ('bk, 'nq, 'tw, 'me, 'a) handled"
where
  "handle_create lib enc out consuming pe v = do {
     (res, v) \<leftarrow> peer_create_transport lib (outTransport out) consuming pe v;
     Some (case res of
       Inl e \<Rightarrow> ([Inl e], v)
     | Inr tr \<Rightarrow>
         let t = sfTransports (svSfu v) ! tr
         in ([build_message enc (ReplyTransport (itoa (uint (tpId t))) (tpCaps t))], v)) }"

text \<open>A failed connection is answered twice: the code goes on after the error.\<close>

definition handle_connect :: "outcomes \<Rightarrow> u64 \<Rightarrow> nat \<Rightarrow> ('bk, 'nq, 'tw, 'me, 'a) server \<Rightarrow> ('bk, 'nq, 'tw, 'me, 'a) handled" where
  "handle_connect out ident pe v =
     (let (err, v) = peer_connect_transport (outConnect out) ident pe v
      in Some ((case err of None \<Rightarrow> [] | Some e \<Rightarrow> [Inl e]) @ [Inr ReplyNothing], v))"

definition handle_close :: "outcomes \<Rightarrow> u64 \<Rightarrow> nat \<Rightarrow> ('bk, 'nq, 'tw, 'me, 'a) server \<Rightarrow> ('bk, 'nq, 'tw, 'me, 'a) handled" where
  "handle_close out ident pe v =
     (let (err, v) = peer_close_transport (outStop out) ident pe v
      in Some ([case err of None \<Rightarrow> Inr ReplyNothing | Some e \<Rightarrow> Inl e], v))"

definition handle_produce ::
  "('bk, 'nq, 'tw, 'me, 'a) sfu_lib \<Rightarrow> ('a reply \<Rightarrow> bool) \<Rightarrow> gotime \<Rightarrow> outcomes \<Rightarrow> string \<times> 'a receive_parameters \<Rightarrow> nat
   \<Rightarrow> ('bk, 'nq, 'tw, 'me, 'a) server \<Rightarrow> ('bk, 'nq, 'tw, 'me, 'a) handled"
where
  "handle_produce lib enc now out kp pe v = do {
     (res, v) \<leftarrow> peer_produce lib now (outIdent out) (outReceiver out) (fst kp) (snd kp) pe v;
     Some (case res of
       Inl e \<Rightarrow> ([Inl e], v)
     | Inr pr \<Rightarrow> ([build_message enc (ReplyId (pdId (sfProducers (svSfu v) ! pr)))], v)) }"

definition handle_produce_data ::
  "('a reply \<Rightarrow> bool) \<Rightarrow> string \<times> stream_parameters \<Rightarrow> nat \<Rightarrow> ('bk, 'nq, 'tw, 'me, 'a) server \<Rightarrow> ('bk, 'nq, 'tw, 'me, 'a) handled"
where
  "handle_produce_data enc lp pe v = do {
     (res, v) \<leftarrow> peer_produce_data (fst lp) (snd lp) pe v;
     Some (case res of
       Inl e \<Rightarrow> ([Inl e], v)
     | Inr dp \<Rightarrow> ([build_message enc (ReplyId (dpId (sfDataProducers (svSfu v) ! dp)))], v)) }"

definition handle_toggle :: "u64 \<times> bool \<Rightarrow> nat \<Rightarrow> ('bk, 'nq, 'tw, 'me, 'a) server \<Rightarrow> ('bk, 'nq, 'tw, 'me, 'a) handled" where
  "handle_toggle ip pe v = (case map_of (peProducers (svPeerHeap v ! pe)) (fst ip) of
     None \<Rightarrow> Some ([Inl (ErrNoProducer (fst ip))], v)
   | Some pr \<Rightarrow> Some ([Inr ReplyNothing], v\<lparr>svSfu := producer_pause (snd ip) pr (svSfu v)\<rparr>))"

definition consumer_reply :: "nat \<Rightarrow> u64 \<Rightarrow> ('bk, 'nq, 'tw, 'me, 'a) sfu \<Rightarrow> 'a reply" where
  "consumer_reply c pid s = ReplyConsumer (itoa (uint (csId (sfConsumers s ! c)))) (itoa (uint pid))
     (media_kind_string (csKind (sfConsumers s ! c))) (csParameters (sfConsumers s ! c))"

definition handle_consume ::
  "('bk, 'nq, 'tw, 'me, 'a) sfu_lib \<Rightarrow> ('a reply \<Rightarrow> bool) \<Rightarrow> gotime \<Rightarrow> outcomes \<Rightarrow> u64 \<times> bool \<Rightarrow> nat
   \<Rightarrow> ('bk, 'nq, 'tw, 'me, 'a) server \<Rightarrow> ('bk, 'nq, 'tw, 'me, 'a) handled"
where
  "handle_consume lib enc now out ip pe v = (case map_of (peProducers (svPeerHeap v ! pe)) (fst ip) of
     None \<Rightarrow> Some ([Inl (ErrNoProducer (fst ip))], v)
   | Some pr \<Rightarrow> do {
       (res, v) \<leftarrow> peer_consume lib now (outIdent out) (outSender out) pr (snd ip) pe v;
       Some (case res of
         Inl e \<Rightarrow> ([Inl e], v)
       | Inr c \<Rightarrow>
           let v = with_peer pe (\<lambda>p. p\<lparr>peConsumers := AList.update (csId (sfConsumers (svSfu v) ! c)) c (peConsumers p)\<rparr>) v
           in ([build_message enc (consumer_reply c (fst ip) (svSfu v))], v)) })"

definition data_consumer_reply :: "nat \<Rightarrow> u64 \<Rightarrow> ('bk, 'nq, 'tw, 'me, 'a) sfu \<Rightarrow> 'a reply" where
  "data_consumer_reply dc pid s = ReplyDataConsumer (itoa (uint (dqId (sfDataConsumers s ! dc)))) (itoa (uint pid))
     (dqLabel (sfDataConsumers s ! dc)) (dqParameters (sfDataConsumers s ! dc))"

definition handle_consume_data ::
  "('a reply \<Rightarrow> bool) \<Rightarrow> outcomes \<Rightarrow> u64 \<Rightarrow> nat \<Rightarrow> ('bk, 'nq, 'tw, 'me, 'a) server \<Rightarrow> ('bk, 'nq, 'tw, 'me, 'a) handled"
where
  "handle_consume_data enc out pid pe v = do {
     (res, v) \<leftarrow> peer_consume_data (outChannel out) (outUp out) pid pe v;
     Some (case res of
       Inl e \<Rightarrow> ([Inl e], v)
     | Inr dc \<Rightarrow>
         let v = with_peer pe (\<lambda>p. p\<lparr>peDataConsumers := AList.update (dqId (sfDataConsumers (svSfu v) ! dc)) dc (peDataConsumers p)\<rparr>) v
         in ([build_message enc (data_consumer_reply dc pid (svSfu v))], v)) }"

definition handle_resume :: "u64 \<Rightarrow> nat \<Rightarrow> ('bk, 'nq, 'tw, 'me, 'a) server \<Rightarrow> ('bk, 'nq, 'tw, 'me, 'a) handled" where
  "handle_resume cid pe v = (case map_of (peConsumers (svPeerHeap v ! pe)) cid of
     None \<Rightarrow> Some ([Inl (ErrNoConsumer cid)], v)
   | Some c \<Rightarrow> Some ([Inr ReplyNothing], v\<lparr>svSfu := consumer_resume c (svSfu v)\<rparr>))"

text \<open>A payload that cannot be decoded is answered with its error.\<close>

definition with_payload ::
  "'p option \<Rightarrow> ('p \<Rightarrow> ('bk, 'nq, 'tw, 'me, 'a) handled) \<Rightarrow> ('bk, 'nq, 'tw, 'me, 'a) server \<Rightarrow> ('bk, 'nq, 'tw, 'me, 'a) handled"
where
  "with_payload p h v = (case p of None \<Rightarrow> Some ([Inl ErrPayload], v) | Some x \<Rightarrow> h x)"

definition handle_incoming_message ::
  "('bk, 'nq, 'tw, 'me, 'a) sfu_lib \<Rightarrow> 'a json_lib \<Rightarrow> ('a reply \<Rightarrow> bool) \<Rightarrow> gotime \<Rightarrow> outcomes \<Rightarrow> ws_message \<Rightarrow> nat \<Rightarrow> nat
   \<Rightarrow> ('bk, 'nq, 'tw, 'me, 'a) server \<Rightarrow> ('bk, 'nq, 'tw, 'me, 'a) handled"
where
  "handle_incoming_message lib js enc now out msg rm pe v =
     (let raw = msgPayload msg in
      case message_type_of (msgMethod msg) of
        JoinRoomMessage \<Rightarrow> with_payload (parseJoin js raw) (\<lambda>ident. handle_join enc ident rm v) v
      | GetRouterCapability \<Rightarrow>
          Some ([build_message enc (ReplyCapabilities (roCapabilities (sfRouters (svSfu v) ! rmRouter (svRoomHeap v ! rm))))], v)
      | CreateTransport \<Rightarrow> with_payload (parseCreate js raw) (\<lambda>c. handle_create lib enc out c pe v) v
      | ConnectTransport \<Rightarrow> with_payload (parseConnect js raw) (\<lambda>ident. handle_connect out ident pe v) v
      | CloseTransport \<Rightarrow> with_payload (parseClose js raw) (\<lambda>ident. handle_close out ident pe v) v
      | ProduceMessage \<Rightarrow> with_payload (parseProduce js raw) (\<lambda>kp. handle_produce lib enc now out kp pe v) v
      | ProduceDataMessage \<Rightarrow> with_payload (parseProduceData js raw) (\<lambda>lp. handle_produce_data enc lp pe v) v
      | ProducerToggle \<Rightarrow> with_payload (parseToggle js raw) (\<lambda>ip. handle_toggle ip pe v) v
      | ConsumeMessage \<Rightarrow> with_payload (parseConsume js raw) (\<lambda>ip. handle_consume lib enc now out ip pe v) v
      | ConsumeDataMessage \<Rightarrow> with_payload (parseConsumeData js raw) (\<lambda>pid. handle_consume_data enc out pid pe v) v
      | ConsumerResume \<Rightarrow> with_payload (parseResume js raw) (\<lambda>cid. handle_resume cid pe v) v
      | _ \<Rightarrow> Some ([], v))"

section \<open>One message of a connection\<close>

text \<open>The message read is the answer, changed. Its payload is the client's own, if the handler gave none; an error, or a result.\<close>

datatype 'a payload = OwnPayload string | ErrorPayload room_error | ResultPayload "'a reply"

record 'a ws_response =
  rspIsError :: bool
  rspPayload :: "'a payload"

text \<open>A call of the callback changes the message and writes it: an error sticks to the answers after it.\<close>

fun respond :: "room_error + 'a reply \<Rightarrow> 'a ws_response \<Rightarrow> 'a ws_response" where
  "respond (Inl e) r = r\<lparr>rspIsError := True, rspPayload := ErrorPayload e\<rparr>"
| "respond (Inr ReplyNothing) r = r"
| "respond (Inr x) r = r\<lparr>rspPayload := ResultPayload x\<rparr>"

fun responses :: "(room_error + 'a reply) list \<Rightarrow> 'a ws_response \<Rightarrow> 'a ws_response list" where
  "responses [] r = []"
| "responses (x # xs) r = respond x r # responses xs (respond x r)"

text \<open>
  \<^verbatim>\<open>WSServer.handle\<close>: each call of the callback writes an answer and then sends its result to a
  channel of one place, which is read once the handler has returned. No call leaves the reader waiting,
  a second call finds the place taken: in both cases the connection is stuck.
\<close>

definition ws_handle ::
  "('bk, 'nq, 'tw, 'me, 'a) sfu_lib \<Rightarrow> 'a json_lib \<Rightarrow> ('a reply \<Rightarrow> bool) \<Rightarrow> gotime \<Rightarrow> outcomes \<Rightarrow> ws_message \<Rightarrow> nat \<Rightarrow> nat
   \<Rightarrow> ('bk, 'nq, 'tw, 'me, 'a) server \<Rightarrow> (('a ws_response list \<times> bool) \<times> ('bk, 'nq, 'tw, 'me, 'a) server) option"
where
  "ws_handle lib js enc now out msg rm pe v = do {
     (calls, v) \<leftarrow> handle_incoming_message lib js enc now out msg rm pe v;
     Some ((responses (take 2 calls) \<lparr>rspIsError = msgIsError msg, rspPayload = OwnPayload (msgPayload msg)\<rparr>,
       length calls = 1), v) }"

text \<open>
  The loop of \<^verbatim>\<open>WSServer.ServeHTTP\<close> over the messages that the client sends before it leaves: the answers
  in their order, and whether the connection came to the end of the messages or got stuck. Nothing is
  done when it ends: the peer stays in its room.
\<close>

fun serve_connection ::
  "('bk, 'nq, 'tw, 'me, 'a) sfu_lib \<Rightarrow> 'a json_lib \<Rightarrow> ('a reply \<Rightarrow> bool) \<Rightarrow> nat \<Rightarrow> nat
   \<Rightarrow> (gotime \<times> outcomes \<times> ws_message) list \<Rightarrow> ('bk, 'nq, 'tw, 'me, 'a) server
   \<Rightarrow> (('a ws_response list \<times> bool) \<times> ('bk, 'nq, 'tw, 'me, 'a) server) option"
where
  "serve_connection lib js enc rm pe [] v = Some (([], True), v)"
| "serve_connection lib js enc rm pe ((now, out, msg) # msgs) v = do {
     ((rs, goes_on), v) \<leftarrow> ws_handle lib js enc now out msg rm pe v;
     if goes_on then do {
       ((rs', ended), v) \<leftarrow> serve_connection lib js enc rm pe msgs v;
       Some ((rs @ rs', ended), v) }
     else Some ((rs, False), v) }"

end
