(* ===== verification/DownTrackSpec.thy ===== *)
theory DownTrackSpec
  imports DownTrack BufferSpec SequencerStore
begin

text \<open>
  What the down track promises: with the producer's buffer beside it, no run of its operations panics,
  and a retransmission sends what was forwarded under the requested number. The two are
  interpretations of \<^verbatim>\<open>panic_free\<close> on the track and on the track with a log of what was forwarded.
\<close>

section \<open>Nothing panics\<close>

definition sequencer_ok :: "sequencer option \<Rightarrow> bool" where
  "sequencer_ok s \<longleftrightarrow> (case s of None \<Rightarrow> True | Some s \<Rightarrow> sq_inv s)"

definition track_ok :: "down_track \<Rightarrow> bool" where
  "track_ok d \<longleftrightarrow> stats_ok (dtRtpStats d) \<and> sequencer_ok (dtSequencer d) \<and> 0 < dtMaxTrack d"

lemma sequencer_ok_simps [simp]: "sequencer_ok None" "sequencer_ok (Some s) = sq_inv s"
  by (simp_all add: sequencer_ok_def)

lemma track_ok_updates [simp]:
  "track_ok (d\<lparr>dtBound := x1\<rparr>) = track_ok d" "track_ok (d\<lparr>dtMime := x2\<rparr>) = track_ok d"
  "track_ok (d\<lparr>dtSSRC := x3\<rparr>) = track_ok d" "track_ok (d\<lparr>dtPayloadType := x4\<rparr>) = track_ok d"
  "track_ok (d\<lparr>dtStarted := x5\<rparr>) = track_ok d" "track_ok (d\<lparr>dtHasReader := x6\<rparr>) = track_ok d"
  "track_ok (d\<lparr>dtEnabled := x7\<rparr>) = track_ok d" "track_ok (d\<lparr>dtSyncRequired := x8\<rparr>) = track_ok d"
  "track_ok (d\<lparr>dtSnOffset := x9\<rparr>) = track_ok d" "track_ok (d\<lparr>dtTsOffset := x10\<rparr>) = track_ok d"
  "track_ok (d\<lparr>dtLastSN := x11\<rparr>) = track_ok d" "track_ok (d\<lparr>dtLastTS := x12\<rparr>) = track_ok d"
  "track_ok (d\<lparr>dtTwccSN := x13\<rparr>) = track_ok d" "track_ok (d\<lparr>dtEnabledHeaders := x14\<rparr>) = track_ok d"
  "track_ok (d\<lparr>dtSent := x15\<rparr>) = track_ok d" "track_ok (d\<lparr>dtCalls := x16\<rparr>) = track_ok d"
  "track_ok (d\<lparr>dtSpawned := x17\<rparr>) = track_ok d" "track_ok (d\<lparr>dtHasClose := x18\<rparr>) = track_ok d"
  "track_ok (d\<lparr>dtHasBind := x19\<rparr>) = track_ok d" "track_ok (d\<lparr>dtHasTransportCC := x20\<rparr>) = track_ok d"
  "track_ok (d\<lparr>dtHasREMB := x21\<rparr>) = track_ok d"
  by (simp_all add: track_ok_def)

lemma track_ok_stats [simp]: "track_ok d \<Longrightarrow> track_ok (d\<lparr>dtRtpStats := r\<rparr>) = stats_ok r"
  and track_ok_sequencer [simp]: "track_ok d \<Longrightarrow> track_ok (d\<lparr>dtSequencer := s\<rparr>) = sequencer_ok s"
  by (simp_all add: track_ok_def)

lemma track_okD: "track_ok d \<Longrightarrow> stats_ok (dtRtpStats d)" "track_ok d \<Longrightarrow> dtSequencer d = Some s \<Longrightarrow> sq_inv s"
  by (simp_all add: track_ok_def)

lemma track_stats_ok:
  assumes "stats_ok r"
  shows "stats_ok (update_nack_processed a m p r)" "stats_ok (update_pli n r)" "stats_ok (update_fir n r)"
    "stats_ok (update_pli_time now r)" "stats_ok (snd (update_from_receiver_report g now rr r))"
proof -
  let ?env = "\<lparr>envMarshalSize = \<lambda>_. 0, envGetRtt = g, envNtpTime = \<lambda>_. 0, envFrac = \<lambda>_. 0, envJitter = \<lambda>_. 0\<rparr>"
  note step = stats_step_ok [OF assms, where env = ?env]
  show "stats_ok (update_nack_processed a m p r)" using step [of "EvNackProcessed a m p"] by simp
  show "stats_ok (update_pli n r)" using step [of "EvPli n"] by simp
  show "stats_ok (update_fir n r)" using step [of "EvFir n"] by simp
  show "stats_ok (update_pli_time now r)" using step [of "EvPliTime now"] by simp
  show "stats_ok (snd (update_from_receiver_report g now rr r))" using step [of "EvReceiverReport now rr"] by simp
qed

lemma prepare_rtp_header_ok: "track_ok d \<Longrightarrow> track_ok (snd (prepare_rtp_header lib now hdr ts sn d))"
  by (simp add: prepare_rtp_header_def split_beta Let_def)

lemma send_rtp_ok:
  assumes "track_ok d"
  shows "\<exists>ok d'. send_rtp lib now hdr payload d = Some (ok, d') \<and> track_ok d'"
proof -
  obtain flow r' where "rtp_update (libMarshalSize (tlMedia lib)) now hdr (int (length payload)) 0 (unix_nano now)
      (dtRtpStats d) = Some (flow, r')" "stats_ok r'"
    using stats_update_ok [OF track_okD(1) [OF assms]] by blast
  then show ?thesis using assms by (cases "writeRTP lib hdr payload") (auto simp: send_rtp_def)
qed

lemma forward_ok:
  assumes "track_ok d"
  shows "\<exists>ok d'. forward lib now ep d = Some (ok, d') \<and> track_ok d'"
proof -
  let ?sn = "SequenceNumber (Header (Packet ep))"
  let ?newSN = "?sn - dtSnOffset d" and ?newTS = "Timestamp (Header (Packet ep)) - dtTsOffset d"
  obtain d1 where push: "(case dtSequencer d of None \<Rightarrow> Some d
       | Some s \<Rightarrow> do { (_, s) \<leftarrow> sq_push ?sn ?newSN ?newTS 0 s; Some (d\<lparr>dtSequencer := Some s\<rparr>) }) = Some d1"
    and d1: "track_ok d1"
  proof (cases "dtSequencer d")
    case (Some s)
    then show ?thesis
      using sq_push_inv [OF track_okD(2) [OF assms Some], of ?sn ?newSN ?newTS 0] assms that by auto
  qed (use assms that in simp)
  define d2 where "d2 = (if \<not> dtStarted d1 then d1\<lparr>dtLastSN := ?newSN, dtLastTS := ?newTS, dtStarted := True\<rparr> else d1)"
  obtain h d3 where prep: "prepare_rtp_header lib now (Header (Packet ep)) ?newTS ?newSN d2 = (h, d3)" by force
  have "track_ok d2" using d1 by (simp add: d2_def)
  then have d3: "track_ok d3" using prepare_rtp_header_ok prep by (metis snd_conv)
  have "forward lib now ep d = (case (h, d3) of (None, d) \<Rightarrow> Some (False, d)
     | (Some hdr, d) \<Rightarrow> send_rtp lib now hdr (Payload (Packet ep)) d)"
    unfolding forward_def Let_def push by (simp add: prep flip: d2_def)
  then show ?thesis using d3 send_rtp_ok [OF d3] by (cases h) auto
qed

lemma write_rtp_ok:
  assumes "track_ok d" and "buffer_bound b"
  shows "\<exists>ok d' b'. write_rtp lib now ep d b = Some (ok, d', b') \<and> track_ok d' \<and> buffer_bound b'"
proof -
  obtain b' where pli: "send_pli True now b = Some b'" "buffer_bound b'"
    using send_pli_ok [OF bound_calc [OF assms(2)], of True now] assms(2) by (auto simp: buffer_bound_def)
  let ?d = "if dtSyncRequired d then synchronize ep d else d"
  have "track_ok ?d" using assms(1) by (simp add: synchronize_def Let_def)
  from forward_ok [OF this, of lib now ep] show ?thesis
    using assms pli by (auto simp: write_rtp_def write_simple_rtp_def)
qed

lemma retransmit_one_ok:
  assumes "track_ok (rxTrack x)" and "buffer_bound b"
  shows "\<exists>more x'. retransmit_one lib now meta b x = Some (more, x') \<and> track_ok (rxTrack x')"
proof -
  obtain r where r: "get_packet (tlMedia lib) packetFactorySize (sourceSeqNo meta) b = Some r"
    using get_packet_ok [OF bound_calc [OF assms(2)]] by blast
  show ?thesis
  proof (cases r)
    case (Inl e)
    then show ?thesis using r assms(1) by (cases e) (auto simp: retransmit_one_def Let_def)
  next
    case (Inr raw)
    show ?thesis
    proof (cases "rtpUnmarshal (tlMedia lib) raw")
      case None
      then show ?thesis using r Inr assms(1) by (auto simp: retransmit_one_def Let_def)
    next
      case (Some p)
      obtain h d where prep: "prepare_rtp_header lib now (Header p) (pmTimestamp meta) (targetSeqNo meta) (rxTrack x) = (h, d)"
        by force
      then have "track_ok d" using prepare_rtp_header_ok [OF assms(1)] by (metis snd_conv)
      then show ?thesis
        using r Inr Some prep send_rtp_ok [of d lib now "the h" "Payload p"]
        by (cases h) (auto simp: retransmit_one_def Let_def)
    qed
  qed
qed

lemma retransmit_loop_ok:
  assumes "buffer_bound b"
  shows "track_ok (rxTrack x) \<Longrightarrow> \<exists>x'. retransmit_loop lib now metas b x = Some x' \<and> track_ok (rxTrack x')"
proof (induction metas arbitrary: x)
  case (Cons meta metas)
  obtain more x1 where "retransmit_one lib now meta b x = Some (more, x1)" "track_ok (rxTrack x1)"
    using retransmit_one_ok [OF Cons.prems assms] by blast
  then show ?case using Cons.IH [of x1] by (cases more) simp_all
qed simp

lemma retransmit_packets_ok:
  assumes "track_ok d" and "buffer_bound b"
  shows "\<exists>d'. retransmit_packets lib now sns d b = Some d' \<and> track_ok d'"
proof (cases "dtSequencer d")
  case (Some s)
  obtain metas s' where m: "sq_get_packets_meta now sns s = Some (metas, s')" "sq_inv s'"
    using sq_step_inv [OF track_okD(2) [OF assms(1) Some], of "SqNack now sns"] by auto
  obtain x where "retransmit_loop lib now (map (\<lambda>i. sqMeta s' ! i) metas) b
      \<lparr>rxTrack = d\<lparr>dtSequencer := Some s'\<rparr>, rxAcks = 0, rxMisses = 0, rxRepeated = 0\<rparr> = Some x" "track_ok (rxTrack x)"
    using retransmit_loop_ok [OF assms(2), of "\<lparr>rxTrack = d\<lparr>dtSequencer := Some s'\<rparr>, rxAcks = 0, rxMisses = 0, rxRepeated = 0\<rparr>"
      lib now "map (\<lambda>i. sqMeta s' ! i) metas"] assms(1) m(2) by auto
  then show ?thesis
    using Some m(1) track_stats_ok(1) [OF track_okD(1)] by (simp add: retransmit_packets_def)
qed (use assms in \<open>simp add: retransmit_packets_def\<close>)

definition feedback_ok :: "('bk, 'nq, 'tw) rtcp_state \<Rightarrow> bool" where
  "feedback_ok x \<longleftrightarrow> track_ok (fbTrack x) \<and> buffer_bound (fbBuffer x)"

lemma send_pli_once_ok:
  assumes "feedback_ok x"
  shows "\<exists>x'. send_pli_once now x = Some x' \<and> feedback_ok x'"
proof -
  obtain b' where "send_pli False now (fbBuffer x) = Some b'" "buffer_bound b'"
    using send_pli_ok [OF bound_calc, of "fbBuffer x" False now] assms by (auto simp: buffer_bound_def feedback_ok_def)
  then show ?thesis
    using assms track_stats_ok(4) [OF track_okD(1)] by (simp add: send_pli_once_def feedback_ok_def)
qed

lemma take_reports_ok: "feedback_ok x \<Longrightarrow> feedback_ok (fold (take_report lib now) rrs x)"
proof (induction rrs arbitrary: x)
  case (Cons rr rrs)
  have "feedback_ok (take_report lib now rr x)"
    using Cons.prems track_stats_ok(5) [OF track_okD(1), of "fbTrack x" "envGetRtt (libStats (tlMedia lib))" now rr]
    by (auto simp: take_report_def feedback_ok_def Let_def split: prod.split)
  then show ?case using Cons.IH by simp
qed simp

lemma handle_rtcp_packet_ok:
  assumes "feedback_ok x"
  shows "\<exists>x'. handle_rtcp_packet lib now pkt x = Some x' \<and> feedback_ok x'"
proof -
  have "feedback_ok (x\<lparr>fbPLIs := fbPLIs x + 1\<rparr>)" "feedback_ok (x\<lparr>fbFIRs := fbFIRs x + 1\<rparr>)"
    using assms by (simp_all add: feedback_ok_def)
  note pli = this [THEN send_pli_once_ok, of now]
  show ?thesis
  proof (cases pkt)
    case (ReceiverReport s rrs)
    then show ?thesis using take_reports_ok [OF assms] by simp
  qed (use assms pli in \<open>simp_all add: feedback_ok_def track_call_def\<close>)
qed

lemma handle_rtcp_ok:
  assumes "track_ok d" and "buffer_bound b"
  shows "\<exists>d' b'. handle_rtcp lib now raw d b = Some (d', b') \<and> track_ok d' \<and> buffer_bound b'"
proof (cases "rtcpUnmarshal lib raw")
  case None
  then show ?thesis using assms by (simp add: handle_rtcp_def)
next
  case (Some pkts)
  let ?x = "\<lparr>fbTrack = d, fbBuffer = b, fbPliOnce = True, fbRtt = 0, fbPLIs = 0, fbFIRs = 0\<rparr>"
  have "\<exists>x'. run_panic (handle_rtcp_packet lib now) pkts x = Some x' \<and> feedback_ok x'" if "feedback_ok x" for x
    using that
  proof (induction pkts arbitrary: x)
    case (Cons pkt pkts)
    obtain x1 where "handle_rtcp_packet lib now pkt x = Some x1" "feedback_ok x1"
      using handle_rtcp_packet_ok [OF Cons.prems] by blast
    then show ?case using Cons.IH [of x1] by simp
  qed simp
  from this [of ?x] obtain x where x: "run_panic (handle_rtcp_packet lib now) pkts ?x = Some x" "feedback_ok x"
    using assms by (auto simp: feedback_ok_def)
  then have ok: "track_ok (fbTrack x)" "buffer_bound (fbBuffer x)" by (simp_all add: feedback_ok_def)
  have stats: "stats_ok (update_fir n (update_pli m (dtRtpStats (fbTrack x))))" for n m
    by (intro track_stats_ok track_okD ok)
  have seq: "sequencer_ok (map_option (sq_set_rtt v) (dtSequencer (fbTrack x)))" for v
    using sq_step_inv [OF track_okD(2) [OF ok(1)], of _ "SqRtt v"]
    by (cases "dtSequencer (fbTrack x)") auto
  show ?thesis using Some x ok stats seq by (simp add: handle_rtcp_def Let_def)
qed

lemma track_bind_ok:
  assumes "track_ok d"
  shows "\<exists>c d'. track_bind now t d = Some (c, d') \<and> track_ok d'"
proof (cases "codec_fuzzy_search \<lparr>CodecCapability = dtCodec d, CodecPayloadType = 0\<rparr> (ctxCodecs t)")
  case None
  then show ?thesis using assms by (simp add: track_bind_def)
next
  case (Some codec)
  have "0 < dtMaxTrack d" using assms by (simp add: track_ok_def)
  then obtain s where "new_sequencer now (dtMaxTrack d) maxPadding = Some s" "sq_inv s"
    using new_sequencer_sized [of "dtMaxTrack d" maxPadding now] by (auto simp: maxPadding_def sq_sized_def)
  then show ?thesis using Some assms by (simp add: track_bind_def track_call_def Let_def)
qed

lemma track_close_ok: "track_ok d \<Longrightarrow> track_ok (track_close now d)"
  using stats_calls_ok(3) [OF track_okD(1)] by (simp add: track_close_def track_call_def Let_def)

section \<open>The track and the producer's buffer together\<close>

text \<open>
  The steps of the two: the forwarding of a packet, the subscriber's RTCP, a goroutine that
  retransmits (the \<open>n\<close>-th of those started), the control of the track, and the operations of the
  producer's buffer.
\<close>

datatype 'tw track_event =
    TrWrite gotime ext_packet
  | TrRtcp gotime "u8 list"
  | TrRetransmit gotime nat
  | TrMute bool
  | TrBind gotime track_context
  | TrUnbind
  | TrClose gotime
  | TrHandlers
  | TrBuffer "'tw buffer_event"

fun track_step ::
  "('bk, 'nq, 'tw) track_lib \<Rightarrow> 'tw track_event \<Rightarrow> down_track \<times> ('bk, 'nq, 'tw) buffer
   \<Rightarrow> (down_track \<times> ('bk, 'nq, 'tw) buffer) option"
where
  "track_step lib (TrWrite now ep) (d, b) = map_option snd (write_rtp lib now ep d b)"
| "track_step lib (TrRtcp now raw) (d, b) = handle_rtcp lib now raw d b"
| "track_step lib (TrRetransmit now n) (d, b) =
     (if n < length (dtSpawned d) then
        map_option (\<lambda>d. (d, b)) (retransmit_packets lib now (dtSpawned d ! n)
          (d\<lparr>dtSpawned := take n (dtSpawned d) @ drop (Suc n) (dtSpawned d)\<rparr>) b)
      else Some (d, b))"
| "track_step lib (TrMute val) (d, b) = Some (mute val d, b)"
| "track_step lib (TrBind now t) (d, b) = map_option (\<lambda>(_, d). (d, b)) (track_bind now t d)"
| "track_step lib TrUnbind (d, b) = Some (track_unbind d, b)"
| "track_step lib (TrClose now) (d, b) = Some (track_close now d, b)"
| "track_step lib TrHandlers (d, b) =
     Some (on_remb_feedback (on_transport_cc_feedback (track_on_bind (track_on_close d))), b)"
| "track_step lib (TrBuffer e) (d, b) = map_option (Pair d) (buffer_step (tlMedia lib) e b)"

fun track_event_ok :: "'tw track_event \<Rightarrow> bool" where
  "track_event_ok (TrBuffer e) = bound_event_ok e"
| "track_event_ok _ = True"

definition forwarding_ok :: "down_track \<times> ('bk, 'nq, 'tw) buffer \<Rightarrow> bool" where
  "forwarding_ok = (\<lambda>(d, b). track_ok d \<and> buffer_bound b)"

lemma track_step_ok:
  assumes "lib_ok (tlMedia lib)" and "track_ok d" and "buffer_bound b" and "track_event_ok e"
  shows "\<exists>d' b'. track_step lib e (d, b) = Some (d', b') \<and> track_ok d' \<and> buffer_bound b'"
proof (cases e)
  case (TrWrite now ep)
  then show ?thesis using write_rtp_ok [OF assms(2,3), of lib now ep] by auto
next
  case (TrRtcp now raw)
  then show ?thesis using handle_rtcp_ok [OF assms(2,3)] by simp
next
  case (TrRetransmit now n)
  have "track_ok (d\<lparr>dtSpawned := x\<rparr>)" for x using assms(2) by simp
  then show ?thesis using TrRetransmit retransmit_packets_ok [OF _ assms(3)] assms(2,3) by fastforce
next
  case (TrBind now t)
  then show ?thesis using track_bind_ok [OF assms(2), of now t] assms(3) by auto
next
  case (TrClose now)
  then show ?thesis using track_close_ok [OF assms(2)] assms(3) by simp
next
  case (TrBuffer e)
  then show ?thesis using bound_step_ok [OF assms(1,3), of e] assms(2,4) by auto
qed (use assms in \<open>simp_all add: mute_def track_unbind_def on_remb_feedback_def on_transport_cc_feedback_def
    track_on_bind_def track_on_close_def\<close>)

interpretation forwarding: panic_free "track_step lib" "\<lambda>e. lib_ok (tlMedia lib) \<and> track_event_ok e" forwarding_ok
  for lib
  by unfold_locales (use track_step_ok in \<open>fastforce simp: forwarding_ok_def\<close>)

lemma new_down_track_ok: "0 < mt \<Longrightarrow> track_ok (new_down_track now ident streamID mid c mt)"
  using stats_calls_ok(6) [OF stats_ok_new]
  by (simp add: new_down_track_def split_beta Let_def track_ok_def)


section \<open>What is sent\<close>

text \<open>Setting an extension leaves the other fields of a header alone.\<close>

definition ext_laws :: "('bk, 'nq, 'tw) track_lib \<Rightarrow> bool" where
  "ext_laws lib \<longleftrightarrow> (\<forall>i v h h'. setExtension lib i v h = Some h' \<longrightarrow>
     PayloadType h' = PayloadType h \<and> Timestamp h' = Timestamp h \<and>
     SequenceNumber h' = SequenceNumber h \<and> SSRC h' = SSRC h)"

definition header_key :: "rtp_header \<Rightarrow> u8 \<times> u32 \<times> u16 \<times> u32" where
  "header_key h = (PayloadType h, Timestamp h, SequenceNumber h, SSRC h)"

lemma forward_extension_key:
  assumes "ext_laws lib" and "forward_extension lib now mid ori ext twcc hdr = (Some hdr', twcc')"
  shows "header_key hdr' = header_key hdr"
proof -
  have key: "header_key h' = header_key h" if "setExtension lib i v h = Some h'" for i v h h'
    using assms(1) that unfolding ext_laws_def header_key_def by simp
  show ?thesis
    using assms(2) by (auto simp: forward_extension_def Let_def dest: key split: if_splits option.splits)
qed

lemma forward_extensions_key:
  assumes "ext_laws lib"
  shows "forward_extensions lib now mid ori exts twcc hdr = (Some hdr', twcc') \<Longrightarrow> header_key hdr' = header_key hdr"
proof (induction exts arbitrary: twcc hdr)
  case (Cons ext exts)
  then show ?case
    using forward_extension_key [OF assms] by (auto split: prod.splits option.splits)
qed simp

lemma prepare_rtp_header_key:
  assumes "ext_laws lib" and "prepare_rtp_header lib now hdr ts sn d = (Some hdr', d')"
  shows "header_key hdr' = (dtPayloadType d, ts, sn, dtSSRC d)"
  using forward_extensions_key [OF assms(1)] assms(2)
  by (fastforce simp: prepare_rtp_header_def forwarded_header_def Let_def split_beta header_key_def prod_eq_iff)

definition same_stream :: "down_track \<Rightarrow> down_track \<Rightarrow> bool" where
  "same_stream d d' \<longleftrightarrow> dtSequencer d' = dtSequencer d \<and> dtSSRC d' = dtSSRC d \<and> dtPayloadType d' = dtPayloadType d"

lemma same_stream_trans: "same_stream a b \<Longrightarrow> same_stream b c \<Longrightarrow> same_stream a c"
  by (simp add: same_stream_def)

lemma prepare_rtp_header_frame:
  assumes "prepare_rtp_header lib now hdr ts sn d = (r, d')"
  shows "same_stream d d'" "dtSent d' = dtSent d"
  using assms by (auto simp: prepare_rtp_header_def split_beta Let_def same_stream_def)

lemma send_rtp_frame:
  assumes "send_rtp lib now hdr payload d = Some (ok, d')"
  shows "same_stream d d'" "dtSent d' = dtSent d @ (if ok then [(hdr, payload)] else [])"
  using assms by (auto simp: send_rtp_def same_stream_def split: if_splits)

section \<open>Retransmissions\<close>

text \<open>
  A packet sent for one of the entries \<open>metas\<close>: under the number and time stamp of the entry, with the
  payload of the packet that the producer's buffer still has under the entry's source number.
\<close>

definition resends ::
  "('bk, 'nq, 'tw) track_lib \<Rightarrow> ('bk, 'nq, 'tw) buffer \<Rightarrow> down_track \<Rightarrow> packet_meta list \<Rightarrow> rtp_header \<times> u8 list \<Rightarrow> bool"
where
  "resends lib b d metas = (\<lambda>(hdr, payload). \<exists>meta raw p. meta \<in> set metas \<and>
     header_key hdr = (dtPayloadType d, pmTimestamp meta, targetSeqNo meta, dtSSRC d) \<and>
     get_packet (tlMedia lib) packetFactorySize (sourceSeqNo meta) b = Some (Inr raw) \<and>
     rtpUnmarshal (tlMedia lib) raw = Some p \<and> payload = Payload p)"

lemma resends_stream: "same_stream d d' \<Longrightarrow> resends lib b d' = resends lib b d"
  by (simp add: resends_def same_stream_def fun_eq_iff)

lemma resends_mono: "resends lib b d metas x \<Longrightarrow> set metas \<subseteq> set metas' \<Longrightarrow> resends lib b d metas' x"
  unfolding resends_def by (cases x) blast

lemma retransmit_one_sent:
  assumes "ext_laws lib" and "retransmit_one lib now meta b x = Some (cont, x')"
  shows "same_stream (rxTrack x) (rxTrack x') \<and>
    (\<exists>ps. dtSent (rxTrack x') = dtSent (rxTrack x) @ ps \<and> (\<forall>q\<in>set ps. resends lib b (rxTrack x) [meta] q))"
proof -
  have same: "same_stream d d" for d by (simp add: same_stream_def)
  obtain r where r: "get_packet (tlMedia lib) packetFactorySize (sourceSeqNo meta) b = Some r"
    using assms(2) by (auto simp: retransmit_one_def Let_def)
  show ?thesis
  proof (cases r)
    case (Inl e)
    then show ?thesis using assms(2) r same by (cases e) (auto simp: retransmit_one_def Let_def)
  next
    case (Inr raw)
    show ?thesis
    proof (cases "rtpUnmarshal (tlMedia lib) raw")
      case None
      then show ?thesis using assms(2) r Inr same by (auto simp: retransmit_one_def Let_def)
    next
      case (Some p)
      define x1 where "x1 = x\<lparr>rxAcks := rxAcks x + 1\<rparr>"
      define x2 where "x2 = (if nacked meta > 1 then x1\<lparr>rxRepeated := rxRepeated x1 + 1\<rparr> else x1)"
      have x2: "rxTrack x2 = rxTrack x" by (simp add: x2_def x1_def)
      obtain h d where prep: "prepare_rtp_header lib now (Header p) (pmTimestamp meta) (targetSeqNo meta) (rxTrack x) = (h, d)"
        by force
      note frame = prepare_rtp_header_frame [OF prep]
      have one: "retransmit_one lib now meta b x = (case h of None \<Rightarrow> Some (True, x2\<lparr>rxTrack := d\<rparr>)
          | Some hdr \<Rightarrow> do { (_, d) \<leftarrow> send_rtp lib now hdr (Payload p) d; Some (True, x2\<lparr>rxTrack := d\<rparr>) })"
        unfolding retransmit_one_def Let_def x1_def [symmetric] x2_def [symmetric]
        by (simp add: r Inr Some x2 prep split: option.split flip: x1_def x2_def)
      show ?thesis
      proof (cases h)
        case None
        then show ?thesis using assms(2) frame unfolding one by auto
      next
        case hdr: (Some hdr)
        obtain ok d' where send: "send_rtp lib now hdr (Payload p) d = Some (ok, d')" and x': "rxTrack x' = d'"
          using assms(2) hdr unfolding one by auto
        have "header_key hdr = (dtPayloadType (rxTrack x), pmTimestamp meta, targetSeqNo meta, dtSSRC (rxTrack x))"
          using prepare_rtp_header_key [OF assms(1) prep [unfolded hdr]] .
        then have "resends lib b (rxTrack x) [meta] (hdr, Payload p)"
          using r Inr Some by (auto simp: resends_def)
        then show ?thesis
          using send_rtp_frame [OF send] frame x' same_stream_trans by auto
      qed
    qed
  qed
qed

lemma retransmit_loop_sent:
  assumes "ext_laws lib"
  shows "retransmit_loop lib now metas b x = Some x' \<Longrightarrow> same_stream (rxTrack x) (rxTrack x') \<and>
    (\<exists>ps. dtSent (rxTrack x') = dtSent (rxTrack x) @ ps \<and> (\<forall>q\<in>set ps. resends lib b (rxTrack x) metas q))"
proof (induction metas arbitrary: x)
  case Nil
  then show ?case by (simp add: same_stream_def)
next
  case (Cons meta metas)
  obtain cont x1 where 1: "retransmit_one lib now meta b x = Some (cont, x1)"
    and rest: "if cont then retransmit_loop lib now metas b x1 = Some x' else x' = x1"
    using Cons.prems by (auto split: if_splits)
  obtain ps where ps: "same_stream (rxTrack x) (rxTrack x1)" "dtSent (rxTrack x1) = dtSent (rxTrack x) @ ps"
      "\<forall>q\<in>set ps. resends lib b (rxTrack x) [meta] q"
    using retransmit_one_sent [OF assms 1] by blast
  have one: "\<forall>q\<in>set ps. resends lib b (rxTrack x) (meta # metas) q" using ps(3) resends_mono by fastforce
  show ?case
  proof (cases cont)
    case False
    then show ?thesis using rest ps one by auto
  next
    case True
    then obtain qs where qs: "same_stream (rxTrack x1) (rxTrack x')" "dtSent (rxTrack x') = dtSent (rxTrack x1) @ qs"
        "\<forall>q\<in>set qs. resends lib b (rxTrack x1) metas q"
      using Cons.IH rest by auto
    have "\<forall>q\<in>set qs. resends lib b (rxTrack x) (meta # metas) q"
    proof
      fix q assume "q \<in> set qs"
      then have "resends lib b (rxTrack x) metas q" using qs(3) resends_stream [OF ps(1), of lib b] by simp
      then show "resends lib b (rxTrack x) (meta # metas) q" by (rule resends_mono) auto
    qed
    then show ?thesis using ps qs one same_stream_trans by fastforce
  qed
qed

section \<open>The record of what was forwarded\<close>

text \<open>
  Beside the track runs a log: under each number of the outgoing stream, the source number, the
  number, the time stamp and the layer of the last packet forwarded with it since the last \<open>Bind\<close>.
\<close>

type_synonym forward_log = "u16 \<rightharpoonup> u16 \<times> u16 \<times> u32 \<times> 8 word"

definition awaits_keyframe :: "ext_packet \<Rightarrow> down_track \<Rightarrow> bool" where
  "awaits_keyframe ep d \<longleftrightarrow> dtSyncRequired d \<and> track_kind d = CodecVideo \<and> \<not> KeyFrame ep"

definition synced :: "ext_packet \<Rightarrow> down_track \<Rightarrow> down_track" where
  "synced ep d = (if dtSyncRequired d then synchronize ep d else d)"

definition log_forward :: "ext_packet \<Rightarrow> down_track \<Rightarrow> forward_log \<Rightarrow> forward_log" where
  "log_forward ep d g =
     (if \<not> dtEnabled d \<or> \<not> dtBound d \<or> awaits_keyframe ep d then g
      else let sn = SequenceNumber (Header (Packet ep)); d = synced ep d;
          off = sn - dtSnOffset d; ts = Timestamp (Header (Packet ep)) - dtTsOffset d
        in case Option.bind (dtSequencer d) (sq_push sn off ts 0) of
          Some (Some _, _) \<Rightarrow> g(off \<mapsto> (sn, off, ts, 0)) | _ \<Rightarrow> g)"

fun log_after :: "'tw track_event \<Rightarrow> down_track \<Rightarrow> forward_log \<Rightarrow> forward_log" where
  "log_after (TrWrite now ep) d g = log_forward ep d g"
| "log_after (TrBind now t) d g =
     (if codec_fuzzy_search \<lparr>CodecCapability = dtCodec d, CodecPayloadType = 0\<rparr> (ctxCodecs t) \<noteq> None \<and>
         track_kind d = CodecVideo
      then Map.empty else g)"
| "log_after _ d g = g"

definition logged_step ::
  "('bk, 'nq, 'tw) track_lib \<Rightarrow> 'tw track_event \<Rightarrow> forward_log \<times> down_track \<times> ('bk, 'nq, 'tw) buffer
   \<Rightarrow> (forward_log \<times> down_track \<times> ('bk, 'nq, 'tw) buffer) option"
where
  "logged_step lib e = (\<lambda>(g, d, b). map_option (Pair (log_after e d g)) (track_step lib e (d, b)))"

definition log_ok :: "forward_log \<Rightarrow> down_track \<Rightarrow> bool" where
  "log_ok g d \<longleftrightarrow> (case dtSequencer d of None \<Rightarrow> True | Some s \<Rightarrow> sq_log_ok (g, s))"

lemma subseq_mem: "subseq xs ys \<Longrightarrow> x \<in> set xs \<Longrightarrow> x \<in> set ys"
  by (induction rule: list_emb.induct) auto

lemma log_ok_stream: "same_stream d d' \<Longrightarrow> log_ok g d' = log_ok g d"
  by (simp add: log_ok_def same_stream_def)

lemma synced_fields [simp]:
  "dtSequencer (synced ep d) = dtSequencer d"
  by (simp add: synced_def synchronize_def Let_def)

lemma forward_log_ok:
  assumes ok: "log_ok g (synced ep d)" and run: "forward lib now ep (synced ep d) = Some (res, d')"
    and open_gate: "dtEnabled d" "dtBound d" "\<not> awaits_keyframe ep d"
  shows "log_ok (log_forward ep d g) d'"
proof -
  define c where "c = synced ep d"
  let ?sn = "SequenceNumber (Header (Packet ep))"
  let ?off = "?sn - dtSnOffset c" and ?ts = "Timestamp (Header (Packet ep)) - dtTsOffset c"
  obtain d1 where push: "(case dtSequencer c of None \<Rightarrow> Some c
       | Some s \<Rightarrow> do { (_, s) \<leftarrow> sq_push ?sn ?off ?ts 0 s; Some (c\<lparr>dtSequencer := Some s\<rparr>) }) = Some d1"
    using run unfolding forward_def c_def [symmetric] Let_def by (cases "dtSequencer c") auto
  have d1: "log_ok (log_forward ep d g) d1"
  proof (cases "dtSequencer c")
    case None
    then show ?thesis using push by (simp add: log_ok_def)
  next
    case (Some s)
    then obtain r s' where p: "sq_push ?sn ?off ?ts 0 s = Some (r, s')" and d1: "d1 = c\<lparr>dtSequencer := Some s'\<rparr>"
      using push by auto
    have "sq_log_ok (g, s)" using ok Some by (simp add: log_ok_def c_def)
    then have "sq_log_ok (if r = None then g else g(?off \<mapsto> (?sn, ?off, ?ts, 0)), s')"
      using sq_log.pstep_ok [of "(g, s)" "SqPush ?sn ?off ?ts 0"] p by simp
    moreover have "log_forward ep d g = (if r = None then g else g(?off \<mapsto> (?sn, ?off, ?ts, 0)))"
      using open_gate p Some by (cases r) (simp_all add: log_forward_def Let_def flip: c_def)
    ultimately show ?thesis by (simp add: log_ok_def d1)
  qed
  define d2 where "d2 = (if \<not> dtStarted d1 then d1\<lparr>dtLastSN := ?off, dtLastTS := ?ts, dtStarted := True\<rparr> else d1)"
  have s2: "same_stream d1 d2" by (simp add: d2_def same_stream_def)
  obtain h d3 where prep: "prepare_rtp_header lib now (Header (Packet ep)) ?ts ?off d2 = (h, d3)" by force
  have "forward lib now ep c = (case (h, d3) of (None, d) \<Rightarrow> Some (False, d)
     | (Some hdr, d) \<Rightarrow> send_rtp lib now hdr (Payload (Packet ep)) d)"
    unfolding forward_def Let_def push by (simp add: prep flip: d2_def)
  then have fin: "(case (h, d3) of (None, d) \<Rightarrow> Some (False, d)
     | (Some hdr, d) \<Rightarrow> send_rtp lib now hdr (Payload (Packet ep)) d) = Some (res, d')"
    using run by (simp add: c_def)
  have "same_stream d3 d'"
  proof (cases h)
    case None
    then show ?thesis using fin by (simp add: same_stream_def)
  next
    case (Some hdr)
    then show ?thesis using fin send_rtp_frame(1) [of lib now hdr "Payload (Packet ep)" d3 res d'] by simp
  qed
  then have "same_stream d1 d'" using s2 prepare_rtp_header_frame(1) [OF prep] same_stream_trans by blast
  then show ?thesis using d1 log_ok_stream by blast
qed

lemma write_rtp_log_ok:
  assumes "log_ok g d" and "write_rtp lib now ep d b = Some (res, d', b')"
  shows "log_ok (log_forward ep d g) d'"
proof (cases "\<not> dtEnabled d \<or> \<not> dtBound d \<or> awaits_keyframe ep d")
  case True
  then have "d' = d" using assms(2)
    by (auto simp: write_rtp_def write_simple_rtp_def awaits_keyframe_def split: if_splits)
  then show ?thesis using True assms(1) by (simp add: log_forward_def)
next
  case False
  then have "forward lib now ep (synced ep d) = Some (res, d')"
    using assms(2) by (auto simp: write_rtp_def write_simple_rtp_def awaits_keyframe_def synced_def split: if_splits)
  then show ?thesis using forward_log_ok assms(1) False by (auto simp: log_ok_def)
qed

lemma handle_rtcp_packet_stream:
  "handle_rtcp_packet lib now pkt x = Some x' \<Longrightarrow> same_stream (fbTrack x) (fbTrack x')"
proof -
  have pli: "same_stream (fbTrack x) (fbTrack x')" if "send_pli_once now x = Some x'" for x x' :: "('a, 'b, 'c) rtcp_state"
    using that by (auto simp: send_pli_once_def same_stream_def split: if_splits)
  have report: "same_stream (fbTrack x) (fbTrack (take_report lib now rr x))" for rr x
    by (auto simp: take_report_def same_stream_def Let_def split: prod.split)
  have "same_stream (fbTrack x) (fbTrack (fold (take_report lib now) rrs x))" for rrs
  proof (induction rrs arbitrary: x)
    case (Cons rr rrs)
    then show ?case using report same_stream_trans by fastforce
  qed (simp add: same_stream_def)
  then show "handle_rtcp_packet lib now pkt x = Some x' \<Longrightarrow> same_stream (fbTrack x) (fbTrack x')"
    using pli by (cases pkt) (fastforce simp: same_stream_def track_call_def split: if_splits)+
qed

lemma handle_rtcp_log_ok:
  assumes "log_ok g d" and "handle_rtcp lib now raw d b = Some (d', b')"
  shows "log_ok g d'"
proof (cases "rtcpUnmarshal lib raw")
  case None
  then show ?thesis using assms by (simp add: handle_rtcp_def)
next
  case (Some pkts)
  let ?x = "\<lparr>fbTrack = d, fbBuffer = b, fbPliOnce = True, fbRtt = 0, fbPLIs = 0, fbFIRs = 0\<rparr>"
  obtain x where run: "run_panic (handle_rtcp_packet lib now) pkts ?x = Some x"
    using assms(2) Some by (auto simp: handle_rtcp_def)
  have "same_stream (fbTrack y) (fbTrack x)" if "run_panic (handle_rtcp_packet lib now) pkts y = Some x" for y
    using that
  proof (induction pkts arbitrary: y)
    case Nil
    then show ?case by (simp add: same_stream_def)
  next
    case (Cons pkt pkts)
    then show ?case using handle_rtcp_packet_stream same_stream_trans by (auto split: option.splits) blast
  qed
  from this [OF run] have ok: "log_ok g (fbTrack x)" using log_ok_stream assms(1) by simp
  have d': "dtSequencer d' = (if fbRtt x \<noteq> 0 then map_option (sq_set_rtt (fbRtt x)) (dtSequencer (fbTrack x))
      else dtSequencer (fbTrack x))"
    using assms(2) Some run by (auto simp: handle_rtcp_def Let_def)
  have "sq_log_ok (g, sq_set_rtt v s)" if "sq_log_ok (g, s)" for v s
    using sq_log.pstep_ok [OF that, of "SqRtt v"] by simp
  then show ?thesis using ok d' by (auto simp: log_ok_def split: option.splits)
qed

text \<open>A packet sent in answer to a request for the numbers \<open>sns\<close>.\<close>

definition answers ::
  "('bk, 'nq, 'tw) track_lib \<Rightarrow> forward_log \<Rightarrow> u16 list \<Rightarrow> down_track \<Rightarrow> ('bk, 'nq, 'tw) buffer
   \<Rightarrow> rtp_header \<times> u8 list \<Rightarrow> bool"
where
  "answers lib g sns d b = (\<lambda>(hdr, payload). SequenceNumber hdr \<in> set sns \<and>
     PayloadType hdr = dtPayloadType d \<and> SSRC hdr = dtSSRC d \<and>
     (\<exists>src layer raw p. g (SequenceNumber hdr) = Some (src, SequenceNumber hdr, Timestamp hdr, layer) \<and>
        get_packet (tlMedia lib) packetFactorySize src b = Some (Inr raw) \<and>
        rtpUnmarshal (tlMedia lib) raw = Some p \<and> payload = Payload p))"

lemma retransmit_log_ok:
  assumes "ext_laws lib" and "log_ok g d" and run: "retransmit_packets lib now sns d b = Some d'"
  shows "log_ok g d' \<and> (\<exists>ps. dtSent d' = dtSent d @ ps \<and> (\<forall>q\<in>set ps. answers lib g sns d b q))"
proof (cases "dtSequencer d")
  case None
  then show ?thesis using run by (simp add: retransmit_packets_def log_ok_def)
next
  case (Some s)
  obtain metas s' x where m: "sq_get_packets_meta now sns s = Some (metas, s')"
    and x: "retransmit_loop lib now (map (\<lambda>i. sqMeta s' ! i) metas) b
      \<lparr>rxTrack = d\<lparr>dtSequencer := Some s'\<rparr>, rxAcks = 0, rxMisses = 0, rxRepeated = 0\<rparr> = Some x"
    and d': "dtSequencer d' = dtSequencer (rxTrack x)" "dtSent d' = dtSent (rxTrack x)"
    using run Some by (auto simp: retransmit_packets_def)
  have ok: "sq_log_ok (g, s)" using assms(2) Some by (simp add: log_ok_def)
  let ?d = "d\<lparr>dtSequencer := Some s'\<rparr>"
  obtain ps where ps: "same_stream ?d (rxTrack x)" "dtSent (rxTrack x) = dtSent d @ ps"
      "\<forall>q\<in>set ps. resends lib b ?d (map (\<lambda>i. sqMeta s' ! i) metas) q"
    using retransmit_loop_sent [OF assms(1) x] by auto
  have "answers lib g sns d b q" if q: "q \<in> set ps" for q
  proof -
    obtain hdr payload where qq: "q = (hdr, payload)" by force
    obtain i raw p where i: "i \<in> set metas"
      and key: "header_key hdr = (dtPayloadType d, pmTimestamp (sqMeta s' ! i), targetSeqNo (sqMeta s' ! i), dtSSRC d)"
      and pkt: "get_packet (tlMedia lib) packetFactorySize (sourceSeqNo (sqMeta s' ! i)) b = Some (Inr raw)"
        "rtpUnmarshal (tlMedia lib) raw = Some p" "payload = Payload p"
      using ps(3) q by (auto simp: qq resends_def)
    have "targetSeqNo (sqMeta s' ! i) \<in> set (map (\<lambda>i. targetSeqNo (sqMeta s' ! i)) metas)" using i by simp
    then have "targetSeqNo (sqMeta s' ! i) \<in> set sns"
      by (rule subseq_mem [OF sq_log_answers(3) [OF ok m]])
    then show ?thesis
      using sq_log_answers(2) [OF ok m i] key pkt by (simp add: answers_def qq header_key_def meta_core_def)
  qed
  then show ?thesis
    using ps d' sq_log_answers(1) [OF ok m] by (simp add: log_ok_def same_stream_def)
qed

lemma track_bind_sequencer:
  "map_option (\<lambda>x. dtSequencer (snd x)) (track_bind now t d) =
   (if codec_fuzzy_search \<lparr>CodecCapability = dtCodec d, CodecPayloadType = 0\<rparr> (ctxCodecs t) \<noteq> None \<and>
       track_kind d = CodecVideo
    then map_option Some (new_sequencer now (dtMaxTrack d) maxPadding) else Some (dtSequencer d))"
  by (cases "codec_fuzzy_search \<lparr>CodecCapability = dtCodec d, CodecPayloadType = 0\<rparr> (ctxCodecs t)";
      cases "new_sequencer now (dtMaxTrack d) maxPadding")
    (simp_all add: track_bind_def track_call_def Let_def track_kind_def)

lemma track_step_log_ok:
  assumes "ext_laws lib" and "track_ok d" and "log_ok g d" and "track_step lib e (d, b) = Some (d', b')"
  shows "log_ok (log_after e d g) d'"
proof (cases e)
  case (TrWrite now ep)
  then show ?thesis using write_rtp_log_ok [OF assms(3)] assms(4) by auto
next
  case (TrRtcp now raw)
  then show ?thesis using handle_rtcp_log_ok [OF assms(3)] assms(4) by simp
next
  case (TrRetransmit now n)
  let ?d = "d\<lparr>dtSpawned := take n (dtSpawned d) @ drop (Suc n) (dtSpawned d)\<rparr>"
  have "log_ok g ?d" using assms(3) by (simp add: log_ok_def)
  then show ?thesis
    using TrRetransmit assms(3,4) retransmit_log_ok [OF assms(1), of g ?d now "dtSpawned d ! n" b d']
    by (auto split: if_splits)
next
  case (TrBind now t)
  have mt: "0 < dtMaxTrack d" using assms(2) by (simp add: track_ok_def)
  obtain codec where b: "track_bind now t d = Some (codec, d')" using TrBind assms(4) by auto
  let ?video = "codec_fuzzy_search \<lparr>CodecCapability = dtCodec d, CodecPayloadType = 0\<rparr> (ctxCodecs t) \<noteq> None \<and>
       track_kind d = CodecVideo"
  have sq: "Some (dtSequencer d') = (if ?video then map_option Some (new_sequencer now (dtMaxTrack d) maxPadding)
      else Some (dtSequencer d))"
    using track_bind_sequencer [of now t d] unfolding b by (simp del: not_None_eq)
  show ?thesis
  proof (cases ?video)
    case False
    have "log_after e d g = g" unfolding TrBind log_after.simps using False by (rule if_not_P)
    moreover have "dtSequencer d' = dtSequencer d" using sq unfolding if_not_P [OF False] by simp
    ultimately show ?thesis using assms(3) by (simp add: log_ok_def)
  next
    case True
    then obtain s where s: "new_sequencer now (dtMaxTrack d) maxPadding = Some s" "dtSequencer d' = Some s"
      using sq by (cases "new_sequencer now (dtMaxTrack d) maxPadding") simp_all
    then show ?thesis
      using sq_log_new [OF mt _ s(1)] True TrBind by (simp add: log_ok_def maxPadding_def)
  qed
next
  case (TrBuffer ev)
  then show ?thesis using assms(3,4) by auto
next
  case (TrClose now)
  have "dtSequencer (track_close now d) = dtSequencer d" by (simp add: track_close_def track_call_def Let_def)
  then show ?thesis using TrClose assms(3,4) by (simp add: log_ok_def)
next
  case (TrMute val)
  have "dtSequencer (mute val d) = dtSequencer d" by (simp add: mute_def)
  then show ?thesis using TrMute assms(3,4) by (simp add: log_ok_def)
qed (use assms(3,4) in \<open>auto simp: log_ok_def track_unbind_def on_remb_feedback_def on_transport_cc_feedback_def
    track_on_bind_def track_on_close_def\<close>)

definition logged_ok :: "forward_log \<times> down_track \<times> ('bk, 'nq, 'tw) buffer \<Rightarrow> bool" where
  "logged_ok = (\<lambda>(g, d, b). track_ok d \<and> buffer_bound b \<and> log_ok g d)"

interpretation logged: panic_free "logged_step lib" "\<lambda>e. lib_ok (tlMedia lib) \<and> ext_laws lib \<and> track_event_ok e" logged_ok
  for lib :: "('bk, 'nq, 'tw) track_lib"
proof unfold_locales
  fix x :: "forward_log \<times> down_track \<times> ('bk, 'nq, 'tw) buffer" and e :: "'tw track_event"
  assume x: "logged_ok x" and ok: "lib_ok (tlMedia lib) \<and> ext_laws lib \<and> track_event_ok e"
  obtain g d b where xs: "x = (g, d, b)" by (metis prod.collapse)
  obtain d' b' where "track_step lib e (d, b) = Some (d', b')" "track_ok d'" "buffer_bound b'"
    using track_step_ok [of lib d b e] x ok by (auto simp: xs logged_ok_def)
  then show "\<exists>x'. logged_step lib e x = Some x' \<and> logged_ok x'"
    using track_step_log_ok [of lib d g e b d' b'] x ok by (simp add: xs logged_step_def logged_ok_def)
qed

text \<open>
  C6: a request for lost packets is answered with the packets that were forwarded. Beside the track
  runs a log of the last packet forwarded under each number; whatever happened to the track and to
  the producer's buffer before, every packet that a retransmission sends has a requested number, the
  time stamp under which that number was forwarded, the track's payload type and source, and the
  payload of the packet that the producer's buffer returns for the number's source.
\<close>

theorem retransmits_what_was_forwarded:
  assumes "lib_ok (tlMedia lib)" and "ext_laws lib" and "bind_ok (tlMedia lib) prm" and "0 < mt"
    and "list_all track_event_ok es"
  shows "\<exists>b0 g d b d' ps. buffer_bind (tlMedia lib) now prm (new_buffer ssrc) = Some b0 \<and>
    run_panic (logged_step lib) es (Map.empty, new_down_track now ident streamID mid c mt, b0) = Some (g, d, b) \<and>
    retransmit_packets lib t sns d b = Some d' \<and> dtSent d' = dtSent d @ ps \<and>
    list_all (answers lib g sns d b) ps"
proof -
  obtain b0 where b0: "buffer_bind (tlMedia lib) now prm (new_buffer ssrc) = Some b0" "buffer_bound b0"
    using buffer_bind_ok [OF assms(1) new_buffer_unbound assms(3)] by blast
  have start: "logged_ok (Map.empty, new_down_track now ident streamID mid c mt, b0)"
    using new_down_track_ok [OF assms(4)] b0(2)
    by (simp add: logged_ok_def log_ok_def new_down_track_def split_beta Let_def)
  have "list_all (\<lambda>e. lib_ok (tlMedia lib) \<and> ext_laws lib \<and> track_event_ok e) es" using assms by (simp add: list_all_iff)
  from logged.run_total [OF start this] obtain g d b where
    run: "run_panic (logged_step lib) es (Map.empty, new_down_track now ident streamID mid c mt, b0) = Some (g, d, b)"
    and ok: "track_ok d" "buffer_bound b" "log_ok g d"
    by (auto simp: logged_ok_def)
  obtain d' where d': "retransmit_packets lib t sns d b = Some d'"
    using retransmit_packets_ok [OF ok(1,2)] by blast
  then obtain ps where "dtSent d' = dtSent d @ ps" "\<forall>q\<in>set ps. answers lib g sns d b q"
    using retransmit_log_ok [OF assms(2) ok(3)] by blast
  then show ?thesis using b0(1) run d' by (auto simp: list_all_iff)
qed

section \<open>Examples\<close>

definition sample_track_lib :: "(u8 list list, u16 list, u16 list) track_lib" where
  "sample_track_lib = \<lparr>tlMedia = sample_lib, setExtension = \<lambda>i v h. Some h, absSendTime = \<lambda>t. None,
     transportCCBytes = \<lambda>sn. None, packetList = \<lambda>p. [PacketID p],
     rtcpUnmarshal = \<lambda>raw. (case raw of [] \<Rightarrow> None
       | sn # _ \<Rightarrow> Some [PictureLossIndication 1 2, FullIntraRequest 1 2,
           TransportLayerNack 1 2 [\<lparr>PacketID = ucast sn, LostPackets = 0\<rparr>]]),
     writeRTP = \<lambda>h p. True, toNtp = \<lambda>t. 0, uriSdesMid = ''urn:ietf:params:rtp-hdrext:sdes:mid'',
     uriAbsSendTime = ''http://www.webrtc.org/experiments/rtp-hdrext/abs-send-time''\<rparr>"

definition sample_codec :: codec_capability where
  "sample_codec = \<lparr>MimeType = ''video/H264'', CodecClockRate = 90000, CodecChannels = 0, SDPFmtpLine = [], RTCPFeedback = []\<rparr>"

definition sample_context :: track_context where
  "sample_context = \<lparr>ctxSSRC = 9, ctxCodecs = [\<lparr>CodecCapability = sample_codec, CodecPayloadType = 102\<rparr>], ctxHeaders = []\<rparr>"

definition sample_ext :: "u16 \<Rightarrow> ext_packet" where
  "sample_ext sn = \<lparr>Layer = InvalidLayers, Arrival = 0, Packet = the (sample_unmarshal (sample_pkt (ucast sn))),
     ExtPayload = None, KeyFrame = True, RawPacket = []\<rparr>"

definition sample_track :: down_track where
  "sample_track = new_down_track 5 ''t'' ''s'' 0 sample_codec 4"

lemma sample_track_laws: "lib_ok (tlMedia sample_track_lib)" "bind_ok (tlMedia sample_track_lib) sample_prm" "ext_laws sample_track_lib"
  using sample_lib_ok sample_bind_ok by (simp_all add: sample_track_lib_def ext_laws_def)


theorem retransmits_what_was_forwarded_witness:
  "\<exists>b0 g d b d' ps. buffer_bind (tlMedia sample_track_lib) 5 sample_prm (new_buffer 7) = Some b0 \<and>
    run_panic (logged_step sample_track_lib) [TrBind 6 sample_context, TrBuffer (EvWrite 7 (sample_pkt 3)),
      TrWrite 8 (sample_ext 3)] (Map.empty, new_down_track 5 ''t'' ''s'' 0 sample_codec 4, b0) = Some (g, d, b) \<and>
    retransmit_packets sample_track_lib 2000000 [3] d b = Some d' \<and> dtSent d' = dtSent d @ ps \<and>
    list_all (answers sample_track_lib g [3] d b) ps"
  by (rule retransmits_what_was_forwarded [OF sample_track_laws(1,3,2)]) simp_all

end
