(* ===== verification/DownTrackStream.thy ===== *)
theory DownTrackStream
  imports DownTrackSpec
begin

text \<open>
  The stream that a down track sends, packet by packet: transparent from the first bind to the first
  mute, with a repeated number after it; and the requests for key frames that it passes on.
\<close>

section \<open>Forwarding a stream\<close>

text \<open>The transport accepts every packet, and every extension fits into a header.\<close>

definition accepting :: "('bk, 'nq, 'tw) track_lib \<Rightarrow> bool" where
  "accepting lib \<longleftrightarrow> ext_laws lib \<and> (\<forall>h p. writeRTP lib h p) \<and> (\<forall>i v h. setExtension lib i v h \<noteq> None)"

text \<open>What forwarding does not change.\<close>

definition stream_fields :: "down_track \<Rightarrow> (bool \<times> bool) \<times> (u16 \<times> u32) \<times> (string \<times> codec_capability) \<times> u8 \<times> u32" where
  "stream_fields d = ((dtEnabled d, dtBound d), (dtSnOffset d, dtTsOffset d), (dtMid d, dtCodec d),
     dtPayloadType d, dtSSRC d)"

text \<open>The header and payload under which a packet leaves.\<close>

definition outgoing :: "down_track \<Rightarrow> ext_packet \<Rightarrow> (u8 \<times> u32 \<times> u16 \<times> u32) \<times> u8 list" where
  "outgoing d ep = ((dtPayloadType d, Timestamp (Header (Packet ep)) - dtTsOffset d,
     SequenceNumber (Header (Packet ep)) - dtSnOffset d, dtSSRC d), Payload (Packet ep))"

definition sent_key :: "rtp_header \<times> u8 list \<Rightarrow> (u8 \<times> u32 \<times> u16 \<times> u32) \<times> u8 list" where
  "sent_key = (\<lambda>(h, p). (header_key h, p))"

lemma forward_extensions_accepted:
  assumes "accepting lib" and "length mid \<le> 8"
  shows "fst (forward_extensions lib now mid ori exts twcc hdr) \<noteq> None"
proof (induction exts arbitrary: twcc hdr)
  case (Cons ext exts)
  have "fst (forward_extension lib now mid ori ext twcc hdr) \<noteq> None"
    using assms by (auto simp: forward_extension_def accepting_def MidMaxLength_def Let_def split: option.split)
  then obtain h t where "forward_extension lib now mid ori ext twcc hdr = (Some h, t)" by (metis not_None_eq prod.collapse)
  then show ?case using Cons by simp
qed simp

lemma forward_accepted:
  assumes acc: "accepting lib" and ok: "track_ok d" and mid: "length (dtMid d) \<le> 8"
  shows "\<exists>d' q. forward lib now ep d = Some (True, d') \<and> track_ok d' \<and> dtSent d' = dtSent d @ [q] \<and>
    sent_key q = outgoing d ep \<and> stream_fields d' = stream_fields d \<and> dtSyncRequired d' = dtSyncRequired d \<and>
    dtStarted d' \<and> dtLastSN d' = (if dtStarted d then dtLastSN d else SequenceNumber (Header (Packet ep)) - dtSnOffset d)"
proof -
  let ?sn = "SequenceNumber (Header (Packet ep))"
  let ?off = "?sn - dtSnOffset d" and ?ts = "Timestamp (Header (Packet ep)) - dtTsOffset d"
  obtain s1 where push: "(case dtSequencer d of None \<Rightarrow> Some d
       | Some s \<Rightarrow> do { (_, s) \<leftarrow> sq_push ?sn ?off ?ts 0 s; Some (d\<lparr>dtSequencer := Some s\<rparr>) }) = Some (d\<lparr>dtSequencer := s1\<rparr>)"
  proof (cases "dtSequencer d")
    case None
    have "d = d\<lparr>dtSequencer := None\<rparr>" unfolding None [symmetric] by simp
    then show ?thesis using None that [of None] by simp
  next
    case (Some s)
    then show ?thesis using sq_push_inv [OF track_okD(2) [OF ok Some], of ?sn ?off ?ts 0] that by auto
  qed
  define d2 where "d2 = (if \<not> dtStarted (d\<lparr>dtSequencer := s1\<rparr>)
    then d\<lparr>dtSequencer := s1, dtLastSN := ?off, dtLastTS := ?ts, dtStarted := True\<rparr> else d\<lparr>dtSequencer := s1\<rparr>)"
  have d2: "stream_fields d2 = stream_fields d" "dtSyncRequired d2 = dtSyncRequired d" "dtSent d2 = dtSent d"
      "dtStarted d2" "dtLastSN d2 = (if dtStarted d then dtLastSN d else ?off)" "dtMid d2 = dtMid d"
      "dtPayloadType d2 = dtPayloadType d" "dtSSRC d2 = dtSSRC d"
    by (simp_all add: d2_def stream_fields_def)
  obtain h d3 where prep: "prepare_rtp_header lib now (Header (Packet ep)) ?ts ?off d2 = (h, d3)" by force
  have "h \<noteq> None"
    using prep forward_extensions_accepted [OF acc mid] by (auto simp: prepare_rtp_header_def Let_def split_beta d2(6))
  then obtain hdr where hdr: "h = Some hdr" by blast
  have ext: "ext_laws lib" and w: "writeRTP lib hdr p" for p using acc by (simp_all add: accepting_def)
  have key: "header_key hdr = (dtPayloadType d, ?ts, ?off, dtSSRC d)"
    using prepare_rtp_header_key [OF ext prep [unfolded hdr]] d2 by simp
  have d3: "d3 = d2\<lparr>dtTwccSN := dtTwccSN d3\<rparr>" using prep by (auto simp: prepare_rtp_header_def split_beta Let_def)
  have eq: "forward lib now ep d = send_rtp lib now hdr (Payload (Packet ep)) d3"
    unfolding forward_def Let_def push
    by (simp only: bind.bind_lunit d2_def [symmetric] prep hdr option.case prod.case)
  obtain res d' where d': "forward lib now ep d = Some (res, d')" "track_ok d'" using forward_ok [OF ok] by blast
  then obtain r where "res" "d' = d3\<lparr>dtRtpStats := r, dtSent := dtSent d3 @ [(hdr, Payload (Packet ep))]\<rparr>"
    using eq w by (auto simp: send_rtp_def split: if_splits)
  moreover have "sent_key (hdr, Payload (Packet ep)) = outgoing d ep" by (simp add: sent_key_def outgoing_def key)
  ultimately show ?thesis
    using d' d2 arg_cong [OF d3, of stream_fields] arg_cong [OF d3, of dtSyncRequired] arg_cong [OF d3, of dtSent]
      arg_cong [OF d3, of dtStarted] arg_cong [OF d3, of dtLastSN]
    by (intro exI [of _ d'] exI [of _ "(hdr, Payload (Packet ep))"]) (simp add: stream_fields_def)
qed

lemma outgoing_cong: "stream_fields d = stream_fields d' \<Longrightarrow> outgoing d ep = outgoing d' ep"
  by (simp add: outgoing_def stream_fields_def)

definition write_all ::
  "('bk, 'nq, 'tw) track_lib \<Rightarrow> (gotime \<times> ext_packet) list \<Rightarrow> down_track \<times> ('bk, 'nq, 'tw) buffer
   \<Rightarrow> (down_track \<times> ('bk, 'nq, 'tw) buffer) option"
where
  "write_all lib = run_panic (\<lambda>(now, ep) (d, b). map_option snd (write_rtp lib now ep d b))"

lemma forward_all:
  assumes "accepting lib"
  shows "track_ok d \<Longrightarrow> length (dtMid d) \<le> 8 \<Longrightarrow> dtEnabled d \<Longrightarrow> dtBound d \<Longrightarrow> \<not> dtSyncRequired d \<Longrightarrow> dtStarted d \<Longrightarrow>
    \<exists>d' qs. write_all lib eps (d, b) = Some (d', b) \<and> track_ok d' \<and> dtSent d' = dtSent d @ qs \<and>
      map sent_key qs = map (\<lambda>(now, ep). outgoing d ep) eps \<and> stream_fields d' = stream_fields d \<and>
      \<not> dtSyncRequired d' \<and> dtStarted d' \<and> dtLastSN d' = dtLastSN d"
proof (induction eps arbitrary: d)
  case Nil
  then show ?case by (simp add: write_all_def)
next
  case (Cons x eps)
  obtain now ep where x: "x = (now, ep)" by force
  obtain d1 q where 1: "forward lib now ep d = Some (True, d1)" "track_ok d1" "dtSent d1 = dtSent d @ [q]"
      "sent_key q = outgoing d ep" "stream_fields d1 = stream_fields d" "dtSyncRequired d1 = dtSyncRequired d"
      "dtStarted d1" "dtLastSN d1 = dtLastSN d"
    using forward_accepted [OF assms Cons.prems(1,2), of now ep] Cons.prems(6) by auto
  have w: "write_rtp lib now ep d b = Some (True, d1, b)"
    using 1(1) Cons.prems by (simp add: write_rtp_def write_simple_rtp_def)
  have f: "dtEnabled d1" "dtBound d1" "length (dtMid d1) \<le> 8"
    using 1(5) Cons.prems by (simp_all add: stream_fields_def)
  obtain d' qs where "write_all lib eps (d1, b) = Some (d', b)" "track_ok d'" "dtSent d' = dtSent d1 @ qs"
      "map sent_key qs = map (\<lambda>(now, ep). outgoing d1 ep) eps" "stream_fields d' = stream_fields d1"
      "\<not> dtSyncRequired d'" "dtStarted d'" "dtLastSN d' = dtLastSN d1"
    using Cons.IH [OF 1(2) f(3,1,2)] 1(6,7) Cons.prems(5) by auto
  then show ?case
    using w 1 outgoing_cong [OF 1(5)] x
    by (intro exI [of _ d'] exI [of _ "q # qs"]) (simp add: write_all_def split_beta)
qed

text \<open>A track that has just been bound for the first time.\<close>

definition fresh_track :: "down_track \<Rightarrow> bool" where
  "fresh_track d \<longleftrightarrow> track_ok d \<and> dtEnabled d \<and> dtBound d \<and> dtSyncRequired d \<and> \<not> dtStarted d \<and>
     dtLastSN d = 0 \<and> dtSnOffset d = 0 \<and> dtTsOffset d = 0 \<and> dtSent d = []"

lemma track_bind_fields:
  assumes "track_bind now t d = Some (Some codec, d')"
  shows "dtEnabled d' \<and> dtBound d' \<and> dtSyncRequired d' \<and> dtStarted d' = dtStarted d \<and> dtLastSN d' = dtLastSN d \<and>
    dtSnOffset d' = dtSnOffset d \<and> dtTsOffset d' = dtTsOffset d \<and> dtSent d' = dtSent d \<and> dtMid d' = dtMid d \<and>
    dtPayloadType d' = CodecPayloadType codec \<and> dtSSRC d' = ctxSSRC t \<and> dtCodec d' = dtCodec d"
    (is "?P codec d'")
proof -
  have "case track_bind now t d of Some (Some codec, d') \<Rightarrow> ?P codec d' | _ \<Rightarrow> True"
    by (cases "codec_fuzzy_search \<lparr>CodecCapability = dtCodec d, CodecPayloadType = 0\<rparr> (ctxCodecs t)";
        cases "new_sequencer now (dtMaxTrack d) maxPadding")
      (simp_all add: track_bind_def track_call_def Let_def track_kind_def)
  then show ?thesis unfolding assms by simp
qed

lemma track_bind_fresh:
  assumes "0 < mt" and "track_bind now t (new_down_track now' ident streamID mid c mt) = Some (Some codec, d)"
  shows "fresh_track d" "dtMid d = itoa (sint mid)" "dtPayloadType d = CodecPayloadType codec" "dtSSRC d = ctxSSRC t"
proof -
  have "track_ok d" using track_bind_ok [OF new_down_track_ok [OF assms(1)]] assms(2) by (metis option.inject prod.inject)
  then show "fresh_track d" "dtMid d = itoa (sint mid)" "dtPayloadType d = CodecPayloadType codec" "dtSSRC d = ctxSSRC t"
    using track_bind_fields [OF assms(2)]
    by (simp_all add: fresh_track_def) (simp_all add: new_down_track_def split_beta Let_def)
qed

text \<open>The first packet of a fresh track, and all that follow.\<close>

lemma fresh_forward_all:
  assumes acc: "accepting lib" and d: "fresh_track d" "length (dtMid d) \<le> 8"
    and key: "track_kind d = CodecVideo \<longrightarrow> KeyFrame ep"
  shows "\<exists>d' qs. write_all lib ((now, ep) # eps) (d, b) = Some (d', b) \<and> track_ok d' \<and> dtSent d' = qs \<and>
    map sent_key qs = map (\<lambda>(now, ep). outgoing d ep) ((now, ep) # eps) \<and> stream_fields d' = stream_fields d \<and>
    \<not> dtSyncRequired d' \<and> dtStarted d' \<and> dtLastSN d' = SequenceNumber (Header (Packet ep))"
proof -
  let ?d = "synchronize ep d"
  have f: "stream_fields ?d = stream_fields d" "track_ok ?d" "\<not> dtSyncRequired ?d" "\<not> dtStarted ?d" "dtSent ?d = []"
      "dtMid ?d = dtMid d" "dtSnOffset ?d = 0"
    using d(1) by (simp_all add: synchronize_def fresh_track_def stream_fields_def)
  obtain d1 q where 1: "forward lib now ep ?d = Some (True, d1)" "track_ok d1" "dtSent d1 = [q]"
      "sent_key q = outgoing ?d ep" "stream_fields d1 = stream_fields ?d" "\<not> dtSyncRequired d1"
      "dtStarted d1" "dtLastSN d1 = SequenceNumber (Header (Packet ep))"
    using forward_accepted [OF acc f(2), of now ep] f d(2) by auto
  have w: "write_rtp lib now ep d b = Some (True, d1, b)"
    using 1(1) d(1) key by (auto simp: write_rtp_def write_simple_rtp_def fresh_track_def)
  have "stream_fields d1 = stream_fields d" using 1(5) f(1) by simp
  then have g: "dtEnabled d1" "dtBound d1" "length (dtMid d1) \<le> 8"
    using d by (simp_all add: stream_fields_def fresh_track_def)
  obtain d' qs where "write_all lib eps (d1, b) = Some (d', b)" "track_ok d'" "dtSent d' = dtSent d1 @ qs"
      "map sent_key qs = map (\<lambda>(now, ep). outgoing d1 ep) eps" "stream_fields d' = stream_fields d1"
      "\<not> dtSyncRequired d'" "dtStarted d'" "dtLastSN d' = dtLastSN d1"
    using forward_all [OF acc 1(2) g(3,1,2) 1(6,7)] by blast
  then show ?thesis
    using w 1 outgoing_cong [OF f(1)] outgoing_cong [OF 1(5)]
    by (intro exI [of _ d'] exI [of _ "q # qs"]) (simp add: write_all_def f(1))
qed



section \<open>Asking for key frames\<close>

definition pli_call :: "('bk, 'nq, 'tw) buffer \<Rightarrow> buffer_call" where
  "pli_call b = CallRtcpFeedback [PictureLossIndication (bMediaSSRC b) (bMediaSSRC b)]"

lemma forced_pli:
  assumes "bStats b = Some r" and "bHasRtcpFeedback b"
  shows "\<exists>b' r'. send_pli True now b = Some b' \<and> bCalls b' = bCalls b @ [pli_call b] \<and> bStats b' = Some r' \<and>
    bHasRtcpFeedback b' \<and> bMediaSSRC b' = bMediaSSRC b"
  using assms by (simp add: send_pli_def rtcp_feedback_call_def buffer_call_def pli_call_def)

text \<open>
  A video track that waits for a key frame is silent, and asks for one with every packet. Until the
  first key frame after \<open>Bind\<close> or a mute, nothing is sent and the track does not change; the producer is
  sent one picture loss indication for each packet that is held back, however short its throttle interval.
\<close>

theorem awaiting_keyframe_floods:
  assumes "dtEnabled d" and "dtBound d" and "dtSyncRequired d" and "track_kind d = CodecVideo"
    and "bStats b = Some r" and "bHasRtcpFeedback b"
    and "list_all (\<lambda>(now, ep). \<not> KeyFrame ep) eps"
  shows "\<exists>b'. write_all lib eps (d, b) = Some (d, b') \<and>
    bCalls b' = bCalls b @ replicate (length eps) (CallRtcpFeedback [PictureLossIndication (bMediaSSRC b) (bMediaSSRC b)])"
  using assms(5-)
proof (induction eps arbitrary: b r)
  case Nil
  then show ?case by (simp add: write_all_def)
next
  case (Cons x eps)
  obtain now ep where x: "x = (now, ep)" by force
  obtain b1 r1 where 1: "send_pli True now b = Some b1" "bCalls b1 = bCalls b @ [pli_call b]" "bStats b1 = Some r1"
      "bHasRtcpFeedback b1" "bMediaSSRC b1 = bMediaSSRC b"
    using forced_pli [OF Cons.prems(1,2)] by blast
  have "write_rtp lib now ep d b = Some (True, d, b1)"
    using 1(1) Cons.prems(3) assms(1-4) x by (simp add: write_rtp_def write_simple_rtp_def)
  moreover obtain b' where "write_all lib eps (d, b1) = Some (d, b')"
      "bCalls b' = bCalls b1 @ replicate (length eps) (CallRtcpFeedback [PictureLossIndication (bMediaSSRC b1) (bMediaSSRC b1)])"
    using Cons.IH [OF 1(3,4)] Cons.prems(3) by auto
  ultimately show ?case
    using 1 x by (simp add: write_all_def pli_call_def)
qed

section \<open>One request for each RTCP packet\<close>

definition asked_once :: "('bk, 'nq, 'tw) buffer \<Rightarrow> ('bk, 'nq, 'tw) rtcp_state \<Rightarrow> bool" where
  "asked_once b x \<longleftrightarrow> bMediaSSRC (fbBuffer x) = bMediaSSRC b \<and>
     (if fbPliOnce x then bCalls (fbBuffer x) = bCalls b
      else dtEnabled (fbTrack x) \<and> bCalls (fbBuffer x) \<in> {bCalls b, bCalls b @ [pli_call b]})"

lemma send_pli_calls:
  "case send_pli force now b of None \<Rightarrow> True | Some b' \<Rightarrow>
     bMediaSSRC b' = bMediaSSRC b \<and> bCalls b' \<in> {bCalls b, bCalls b @ [pli_call b]}"
  by (cases "bStats b") (simp_all add: send_pli_def rtcp_feedback_call_def buffer_call_def pli_call_def)

lemma pli_call_cong: "bMediaSSRC b' = bMediaSSRC b \<Longrightarrow> pli_call b' = pli_call b"
  by (simp add: pli_call_def)

lemma send_pli_once_asked:
  assumes "asked_once b x" and "send_pli_once now x = Some x'"
  shows "asked_once b x' \<and> dtEnabled (fbTrack x') = dtEnabled (fbTrack x)"
proof (cases "fbPliOnce x \<and> dtEnabled (fbTrack x)")
  case True
  then obtain b' where b': "send_pli False now (fbBuffer x) = Some b'"
    and x': "fbBuffer x' = b'" "\<not> fbPliOnce x'" "dtEnabled (fbTrack x') = dtEnabled (fbTrack x)"
    using assms(2) by (auto simp: send_pli_once_def)
  have "bMediaSSRC (fbBuffer x) = bMediaSSRC b" using assms(1) by (simp add: asked_once_def)
  then show ?thesis
    using send_pli_calls [where force = False and now = now and b = "fbBuffer x"] assms(1) True x' pli_call_cong [of "fbBuffer x" b]
    by (simp add: b' asked_once_def)
next
  case False
  then have "x' = x" using assms(2) by (simp add: send_pli_once_def split: if_splits)
  then show ?thesis using assms(1) by simp
qed

lemma take_report_frame:
  "fbBuffer (take_report lib now rr x) = fbBuffer x \<and> fbPliOnce (take_report lib now rr x) = fbPliOnce x \<and>
   dtEnabled (fbTrack (take_report lib now rr x)) = dtEnabled (fbTrack x)"
  by (simp add: take_report_def Let_def split: prod.split)

lemma take_reports_frame:
  "fbBuffer (fold (take_report lib now) rrs x) = fbBuffer x \<and> fbPliOnce (fold (take_report lib now) rrs x) = fbPliOnce x \<and>
   dtEnabled (fbTrack (fold (take_report lib now) rrs x)) = dtEnabled (fbTrack x)"
  by (induction rrs arbitrary: x) (simp_all add: take_report_frame)

lemma handle_rtcp_packet_asked:
  assumes "asked_once b x" and "handle_rtcp_packet lib now pkt x = Some x'"
  shows "asked_once b x' \<and> dtEnabled (fbTrack x') = dtEnabled (fbTrack x)"
proof -
  have "asked_once b (x\<lparr>fbPLIs := m\<rparr>)" "asked_once b (x\<lparr>fbFIRs := m\<rparr>)" for m
    using assms(1) by (cases "fbPliOnce x"; simp add: asked_once_def)+
  note pli = this(1) [THEN send_pli_once_asked] this(2) [THEN send_pli_once_asked]
  show ?thesis
  proof (cases pkt)
    case (PictureLossIndication s m)
    then show ?thesis using pli(1) assms(2) by simp
  next
    case (FullIntraRequest s m)
    then show ?thesis using pli(2) assms(2) by simp
  next
    case (ReceiverReport s rrs)
    then show ?thesis using assms take_reports_frame [of lib now rrs x] by (auto simp: asked_once_def)
  qed (use assms in \<open>auto simp: asked_once_def track_call_def split: if_splits\<close>)
qed

lemma handle_rtcp_packets_asked:
  "asked_once b x \<Longrightarrow> run_panic (handle_rtcp_packet lib now) pkts x = Some x' \<Longrightarrow>
   asked_once b x' \<and> dtEnabled (fbTrack x') = dtEnabled (fbTrack x)"
proof (induction pkts arbitrary: x)
  case (Cons pkt pkts)
  then show ?case using handle_rtcp_packet_asked by (fastforce split: option.splits)
qed simp

text \<open>
  However many requests for a key frame a compound packet of the subscriber holds, the producer is
  asked at most once, and not at all while the track is muted.
\<close>

theorem feedback_asks_once:
  assumes "track_ok d" and "buffer_bound b"
  shows "\<exists>d' b' calls. handle_rtcp lib now raw d b = Some (d', b') \<and> bCalls b' = bCalls b @ calls \<and>
    calls \<in> {[], [CallRtcpFeedback [PictureLossIndication (bMediaSSRC b) (bMediaSSRC b)]]} \<and>
    (\<not> dtEnabled d \<longrightarrow> calls = [])"
proof -
  obtain d' b' where h: "handle_rtcp lib now raw d b = Some (d', b')"
    using handle_rtcp_ok [OF assms] by blast
  show ?thesis
  proof (cases "rtcpUnmarshal lib raw")
    case None
    then show ?thesis using h by (simp add: handle_rtcp_def)
  next
    case (Some pkts)
    let ?x = "\<lparr>fbTrack = d, fbBuffer = b, fbPliOnce = True, fbRtt = 0, fbPLIs = 0, fbFIRs = 0\<rparr>"
    obtain x where run: "run_panic (handle_rtcp_packet lib now) pkts ?x = Some x" "b' = fbBuffer x"
      using h Some by (auto simp: handle_rtcp_def Let_def)
    have "asked_once b ?x" by (simp add: asked_once_def)
    from handle_rtcp_packets_asked [OF this run(1)]
    have "asked_once b x" "dtEnabled (fbTrack x) = dtEnabled d" by simp_all
    then show ?thesis using h run(2) by (auto simp: asked_once_def pli_call_def split: if_splits)
  qed
qed

section \<open>Examples\<close>

lemma sample_accepting: "accepting sample_track_lib"
  by (simp add: accepting_def ext_laws_def sample_track_lib_def)

lemma sample_track_bound:
  "\<exists>d. track_bind 6 sample_context sample_track = Some (Some \<lparr>CodecCapability = sample_codec, CodecPayloadType = 102\<rparr>, d)"
proof -
  have "map_option fst (track_bind 6 sample_context sample_track) =
      Some (Some \<lparr>CodecCapability = sample_codec, CodecPayloadType = 102\<rparr>)"
    by code_simp
  then show ?thesis by (cases "track_bind 6 sample_context sample_track") auto
qed



theorem awaiting_keyframe_floods_witness:
  "\<exists>b'. write_all sample_track_lib [(8, sample_ext 3\<lparr>KeyFrame := False\<rparr>), (9, sample_ext 4\<lparr>KeyFrame := False\<rparr>)]
      (sample_track\<lparr>dtEnabled := True, dtBound := True, dtSyncRequired := True\<rparr>,
       (new_buffer 7)\<lparr>bStats := Some (new_rtp_stats \<lparr>ClockRate = 90000, IsReceiverReportDriven = False\<rparr>), bHasRtcpFeedback := True\<rparr>) =
      Some (sample_track\<lparr>dtEnabled := True, dtBound := True, dtSyncRequired := True\<rparr>, b') \<and>
    bCalls b' = [CallRtcpFeedback [PictureLossIndication 7 7], CallRtcpFeedback [PictureLossIndication 7 7]]"
proof -
  have k: "track_kind (sample_track\<lparr>dtEnabled := True, dtBound := True, dtSyncRequired := True\<rparr>) = CodecVideo" by code_simp
  show ?thesis
    using awaiting_keyframe_floods [OF _ _ _ k, of
      "(new_buffer 7)\<lparr>bStats := Some (new_rtp_stats \<lparr>ClockRate = 90000, IsReceiverReportDriven = False\<rparr>), bHasRtcpFeedback := True\<rparr>"
      _ "[(8, sample_ext 3\<lparr>KeyFrame := False\<rparr>), (9, sample_ext 4\<lparr>KeyFrame := False\<rparr>)]" sample_track_lib]
    by (simp add: new_buffer_def)
qed

theorem feedback_asks_once_witness:
  "\<exists>b d' b' calls. buffer_bind (tlMedia sample_track_lib) 5 sample_prm (new_buffer 7) = Some b \<and>
    handle_rtcp sample_track_lib 9 [3] sample_track b = Some (d', b') \<and> bCalls b' = bCalls b @ calls \<and>
    calls \<in> {[], [CallRtcpFeedback [PictureLossIndication (bMediaSSRC b) (bMediaSSRC b)]]} \<and>
    (\<not> dtEnabled sample_track \<longrightarrow> calls = [])"
proof -
  obtain b where b: "buffer_bind (tlMedia sample_track_lib) 5 sample_prm (new_buffer 7) = Some b" "buffer_bound b"
    using buffer_bind_ok [OF sample_track_laws(1) new_buffer_unbound sample_track_laws(2)] by blast
  have "track_ok sample_track" unfolding sample_track_def by (rule new_down_track_ok) simp
  from feedback_asks_once [OF this b(2)] show ?thesis using b(1) by blast
qed

end
