(* ===== verification/SfuSpec.thy ===== *)
theory SfuSpec
  imports Transport DownTrackStream
begin

text \<open>
  The server as a whole: identifiers (\<^verbatim>\<open>id_source\<close> is interpreted on the generators), the way of a
  packet from the router to the consumers, and the states and requests that go wrong.
\<close>

lemma u16_less: "unat (s :: u16) < 65536"
  by (rule order_less_le_trans [OF unsigned_less]) simp

section \<open>Identifiers are used once\<close>

text \<open>A counter that has given out the numbers from 1 up to its value.\<close>

definition counted :: "'n :: len word \<Rightarrow> 'n word set" where
  "counted cur = {i. 0 < unat i \<and> unat i \<le> unat cur}"

lemma unat_next: "(cur :: 'n :: len word) \<noteq> - 1 \<Longrightarrow> unat (cur + 1) = Suc (unat cur)"
  by (metis Suc_eq_plus1 add.commute add_cancel_right_right add_left_imp_eq diff_add_cancel unatSuc uminus_add_conv_diff)

lemma counted_next:
  assumes "(cur :: 'n :: len word) \<noteq> - 1"
  shows "cur + 1 \<notin> counted cur" "counted (cur + 1) = insert (cur + 1) (counted cur)"
  using unat_next [OF assms] by (auto simp: counted_def le_Suc_eq word_unat_eq_iff)

lemma counted_0 [simp]: "counted 0 = {}"
  by (auto simp: counted_def)

lemma unat_max: "unat (- 1 :: u16) = 65535" "unat (- 1 :: u64) = 18446744073709551615" "unat (65535 :: u64) = 65535"
  by (simp_all add: unsigned_minus_1_eq_mask mask_eq_exp_minus_1)

interpretation router_ids: id_source generate_new_router_id counted "\<lambda>_. True"
  by unfold_locales (auto simp: generate_new_router_id_def counted_next split: if_splits)

interpretation transport_ids: id_source generate_new_transport_id counted "\<lambda>cur. unat cur \<le> 65535"
proof unfold_locales
  fix s i s' :: u64
  assume ok: "unat s \<le> 65535" and f: "generate_new_transport_id s = Some (i, s')"
  then have i: "i = s + 1" "s' = s + 1" and ne: "s \<noteq> 65535" by (auto simp: generate_new_transport_id_def split: if_splits)
  have s: "s \<noteq> - 1" using ok unat_max by auto
  show "i \<notin> counted s" "counted s' = insert i (counted s)" using counted_next [OF s] by (simp_all add: i)
  have "unat s \<noteq> 65535" using ne unat_max by (metis word_unat_eq_iff)
  then show "unat s' \<le> 65535" using ok unat_next [OF s] by (simp add: i)
qed

definition object_ids :: "id_type \<Rightarrow> (id_type \<rightharpoonup> u64) \<Rightarrow> u64 set" where
  "object_ids k ids = (case ids k of None \<Rightarrow> {} | Some n \<Rightarrow> counted n)"

interpretation object_ids: id_source "get_next_id k" "object_ids k" "\<lambda>ids. k \<noteq> MidID" for k
proof unfold_locales
  fix s i s'
  assume k: "k \<noteq> MidID" and f: "get_next_id k s = Some (i, s')"
  have "i \<notin> object_ids k s \<and> object_ids k s' = insert i (object_ids k s)"
  proof (cases "s k")
    case None
    then show ?thesis using f k by (auto simp: get_next_id_def object_ids_def counted_def word_unat_eq_iff)
  next
    case (Some n)
    then have "n \<noteq> - 1" "i = n + 1" "s' = s(k \<mapsto> n + 1)" using f k by (auto simp: get_next_id_def split: if_splits)
    then show ?thesis using Some counted_next [of n] by (simp add: object_ids_def)
  qed
  then show "i \<notin> object_ids k s" "object_ids k s' = insert i (object_ids k s)" by simp_all
qed

text \<open>
  C37: identifiers are never given out twice, and run out loudly: a server hands out 65535 distinct
  router identifiers, and the request for one more panics; a router does the same for its transports.
\<close>

theorem router_and_transport_ids:
  "(draw_many generate_new_router_id n 0 = None \<longleftrightarrow> 65535 < n) \<and>
   (draw_many generate_new_transport_id n 0 = None \<longleftrightarrow> 65535 < n) \<and>
   distinct (fst (the (draw_many generate_new_router_id (min n 65535) 0))) \<and>
   distinct (fst (the (draw_many generate_new_transport_id (min n 65535) 0)))"
proof -
  have r: "draw_many generate_new_router_id m 0 = None \<longleftrightarrow> 65535 < m" for m
  proof -
    have "draw_many generate_new_router_id m s = None \<longleftrightarrow> 65535 - unat s < m" for s
    proof (rule router_ids.draw_many_total)
      show "generate_new_router_id s = None \<longleftrightarrow> 65535 - unat s = 0" for s
        using u16_less [of s] unat_max by (auto simp: generate_new_router_id_def word_unat_eq_iff)
      show "65535 - unat s = Suc (65535 - unat s')" if "generate_new_router_id s = Some (i, s')" for s i s'
      proof -
        have s: "s \<noteq> - 1" "s' = s + 1" using that by (auto simp: generate_new_router_id_def split: if_splits)
        then have "unat s \<noteq> 65535" using unat_max by (metis word_unat_eq_iff)
        then show ?thesis using unat_next [OF s(1)] u16_less [of s] by (simp add: s(2))
      qed
    qed simp
    from this [of 0] show ?thesis by simp
  qed
  have t: "draw_many generate_new_transport_id m 0 = None \<longleftrightarrow> 65535 < m" for m
  proof -
    have "draw_many generate_new_transport_id m s = None \<longleftrightarrow> 65535 - unat s < m" if "unat s \<le> 65535" for s
      using that
    proof (rule transport_ids.draw_many_total [rotated 2])
      show "generate_new_transport_id s = None \<longleftrightarrow> 65535 - unat s = 0" if "unat s \<le> 65535" for s
        using that unat_max by (auto simp: generate_new_transport_id_def word_unat_eq_iff)
      show "65535 - unat s = Suc (65535 - unat s')" if "unat s \<le> 65535" "generate_new_transport_id s = Some (i, s')" for s i s'
      proof -
        have s: "s \<noteq> 65535" "s' = s + 1" using that by (auto simp: generate_new_transport_id_def split: if_splits)
        then have "unat s \<noteq> 65535" "s \<noteq> - 1" using that(1) unat_max by (metis word_unat_eq_iff, force)
        then show ?thesis using unat_next [of s] that(1) by (simp add: s(2))
      qed
    qed
    from this [of 0] show ?thesis by simp
  qed
  obtain ris rs tis ts where d: "draw_many generate_new_router_id (min n 65535) 0 = Some (ris, rs)"
      "draw_many generate_new_transport_id (min n 65535) 0 = Some (tis, ts)"
    using r [of "min n 65535"] t [of "min n 65535"] by (metis min.cobounded2 not_None_eq not_less surj_pair)
  then have "distinct ris" "distinct tis"
    using router_ids.draw_many_new transport_ids.draw_many_new [of 0] by (blast, force)
  then show ?thesis using r t d by simp
qed

section \<open>Producers of different transports\<close>

lemmas with_defs = with_router_def with_transport_def with_producer_def with_consumer_def modify_def

lemma nil_put_get: "nil_put k v m = Some m' \<Longrightarrow> nil_get m' k = Some v"
  by (auto simp: nil_put_def nil_get_def update_conv')

lemma map_update_same: "f x = f (xs ! n) \<Longrightarrow> map f (xs[n := x]) = map f xs"
  by (metis list_update_id map_update)

definition routed :: "u64 \<Rightarrow> nat \<Rightarrow> 'a router \<Rightarrow> bool" where
  "routed pid pr x \<longleftrightarrow> nil_get (roProducers x) pid = Some pr \<and> nil_get (roConsumersOf x) pid = Some []"

lemma add_producer_effect:
  assumes run: "add_producer lib now r pr s = Some (None, s')" and r: "r < length (sfRouters s)"
  shows "routed (pdId (sfProducers s ! pr)) pr (sfRouters s' ! r) \<and> length (sfRouters s') = length (sfRouters s) \<and>
    sfTransports s' = sfTransports s \<and> map pdId (sfProducers s') = map pdId (sfProducers s)"
proof -
  let ?p = "sfProducers s ! pr"
  obtain bn rn where pair: "get_buffer_pair (pdSSRC ?p) (sfFactory s) = (Some bn, Some rn)"
    using run by (auto simp: add_producer_def Let_def split: option.splits prod.splits)
  obtain f ps cs where ps: "nil_put (pdId ?p) pr (roProducers (sfRouters s ! r)) = Some ps"
    and cs: "nil_put (pdId ?p) [] (roConsumersOf (sfRouters s ! r)) = Some cs"
    and s': "s' = with_router r (\<lambda>x. x\<lparr>roProducers := ps, roConsumersOf := cs\<rparr>)
      (with_producer pr (\<lambda>p. p\<lparr>pdBuffer := Some bn, pdOnRTP := Some r, pdOnRTCP := Some r\<rparr>) (s\<lparr>sfFactory := f\<rparr>))"
    using run by (auto simp: add_producer_def Let_def pair with_producer_def split: option.splits)
  show ?thesis
    using r nil_put_get [OF ps] nil_put_get [OF cs] by (simp add: s' with_defs routed_def map_update_same)
qed

definition with_twcc :: "'tw \<Rightarrow> nat \<Rightarrow> ('bk, 'nq, 'tw, 'me, 'a) sfu \<Rightarrow> ('bk, 'nq, 'tw, 'me, 'a) sfu" where
  "with_twcc tw tr = with_transport tr (\<lambda>t. if tpTwcc t = None then t\<lparr>tpTwcc := Some tw\<rparr> else t)"

lemma produce_stream_effect:
  assumes run: "produce_stream lib now ident ssrc codec kind prm tr s = Some (Inr pr, s')"
    and tr: "tr < length (sfTransports s)" and r: "r < length (sfRouters s)" "tpRouter (sfTransports s ! tr) = r"
    and ids: "tpIds (sfTransports s ! tr) RTPProducerID = None"
  shows "pr = length (sfProducers s) \<and> map pdId (sfProducers s') = map pdId (sfProducers s) @ [1] \<and>
    routed 1 pr (sfRouters s' ! r) \<and> length (sfRouters s') = length (sfRouters s) \<and>
    length (sfTransports s') = length (sfTransports s) \<and>
    (\<forall>tr'. tr' \<noteq> tr \<longrightarrow> sfTransports s' ! tr' = sfTransports s ! tr')"
proof -
  define s1 where "s1 = with_twcc (slNewTwcc lib ssrc) tr s"
  have s1: "sfRouters s1 = sfRouters s" "sfProducers s1 = sfProducers s" "length (sfTransports s1) = length (sfTransports s)"
      "tpIds (sfTransports s1 ! tr) RTPProducerID = None" "tpRouter (sfTransports s1 ! tr) = r"
      "tr' \<noteq> tr \<Longrightarrow> sfTransports s1 ! tr' = sfTransports s ! tr'" for tr'
    using tr r ids by (simp_all add: s1_def with_defs with_twcc_def)
  define s2 where "s2 = with_transport tr (\<lambda>t. t\<lparr>tpIds := (tpIds (sfTransports s1 ! tr))(RTPProducerID \<mapsto> 1)\<rparr>) s1"
  have next_id: "transport_next_id RTPProducerID tr s1 = Some (1, s2)"
    using s1(4) by (simp add: transport_next_id_def get_next_id_def s2_def)
  have s2: "sfRouters s2 = sfRouters s" "sfProducers s2 = sfProducers s" "length (sfTransports s2) = length (sfTransports s)"
      "tpRouter (sfTransports s2 ! tr) = r" "tr' \<noteq> tr \<Longrightarrow> sfTransports s2 ! tr' = sfTransports s ! tr'" for tr'
    using tr s1 by (simp_all add: s2_def with_defs)
  define s3 where "s3 = s2\<lparr>sfProducers := sfProducers s2 @
    [new_producer lib 1 ident ssrc codec kind prm tr (tpTwcc (sfTransports s2 ! tr))]\<rparr>"
  have s3: "sfRouters s3 = sfRouters s" "sfTransports s3 = sfTransports s2"
      "map pdId (sfProducers s3) = map pdId (sfProducers s) @ [1]" "pdId (sfProducers s3 ! length (sfProducers s)) = 1"
    using s2 by (simp_all add: s3_def new_producer_def)
  have eq: "produce_stream lib now ident ssrc codec kind prm tr s =
     Option.bind (add_producer lib now r (length (sfProducers s2)) s3) (\<lambda>(err, s4). case err of
       Some e \<Rightarrow> Some (Inl e, s4)
     | None \<Rightarrow> do {
         let s = with_producer (length (sfProducers s2)) (\<lambda>p. p\<lparr>pdReading := True\<rparr>) s4;
         m \<leftarrow> nil_put 1 (length (sfProducers s2)) (tpProducers (sfTransports s ! tr));
         Some (Inr (length (sfProducers s2)), with_transport tr (\<lambda>t. t\<lparr>tpProducers := m\<rparr>) s) })"
    unfolding produce_stream_def with_twcc_def [symmetric] Let_def s1_def [symmetric] next_id bind.bind_lunit
      prod.case s3_def [symmetric]
    by (simp add: s3(2) s2(4))
  obtain s4 m where add: "add_producer lib now r (length (sfProducers s)) s3 = Some (None, s4)"
    and pr: "pr = length (sfProducers s)"
    and s': "s' = with_transport tr (\<lambda>t. t\<lparr>tpProducers := m\<rparr>) (with_producer pr (\<lambda>p. p\<lparr>pdReading := True\<rparr>) s4)"
    using run unfolding eq s2(2) by (cases "add_producer lib now r (length (sfProducers s)) s3")
      (auto simp: Let_def split: option.splits prod.splits)
  have "routed 1 pr (sfRouters s4 ! r) \<and> length (sfRouters s4) = length (sfRouters s) \<and> sfTransports s4 = sfTransports s2 \<and>
      map pdId (sfProducers s4) = map pdId (sfProducers s) @ [1]"
    using add_producer_effect [OF add] r s3 by (simp add: pr)
  moreover have "map pdId ((sfProducers s4)[pr := (sfProducers s4 ! pr)\<lparr>pdReading := True\<rparr>]) = map pdId (sfProducers s4)"
    by (rule map_update_same) simp
  ultimately show ?thesis using s2 pr by (simp add: s' with_defs)
qed

lemma produce_effect:
  assumes run: "produce lib now ident outcome kind prm tr s = Some (Inr pr, s')"
    and "tr < length (sfTransports s)" and "r < length (sfRouters s)" "tpRouter (sfTransports s ! tr) = r"
    and "tpIds (sfTransports s ! tr) RTPProducerID = None"
  shows "pr = length (sfProducers s) \<and> map pdId (sfProducers s') = map pdId (sfProducers s) @ [1] \<and>
    routed 1 pr (sfRouters s' ! r) \<and> length (sfRouters s') = length (sfRouters s) \<and>
    length (sfTransports s') = length (sfTransports s) \<and>
    (\<forall>tr'. tr' \<noteq> tr \<longrightarrow> sfTransports s' ! tr' = sfTransports s ! tr')"
proof -
  obtain ok me where me: "setup_producer_media_engine (slEngine lib) (slConsts lib) kind (tpEngine (sfTransports s ! tr)) = (ok, me)"
    by force
  define s0 where "s0 = with_transport tr (\<lambda>t. t\<lparr>tpEngine := me\<rparr>) s"
  have s0: "sfRouters s0 = sfRouters s" "sfProducers s0 = sfProducers s" "length (sfTransports s0) = length (sfTransports s)"
      "tpIds (sfTransports s0 ! tr) = tpIds (sfTransports s ! tr)" "tpRouter (sfTransports s0 ! tr) = tpRouter (sfTransports s ! tr)"
      "tr' \<noteq> tr \<Longrightarrow> sfTransports s0 ! tr' = sfTransports s ! tr'" for tr'
    using assms(2) by (simp_all add: s0_def with_defs)
  obtain ssrc codec where stream: "produce_stream lib now ident ssrc codec kind prm tr s0 = Some (Inr pr, s')"
    using run unfolding produce_def me Let_def prod.case s0_def [symmetric]
    by (cases ok; cases outcome) simp_all
  have "tr < length (sfTransports s0)" "r < length (sfRouters s0)" "tpRouter (sfTransports s0 ! tr) = r"
      "tpIds (sfTransports s0 ! tr) RTPProducerID = None"
    using assms(2-) s0 by simp_all
  note effect = produce_stream_effect [OF stream this, unfolded s0(1-3)]
  have "sfTransports s' ! tr' = sfTransports s ! tr'" if "tr' \<noteq> tr" for tr'
    using effect s0(6) [OF that] that by simp
  then show ?thesis using effect by (elim conjE, intro conjI) simp_all
qed


section \<open>From a producer to its consumers\<close>

definition track_ready :: "down_track \<Rightarrow> bool" where
  "track_ready d \<longleftrightarrow> track_ok d \<and> dtEnabled d \<and> dtBound d \<and> \<not> dtSyncRequired d \<and> dtStarted d \<and> length (dtMid d) \<le> 8"

lemma ready_write:
  assumes "accepting lib" and "track_ready d"
  shows "\<exists>d' q. write_rtp lib now ep d b = Some (True, d', b) \<and> track_ready d' \<and> dtSent d' = dtSent d @ [q] \<and>
    sent_key q = outgoing d ep \<and> stream_fields d' = stream_fields d"
proof -
  have d: "track_ok d" "length (dtMid d) \<le> 8" using assms(2) by (simp_all add: track_ready_def)
  obtain d' q where f: "forward lib now ep d = Some (True, d')" "track_ok d'" "dtSent d' = dtSent d @ [q]" "sent_key q = outgoing d ep"
      "stream_fields d' = stream_fields d" "dtSyncRequired d' = dtSyncRequired d" "dtStarted d'"
    using forward_accepted [OF assms(1) d, of now ep] by blast
  have "track_ready d'" using f assms(2) by (simp add: track_ready_def stream_fields_def)
  moreover have "write_rtp lib now ep d b = Some (True, d', b)"
    using f(1) assms(2) by (simp add: write_rtp_def write_simple_rtp_def track_ready_def)
  ultimately show ?thesis using f by blast
qed

text \<open>A consumer got the packets \<open>eps\<close>: unless it is paused, each was sent once, in order.\<close>

definition got :: "ext_packet list \<Rightarrow> 'a consumer \<Rightarrow> 'a consumer \<Rightarrow> bool" where
  "got eps x x' \<longleftrightarrow>
     (if csPaused x then x' = x
      else \<exists>d' qs. x' = x\<lparr>csTrack := d'\<rparr> \<and> track_ready d' \<and> dtSent d' = dtSent (csTrack x) @ qs \<and>
        map sent_key qs = map (outgoing (csTrack x)) eps \<and> stream_fields d' = stream_fields (csTrack x))"

lemma got_refl: "track_ready (csTrack x) \<Longrightarrow> got [] x x"
  by (auto simp: got_def intro: exI [of _ "csTrack x"])

lemma got_trans:
  assumes "got es x y" and "got es' y z"
  shows "got (es @ es') x z"
proof (cases "csPaused x")
  case True
  then show ?thesis using assms by (simp add: got_def)
next
  case False
  then obtain d1 q1 where 1: "y = x\<lparr>csTrack := d1\<rparr>" "dtSent d1 = dtSent (csTrack x) @ q1"
      "map sent_key q1 = map (outgoing (csTrack x)) es" "stream_fields d1 = stream_fields (csTrack x)"
    using assms(1) by (auto simp: got_def)
  then obtain d2 q2 where 2: "z = y\<lparr>csTrack := d2\<rparr>" "track_ready d2" "dtSent d2 = dtSent d1 @ q2"
      "map sent_key q2 = map (outgoing d1) es'" "stream_fields d2 = stream_fields d1"
    using assms(2) False by (auto simp: got_def)
  have "outgoing d1 = outgoing (csTrack x)" using outgoing_cong [OF 1(4)] by blast
  then show ?thesis
    using False 1 2 by (auto simp: got_def intro!: exI [of _ d2] exI [of _ "q1 @ q2"])
qed

definition can_forward :: "('bk, 'nq, 'tw, 'me, 'a) sfu \<Rightarrow> nat \<Rightarrow> bool" where
  "can_forward s c \<longleftrightarrow> c < length (sfConsumers s) \<and> track_ready (csTrack (sfConsumers s ! c)) \<and>
     pdBuffer (sfProducers s ! csProducer (sfConsumers s ! c)) \<noteq> None"

lemma consumer_write_got:
  assumes "accepting (slTrack lib)" and c: "can_forward s c"
  shows "\<exists>ok x. consumer_write lib now ep c s = Some (ok, s\<lparr>sfConsumers := (sfConsumers s)[c := x]\<rparr>) \<and>
    got [ep] (sfConsumers s ! c) x"
proof (cases "csPaused (sfConsumers s ! c)")
  case True
  then show ?thesis by (intro exI [of _ True] exI [of _ "sfConsumers s ! c"]) (simp add: consumer_write_def got_def)
next
  case False
  obtain bn where bn: "pdBuffer (sfProducers s ! csProducer (sfConsumers s ! c)) = Some bn"
    using c by (auto simp: can_forward_def)
  have "track_ready (csTrack (sfConsumers s ! c))" using c by (simp add: can_forward_def)
  from ready_write [OF assms(1) this, of now ep "fcBufferHeap (sfFactory s) ! bn"] obtain d' q where
    w: "write_rtp (slTrack lib) now ep (csTrack (sfConsumers s ! c)) (fcBufferHeap (sfFactory s) ! bn) =
        Some (True, d', fcBufferHeap (sfFactory s) ! bn)"
      and d': "track_ready d'" "dtSent d' = dtSent (csTrack (sfConsumers s ! c)) @ [q]"
      "sent_key q = outgoing (csTrack (sfConsumers s ! c)) ep" "stream_fields d' = stream_fields (csTrack (sfConsumers s ! c))"
    by blast
  have "consumer_write lib now ep c s =
      Some (True, s\<lparr>sfConsumers := (sfConsumers s)[c := (sfConsumers s ! c)\<lparr>csTrack := d'\<rparr>]\<rparr>)"
    using False by (simp add: consumer_write_def on_track_def bn w with_defs)
  moreover have "got [ep] (sfConsumers s ! c) ((sfConsumers s ! c)\<lparr>csTrack := d'\<rparr>)"
    using False d' by (auto simp: got_def)
  ultimately show ?thesis by blast
qed

text \<open>The consumers whose references are in \<open>refs\<close> got \<open>eps\<close>, the others are as they were.\<close>

definition all_got :: "ext_packet list \<Rightarrow> nat list \<Rightarrow> 'a consumer list \<Rightarrow> 'a consumer list \<Rightarrow> bool" where
  "all_got eps refs cs cs' \<longleftrightarrow> length cs' = length cs \<and>
     (\<forall>c. if c \<in> set refs then got eps (cs ! c) (cs' ! c) else cs' ! c = cs ! c)"

lemma forward_to_got:
  assumes "accepting (slTrack lib)"
  shows "map (nil_get (roConsumers (sfRouters s ! r))) cids = map Some refs \<Longrightarrow> distinct refs \<Longrightarrow>
    (\<And>c. c \<in> set refs \<Longrightarrow> can_forward s c) \<Longrightarrow>
    \<exists>cs. forward_to lib now r ep cids s = Some (s\<lparr>sfConsumers := cs\<rparr>) \<and> all_got [ep] refs (sfConsumers s) cs"
proof (induction cids arbitrary: refs s)
  case Nil
  have "s = s\<lparr>sfConsumers := sfConsumers s\<rparr>" by simp
  then show ?case using Nil by (intro exI [of _ "sfConsumers s"]) (simp add: all_got_def)
next
  case (Cons cid cids)
  obtain c refs' where refs: "refs = c # refs'" using Cons.prems(1) by (cases refs) simp_all
  have c: "nil_get (roConsumers (sfRouters s ! r)) cid = Some c" "can_forward s c" "c \<notin> set refs'" "distinct refs'"
    using Cons.prems refs by simp_all
  obtain ok x where w: "consumer_write lib now ep c s = Some (ok, s\<lparr>sfConsumers := (sfConsumers s)[c := x]\<rparr>)"
    and x: "got [ep] (sfConsumers s ! c) x"
    using consumer_write_got [OF assms c(2)] by blast
  let ?s = "s\<lparr>sfConsumers := (sfConsumers s)[c := x]\<rparr>"
  have can: "can_forward ?s c'" if "c' \<in> set refs'" for c'
  proof -
    have "c \<noteq> c'" using that c(3) by blast
    then show ?thesis using Cons.prems(3) [of c'] that refs by (simp add: can_forward_def)
  qed
  have listed: "map (nil_get (roConsumers (sfRouters ?s ! r))) cids = map Some refs'"
    using Cons.prems(1) refs by simp
  obtain cs where cs: "forward_to lib now r ep cids ?s = Some (?s\<lparr>sfConsumers := cs\<rparr>)"
      "all_got [ep] refs' (sfConsumers ?s) cs"
    using Cons.IH [OF listed c(4) can] by blast
  have lt: "c < length (sfConsumers s)" using c(2) by (simp add: can_forward_def)
  have "if k \<in> set refs then got [ep] (sfConsumers s ! k) (cs ! k) else cs ! k = sfConsumers s ! k" for k
    using cs(2) [unfolded all_got_def, THEN conjunct2, THEN spec, of k] x c(3) lt
    by (cases "k = c") (simp_all add: refs split: if_splits)
  then have "all_got [ep] refs (sfConsumers s) cs" using cs(2) by (simp add: all_got_def)
  moreover have "forward_to lib now r ep (cid # cids) s = Some (s\<lparr>sfConsumers := cs\<rparr>)"
    using cs(1) by (simp add: c(1) w)
  ultimately show ?case by blast
qed

text \<open>The consumers that the router lists for a producer.\<close>

definition audience :: "nat \<Rightarrow> u64 \<Rightarrow> ('bk, 'nq, 'tw, 'me, 'a) sfu \<Rightarrow> nat option list" where
  "audience r pid s = (case nil_get (roConsumersOf (sfRouters s ! r)) pid of None \<Rightarrow> []
     | Some cids \<Rightarrow> map (nil_get (roConsumers (sfRouters s ! r))) cids)"

lemma on_rtp_packet_got:
  assumes "accepting (slTrack lib)" and "audience r pid s = map Some refs" and "distinct refs"
    and "\<And>c. c \<in> set refs \<Longrightarrow> can_forward s c"
  shows "\<exists>cs. on_rtp_packet lib now r pid ep s = Some (s\<lparr>sfConsumers := cs\<rparr>) \<and> all_got [ep] refs (sfConsumers s) cs"
proof (cases "nil_get (roConsumersOf (sfRouters s ! r)) pid")
  case None
  have "s = s\<lparr>sfConsumers := sfConsumers s\<rparr>" by simp
  then show ?thesis
    using None assms(2) by (intro exI [of _ "sfConsumers s"]) (simp add: on_rtp_packet_def audience_def all_got_def)
next
  case (Some cids)
  then show ?thesis
    using forward_to_got [OF assms(1), of s r cids refs now ep] assms(2-) by (simp add: on_rtp_packet_def audience_def)
qed

lemma got_can_forward: "got eps x x' \<Longrightarrow> track_ready (csTrack x) \<Longrightarrow> track_ready (csTrack x') \<and> csProducer x' = csProducer x"
  by (auto simp: got_def split: if_splits)

lemma all_got_trans:
  assumes "all_got eps refs cs cs1" and "all_got eps' refs cs1 cs2"
  shows "all_got (eps @ eps') refs cs cs2"
proof -
  have "got (eps @ eps') (cs ! c) (cs2 ! c)" if "c \<in> set refs" for c
    using assms that got_trans [of eps "cs ! c" "cs1 ! c" eps' "cs2 ! c"] by (simp add: all_got_def split: if_splits)
  moreover have "cs2 ! c = cs ! c" if "c \<notin> set refs" for c
    using assms that by (simp add: all_got_def split: if_splits)
  ultimately show ?thesis using assms by (simp add: all_got_def)
qed

lemma all_got_can_forward:
  assumes "all_got eps refs (sfConsumers s) cs" and "list_all (can_forward s) refs"
  shows "list_all (can_forward (s\<lparr>sfConsumers := cs\<rparr>)) refs"
proof -
  have "can_forward (s\<lparr>sfConsumers := cs\<rparr>) c" if c: "c \<in> set refs" for c
  proof -
    have s: "can_forward s c" using c assms(2) by (simp add: list_all_iff)
    have "got eps (sfConsumers s ! c) (cs ! c)" "length cs = length (sfConsumers s)"
      using assms(1) c by (simp_all add: all_got_def split: if_splits)
    then show ?thesis using got_can_forward s by (fastforce simp: can_forward_def)
  qed
  then show ?thesis by (simp add: list_all_iff)
qed

lemma audience_consumers: "audience r pid (s\<lparr>sfConsumers := cs\<rparr>) = audience r pid s"
  by (simp add: audience_def cong: option.case_cong)

lemma run_forward_got:
  assumes "accepting (slTrack lib)" and "audience r pid s = map Some refs" and "distinct refs"
    and "list_all (can_forward s) refs"
  shows "\<exists>cs. run_panic (\<lambda>(now, ep). on_rtp_packet lib now r pid ep) eps s = Some (s\<lparr>sfConsumers := cs\<rparr>) \<and>
    all_got (map snd eps) refs (sfConsumers s) cs"
  using assms(2,4)
proof (induction eps arbitrary: s)
  case Nil
  have "s = s\<lparr>sfConsumers := sfConsumers s\<rparr>" by simp
  then show ?case
    using Nil by (intro exI [of _ "sfConsumers s"]) (auto simp: all_got_def list_all_iff can_forward_def intro: got_refl)
next
  case (Cons e eps)
  obtain now ep where e: "e = (now, ep)" by force
  obtain cs where 1: "on_rtp_packet lib now r pid ep s = Some (s\<lparr>sfConsumers := cs\<rparr>)" "all_got [ep] refs (sfConsumers s) cs"
    using on_rtp_packet_got [OF assms(1) Cons.prems(1) assms(3), of now ep] Cons.prems(2) by (auto simp: list_all_iff)
  let ?s = "s\<lparr>sfConsumers := cs\<rparr>"
  have "audience r pid ?s = map Some refs" using Cons.prems(1) by (simp add: audience_consumers)
  from Cons.IH [OF this all_got_can_forward [OF 1(2) Cons.prems(2)]]
  obtain cs' where 2: "run_panic (\<lambda>(now, ep). on_rtp_packet lib now r pid ep) eps ?s = Some (?s\<lparr>sfConsumers := cs'\<rparr>)"
      "all_got (map snd eps) refs cs cs'"
    by auto
  have "all_got (map snd (e # eps)) refs (sfConsumers s) cs'" using all_got_trans [OF 1(2) 2(2)] by (simp add: e)
  then show ?case using 1(1) 2(1) e by (intro exI [of _ cs']) simp
qed


section \<open>What panics\<close>

text \<open>
  A data channel cannot be consumed unless it has both limits. What is read through a pointer is
  the channel's identifier, its lifetime and its number of retransmissions; a channel has at most one of
  the two limits, so that consuming any data producer panics.
\<close>

theorem consume_data_panics:
  assumes "map_of (roDataProducers (sfRouters s ! tpRouter (sfTransports s ! tr))) pid = Some dp"
    and "dcID ch = None \<or> dcMaxPacketLifeTime ch = None \<or> dcMaxRetransmits ch = None"
  shows "consume_data (Some (ch, limit)) up pid tr s = None"
proof -
  have "new_data_consumer ident limit ch = None" for ident
    using assms(2) by (auto simp: new_data_consumer_def split: option.split)
  then show ?thesis
    using assms(1) by (cases "dpChannel (sfDataProducers s ! dp)"; cases "transport_next_id DataConsumerID tr s")
      (simp_all add: consume_data_def Let_def split_beta)
qed

text \<open>A closed router cannot make a transport: the map it would enter it into is gone.\<close>

lemma with_router_fields: "sfRouters (with_router r f s) = modify r f (sfRouters s)"
  by (simp add: with_router_def)

lemma transport_close_routers: "sfRouters (transport_close tr s) = sfRouters s"
proof -
  have p: "sfRouters (fold (\<lambda>(_, pr). producer_close pr) ps s) = sfRouters s" for ps :: "(u64 \<times> nat) list" and s
    by (induction ps arbitrary: s) (auto simp: producer_close_def with_producer_def)
  have c: "sfRouters (fold (\<lambda>(_, c). consumer_close c) cs s) = sfRouters s" for cs :: "(u64 \<times> nat) list" and s
    by (induction cs arbitrary: s) (auto simp: consumer_close_def with_consumer_def)
  show ?thesis by (simp add: transport_close_def Let_def with_transport_def p c)
qed

lemma transports_close_routers:
  "sfRouters (fold (\<lambda>(_, tr). transport_close tr) ts s) = sfRouters s"
  by (induction ts arbitrary: s) (auto simp: transport_close_routers)

lemma router_close_nil:
  assumes "r < length (sfRouters s)" and "\<not> roClosed (sfRouters s ! r)"
  shows "roTransports (sfRouters (router_close r s) ! r) = None" "length (sfRouters (router_close r s)) = length (sfRouters s)"
  using assms by (simp_all add: router_close_def Let_def with_router_def modify_def transports_close_routers)

lemma closed_router_panics:
  assumes "r < length (sfRouters s)" and "\<not> roClosed (sfRouters s ! r)"
  shows "new_webrtc_transport lib (Gathers l) consuming r (router_close r s) = None"
proof -
  let ?s = "router_close r s"
  have "roTransports (modify r (\<lambda>x. x\<lparr>roCurrentTransportId := cur\<rparr>) (sfRouters ?s) ! r) = None" for cur
    using router_close_nil [OF assms] assms(1) by (simp add: modify_def)
  then show ?thesis
    by (cases "generate_new_transport_id (roCurrentTransportId (sfRouters ?s ! r))")
      (auto simp: new_webrtc_transport_def Let_def with_router_def nil_put_def)
qed

section \<open>Reports\<close>

text \<open>The source descriptions of a packet.\<close>

definition described :: "rtcp_packet list \<Rightarrow> (u32 \<times> string) list" where
  "described pkts = concat (map (\<lambda>p. case p of SourceDescription ch \<Rightarrow> ch | _ \<Rightarrow> []) pkts)"

fun is_sender_report :: "rtcp_packet \<Rightarrow> bool" where
  "is_sender_report (SenderReport sr) = True"
| "is_sender_report _ = False"

definition reports_in :: "rtcp_packet list \<Rightarrow> rtcp_packet list" where
  "reports_in = filter is_sender_report"

lemma only_reports: "list_all is_sender_report xs \<Longrightarrow> described xs = [] \<and> reports_in xs = xs"
proof (induction xs)
  case (Cons x xs)
  then show ?case by (cases x) (simp_all add: described_def reports_in_def)
qed (simp add: described_def reports_in_def)

lemma report_batches_none: "report_batches srs [] = []"
proof (induction "length srs" arbitrary: srs rule: less_induct)
  case less
  show ?case
  proof (cases "srs = []")
    case False
    then have "length (drop (min (length srs) sdBatchSize) srs) < length srs" by (auto simp: sdBatchSize_def)
    from less.hyps [OF this] show ?thesis using False by (subst report_batches.simps) (simp add: Let_def)
  qed (subst report_batches.simps, simp)
qed

lemma report_batches_some:
  "sd \<noteq> [] \<Longrightarrow> report_batches srs sd =
   (take sdBatchSize srs @ [SourceDescription (take sdBatchSize sd)]) # report_batches (drop sdBatchSize srs) (drop sdBatchSize sd)"
proof -
  have t: "take (min (length xs) n) xs = take n xs" "drop (min (length xs) n) xs = drop n xs" for n and xs :: "'x list"
    by (simp_all add: min_def)
  assume "sd \<noteq> []"
  then have "0 < min (length sd) sdBatchSize" by (simp add: sdBatchSize_def)
  then show ?thesis using \<open>sd \<noteq> []\<close> by (subst report_batches.simps) (simp add: Let_def t)
qed

text \<open>
  C39: the reports of a subscriber are sent in bounded batches, and all of them: every source description
  is sent once and in order, no packet describes more than 20 sources, no batch has more than 21
  packets; of the sender reports the first 20 for each batch go out, which is every one as long as there
  is no more of them than of the descriptions.
\<close>

theorem reports_batched:
  assumes "list_all is_sender_report srs"
  shows "concat (map described (report_batches srs sd)) = sd \<and>
    list_all (\<lambda>pkts. length pkts \<le> 21 \<and> length (described pkts) \<le> 20) (report_batches srs sd) \<and>
    concat (map reports_in (report_batches srs sd)) = take (20 * ((length sd + 19) div 20)) srs"
  using assms
proof (induction "length sd" arbitrary: srs sd rule: less_induct)
  case less
  show ?case
  proof (cases "sd = []")
    case True
    then show ?thesis by (simp add: report_batches_none)
  next
    case False
    have take: "list_all is_sender_report (take 20 srs)" and drop: "list_all is_sender_report (drop 20 srs)"
      using less.prems by (auto simp: list_all_iff dest: in_set_takeD in_set_dropD)
    note plain = only_reports [OF take, THEN conjunct1] only_reports [OF take, THEN conjunct2]
    have "length (drop 20 sd) < length sd" using False by simp
    note IH = less.hyps [OF this drop]
    have parts: "described (xs @ [SourceDescription ch]) = described xs @ ch"
        "reports_in (xs @ [SourceDescription ch]) = reports_in xs" for xs ch
      by (simp_all add: described_def reports_in_def)
    have count: "(length sd + 19) div 20 = Suc ((length sd - 20 + 19) div 20)"
      using False by (cases "length sd < 20") (auto simp: div_eq_dividend_iff le_div_geq Suc_le_eq)
    have split: "take 20 srs @ take (20 * n) (drop 20 srs) = take (20 * Suc n) srs" for n
      by (simp add: take_add)
    have eq: "report_batches srs sd = (take 20 srs @ [SourceDescription (take 20 sd)]) # report_batches (drop 20 srs) (drop 20 sd)"
      using report_batches_some [OF False, of srs] by (simp only: sdBatchSize_def)
    let ?b = "take 20 srs @ [SourceDescription (take 20 sd)]" and ?rest = "report_batches (drop 20 srs) (drop 20 sd)"
    have b: "described ?b = take 20 sd" "reports_in ?b = take 20 srs" "length ?b \<le> 21" "length (take 20 sd) \<le> 20"
      by (simp_all only: parts plain append_Nil length_append length_take) simp_all
    have "concat (map described (?b # ?rest)) = sd"
      unfolding list.map concat.simps b using IH by (metis append_take_drop_id)
    moreover have "list_all (\<lambda>pkts. length pkts \<le> 21 \<and> length (described pkts) \<le> 20) (?b # ?rest)"
      using IH b(3,4) by (simp only: list.pred_inject b simp_thms)
    moreover have "concat (map reports_in (?b # ?rest)) = take (20 * ((length sd + 19) div 20)) srs"
      unfolding list.map concat.simps b count using IH split [of "(length sd - 20 + 19) div 20"] by (metis length_drop)
    ultimately show ?thesis unfolding eq by blast
  qed
qed

theorem reports_batched_witness:
  "concat (map described (report_batches [SenderReport \<lparr>repSSRC = 9, repNTPTime = 0, repRTPTime = 0, repPacketCount = 0,
      repOctetCount = 0\<rparr>] [(9, ''cname'')])) = [(9, ''cname'')]"
  using reports_batched [of "[SenderReport \<lparr>repSSRC = 9, repNTPTime = 0, repRTPTime = 0, repPacketCount = 0, repOctetCount = 0\<rparr>]"
      "[(9, ''cname'')]"] by (simp only: list.pred_inject is_sender_report.simps simp_thms)

section \<open>Examples\<close>

definition sample_consts :: media_consts where
  "sample_consts = \<lparr>mcOpus = ''audio/opus'', mcVP8 = ''video/VP8'', mcGoogREMB = ''goog-remb'', mcTransportCC = ''transport-cc'',
     mcCCM = ''ccm'', mcNACK = ''nack'', mcMidURI = ''urn:ietf:params:rtp-hdrext:sdes:mid'',
     mcAbsSendTimeURI = ''http://www.webrtc.org/experiments/rtp-hdrext/abs-send-time'',
     mcAudioLevelURI = ''urn:ietf:params:rtp-hdrext:ssrc-audio-level'',
     mcTransportCCURI = ''http://www.ietf.org/id/draft-holmer-rmcat-transport-wide-cc-extensions-01''\<rparr>"

definition sample_sfu_lib :: "(u8 list list, u16 list, u16 list, nat, nat) sfu_lib" where
  "sample_sfu_lib = \<lparr>slTrack = sample_track_lib,
     slEngine = \<lparr>registerCodec = \<lambda>c k n. (True, Suc n), registerExtension = \<lambda>u k n. (True, Suc n)\<rparr>,
     slConsts = sample_consts, slPrinting = sample_printing, slNewEngine = 0, slNewTwcc = \<lambda>ssrc. [], slMaxPktSize = 1500\<rparr>"

definition sample_receive :: "nat receive_parameters" where
  "sample_receive = \<lparr>recvParameters = sample_ortc [''minptime'' \<mapsto> AnyInt 20], recvEncodings = []\<rparr>"

definition sample_opus :: codec_capability where
  "sample_opus = \<lparr>MimeType = ''audio/opus'', CodecClockRate = 48000, CodecChannels = 2, SDPFmtpLine = [], RTCPFeedback = []\<rparr>"

text \<open>A room with two transports, and the buffers and readers of two streams that have begun to arrive.\<close>

definition sample_local :: local_parameters where
  "sample_local = \<lparr>lpCandidates = Some [''udp 1''], lpIce = Some \<lparr>iceFragment = ''u'', icePassword = ''p'', iceLite = False\<rparr>,
     lpDtls = Some [''sha-256''], lpMaxMessageSize = 65536\<rparr>"

definition sample_caps :: transport_capabilities where
  "sample_caps = the (generate_capabilities sample_local)"

definition sample_room :: "(u8 list list, u16 list, u16 list, nat, nat) sfu" where
  "sample_room = new_sfu\<lparr>sfRouters := [make_router 1 \<lparr>capCodecs = [], capHeaderExtensions = []\<rparr>],
     sfTransports := [make_transport 1 0 0 sample_caps (Some False), make_transport 2 0 0 sample_caps (Some False)],
     sfFactory := fold (\<lambda>(pt, ssrc) f. snd (get_or_new pt ssrc f))
       [(RTPBufferPacket, 7), (RTCPBufferPacket, 7), (RTPBufferPacket, 8), (RTCPBufferPacket, 8)] create_buffer_factory\<rparr>"

definition produce_first where
  "produce_first = produce sample_sfu_lib 1 ''p'' (Receives 7 sample_opus) CodecAudio sample_receive 0"

definition produce_second where
  "produce_second = produce sample_sfu_lib 2 ''q'' (Receives 8 sample_opus) CodecAudio sample_receive 1"

lemma sample_produced:
  "\<exists>s1 s2. produce_first sample_room = Some (Inr 0, s1) \<and> produce_second s1 = Some (Inr 1, s2)"
proof -
  have "Option.bind (produce_first sample_room) (\<lambda>(a, s). map_option (\<lambda>(b, _). (a, b)) (produce_second s)) = Some (Inr 0, Inr 1)"
    by code_simp
  then show ?thesis by (auto simp: bind_eq_Some_conv)
qed


theorem consume_data_panics_witness:
  "consume_data (Some (\<lparr>dcLabel = ''chat'', dcID = Some 1, dcMaxPacketLifeTime = None, dcMaxRetransmits = Some 3, dcOrdered = True\<rparr>, 65536))
     True 1 0 (sample_room\<lparr>sfRouters := [(make_router 1 \<lparr>capCodecs = [], capHeaderExtensions = []\<rparr>)\<lparr>roDataProducers := [(1, 0)]\<rparr>],
       sfDataProducers := [\<lparr>dpId = 1, dpLabel = ''chat'', dpParameters = \<lparr>stMaxPacketLifeTime = 0, stMaxRetransmits = 3,
         stOrdered = True, stStreamID = 1\<rparr>, dpChannel = None, dpOnMessage = Some 0\<rparr>]\<rparr>) = None"
  by (rule consume_data_panics [where dp = 0]) (simp_all add: sample_room_def make_transport_def)

definition sample_forwarding :: "down_track \<Rightarrow> (u8 list list, u16 list, u16 list, nat, nat) sfu" where
  "sample_forwarding d = sample_room\<lparr>
     sfRouters := [(make_router 1 \<lparr>capCodecs = [], capHeaderExtensions = []\<rparr>)\<lparr>roConsumers := Some [(1, 0)],
       roConsumersOf := Some [(1, [1])]\<rparr>],
     sfProducers := [(new_producer sample_sfu_lib 1 ''p'' 7 sample_codec CodecVideo sample_receive 0 None)\<lparr>pdBuffer := Some 0\<rparr>],
     sfConsumers := [\<lparr>csId = 1, csTransport = 1, csProducer = 0, csClosed = False, csPaused = False, csKind = CodecVideo,
       csParameters = \<lparr>sendParameters = recvParameters sample_receive, sendEncodings = []\<rparr>, csTrack = d, csBitrate = Fin 0\<rparr>]\<rparr>"


end
