(* ===== verification/SignallingSpec.thy ===== *)
theory SignallingSpec
  imports Signalling SfuSpec
begin

text \<open>
  Which messages are answered, and which leave the connection hanging; what joining a room does to the
  connection's peer.
\<close>

section \<open>Which messages are answered\<close>

definition silent :: "message_type \<Rightarrow> bool" where
  "silent t \<longleftrightarrow> (case t of LeaveRoomMessage \<Rightarrow> True | CloseProducer \<Rightarrow> True | ConsumerPause \<Rightarrow> True | OtherMessage _ \<Rightarrow> True | _ \<Rightarrow> False)"

definition connect_fails :: "'a json_lib \<Rightarrow> outcomes \<Rightarrow> ws_message \<Rightarrow> nat \<Rightarrow> ('bk, 'nq, 'tw, 'me, 'a) server \<Rightarrow> bool" where
  "connect_fails js out msg pe v \<longleftrightarrow> message_type_of (msgMethod msg) = ConnectTransport \<and>
     (\<exists>ident e. parseConnect js (msgPayload msg) = Some ident \<and> fst (peer_connect_transport (outConnect out) ident pe v) = Some e)"

definition one_call :: "('bk, 'nq, 'tw, 'me, 'a) handled \<Rightarrow> bool" where
  "one_call h \<longleftrightarrow> (case h of None \<Rightarrow> True | Some (calls, _) \<Rightarrow> length calls = 1)"

lemma one_call_simps [simp]: "one_call None" "one_call (Some (calls, v)) \<longleftrightarrow> length calls = 1"
  by (simp_all add: one_call_def)

lemma one_call_payload: "(\<And>x. p = Some x \<Longrightarrow> one_call (h x)) \<Longrightarrow> one_call (with_payload p h v)"
  by (cases p) (simp_all add: with_payload_def)

lemma one_call_bind: "(\<And>res v. one_call (Some (f res v))) \<Longrightarrow> one_call (Option.bind m (\<lambda>(res, v). Some (f res v)))"
  by (cases m) (auto split: prod.split)

lemma handlers_one_call:
  "one_call (handle_join enc ident rm v)" "one_call (handle_create lib enc out c pe v)" "one_call (handle_close out ident pe v)"
  "one_call (handle_produce lib enc now out kp pe v)" "one_call (handle_produce_data enc lp pe v)"
  "one_call (handle_toggle ip pe v)" "one_call (handle_consume lib enc now out ip pe v)"
  "one_call (handle_consume_data enc out pid pe v)" "one_call (handle_resume cid pe v)"
  by (auto simp: handle_join_def handle_create_def handle_close_def handle_produce_def handle_produce_data_def
      handle_toggle_def handle_consume_def handle_consume_data_def handle_resume_def Let_def split_beta
      intro!: one_call_bind split: option.split sum.split)

lemma message_one_call:
  assumes "\<not> silent (message_type_of (msgMethod msg))" and "\<not> connect_fails js out msg pe v"
  shows "one_call (handle_incoming_message lib js enc now out msg rm pe v)"
proof (cases "message_type_of (msgMethod msg)")
  case ConnectTransport
  have "one_call (handle_connect out ident pe v)" if "parseConnect js (msgPayload msg) = Some ident" for ident
    using assms(2) ConnectTransport that by (auto simp: handle_connect_def connect_fails_def split_beta)
  then show ?thesis using ConnectTransport by (simp add: handle_incoming_message_def one_call_payload)
qed (use assms(1) in \<open>simp_all add: handle_incoming_message_def one_call_payload handlers_one_call silent_def\<close>)


definition sample_outcomes :: outcomes where
  "sample_outcomes = \<lparr>outIdent = ''x'', outTransport = Gathers sample_local,
     outConnect = \<lparr>startsIce = True, startsDtls = False, startsSctp = False\<rparr>, outStop = True,
     outReceiver = Receives 7 sample_opus, outSender = SendFails, outChannel = None, outUp = True\<rparr>"

definition sample_json :: "nat json_lib" where
  "sample_json = \<lparr>parseJoin = \<lambda>s. Some 5, parseCreate = \<lambda>s. Some True, parseConnect = \<lambda>s. Some 1, parseClose = \<lambda>s. Some 1,
     parseProduce = \<lambda>s. Some (''audio'', sample_receive), parseProduceData = \<lambda>s. None, parseToggle = \<lambda>s. Some (1, True),
     parseConsume = \<lambda>s. Some (1, False), parseConsumeData = \<lambda>s. Some 1, parseResume = \<lambda>s. Some 1\<rparr>"

definition sample_server :: "(u8 list list, u16 list, u16 list, nat, nat) server" where
  "sample_server = \<lparr>svSfu = sample_room, svRooms = [(1, 0)], svRoomHeap = [(new_room 1 0)\<lparr>rmPeers := [(5, 0)]\<rparr>],
     svPeerHeap = [(new_peer 5 0)\<lparr>peTransports := [(1, 0)]\<rparr>]\<rparr>"


section \<open>Joining a room\<close>

text \<open>What a handler leaves alone: the rooms, and every other peer.\<close>

definition others_kept :: "nat \<Rightarrow> ('bk, 'nq, 'tw, 'me, 'a) server \<Rightarrow> ('bk, 'nq, 'tw, 'me, 'a) server \<Rightarrow> bool" where
  "others_kept pe v v' \<longleftrightarrow> svRoomHeap v' = svRoomHeap v \<and> (\<forall>k. k \<noteq> pe \<longrightarrow> svPeerHeap v' ! k = svPeerHeap v ! k)"

definition keeps :: "nat \<Rightarrow> ('bk, 'nq, 'tw, 'me, 'a) server \<Rightarrow> ('x \<times> ('bk, 'nq, 'tw, 'me, 'a) server) option \<Rightarrow> bool" where
  "keeps pe v h \<longleftrightarrow> (case h of None \<Rightarrow> True | Some (_, v') \<Rightarrow> others_kept pe v v')"

lemma keeps_simps [simp]: "keeps pe v None" "keeps pe v (Some p) \<longleftrightarrow> others_kept pe v (snd p)"
  by (simp_all add: keeps_def split_beta)

lemma others_kept_refl [simp]: "others_kept pe v v" "others_kept pe v (v\<lparr>svSfu := s\<rparr>) = others_kept pe v v"
  "others_kept pe v (with_peer pe f v') = others_kept pe v v'"
  by (auto simp: others_kept_def with_peer_def modify_def)

lemma others_kept_trans: "others_kept pe a b \<Longrightarrow> others_kept pe b c \<Longrightarrow> others_kept pe a c"
  by (simp add: others_kept_def)

lemma keeps_bind:
  assumes "keeps pe v m" and "\<And>x v'. others_kept pe v v' \<Longrightarrow> keeps pe v (f (x, v'))"
  shows "keeps pe v (Option.bind m f)"
  using assms by (cases m) (auto simp: split_beta)

lemma keeps_sfu: "(\<And>x s. keeps pe v (f (x, s))) \<Longrightarrow> keeps pe v (Option.bind m f)"
  by (cases m) auto

lemma peers_keep:
  "keeps pe v (peer_create_transport lib ok c pe v)" "keeps pe v (peer_produce lib now ident ro kind prm pe v)"
  "keeps pe v (peer_consume lib now ident so pr paused pe v)" "keeps pe v (peer_produce_data label st pe v)"
  "keeps pe v (peer_consume_data made up pid pe v)"
  by (auto simp: peer_create_transport_def peer_produce_def peer_consume_def peer_produce_data_def peer_consume_data_def
      Let_def intro!: keeps_sfu split: option.splits sum.splits prod.splits)

lemma handlers_keep:
  "keeps pe v (handle_create lib enc out c pe v)" "keeps pe v (handle_close out ident pe v)" "keeps pe v (handle_connect out ident pe v)"
  "keeps pe v (handle_produce lib enc now out kp pe v)" "keeps pe v (handle_produce_data enc lp pe v)"
  "keeps pe v (handle_toggle ip pe v)" "keeps pe v (handle_consume lib enc now out ip pe v)"
  "keeps pe v (handle_consume_data enc out pid pe v)" "keeps pe v (handle_resume cid pe v)"
  by (auto simp: handle_create_def handle_close_def handle_connect_def handle_produce_def handle_produce_data_def
      handle_toggle_def handle_consume_def handle_consume_data_def handle_resume_def peer_close_transport_def
      peer_connect_transport_def Let_def
      intro!: keeps_bind peers_keep split: option.split sum.split prod.split)

lemma message_keeps:
  assumes "message_type_of (msgMethod msg) \<noteq> JoinRoomMessage"
  shows "keeps pe v (ws_handle lib js enc now out msg rm pe v)"
proof -
  have "keeps pe v (handle_incoming_message lib js enc now out msg rm pe v)"
    using assms by (cases "message_type_of (msgMethod msg)")
      (simp_all add: handle_incoming_message_def with_payload_def handlers_keep split: option.split)
  then show ?thesis
    by (cases "handle_incoming_message lib js enc now out msg rm pe v") (auto simp: ws_handle_def split_beta)
qed

lemma serve_connection_keeps:
  assumes "list_all (\<lambda>(now, out, msg). message_type_of (msgMethod msg) \<noteq> JoinRoomMessage) msgs"
    and "serve_connection lib js enc rm pe msgs v = Some (r, v')"
  shows "others_kept pe v v'"
  using assms
proof (induction msgs arbitrary: v r)
  case (Cons m msgs)
  obtain now out msg where m: "m = (now, out, msg)" by (metis prod.collapse)
  obtain rs goes_on v1 where 1: "ws_handle lib js enc now out msg rm pe v = Some ((rs, goes_on), v1)"
    using Cons.prems(2) by (auto simp: m bind_eq_Some_conv)
  have "keeps pe v (ws_handle lib js enc now out msg rm pe v)" using Cons.prems(1) by (simp add: m message_keeps)
  then have kept: "others_kept pe v v1" by (simp add: 1)
  show ?case
  proof (cases goes_on)
    case True
    then obtain r' where "serve_connection lib js enc rm pe msgs v1 = Some (r', v')"
      using Cons.prems(2) 1 by (auto simp: m bind_eq_Some_conv)
    then have "others_kept pe v1 v'" using Cons.IH [of v1 r'] Cons.prems(1) by simp
    then show ?thesis using others_kept_trans [OF kept] by blast
  qed (use Cons.prems(2) 1 kept in \<open>simp add: m\<close>)
qed simp



end
