(* ===== verification/Pipeline.thy ===== *)
theory Pipeline
  imports SfuSpec
begin

text \<open>
  From the queue of a buffer to the subscribers: the rounds of a producer's reading loop, the router and
  the down tracks put together.
\<close>

section \<open>Reading the queue\<close>

text \<open>
  What \<open>patch_ext_packet\<close> says of the packets of the queue: \<open>os\<close> has the packet with its payload read
  again, or nothing where the buffer no longer holds it.
\<close>

definition patches ::
  "('bk, 'nq, 'tw) media_lib \<Rightarrow> int \<Rightarrow> ('bk, 'nq, 'tw) buffer \<Rightarrow> ext_packet list \<Rightarrow> ext_packet option list \<Rightarrow> bool"
where
  "patches lib cap b eps os \<longleftrightarrow> map (\<lambda>ep. patch_ext_packet lib cap ep b) eps = map Some os"

definition held :: "ext_packet option list \<Rightarrow> ext_packet list" where
  "held os = List.map_filter id os"

lemma held_simps [simp]: "held [] = []" "held (None # os) = held os" "held (Some ep # os) = ep # held os"
  by (simp_all add: held_def List.map_filter_simps)

lemma patch_queue: "patch_ext_packet lib cap ep (b\<lparr>bExtPackets := q\<rparr>) = patch_ext_packet lib cap ep b"
  by (simp add: patch_ext_packet_def get_packet_def)

lemma patches_queue [simp]: "patches lib cap (b\<lparr>bExtPackets := q\<rparr>) = patches lib cap b"
  by (simp add: patches_def fun_eq_iff patch_queue)

lemma read_held:
  assumes "patches lib cap b eps os"
  shows "case held os of
      [] \<Rightarrow> read_extended_from lib cap eps b = Some (Wait, b\<lparr>bExtPackets := []\<rparr>)
    | ep # rest \<Rightarrow> \<exists>eps' os'. read_extended_from lib cap eps b = Some (Return (Inr ep), b\<lparr>bExtPackets := eps'\<rparr>) \<and>
        patches lib cap b eps' os' \<and> held os' = rest"
  using assms
proof (induction eps arbitrary: os)
  case (Cons ep eps)
  then obtain r os' where os: "os = r # os'" "patch_ext_packet lib cap ep b = Some r" "patches lib cap b eps os'"
    by (cases os) (auto simp: patches_def)
  then show ?case using Cons.IH [OF os(3)] by (cases r; cases "held os'") auto
qed (simp add: patches_def)

section \<open>The rounds of the reading loop\<close>

text \<open>The state with another queue in the buffer \<open>bn\<close>, and other consumers.\<close>

definition queue_left ::
  "nat \<Rightarrow> ext_packet list \<Rightarrow> 'a consumer list \<Rightarrow> ('bk, 'nq, 'tw, 'me, 'a) sfu \<Rightarrow> ('bk, 'nq, 'tw, 'me, 'a) sfu"
where
  "queue_left bn eps cs s = s\<lparr>sfConsumers := cs, sfFactory := (sfFactory s)\<lparr>fcBufferHeap :=
     (fcBufferHeap (sfFactory s))[bn := (fcBufferHeap (sfFactory s) ! bn)\<lparr>bExtPackets := eps\<rparr>]\<rparr>\<rparr>"

text \<open>The producer \<open>pr\<close> reads from the buffer \<open>bn\<close> and forwards to the router \<open>r\<close>.\<close>

definition forwarding :: "('bk, 'nq, 'tw, 'me, 'a) sfu \<Rightarrow> nat \<Rightarrow> nat \<Rightarrow> nat \<Rightarrow> bool" where
  "forwarding s pr bn r \<longleftrightarrow> bn < length (fcBufferHeap (sfFactory s)) \<and> \<not> bClosed (fcBufferHeap (sfFactory s) ! bn) \<and>
     (let p = sfProducers s ! pr in pdReading p \<and> \<not> pdClosed p \<and> \<not> pdPaused p \<and> pdBuffer p = Some bn \<and> pdOnRTP p = Some r)"

lemma queue_left_sel:
  "sfConsumers (queue_left bn eps cs s) = cs" "sfProducers (queue_left bn eps cs s) = sfProducers s"
  "sfRouters (queue_left bn eps cs s) = sfRouters s"
  "bn < length (fcBufferHeap (sfFactory s)) \<Longrightarrow>
    fcBufferHeap (sfFactory (queue_left bn eps cs s)) ! bn = (fcBufferHeap (sfFactory s) ! bn)\<lparr>bExtPackets := eps\<rparr>"
  by (simp_all add: queue_left_def)

lemma round_held:
  assumes "forwarding s pr bn r" and "accepting (slTrack lib)" and "audience r (pdId (sfProducers s ! pr)) s = map Some refs"
    and "distinct refs" and "patches (tlMedia (slTrack lib)) (slMaxPktSize lib) (fcBufferHeap (sfFactory s) ! bn) eps os"
    and "list_all (can_forward (queue_left bn eps cs s)) refs"
  shows "case held os of
      [] \<Rightarrow> read_rtp_round lib now pr (queue_left bn eps cs s) = Some (queue_left bn [] cs s)
    | ep # rest \<Rightarrow> \<exists>eps' os' cs'. read_rtp_round lib now pr (queue_left bn eps cs s) = Some (queue_left bn eps' cs' s) \<and>
        all_got [ep] refs cs cs' \<and> patches (tlMedia (slTrack lib)) (slMaxPktSize lib) (fcBufferHeap (sfFactory s) ! bn) eps' os' \<and>
        held os' = rest"
proof -
  let ?s = "queue_left bn eps cs s" and ?b = "fcBufferHeap (sfFactory s) ! bn" and ?p = "sfProducers s ! pr"
  have f: "bn < length (fcBufferHeap (sfFactory s))" "\<not> bClosed ?b" "pdReading ?p" "\<not> pdClosed ?p" "\<not> pdPaused ?p"
      "pdBuffer ?p = Some bn" "pdOnRTP ?p = Some r"
    using assms(1) by (simp_all add: forwarding_def Let_def)
  have read: "read_extended (tlMedia (slTrack lib)) (slMaxPktSize lib) (fcBufferHeap (sfFactory ?s) ! bn) =
      read_extended_from (tlMedia (slTrack lib)) (slMaxPktSize lib) eps (?b\<lparr>bExtPackets := eps\<rparr>)"
    using f by (simp add: read_extended_def queue_left_sel)
  have queued: "?s\<lparr>sfFactory := (sfFactory ?s)\<lparr>fcBufferHeap := (fcBufferHeap (sfFactory ?s))[bn := ?b\<lparr>bExtPackets := q\<rparr>]\<rparr>\<rparr> = queue_left bn q cs s" for q
    by (simp add: queue_left_def)
  note held = read_held [of "tlMedia (slTrack lib)" "slMaxPktSize lib" "?b\<lparr>bExtPackets := eps\<rparr>" eps os, simplified, OF assms(5)]
  show ?thesis
  proof (cases "held os")
    case Nil
    then show ?thesis using held f read queued [of "[]"] by (simp add: read_rtp_round_def Let_def queue_left_sel)
  next
    case (Cons ep rest)
    then obtain eps' os' where r: "read_extended_from (tlMedia (slTrack lib)) (slMaxPktSize lib) eps (?b\<lparr>bExtPackets := eps\<rparr>) =
          Some (Return (Inr ep), ?b\<lparr>bExtPackets := eps'\<rparr>)"
        "patches (tlMedia (slTrack lib)) (slMaxPktSize lib) ?b eps' os'" "held os' = rest"
      using held by auto
    let ?s' = "queue_left bn eps' cs s"
    have "audience r (pdId ?p) ?s' = map Some refs" using assms(3) by (simp add: audience_def queue_left_def cong: option.case_cong)
    moreover have "can_forward ?s' c" if "c \<in> set refs" for c
      using that assms(6) by (simp add: list_all_iff can_forward_def queue_left_sel)
    ultimately obtain cs' where "on_rtp_packet lib now r (pdId ?p) ep ?s' = Some (?s'\<lparr>sfConsumers := cs'\<rparr>)" "all_got [ep] refs cs cs'"
      using on_rtp_packet_got [OF assms(2) _ assms(4), of r "pdId ?p" ?s' now ep] by (auto simp: queue_left_sel)
    moreover have "?s'\<lparr>sfConsumers := cs'\<rparr> = queue_left bn eps' cs' s" by (simp add: queue_left_def)
    ultimately show ?thesis using f read r queued [of eps'] Cons by (auto simp: read_rtp_round_def Let_def queue_left_sel)
  qed
qed

lemma rounds_held:
  assumes "forwarding s pr bn r" and "accepting (slTrack lib)" and "audience r (pdId (sfProducers s ! pr)) s = map Some refs"
    and "distinct refs"
  shows "patches (tlMedia (slTrack lib)) (slMaxPktSize lib) (fcBufferHeap (sfFactory s) ! bn) eps os \<Longrightarrow>
    list_all (can_forward (queue_left bn eps cs s)) refs \<Longrightarrow> length (held os) < length nows \<Longrightarrow>
    \<exists>cs'. run_panic (\<lambda>now. read_rtp_round lib now pr) nows (queue_left bn eps cs s) = Some (queue_left bn [] cs' s) \<and>
      all_got (held os) refs cs cs'"
proof (induction nows arbitrary: eps os cs)
  case (Cons now nows)
  note one = round_held [OF assms Cons.prems(1,2), of now]
  show ?case
  proof (cases "held os")
    case Nil
    have "all_got [] refs cs cs"
      using Cons.prems(2) got_refl by (auto simp: all_got_def list_all_iff can_forward_def queue_left_sel)
    moreover have "run_panic (\<lambda>now. read_rtp_round lib now pr) nows (queue_left bn [] cs s) = Some (queue_left bn [] cs s)"
    proof (induction nows)
      case (Cons now nows)
      have "list_all (can_forward (queue_left bn [] cs s)) refs"
        using \<open>list_all (can_forward (queue_left bn eps cs s)) refs\<close> by (simp add: list_all_iff can_forward_def queue_left_sel)
      then show ?case using round_held [OF assms, of "[]" "[]" cs now] Cons.IH by (simp add: patches_def)
    qed simp
    ultimately show ?thesis using one Nil by (intro exI [of _ cs]) simp
  next
    case (Cons ep rest)
    then obtain eps' os' cs' where 1: "read_rtp_round lib now pr (queue_left bn eps cs s) = Some (queue_left bn eps' cs' s)"
        "all_got [ep] refs cs cs'" "patches (tlMedia (slTrack lib)) (slMaxPktSize lib) (fcBufferHeap (sfFactory s) ! bn) eps' os'"
        "held os' = rest"
      using one by auto
    have "list_all (can_forward (queue_left bn eps' cs' s)) refs"
      using all_got_can_forward [of "[ep]" refs "queue_left bn eps cs s" cs'] 1(2) Cons.prems(2)
      by (simp add: list_all_iff can_forward_def queue_left_sel)
    from Cons.IH [OF 1(3) this] obtain cs2 where
      2: "run_panic (\<lambda>now. read_rtp_round lib now pr) nows (queue_left bn eps' cs' s) = Some (queue_left bn [] cs2 s)" "all_got rest refs cs' cs2"
      using Cons.prems(3) \<open>held os = ep # rest\<close> by (auto simp: 1(4))
    show ?thesis using 1(1) 2 all_got_trans [OF 1(2) 2(2)] by (intro exI [of _ cs2]) (simp add: \<open>held os = ep # rest\<close>)
  qed
qed simp


text \<open>A buffer with three packets in its queue, of which it no longer holds the second.\<close>

definition sample_queue :: "(u8 list list, u16 list, u16 list) buffer" where
  "sample_queue = (new_buffer 7)\<lparr>bBucket := Some [sample_pkt 5, sample_pkt 3],
     bExtPackets := [sample_ext 3, sample_ext 4, sample_ext 5]\<rparr>"

definition sample_patched :: "ext_packet option list" where
  "sample_patched = map (\<lambda>ep. the (patch_ext_packet sample_lib 1500 ep sample_queue)) (bExtPackets sample_queue)"

definition sample_pipeline :: "down_track \<Rightarrow> (u8 list list, u16 list, u16 list, nat, nat) sfu" where
  "sample_pipeline d = (sample_forwarding d)\<lparr>
     sfProducers := map (\<lambda>p. p\<lparr>pdReading := True, pdOnRTP := Some 0\<rparr>) (sfProducers (sample_forwarding d)),
     sfFactory := create_buffer_factory\<lparr>fcBufferHeap := [sample_queue]\<rparr>\<rparr>"


end
