(* ===== verification/System.thy ===== *)
theory System
  imports Signalling
begin

text \<open>
  The running server, as a step relation: connections come and go, their messages are handled, the
  transports deliver what arrives, and the goroutines of producers, consumers and down tracks take
  their rounds. The steps interleave in any order.
\<close>

text \<open>The connections that are served, each with its room and its peer.\<close>

record ('bk, 'nq, 'tw, 'me, 'a) system =
  syServer :: "('bk, 'nq, 'tw, 'me, 'a) server"
  syConnections :: "(nat \<times> nat) list"

definition start_system :: "('bk, 'nq, 'tw, 'me, 'a) system" where
  "start_system = \<lparr>syServer = new_server, syConnections = []\<rparr>"

definition sfu_of :: "('bk, 'nq, 'tw, 'me, 'a) system \<Rightarrow> ('bk, 'nq, 'tw, 'me, 'a) sfu" where
  "sfu_of y = svSfu (syServer y)"

definition in_sfu :: "('bk, 'nq, 'tw, 'me, 'a) sfu \<Rightarrow> ('bk, 'nq, 'tw, 'me, 'a) system \<Rightarrow> ('bk, 'nq, 'tw, 'me, 'a) system" where
  "in_sfu s y = y\<lparr>syServer := (syServer y)\<lparr>svSfu := s\<rparr>\<rparr>"

definition in_factory :: "('bk, 'nq, 'tw) factory \<Rightarrow> ('bk, 'nq, 'tw, 'me, 'a) system \<Rightarrow> ('bk, 'nq, 'tw, 'me, 'a) system" where
  "in_factory f y = in_sfu ((sfu_of y)\<lparr>sfFactory := f\<rparr>) y"

text \<open>A goroutine of a down track that answers negative acknowledgements, the \<open>n\<close>-th that was started.\<close>

definition retransmit_round ::
  "('bk, 'nq, 'tw, 'me, 'a) sfu_lib \<Rightarrow> gotime \<Rightarrow> nat \<Rightarrow> nat \<Rightarrow> ('bk, 'nq, 'tw, 'me, 'a) sfu
   \<Rightarrow> (unit \<times> ('bk, 'nq, 'tw, 'me, 'a) sfu) option"
where
  "retransmit_round lib now n = on_track (\<lambda>d b.
     if n < length (dtSpawned d) then
       map_option (\<lambda>d. ((), d, b)) (retransmit_packets (slTrack lib) now (dtSpawned d ! n)
         (d\<lparr>dtSpawned := take n (dtSpawned d) @ drop (Suc n) (dtSpawned d)\<rparr>) b)
     else Some ((), d, b))"

text \<open>
  A step that panics is not a step. \<open>leave\<close> ends a connection, of which the code keeps everything; \<open>source\<close>
  is the transport asking for the buffer or the reader of a source.
\<close>

inductive server_step ::
  "('bk, 'nq, 'tw, 'me, 'a) sfu_lib \<Rightarrow> 'a json_lib \<Rightarrow> ('a reply \<Rightarrow> bool)
   \<Rightarrow> ('bk, 'nq, 'tw, 'me, 'a) system \<Rightarrow> ('bk, 'nq, 'tw, 'me, 'a) system \<Rightarrow> bool"
  for lib js enc
where
  enter: "open_connection lib roomId peerId (syServer y) = Some (Inr (conn, v)) \<Longrightarrow>
    server_step lib js enc y (y\<lparr>syServer := v, syConnections := conn # syConnections y\<rparr>)"
| message: "(rm, pe) \<in> set (syConnections y) \<Longrightarrow>
    ws_handle lib js enc now out msg rm pe (syServer y) = Some ((rs, goes_on), v) \<Longrightarrow>
    server_step lib js enc y
      (y\<lparr>syServer := v, syConnections := (if goes_on then syConnections y else remove1 (rm, pe) (syConnections y))\<rparr>)"
| leave: "server_step lib js enc y (y\<lparr>syConnections := remove1 conn (syConnections y)\<rparr>)"
| source: "get_or_new pt ssrc (sfFactory (sfu_of y)) = (h, f) \<Longrightarrow> server_step lib js enc y (in_factory f y)"
| packet: "factory_on_buffer (\<lambda>b. map_option snd (buffer_write (tlMedia (slTrack lib)) now raw b)) bn (sfFactory (sfu_of y)) = Some f \<Longrightarrow>
    server_step lib js enc y (in_factory f y)"
| close_buffer: "factory_close_buffer now bn (sfFactory (sfu_of y)) = Some f \<Longrightarrow> server_step lib js enc y (in_factory f y)"
| close_reader: "factory_close_reader rn (sfFactory (sfu_of y)) = Some f \<Longrightarrow> server_step lib js enc y (in_factory f y)"
| rtcp: "rn < length (fcReaderHeap (sfFactory (sfu_of y))) \<Longrightarrow> deliver_rtcp lib now rn raw (sfu_of y) = Some s \<Longrightarrow>
    server_step lib js enc y (in_sfu s y)"
| read: "pr < length (sfProducers (sfu_of y)) \<Longrightarrow> read_rtp_round lib now pr (sfu_of y) = Some s \<Longrightarrow>
    server_step lib js enc y (in_sfu s y)"
| feedback: "pr < length (sfProducers (sfu_of y)) \<Longrightarrow> pdBuffer (sfProducers (sfu_of y) ! pr) = Some bn \<Longrightarrow>
    CallRtcpFeedback pkts \<in> set (bCalls (fcBufferHeap (sfFactory (sfu_of y)) ! bn)) \<Longrightarrow>
    server_step lib js enc y (in_sfu (producer_send_rtcp pkts pr (sfu_of y)) y)"
| report: "c < length (sfConsumers (sfu_of y)) \<Longrightarrow> write_reports lib now c (sfu_of y) = Some s \<Longrightarrow>
    server_step lib js enc y (in_sfu s y)"
| retransmit: "c < length (sfConsumers (sfu_of y)) \<Longrightarrow> retransmit_round lib now n c (sfu_of y) = Some (u, s) \<Longrightarrow>
    server_step lib js enc y (in_sfu s y)"
| ice: "tr < length (sfTransports (sfu_of y)) \<Longrightarrow> server_step lib js enc y (in_sfu (on_ice_state st tr (sfu_of y)) y)"
| channel: "tr < length (sfTransports (sfu_of y)) \<Longrightarrow> on_data_channel ch tr (sfu_of y) = Some s \<Longrightarrow>
    server_step lib js enc y (in_sfu s y)"
| data: "dp < length (sfDataProducers (sfu_of y)) \<Longrightarrow>
    server_step lib js enc y (in_sfu (data_producer_message dp raw (sfu_of y)) y)"
| channel_open: "dc < length (sfDataConsumers (sfu_of y)) \<Longrightarrow>
    server_step lib js enc y (in_sfu ((sfu_of y)\<lparr>sfDataConsumers := modify dc data_consumer_open (sfDataConsumers (sfu_of y))\<rparr>) y)"

inductive reachable ::
  "('bk, 'nq, 'tw, 'me, 'a) sfu_lib \<Rightarrow> 'a json_lib \<Rightarrow> ('a reply \<Rightarrow> bool) \<Rightarrow> ('bk, 'nq, 'tw, 'me, 'a) system \<Rightarrow> bool"
  for lib js enc
where
  start: "reachable lib js enc start_system"
| step: "reachable lib js enc y \<Longrightarrow> server_step lib js enc y y' \<Longrightarrow> reachable lib js enc y'"

end
