(* ===== verification/References.thy ===== *)
theory References
  imports Transport
begin

text \<open>
  The references between the objects of the server, and when they are well formed: every entry of a map
  names an object that exists, carries the identifier it is entered under, and belongs to the same room.
  A step of the server is good when it keeps this and only adds objects; the rules here say so of the
  changes that operations are made of.
\<close>

section \<open>References\<close>

text \<open>What an entry of a map says of the object it refers to.\<close>

definition nil_set :: "('k \<times> 'v) list option \<Rightarrow> ('k \<times> 'v) set" where
  "nil_set m = (case m of None \<Rightarrow> {} | Some kvs \<Rightarrow> set kvs)"

definition transport_of :: "('bk, 'nq, 'tw, 'me, 'a) sfu \<Rightarrow> nat \<Rightarrow> u64 \<times> nat \<Rightarrow> bool" where
  "transport_of s r = (\<lambda>(k, tr). tr < length (sfTransports s) \<and> tpId (sfTransports s ! tr) = k \<and>
     tpRouter (sfTransports s ! tr) = r)"

definition producer_of :: "('bk, 'nq, 'tw, 'me, 'a) sfu \<Rightarrow> nat \<Rightarrow> u64 \<times> nat \<Rightarrow> bool" where
  "producer_of s r = (\<lambda>(k, pr). pr < length (sfProducers s) \<and> pdId (sfProducers s ! pr) = k \<and>
     pdTransport (sfProducers s ! pr) < length (sfTransports s) \<and>
     tpRouter (sfTransports s ! pdTransport (sfProducers s ! pr)) = r \<and> pdBuffer (sfProducers s ! pr) \<noteq> None)"

definition consumer_of :: "('bk, 'nq, 'tw, 'me, 'a) sfu \<Rightarrow> nat \<Rightarrow> u64 \<times> nat \<Rightarrow> bool" where
  "consumer_of s r = (\<lambda>(k, c). c < length (sfConsumers s) \<and> csId (sfConsumers s ! c) = k \<and>
     csTransport (sfConsumers s ! c) < length (sfTransports s) \<and>
     tpRouter (sfTransports s ! csTransport (sfConsumers s ! c)) = r)"

definition in_heap :: "'x list \<Rightarrow> 'k \<times> nat \<Rightarrow> bool" where
  "in_heap xs = (\<lambda>(k, n). n < length xs)"

definition router_ok :: "('bk, 'nq, 'tw, 'me, 'a) sfu \<Rightarrow> nat \<Rightarrow> 'a router \<Rightarrow> bool" where
  "router_ok s r x \<longleftrightarrow> Ball (nil_set (roTransports x)) (transport_of s r) \<and>
     Ball (nil_set (roProducers x)) (producer_of s r) \<and> Ball (nil_set (roConsumers x)) (consumer_of s r) \<and>
     Ball (set (roDataProducers x)) (in_heap (sfDataProducers s)) \<and>
     Ball (set (roDataConsumers x)) (in_heap (sfDataConsumers s))"

definition transport_ok :: "('bk, 'nq, 'tw, 'me, 'a) sfu \<Rightarrow> nat \<Rightarrow> ('tw, 'me) transport \<Rightarrow> bool" where
  "transport_ok s tr t \<longleftrightarrow> tpRouter t < length (sfRouters s) \<and>
     (\<forall>(k, pr) \<in> nil_set (tpProducers t). pr < length (sfProducers s) \<and> pdId (sfProducers s ! pr) = k \<and>
       pdTransport (sfProducers s ! pr) = tr) \<and>
     (\<forall>(k, c) \<in> nil_set (tpConsumers t). c < length (sfConsumers s) \<and> csId (sfConsumers s ! c) = k \<and>
       csTransport (sfConsumers s ! c) = tr) \<and>
     Ball (set (tpDataProducers t)) (in_heap (sfDataProducers s)) \<and>
     Ball (set (tpDataConsumers t)) (in_heap (sfDataConsumers s))"

definition producer_ok :: "('bk, 'nq, 'tw, 'me, 'a) sfu \<Rightarrow> ('tw, 'a) producer \<Rightarrow> bool" where
  "producer_ok s p \<longleftrightarrow> pdTransport p < length (sfTransports s) \<and>
     (\<forall>bn. pdBuffer p = Some bn \<longrightarrow> bn < length (fcBufferHeap (sfFactory s))) \<and>
     (\<forall>r. pdOnRTP p = Some r \<longrightarrow> r = tpRouter (sfTransports s ! pdTransport p)) \<and>
     (pdReading p \<longrightarrow> pdBuffer p \<noteq> None)"

definition consumer_ok :: "('bk, 'nq, 'tw, 'me, 'a) sfu \<Rightarrow> 'a consumer \<Rightarrow> bool" where
  "consumer_ok s x \<longleftrightarrow> csTransport x < length (sfTransports s) \<and> csProducer x < length (sfProducers s) \<and>
     pdBuffer (sfProducers s ! csProducer x) \<noteq> None \<and>
     pdTransport (sfProducers s ! csProducer x) < length (sfTransports s) \<and>
     tpRouter (sfTransports s ! csTransport x) = tpRouter (sfTransports s ! pdTransport (sfProducers s ! csProducer x))"

definition data_producer_ok :: "('bk, 'nq, 'tw, 'me, 'a) sfu \<Rightarrow> data_producer \<Rightarrow> bool" where
  "data_producer_ok s d \<longleftrightarrow> (\<forall>r. dpOnMessage d = Some r \<longrightarrow> r < length (sfRouters s))"

definition handler_ok :: "('bk, 'nq, 'tw, 'me, 'a) sfu \<Rightarrow> rtcp_reader \<Rightarrow> bool" where
  "handler_ok s rd \<longleftrightarrow> (case rdOnPacket rd of None \<Rightarrow> True
     | Some (ToProducer pr) \<Rightarrow> pr < length (sfProducers s)
     | Some (ToConsumer c) \<Rightarrow> c < length (sfConsumers s))"

definition factory_refs :: "('bk, 'nq, 'tw, 'me, 'a) sfu \<Rightarrow> ('bk, 'nq, 'tw) factory \<Rightarrow> bool" where
  "factory_refs s f \<longleftrightarrow> length (fcBufferHeap (sfFactory s)) \<le> length (fcBufferHeap f) \<and>
     Ball (ran (fcBuffers f)) (\<lambda>n. n < length (fcBufferHeap f)) \<and>
     Ball (ran (fcReaders f)) (\<lambda>n. n < length (fcReaderHeap f)) \<and>
     Ball (set (fcReaderHeap f)) (handler_ok s)"

text \<open>Every reference of the server leads to an object, and to one of its own room.\<close>

definition sfu_wf :: "('bk, 'nq, 'tw, 'me, 'a) sfu \<Rightarrow> bool" where
  "sfu_wf s \<longleftrightarrow> (\<forall>r < length (sfRouters s). router_ok s r (sfRouters s ! r)) \<and>
     (\<forall>tr < length (sfTransports s). transport_ok s tr (sfTransports s ! tr)) \<and>
     Ball (set (sfProducers s)) (producer_ok s) \<and> Ball (set (sfConsumers s)) (consumer_ok s) \<and>
     Ball (set (sfDataProducers s)) (data_producer_ok s) \<and> factory_refs s (sfFactory s)"

section \<open>What operations keep of the objects\<close>

text \<open>Objects are only added, and what refers to them reads parts that stay.\<close>

definition grows :: "('bk, 'nq, 'tw, 'me, 'a) sfu \<Rightarrow> ('bk, 'nq, 'tw, 'me, 'a) sfu \<Rightarrow> bool" where
  "grows s s' \<longleftrightarrow> length (sfRouters s) \<le> length (sfRouters s') \<and>
     (\<forall>tr < length (sfTransports s). tr < length (sfTransports s') \<and>
       tpId (sfTransports s' ! tr) = tpId (sfTransports s ! tr) \<and>
       tpRouter (sfTransports s' ! tr) = tpRouter (sfTransports s ! tr)) \<and>
     (\<forall>pr < length (sfProducers s). pr < length (sfProducers s') \<and>
       pdId (sfProducers s' ! pr) = pdId (sfProducers s ! pr) \<and>
       pdTransport (sfProducers s' ! pr) = pdTransport (sfProducers s ! pr) \<and>
       (pdBuffer (sfProducers s ! pr) \<noteq> None \<longrightarrow> pdBuffer (sfProducers s' ! pr) \<noteq> None)) \<and>
     (\<forall>c < length (sfConsumers s). c < length (sfConsumers s') \<and>
       csId (sfConsumers s' ! c) = csId (sfConsumers s ! c) \<and>
       csTransport (sfConsumers s' ! c) = csTransport (sfConsumers s ! c) \<and>
       csProducer (sfConsumers s' ! c) = csProducer (sfConsumers s ! c)) \<and>
     length (sfDataProducers s) \<le> length (sfDataProducers s') \<and>
     length (sfDataConsumers s) \<le> length (sfDataConsumers s') \<and>
     length (fcBufferHeap (sfFactory s)) \<le> length (fcBufferHeap (sfFactory s'))"

lemma grows_refl [simp]: "grows s s"
  by (simp add: grows_def)

lemma grows_trans: "grows a b \<Longrightarrow> grows b c \<Longrightarrow> grows a c"
  by (simp add: grows_def)

lemma of_grows:
  assumes "grows s s'"
  shows "transport_of s r e \<Longrightarrow> transport_of s' r e" "producer_of s r e \<Longrightarrow> producer_of s' r e"
    "consumer_of s r e \<Longrightarrow> consumer_of s' r e" "in_heap (sfDataProducers s) e \<Longrightarrow> in_heap (sfDataProducers s') e"
    "in_heap (sfDataConsumers s) e \<Longrightarrow> in_heap (sfDataConsumers s') e"
  using assms by (auto simp: grows_def transport_of_def producer_of_def consumer_of_def in_heap_def split_beta)

lemma router_ok_grows: "grows s s' \<Longrightarrow> router_ok s r x \<Longrightarrow> router_ok s' r x"
  unfolding router_ok_def by (blast intro: of_grows)

lemma transport_ok_grows: "grows s s' \<Longrightarrow> transport_ok s tr t \<Longrightarrow> transport_ok s' tr t"
  by (fastforce simp: transport_ok_def grows_def in_heap_def split_beta)

lemma producer_ok_grows: "grows s s' \<Longrightarrow> producer_ok s p \<Longrightarrow> producer_ok s' p"
  by (fastforce simp: producer_ok_def grows_def)

lemma consumer_ok_grows: "grows s s' \<Longrightarrow> consumer_ok s x \<Longrightarrow> consumer_ok s' x"
  by (simp add: consumer_ok_def grows_def)

lemma data_producer_ok_grows: "grows s s' \<Longrightarrow> data_producer_ok s d \<Longrightarrow> data_producer_ok s' d"
  by (auto simp: data_producer_ok_def grows_def)

lemma handler_ok_grows: "grows s s' \<Longrightarrow> handler_ok s rd \<Longrightarrow> handler_ok s' rd"
  by (auto simp: handler_ok_def grows_def split: option.splits packet_handler.splits)

lemmas ok_grows = router_ok_grows transport_ok_grows producer_ok_grows consumer_ok_grows data_producer_ok_grows
  handler_ok_grows

text \<open>A step is good when it keeps the references and only adds objects.\<close>

definition good :: "('bk, 'nq, 'tw, 'me, 'a) sfu \<Rightarrow> ('bk, 'nq, 'tw, 'me, 'a) sfu \<Rightarrow> bool" where
  "good s s' \<longleftrightarrow> sfu_wf s' \<and> grows s s'"

lemma good_refl: "sfu_wf s \<Longrightarrow> good s s"
  by (simp add: good_def)

lemma good_trans: "good a b \<Longrightarrow> good b c \<Longrightarrow> good a c"
  by (auto simp: good_def intro: grows_trans)

lemma good_wf: "good s s' \<Longrightarrow> sfu_wf s'"
  by (simp add: good_def)

text \<open>The old objects stay as they are, or the new ones are well formed.\<close>

lemma wf_grows:
  assumes "sfu_wf s" and "grows s s'"
    and "\<And>r. r < length (sfRouters s') \<Longrightarrow> router_ok s' r (sfRouters s' ! r) \<or> r < length (sfRouters s) \<and> sfRouters s' ! r = sfRouters s ! r"
    and "\<And>tr. tr < length (sfTransports s') \<Longrightarrow> transport_ok s' tr (sfTransports s' ! tr) \<or>
      tr < length (sfTransports s) \<and> sfTransports s' ! tr = sfTransports s ! tr"
    and "\<And>p. p \<in> set (sfProducers s') \<Longrightarrow> producer_ok s' p \<or> p \<in> set (sfProducers s)"
    and "\<And>x. x \<in> set (sfConsumers s') \<Longrightarrow> consumer_ok s' x \<or> x \<in> set (sfConsumers s)"
    and "\<And>d. d \<in> set (sfDataProducers s') \<Longrightarrow> data_producer_ok s' d \<or> d \<in> set (sfDataProducers s)"
    and "factory_refs s' (sfFactory s')"
  shows "good s s'"
proof -
  note keep = ok_grows [OF assms(2)]
  have "sfu_wf s'"
    unfolding sfu_wf_def
  proof (intro conjI allI impI ballI)
    show "router_ok s' r (sfRouters s' ! r)" if "r < length (sfRouters s')" for r
      using assms(3) [OF that] keep(1) assms(1) by (auto simp: sfu_wf_def)
    show "transport_ok s' tr (sfTransports s' ! tr)" if "tr < length (sfTransports s')" for tr
      using assms(4) [OF that] keep(2) assms(1) by (auto simp: sfu_wf_def)
    show "producer_ok s' p" if "p \<in> set (sfProducers s')" for p
      using assms(5) [OF that] keep(3) assms(1) by (auto simp: sfu_wf_def)
    show "consumer_ok s' x" if "x \<in> set (sfConsumers s')" for x
      using assms(6) [OF that] keep(4) assms(1) by (auto simp: sfu_wf_def)
    show "data_producer_ok s' d" if "d \<in> set (sfDataProducers s')" for d
      using assms(7) [OF that] keep(5) assms(1) by (auto simp: sfu_wf_def)
    show "factory_refs s' (sfFactory s')" by fact
  qed
  then show ?thesis using assms(2) by (simp add: good_def)
qed

lemma factory_refs_grows:
  "grows s s' \<Longrightarrow> sfFactory s' = sfFactory s \<Longrightarrow> factory_refs s (sfFactory s) \<Longrightarrow> factory_refs s' (sfFactory s')"
  by (auto simp: factory_refs_def intro: handler_ok_grows)

lemma modify_nth: "n < length xs \<Longrightarrow> modify k f xs ! n = (if n = k then f (xs ! n) else xs ! n)"
  by (auto simp: modify_def nth_list_update)

lemma length_modify [simp]: "length (modify k f xs) = length xs"
  by (simp add: modify_def)

lemma set_modify: "y \<in> set (modify k f xs) \<Longrightarrow> k < length xs \<and> y = f (xs ! k) \<or> y \<in> set xs"
  by (metis in_set_conv_nth length_modify modify_nth)

lemma with_sel [simp]:
  "sfRouters (with_router n f s) = modify n f (sfRouters s)" "sfTransports (with_router n f s) = sfTransports s"
  "sfProducers (with_router n f s) = sfProducers s" "sfConsumers (with_router n f s) = sfConsumers s"
  "sfDataProducers (with_router n f s) = sfDataProducers s" "sfDataConsumers (with_router n f s) = sfDataConsumers s"
  "sfFactory (with_router n f s) = sfFactory s"
  "sfRouters (with_transport n g s) = sfRouters s" "sfTransports (with_transport n g s) = modify n g (sfTransports s)"
  "sfProducers (with_transport n g s) = sfProducers s" "sfConsumers (with_transport n g s) = sfConsumers s"
  "sfDataProducers (with_transport n g s) = sfDataProducers s" "sfDataConsumers (with_transport n g s) = sfDataConsumers s"
  "sfFactory (with_transport n g s) = sfFactory s"
  "sfRouters (with_producer n h s) = sfRouters s" "sfTransports (with_producer n h s) = sfTransports s"
  "sfProducers (with_producer n h s) = modify n h (sfProducers s)" "sfConsumers (with_producer n h s) = sfConsumers s"
  "sfDataProducers (with_producer n h s) = sfDataProducers s" "sfDataConsumers (with_producer n h s) = sfDataConsumers s"
  "sfFactory (with_producer n h s) = sfFactory s"
  "sfRouters (with_consumer n k s) = sfRouters s" "sfTransports (with_consumer n k s) = sfTransports s"
  "sfProducers (with_consumer n k s) = sfProducers s" "sfConsumers (with_consumer n k s) = modify n k (sfConsumers s)"
  "sfDataProducers (with_consumer n k s) = sfDataProducers s" "sfDataConsumers (with_consumer n k s) = sfDataConsumers s"
  "sfFactory (with_consumer n k s) = sfFactory s"
  by (simp_all add: with_router_def with_transport_def with_producer_def with_consumer_def)

lemma with_router_good:
  assumes "sfu_wf s" and "r < length (sfRouters s) \<Longrightarrow> router_ok s r (f (sfRouters s ! r))"
  shows "good s (with_router r f s)"
proof (rule wf_grows [OF assms(1)])
  show g: "grows s (with_router r f s)" by (simp add: grows_def)
  show "factory_refs (with_router r f s) (sfFactory (with_router r f s))"
    using assms(1) by (intro factory_refs_grows [OF g]) (simp_all add: sfu_wf_def)
  show "router_ok (with_router r f s) n (sfRouters (with_router r f s) ! n) \<or>
      n < length (sfRouters s) \<and> sfRouters (with_router r f s) ! n = sfRouters s ! n"
    if "n < length (sfRouters (with_router r f s))" for n
    using that assms(2) router_ok_grows [OF g] by (auto simp: modify_nth)
qed simp_all

lemma with_transport_good:
  assumes "sfu_wf s" and "tr < length (sfTransports s) \<Longrightarrow> transport_ok s tr (f (sfTransports s ! tr)) \<and>
      tpId (f (sfTransports s ! tr)) = tpId (sfTransports s ! tr) \<and> tpRouter (f (sfTransports s ! tr)) = tpRouter (sfTransports s ! tr)"
  shows "good s (with_transport tr f s)"
proof (rule wf_grows [OF assms(1)])
  show g: "grows s (with_transport tr f s)" using assms(2) by (auto simp: grows_def modify_nth)
  show "factory_refs (with_transport tr f s) (sfFactory (with_transport tr f s))"
    using assms(1) by (intro factory_refs_grows [OF g]) (simp_all add: sfu_wf_def)
  show "transport_ok (with_transport tr f s) n (sfTransports (with_transport tr f s) ! n) \<or>
      n < length (sfTransports s) \<and> sfTransports (with_transport tr f s) ! n = sfTransports s ! n"
    if "n < length (sfTransports (with_transport tr f s))" for n
    using that assms(2) transport_ok_grows [OF g] by (auto simp: modify_nth)
qed simp_all

lemma with_producer_good:
  assumes "sfu_wf s" and "pr < length (sfProducers s) \<Longrightarrow> producer_ok s (f (sfProducers s ! pr)) \<and>
      pdId (f (sfProducers s ! pr)) = pdId (sfProducers s ! pr) \<and>
      pdTransport (f (sfProducers s ! pr)) = pdTransport (sfProducers s ! pr) \<and>
      (pdBuffer (sfProducers s ! pr) \<noteq> None \<longrightarrow> pdBuffer (f (sfProducers s ! pr)) \<noteq> None)"
  shows "good s (with_producer pr f s)"
proof (rule wf_grows [OF assms(1)])
  show g: "grows s (with_producer pr f s)" using assms(2) by (auto simp: grows_def modify_nth)
  show "factory_refs (with_producer pr f s) (sfFactory (with_producer pr f s))"
    using assms(1) by (intro factory_refs_grows [OF g]) (simp_all add: sfu_wf_def)
  show "producer_ok (with_producer pr f s) p \<or> p \<in> set (sfProducers s)" if "p \<in> set (sfProducers (with_producer pr f s))" for p
    using that assms(2) producer_ok_grows [OF g] by (auto dest: set_modify)
qed simp_all

lemma with_consumer_good:
  assumes "sfu_wf s" and "c < length (sfConsumers s) \<Longrightarrow> csId (f (sfConsumers s ! c)) = csId (sfConsumers s ! c) \<and>
      csTransport (f (sfConsumers s ! c)) = csTransport (sfConsumers s ! c) \<and>
      csProducer (f (sfConsumers s ! c)) = csProducer (sfConsumers s ! c)"
  shows "good s (with_consumer c f s)"
proof (rule wf_grows [OF assms(1)])
  show g: "grows s (with_consumer c f s)" using assms(2) by (auto simp: grows_def modify_nth)
  show "factory_refs (with_consumer c f s) (sfFactory (with_consumer c f s))"
    using assms(1) by (intro factory_refs_grows [OF g]) (simp_all add: sfu_wf_def)
  show "consumer_ok (with_consumer c f s) x \<or> x \<in> set (sfConsumers s)" if "x \<in> set (sfConsumers (with_consumer c f s))" for x
  proof -
    have "consumer_ok s (f (sfConsumers s ! c))" if "c < length (sfConsumers s)"
      using assms that nth_mem [OF that] by (auto simp: sfu_wf_def consumer_ok_def)
    then show ?thesis using that consumer_ok_grows [OF g] by (auto dest: set_modify)
  qed
qed simp_all

section \<open>Changes that no reference depends on\<close>

lemma transport_ok_simps [simp]:
  "transport_ok s tr (t\<lparr>tpClosed := a\<rparr>) = transport_ok s tr t" "transport_ok s tr (t\<lparr>tpCloseOnce := a\<rparr>) = transport_ok s tr t"
  "transport_ok s tr (t\<lparr>tpIds := b\<rparr>) = transport_ok s tr t" "transport_ok s tr (t\<lparr>tpPending := c\<rparr>) = transport_ok s tr t"
  "transport_ok s tr (t\<lparr>tpTwcc := d\<rparr>) = transport_ok s tr t" "transport_ok s tr (t\<lparr>tpBwe := a\<rparr>) = transport_ok s tr t"
  "transport_ok s tr (t\<lparr>tpEngine := e\<rparr>) = transport_ok s tr t" "transport_ok s tr (t\<lparr>tpRtcpOut := g\<rparr>) = transport_ok s tr t"
  "transport_ok s tr (t\<lparr>tpIceUp := a\<rparr>) = transport_ok s tr t" "transport_ok s tr (t\<lparr>tpDtlsUp := a\<rparr>) = transport_ok s tr t"
  "transport_ok s tr (t\<lparr>tpSctpUp := a\<rparr>) = transport_ok s tr t"
  by (simp_all add: transport_ok_def)

lemma producer_ok_simps [simp]:
  "producer_ok s (p\<lparr>pdClosed := a\<rparr>) = producer_ok s p" "producer_ok s (p\<lparr>pdStops := b\<rparr>) = producer_ok s p"
  "producer_ok s (p\<lparr>pdPaused := a\<rparr>) = producer_ok s p"
  by (simp_all add: producer_ok_def)

lemma wf_transport: "sfu_wf s \<Longrightarrow> tr < length (sfTransports s) \<Longrightarrow> transport_ok s tr (sfTransports s ! tr)"
  by (simp add: sfu_wf_def)

lemma wf_router: "sfu_wf s \<Longrightarrow> r < length (sfRouters s) \<Longrightarrow> router_ok s r (sfRouters s ! r)"
  by (simp add: sfu_wf_def)

lemma wf_producer: "sfu_wf s \<Longrightarrow> pr < length (sfProducers s) \<Longrightarrow> producer_ok s (sfProducers s ! pr)"
  by (simp add: sfu_wf_def)

lemma wf_consumer: "sfu_wf s \<Longrightarrow> c < length (sfConsumers s) \<Longrightarrow> consumer_ok s (sfConsumers s ! c)"
  by (simp add: sfu_wf_def)

lemma wf_factory: "sfu_wf s \<Longrightarrow> factory_refs s (sfFactory s)"
  by (simp add: sfu_wf_def)

lemmas wf_parts = wf_transport wf_router wf_producer wf_consumer wf_factory

section \<open>The factory\<close>

lemma factory_good:
  assumes "sfu_wf s" and "factory_refs s f"
  shows "good s (s\<lparr>sfFactory := f\<rparr>)"
proof (rule wf_grows [OF assms(1)])
  show g: "grows s (s\<lparr>sfFactory := f\<rparr>)" using assms(2) by (simp add: grows_def factory_refs_def)
  show "factory_refs (s\<lparr>sfFactory := f\<rparr>) (sfFactory (s\<lparr>sfFactory := f\<rparr>))"
    using assms(2) handler_ok_grows [OF g] by (simp add: factory_refs_def)
qed simp_all

lemma factory_refs_heap:
  assumes "factory_refs s f" and "length bs = length (fcBufferHeap f)"
  shows "factory_refs s (f\<lparr>fcBufferHeap := bs\<rparr>)"
  using assms by (simp add: factory_refs_def)

lemma factory_on_buffer_refs: "factory_on_buffer op n f = Some f' \<Longrightarrow> factory_refs s f \<Longrightarrow> factory_refs s f'"
  by (auto simp: factory_on_buffer_def intro: factory_refs_heap)

lemma factory_on_packet_refs:
  assumes "factory_on_packet h n f = Some f'" and "factory_refs s f"
    and "case h of ToProducer pr \<Rightarrow> pr < length (sfProducers s) | ToConsumer c \<Rightarrow> c < length (sfConsumers s)"
  shows "factory_refs s f'"
proof -
  obtain rd where f': "f' = f\<lparr>fcReaderHeap := (fcReaderHeap f)[n := reader_on_packet h rd]\<rparr>"
    using assms(1) by (auto simp: factory_on_packet_def)
  have "handler_ok s (reader_on_packet h rd)" using assms(3) by (simp add: handler_ok_def reader_on_packet_def)
  then show ?thesis
    using assms(2) set_update_subset_insert [of "fcReaderHeap f" n "reader_on_packet h rd"] by (auto simp: f' factory_refs_def)
qed

lemma get_or_new_refs: "factory_refs s f \<Longrightarrow> factory_refs s (snd (get_or_new pt ssrc f))"
  by (auto simp: get_or_new_def factory_refs_def handler_ok_def new_rtcp_reader_def reader_on_close_def Let_def
      less_Suc_eq ran_def split: packet_type.split option.split if_splits)

lemma ran_delete: "n \<in> ran (m(k := None)) \<Longrightarrow> n \<in> ran m"
  by (auto simp: ran_def split: if_splits)

lemma factory_close_buffer_refs: "factory_close_buffer now n f = Some f' \<Longrightarrow> factory_refs s f \<Longrightarrow> factory_refs s f'"
  by (auto simp: factory_close_buffer_def factory_refs_def Let_def dest!: ran_delete split: if_splits)

lemma reader_close_handler: "reader_close rd = Some (called, rd') \<Longrightarrow> rdOnPacket rd' = rdOnPacket rd"
  by (auto simp: reader_close_def split: if_splits)

lemma factory_close_reader_refs:
  assumes "factory_close_reader n f = Some f'" and "factory_refs s f"
  shows "factory_refs s f'"
proof -
  obtain rd called rd' where rd: "go_index (fcReaderHeap f) (int n) = Some rd" "reader_close rd = Some (called, rd')"
    and f': "f' = (let f = f\<lparr>fcReaderHeap := (fcReaderHeap f)[n := rd']\<rparr> in
      if called then f\<lparr>fcReaders := (fcReaders f)(rdSSRC rd' := None)\<rparr> else f)"
    using assms(1) by (auto simp: factory_close_reader_def Let_def)
  have "handler_ok s rd'"
    using assms(2) rd go_index_mem by (fastforce simp: factory_refs_def handler_ok_def dest: reader_close_handler)
  then show ?thesis
    using assms(2) set_update_subset_insert [of "fcReaderHeap f" n rd']
    by (auto simp: f' factory_refs_def Let_def dest!: ran_delete)
qed

lemma factory_maps:
  assumes "factory_refs s f"
  shows "fcBuffers f ssrc = Some n \<Longrightarrow> n < length (fcBufferHeap f)" "fcReaders f ssrc = Some n \<Longrightarrow> n < length (fcReaderHeap f)"
  using assms by (auto simp: factory_refs_def ran_def)

section \<open>New objects\<close>

lemma add_transport_good:
  assumes "sfu_wf s" and "transport_ok s (length (sfTransports s)) t"
  shows "good s (s\<lparr>sfTransports := sfTransports s @ [t]\<rparr>)"
proof (rule wf_grows [OF assms(1)])
  show g: "grows s (s\<lparr>sfTransports := sfTransports s @ [t]\<rparr>)" by (simp add: grows_def nth_append)
  show "factory_refs (s\<lparr>sfTransports := sfTransports s @ [t]\<rparr>) (sfFactory (s\<lparr>sfTransports := sfTransports s @ [t]\<rparr>))"
    using wf_factory [OF assms(1)] by (intro factory_refs_grows [OF g]) simp_all
  show "transport_ok (s\<lparr>sfTransports := sfTransports s @ [t]\<rparr>) tr (sfTransports (s\<lparr>sfTransports := sfTransports s @ [t]\<rparr>) ! tr) \<or>
      tr < length (sfTransports s) \<and> sfTransports (s\<lparr>sfTransports := sfTransports s @ [t]\<rparr>) ! tr = sfTransports s ! tr"
    if "tr < length (sfTransports (s\<lparr>sfTransports := sfTransports s @ [t]\<rparr>))" for tr
    using that assms(2) transport_ok_grows [OF g] by (auto simp: nth_append less_Suc_eq)
qed simp_all

lemma add_producer_object_good:
  assumes "sfu_wf s" and "producer_ok s p"
  shows "good s (s\<lparr>sfProducers := sfProducers s @ [p]\<rparr>)"
proof (rule wf_grows [OF assms(1)])
  show g: "grows s (s\<lparr>sfProducers := sfProducers s @ [p]\<rparr>)" by (simp add: grows_def nth_append)
  show "factory_refs (s\<lparr>sfProducers := sfProducers s @ [p]\<rparr>) (sfFactory (s\<lparr>sfProducers := sfProducers s @ [p]\<rparr>))"
    using wf_factory [OF assms(1)] by (intro factory_refs_grows [OF g]) simp_all
  show "producer_ok (s\<lparr>sfProducers := sfProducers s @ [p]\<rparr>) q \<or> q \<in> set (sfProducers s)"
    if "q \<in> set (sfProducers (s\<lparr>sfProducers := sfProducers s @ [p]\<rparr>))" for q
    using that assms(2) producer_ok_grows [OF g] by auto
qed simp_all

lemma add_consumer_object_good:
  assumes "sfu_wf s" and "consumer_ok s x"
  shows "good s (s\<lparr>sfConsumers := sfConsumers s @ [x]\<rparr>)"
proof (rule wf_grows [OF assms(1)])
  show g: "grows s (s\<lparr>sfConsumers := sfConsumers s @ [x]\<rparr>)" by (simp add: grows_def nth_append)
  show "factory_refs (s\<lparr>sfConsumers := sfConsumers s @ [x]\<rparr>) (sfFactory (s\<lparr>sfConsumers := sfConsumers s @ [x]\<rparr>))"
    using wf_factory [OF assms(1)] by (intro factory_refs_grows [OF g]) simp_all
  show "consumer_ok (s\<lparr>sfConsumers := sfConsumers s @ [x]\<rparr>) q \<or> q \<in> set (sfConsumers s)"
    if "q \<in> set (sfConsumers (s\<lparr>sfConsumers := sfConsumers s @ [x]\<rparr>))" for q
    using that assms(2) consumer_ok_grows [OF g] by auto
qed simp_all

lemma add_router_good:
  assumes "sfu_wf s" and "router_ok s (length (sfRouters s)) x"
  shows "good s (s\<lparr>sfCurrentRouterId := n, sfRouters := sfRouters s @ [x]\<rparr>)"
proof (rule wf_grows [OF assms(1)])
  show g: "grows s (s\<lparr>sfCurrentRouterId := n, sfRouters := sfRouters s @ [x]\<rparr>)" by (simp add: grows_def nth_append)
  show "factory_refs (s\<lparr>sfCurrentRouterId := n, sfRouters := sfRouters s @ [x]\<rparr>)
      (sfFactory (s\<lparr>sfCurrentRouterId := n, sfRouters := sfRouters s @ [x]\<rparr>))"
    using wf_factory [OF assms(1)] by (intro factory_refs_grows [OF g]) simp_all
  show "router_ok (s\<lparr>sfCurrentRouterId := n, sfRouters := sfRouters s @ [x]\<rparr>) r
        (sfRouters (s\<lparr>sfCurrentRouterId := n, sfRouters := sfRouters s @ [x]\<rparr>) ! r) \<or>
      r < length (sfRouters s) \<and> sfRouters (s\<lparr>sfCurrentRouterId := n, sfRouters := sfRouters s @ [x]\<rparr>) ! r = sfRouters s ! r"
    if "r < length (sfRouters (s\<lparr>sfCurrentRouterId := n, sfRouters := sfRouters s @ [x]\<rparr>))" for r
    using that assms(2) router_ok_grows [OF g] by (auto simp: nth_append less_Suc_eq)
qed simp_all

lemma data_objects_good:
  assumes "sfu_wf s" and "length (sfDataProducers s) \<le> length dps" and "length (sfDataConsumers s) \<le> length dcs"
    and "\<And>d. d \<in> set dps \<Longrightarrow> data_producer_ok s d \<or> d \<in> set (sfDataProducers s)"
  shows "good s (s\<lparr>sfDataProducers := dps, sfDataConsumers := dcs\<rparr>)"
proof (rule wf_grows [OF assms(1)])
  show g: "grows s (s\<lparr>sfDataProducers := dps, sfDataConsumers := dcs\<rparr>)" using assms(2,3) by (simp add: grows_def)
  show "factory_refs (s\<lparr>sfDataProducers := dps, sfDataConsumers := dcs\<rparr>) (sfFactory (s\<lparr>sfDataProducers := dps, sfDataConsumers := dcs\<rparr>))"
    using wf_factory [OF assms(1)] by (intro factory_refs_grows [OF g]) simp_all
qed (use assms(4) data_producer_ok_grows in \<open>auto simp: data_producer_ok_def\<close>)

end
