(* ===== verification/ReferencesKept.thy ===== *)
theory ReferencesKept
  imports References
begin

text \<open>
  Every operation of routers, transports, producers and consumers is a good step, and forwarding a
  packet touches nothing outside its room.
\<close>

section \<open>Entries of maps\<close>

lemma set_entry_update: "set (AList.update k v al) \<subseteq> insert (k, v) (set al)"
  by (induction al) auto

lemma nil_put_set: "nil_put k v m = Some m' \<Longrightarrow> nil_set m' \<subseteq> insert (k, v) (nil_set m)"
  using set_entry_update by (fastforce simp: nil_put_def nil_set_def split: option.splits)

lemma Ball_update: "Ball (set al) P \<Longrightarrow> P (k, v) \<Longrightarrow> Ball (set (AList.update k v al)) P"
  using set_entry_update by fast

lemma Ball_put: "nil_put k v m = Some m' \<Longrightarrow> Ball (nil_set m) P \<Longrightarrow> P (k, v) \<Longrightarrow> Ball (nil_set m') P"
  using nil_put_set by fast

lemma nil_get_mem: "nil_get m k = Some v \<Longrightarrow> (k, v) \<in> nil_set m"
  by (auto simp: nil_get_def nil_set_def dest: map_of_SomeD split: option.splits)

lemma nil_set_simps [simp]: "nil_set None = {}" "nil_set (Some kvs) = set kvs"
  by (simp_all add: nil_set_def)

section \<open>The operations of a router\<close>

lemma router_ok_make: "router_ok s r (make_router n caps)"
  by (simp add: router_ok_def make_router_def)

lemma new_router_good:
  assumes "sfu_wf s" and "new_router lib s = Some (r, s')"
  shows "good s s' \<and> r < length (sfRouters s')"
  using assms add_router_good [OF assms(1) router_ok_make] by (auto simp: new_router_def)

lemma router_ok_id [simp]: "router_ok s r (x\<lparr>roCurrentTransportId := n\<rparr>) = router_ok s r x"
    "router_ok s r (x\<lparr>roConsumersOf := m\<rparr>) = router_ok s r x"
  by (simp_all add: router_ok_def)

lemma new_webrtc_transport_good:
  assumes wf: "sfu_wf s" and run: "new_webrtc_transport lib out consuming r s = Some (res, s')" and r: "r < length (sfRouters s)"
  shows "good s s' \<and> (\<forall>tr. res = Inr tr \<longrightarrow> transport_of s' r (tpId (sfTransports s' ! tr), tr))"
proof -
  obtain n cur where n: "generate_new_transport_id (roCurrentTransportId (sfRouters s ! r)) = Some (n, cur)"
    using run by (auto simp: new_webrtc_transport_def)
  define s1 where "s1 = with_router r (\<lambda>x. x\<lparr>roCurrentTransportId := cur\<rparr>) s"
  have s1: "good s s1" unfolding s1_def using wf_router [OF wf] by (intro with_router_good [OF wf]) simp
  show ?thesis
  proof (cases out)
    case (Gathers l)
    obtain caps m where caps: "generate_capabilities l = Some caps"
      and m: "nil_put n (length (sfTransports s1)) (roTransports (sfRouters s1 ! r)) = Some m"
      and res: "res = Inr (length (sfTransports s1))"
        "s' = with_router r (\<lambda>x. x\<lparr>roTransports := m\<rparr>)
          (s1\<lparr>sfTransports := sfTransports s1 @ [make_transport n r (slNewEngine lib) caps consuming]\<rparr>)"
      using run n Gathers by (auto simp: new_webrtc_transport_def Let_def s1_def [symmetric] simp del: with_sel)
    let ?s2 = "s1\<lparr>sfTransports := sfTransports s1 @ [make_transport n r (slNewEngine lib) caps consuming]\<rparr>"
    have s2: "good s1 ?s2"
      using r by (intro add_transport_good [OF good_wf [OF s1]]) (simp add: transport_ok_def make_transport_def s1_def)
    have new: "transport_of ?s2 r (n, length (sfTransports s1))"
      by (simp add: transport_of_def make_transport_def)
    have "router_ok ?s2 r ((sfRouters s1 ! r)\<lparr>roTransports := m\<rparr>)"
      using wf_router [OF good_wf [OF s2], of r] r Ball_put [OF m, of "transport_of ?s2 r"] new by (simp add: router_ok_def s1_def)
    then have "good ?s2 s'" unfolding res by (intro with_router_good [OF good_wf [OF s2]]) simp
    moreover have "transport_of s' r (tpId (sfTransports s' ! length (sfTransports s1)), length (sfTransports s1))"
      by (simp add: res transport_of_def make_transport_def)
    ultimately show ?thesis using s1 s2 res(1) by (blast intro: good_trans)
  qed (use run n s1 in \<open>auto simp: new_webrtc_transport_def Let_def s1_def [symmetric]\<close>)
qed

lemma add_producer_good:
  assumes wf: "sfu_wf s" and run: "add_producer lib now r pr s = Some (err, s')" and pr: "pr < length (sfProducers s)"
    and r: "r = tpRouter (sfTransports s ! pdTransport (sfProducers s ! pr))"
  shows "good s s' \<and> (err = None \<longrightarrow> pdBuffer (sfProducers s' ! pr) \<noteq> None)"
proof (cases "get_buffer_pair (pdSSRC (sfProducers s ! pr)) (sfFactory s)")
  case (Pair ob or)
  show ?thesis
  proof (cases "ob = None \<or> or = None")
    case True
    then show ?thesis using run Pair good_refl [OF wf] by (auto simp: add_producer_def Let_def split: option.splits)
  next
    case False
    then obtain bn rn where some: "ob = Some bn" "or = Some rn" by auto
    let ?p = "sfProducers s ! pr"
    let ?set = "\<lambda>p. p\<lparr>pdBuffer := Some bn, pdOnRTP := Some r, pdOnRTCP := Some r\<rparr>"
    obtain f1 f2 f ps cs where f: "factory_on_buffer (Some \<circ> on_rtcp_feedback) bn (sfFactory s) = Some f1"
        "factory_on_packet (ToProducer pr) rn f1 = Some f2"
        "factory_on_buffer (\<lambda>b. buffer_bind (tlMedia (slTrack lib)) now
              (parameters_from_ortc (slPrinting lib) (receive_to_parameters (pdParameters ?p))) (set_twcc (pdTwcc ?p) b)) bn f2 = Some f"
      and ps: "nil_put (pdId ?p) pr (roProducers (sfRouters s ! r)) = Some ps"
      and s': "err = None" "s' = with_router r (\<lambda>x. x\<lparr>roProducers := ps, roConsumersOf := cs\<rparr>)
        (with_producer pr ?set (s\<lparr>sfFactory := f\<rparr>))"
      using run by (auto simp: add_producer_def Let_def Pair some)
    have bn: "bn < length (fcBufferHeap (sfFactory s))"
      by (rule factory_maps(1) [OF wf_factory [OF wf], of "pdSSRC ?p"]) (use Pair some in \<open>simp add: get_buffer_pair_def\<close>)
    have "factory_refs s f"
      using f pr by (blast intro: factory_on_buffer_refs factory_on_packet_refs [where h = "ToProducer pr", simplified] wf_factory [OF wf])
    then have s1: "good s (s\<lparr>sfFactory := f\<rparr>)" and bn': "bn < length (fcBufferHeap f)"
      using bn by (auto intro: factory_good [OF wf] simp: factory_refs_def)
    let ?s2 = "with_producer pr ?set (s\<lparr>sfFactory := f\<rparr>)"
    have "producer_ok (s\<lparr>sfFactory := f\<rparr>) ?p" using wf_producer [OF good_wf [OF s1]] pr by simp
    then have s2: "good (s\<lparr>sfFactory := f\<rparr>) ?s2"
      using bn' r by (intro with_producer_good [OF good_wf [OF s1]]) (simp add: producer_ok_def)
    have new: "producer_of ?s2 r (pdId ?p, pr)"
      using pr r wf_producer [OF wf pr] by (simp add: producer_of_def modify_nth producer_ok_def)
    have "router_ok ?s2 r ((sfRouters ?s2 ! r)\<lparr>roProducers := ps, roConsumersOf := cs\<rparr>)" if "r < length (sfRouters ?s2)"
      using wf_router [OF good_wf [OF s2] that] Ball_put [OF ps, of "producer_of ?s2 r"] new by (simp add: router_ok_def)
    then have "good ?s2 s'" unfolding s' by (intro with_router_good [OF good_wf [OF s2]]) simp
    then show ?thesis using s1 s2 pr by (auto intro: good_trans simp: s' modify_nth)
  qed
qed

lemma add_consumer_good:
  assumes wf: "sfu_wf s" and run: "add_consumer r c s = Some (err, s')" and c: "c < length (sfConsumers s)"
    and r: "r = tpRouter (sfTransports s ! csTransport (sfConsumers s ! c))"
  shows "good s s'"
proof -
  let ?x = "sfConsumers s ! c"
  obtain cs where cs: "nil_put (csId ?x) c (roConsumers (sfRouters s ! r)) = Some cs"
    using run by (auto simp: add_consumer_def Let_def)
  define s1 where "s1 = with_router r (\<lambda>x. x\<lparr>roConsumers := cs\<rparr>) s"
  have new: "consumer_of s r (csId ?x, c)" using c r wf_consumer [OF wf c] by (simp add: consumer_of_def consumer_ok_def)
  have "router_ok s r ((sfRouters s ! r)\<lparr>roConsumers := cs\<rparr>)" if "r < length (sfRouters s)"
    using wf_router [OF wf that] Ball_put [OF cs, of "consumer_of s r"] new by (simp add: router_ok_def)
  then have s1: "good s s1" unfolding s1_def by (intro with_router_good [OF wf]) simp
  have "good s1 (with_router r (\<lambda>x. x\<lparr>roConsumersOf := m\<rparr>) s1)" for m
    using wf_router [OF good_wf [OF s1]] by (intro with_router_good [OF good_wf [OF s1]]) simp
  then show ?thesis
    using run s1 cs by (auto simp: add_consumer_def Let_def s1_def [symmetric] intro: good_trans split: option.splits)
qed

section \<open>The operations of a transport\<close>

lemma with_transport_plain:
  assumes "sfu_wf s" and "\<And>t. tpId (f t) = tpId t \<and> tpRouter (f t) = tpRouter t \<and> transport_ok s tr (f t) = transport_ok s tr t"
  shows "good s (with_transport tr f s)"
  using assms wf_transport by (intro with_transport_good) auto

lemma transport_next_id_good:
  assumes "sfu_wf s" and "transport_next_id k tr s = Some (n, s')"
  shows "good s s' \<and> (\<exists>ids. s' = with_transport tr (\<lambda>t. t\<lparr>tpIds := ids\<rparr>) s)"
  using assms by (auto simp: transport_next_id_def intro!: with_transport_plain)

lemma router_kept: "good s s' \<Longrightarrow> tr < length (sfTransports s) \<Longrightarrow> tpRouter (sfTransports s' ! tr) = tpRouter (sfTransports s ! tr)"
  by (simp add: good_def grows_def)

lemma transport_kept: "good s s' \<Longrightarrow> tr < length (sfTransports s) \<Longrightarrow> tr < length (sfTransports s')"
  by (simp add: good_def grows_def)

lemma transport_router: "sfu_wf s \<Longrightarrow> tr < length (sfTransports s) \<Longrightarrow> tpRouter (sfTransports s ! tr) < length (sfRouters s)"
  using wf_transport by (auto simp: transport_ok_def)

lemma produce_stream_good:
  assumes wf: "sfu_wf s" and run: "produce_stream lib now ident ssrc codec kind prm tr s = Some (res, s')"
    and tr: "tr < length (sfTransports s)"
  shows "good s s' \<and> (\<forall>pr. res = Inr pr \<longrightarrow> producer_of s' (tpRouter (sfTransports s ! tr)) (pdId (sfProducers s' ! pr), pr))"
proof -
  define s1 where "s1 = with_transport tr (\<lambda>t. if tpTwcc t = None then t\<lparr>tpTwcc := Some (slNewTwcc lib ssrc)\<rparr> else t) s"
  obtain pid s2 where s2: "transport_next_id RTPProducerID tr s1 = Some (pid, s2)"
    using run by (auto simp: produce_stream_def s1_def)
  define p where "p = new_producer lib pid ident ssrc codec kind prm tr (tpTwcc (sfTransports s2 ! tr))"
  define pr where "pr = length (sfProducers s2)"
  define s3 where "s3 = s2\<lparr>sfProducers := sfProducers s2 @ [p]\<rparr>"
  obtain err s4 where s4: "add_producer lib now (tpRouter (sfTransports s3 ! tr)) pr s3 = Some (err, s4)"
    and rest: "(case err of Some e \<Rightarrow> Some (Inl e, s4)
     | None \<Rightarrow> do {
         let s = with_producer pr (\<lambda>p. p\<lparr>pdReading := True\<rparr>) s4;
         m \<leftarrow> nil_put pid pr (tpProducers (sfTransports s ! tr));
         Some (Inr pr, with_transport tr (\<lambda>t. t\<lparr>tpProducers := m\<rparr>) s) }) = Some (res, s')"
    using run unfolding produce_stream_def s1_def [symmetric] Let_def s2 bind.bind_lunit prod.case p_def [symmetric] pr_def [symmetric] s3_def [symmetric]
    by (auto simp: bind_eq_Some_conv simp del: with_sel)
  have g1: "good s s1" unfolding s1_def by (intro with_transport_plain [OF wf]) simp
  have g2: "good s1 s2" using transport_next_id_good [OF good_wf [OF g1] s2] by blast
  have p: "pdTransport p = tr" "pdBuffer p = None" "pdOnRTP p = None" "\<not> pdReading p" "pdId p = pid"
    by (simp_all add: p_def new_producer_def)
  have tr2: "tr < length (sfTransports s2)" using tr transport_kept g1 g2 by blast
  have g3: "good s2 s3"
    unfolding s3_def using p tr2 by (intro add_producer_object_good [OF good_wf [OF g2]]) (simp add: producer_ok_def)
  have at: "sfProducers s3 ! pr = p" "pr < length (sfProducers s3)" by (simp_all add: s3_def pr_def)
  have g4: "good s3 s4" and buf: "err = None \<longrightarrow> pdBuffer (sfProducers s4 ! pr) \<noteq> None"
    using add_producer_good [OF good_wf [OF g3] s4 at(2)] at p by auto
  have g: "good s s4" using g1 g2 g3 g4 by (blast intro: good_trans)
  show ?thesis
  proof (cases err)
    case None
    define s5 where "s5 = with_producer pr (\<lambda>p. p\<lparr>pdReading := True\<rparr>) s4"
    obtain m where m: "nil_put pid pr (tpProducers (sfTransports s5 ! tr)) = Some m"
      and s': "res = Inr pr" "s' = with_transport tr (\<lambda>t. t\<lparr>tpProducers := m\<rparr>) s5"
      using rest None by (auto simp: Let_def s5_def [symmetric] simp del: with_sel)
    have p4: "pr < length (sfProducers s4)" "pdTransport (sfProducers s4 ! pr) = tr" "pdId (sfProducers s4 ! pr) = pid"
      using g4 at p by (simp_all add: good_def grows_def)
    have g5: "good s4 s5"
      unfolding s5_def using buf None wf_producer [OF good_wf [OF g4]]
      by (intro with_producer_good [OF good_wf [OF g4]]) (simp add: producer_ok_def)
    have p5: "pr < length (sfProducers s5)" "pdTransport (sfProducers s5 ! pr) = tr" "pdId (sfProducers s5 ! pr) = pid"
        "pdBuffer (sfProducers s5 ! pr) \<noteq> None"
      using p4 buf None by (simp_all add: s5_def modify_nth)
    have tr5: "tr < length (sfTransports s5)" using tr transport_kept g g5 by blast
    have "transport_ok s5 tr ((sfTransports s5 ! tr)\<lparr>tpProducers := m\<rparr>)"
      using wf_transport [OF good_wf [OF g5] tr5] p5 nil_put_set [OF m] by (fastforce simp: transport_ok_def)
    then have g6: "good s5 s'" unfolding s' by (intro with_transport_good [OF good_wf [OF g5]]) simp
    have "good s s'" using g g5 g6 by (blast intro: good_trans)
    moreover from this have "producer_of s' (tpRouter (sfTransports s ! tr)) (pdId (sfProducers s' ! pr), pr)"
      using p5 tr5 tr router_kept [of s s' tr] by (simp add: producer_of_def s')
    ultimately show ?thesis by (simp add: s')
  qed (use rest g in auto)
qed

lemma produce_good:
  assumes wf: "sfu_wf s" and run: "produce lib now ident outcome kind prm tr s = Some (res, s')"
    and tr: "tr < length (sfTransports s)"
  shows "good s s' \<and> (\<forall>pr. res = Inr pr \<longrightarrow> producer_of s' (tpRouter (sfTransports s ! tr)) (pdId (sfProducers s' ! pr), pr))"
proof -
  obtain ok me where engine: "setup_producer_media_engine (slEngine lib) (slConsts lib) kind (tpEngine (sfTransports s ! tr)) = (ok, me)"
    by fastforce
  define s1 where "s1 = with_transport tr (\<lambda>t. t\<lparr>tpEngine := me\<rparr>) s"
  have g1: "good s s1" unfolding s1_def by (intro with_transport_plain [OF wf]) simp
  have run: "(if \<not> ok then Some (Inl ErrEngine, s1)
      else case outcome of ReceiverFails \<Rightarrow> Some (Inl ErrReceiver, s1) | ReceiveFails \<Rightarrow> Some (Inl ErrReceive, s1)
      | Receives ssrc codec \<Rightarrow> produce_stream lib now ident ssrc codec kind prm tr s1) = Some (res, s')"
    using run unfolding produce_def engine prod.case Let_def s1_def [symmetric] .
  have "tpRouter (sfTransports s1 ! tr) = tpRouter (sfTransports s ! tr)" "tr < length (sfTransports s1)"
    using g1 tr router_kept transport_kept by blast+
  then show ?thesis
    using run g1 produce_stream_good [OF good_wf [OF g1], of lib now ident _ _ kind prm tr res s']
    by (auto split: if_splits receiver_outcome.splits intro: good_trans)
qed

lemma bind_track_refs:
  assumes "bind_track now ctx c d f = Some (found, d', f')" and "factory_refs s f" and "found \<Longrightarrow> c < length (sfConsumers s)"
  shows "factory_refs s f'"
proof -
  obtain codec d1 where 1: "track_bind now ctx d = Some (codec, d1)" using assms(1) by (auto simp: bind_track_def)
  show ?thesis
  proof (cases codec)
    case (Some x)
    then have c: "c < length (sfConsumers s)" using assms 1 
      by (auto simp: bind_track_def split: prod.splits option.splits io_handle.splits)
    show ?thesis
      using assms(1,2) c Some 1 get_or_new_refs [OF assms(2), of RTCPBufferPacket "ctxSSRC ctx"]
      by (auto simp: bind_track_def split: prod.splits option.splits io_handle.splits
          intro: factory_on_packet_refs [where h = "ToConsumer c", simplified])
  qed (use assms 1 in \<open>auto simp: bind_track_def\<close>)
qed

lemma new_consumer_good:
  fixes s s' :: "('bk, 'nq, 'tw, 'me, 'a) sfu"
  assumes wf: "sfu_wf s" and run: "new_consumer now outcome cid pr d tr paused s = Some (res, s')"
    and tr: "tr < length (sfTransports s)" and pr: "producer_of s (tpRouter (sfTransports s ! tr)) (k, pr)"
  shows "good s s' \<and> (\<forall>c. res = Inr c \<longrightarrow> c < length (sfConsumers s') \<and> csTransport (sfConsumers s' ! c) = tr \<and> csId (sfConsumers s' ! c) = cid)"
proof (cases outcome)
  case (Sends prm ctx)
  let ?c = "length (sfConsumers s)"
  obtain found d' f where bind: "bind_track now ctx ?c d (sfFactory s) = Some (found, d', f)"
    using run Sends by (auto simp: new_consumer_def Let_def)
  show ?thesis
  proof (cases found)
    case True
    obtain ps :: "'a send_parameters" where ps: "send_to_ortc prm = Some ps" using run Sends bind True by (auto simp: new_consumer_def Let_def)
    define x where "x = \<lparr>csId = cid, csTransport = tr, csProducer = pr, csClosed = False, csPaused = paused,
      csKind = pdKind (sfProducers s ! pr),
      csParameters = ps\<lparr>sendParameters := (sendParameters ps)\<lparr>
        oRtcp := \<lparr>oRtcpSSRC = 0, oCname = dtStreamID d', oReducedSize = True, oMux = True\<rparr>, oMid := dtMid d'\<rparr>\<rparr>,
      csTrack = on_remb_feedback d', csBitrate = Fin 0\<rparr>"
    have x: "csTransport x = tr" "csProducer x = pr" "csId x = cid" by (simp_all add: x_def)
    have "res = Inr ?c \<and> s' = s\<lparr>sfFactory := f, sfConsumers := sfConsumers s @ [x]\<rparr>"
      using run Sends bind True ps by (auto simp: new_consumer_def Let_def x_def)
    then have s': "res = Inr ?c" "s' = s\<lparr>sfConsumers := sfConsumers s @ [x]\<rparr>\<lparr>sfFactory := f\<rparr>" by simp_all
    let ?s1 = "s\<lparr>sfConsumers := sfConsumers s @ [x]\<rparr>"
    have g1: "good s ?s1"
      using pr tr x by (intro add_consumer_object_good [OF wf]) (simp add: consumer_ok_def producer_of_def)
    have "factory_refs ?s1 f"
      using bind_track_refs [OF bind, of ?s1] wf_factory [OF good_wf [OF g1]] by simp
    then have "good ?s1 s'" unfolding s' by (intro factory_good [OF good_wf [OF g1]])
    then show ?thesis using g1 x by (auto intro: good_trans simp: s')
  next
    case False
    then have "factory_refs s f" using bind_track_refs [OF bind wf_factory [OF wf]] by simp
    then show ?thesis using run Sends bind False factory_good [OF wf] by (auto simp: new_consumer_def Let_def)
  qed
qed (use run good_refl [OF wf] in \<open>auto simp: new_consumer_def\<close>)

lemma consume_good:
  assumes wf: "sfu_wf s" and run: "consume lib now ident outcome pid paused tr s = Some (res, s')"
    and tr: "tr < length (sfTransports s)"
  shows "good s s' \<and> (\<forall>c e. res = Inr (c, e) \<longrightarrow> consumer_of s' (tpRouter (sfTransports s ! tr)) (csId (sfConsumers s' ! c), c))"
proof -
  let ?r = "tpRouter (sfTransports s ! tr)"
  show ?thesis
  proof (cases "nil_get (roProducers (sfRouters s ! ?r)) pid")
    case (Some pr)
    let ?p = "sfProducers s ! pr"
    obtain ok me where engine: "setup_consumer_media_engine (slEngine lib) (slConsts lib)
        (parameters_from_ortc (slPrinting lib) (receive_to_parameters (pdParameters ?p))) (pdKind ?p)
        (tpEngine (sfTransports s ! tr)) = (ok, me)"
      by fastforce
    define s1 where "s1 = with_transport tr (\<lambda>t. t\<lparr>tpEngine := me\<rparr>) s"
    have g1: "good s s1" unfolding s1_def by (intro with_transport_plain [OF wf]) simp
    show ?thesis
    proof (cases "\<not> ok \<or> \<not> tpBwe (sfTransports s1 ! tr) \<and> outcome = EstimatorFails")
      case True
      then show ?thesis
        using run g1 unfolding consume_def Let_def Some option.case engine prod.case s1_def [symmetric] by (auto split: if_splits)
    next
      case False
      define s2 where "s2 = with_transport tr (\<lambda>t. t\<lparr>tpBwe := True\<rparr>) s1"
      have g2: "good s1 s2" unfolding s2_def by (intro with_transport_plain [OF good_wf [OF g1]]) simp
      obtain mid s3 cid s4 where s3: "transport_next_id MidID tr s2 = Some (mid, s3)"
        and s4: "transport_next_id RTPConsumerID tr s3 = Some (cid, s4)"
        using run False unfolding consume_def Let_def Some option.case engine prod.case s1_def [symmetric] s2_def [symmetric]
        by (auto simp: bind_eq_Some_conv)
      have g3: "good s2 s3" using transport_next_id_good [OF good_wf [OF g2] s3] by blast
      have g4: "good s3 s4" using transport_next_id_good [OF good_wf [OF g3] s4] by blast
      have g: "good s s4" using g1 g2 g3 g4 by (blast intro: good_trans)
      have r: "?r < length (sfRouters s)" using transport_router [OF wf tr] .
      have "producer_of s ?r (pid, pr)"
        using wf_router [OF wf r] nil_get_mem [OF Some] by (auto simp: router_ok_def)
      then have pr: "producer_of s4 ?r (pid, pr)" using g of_grows(2) by (auto simp: good_def)
      define d where "d = on_transport_cc_feedback (new_down_track now ident (pdStreamID ?p) mid (pdCodec ?p) 500)"
      obtain res1 s5 where s5: "new_consumer now outcome cid pr d tr paused s4 = Some (res1, s5)"
        and rest: "(case res1 of
                Inl e \<Rightarrow> Some (Inl e, s5)
              | Inr c \<Rightarrow> do {
                  (err, s) \<leftarrow> add_consumer ?r c s5;
                  m \<leftarrow> nil_put cid c (tpConsumers (sfTransports s ! tr));
                  let s = with_transport tr (\<lambda>t. t\<lparr>tpConsumers := m\<rparr>) s;
                  Some (Inr (c, err), with_consumer c (\<lambda>x. x\<lparr>csTrack := track_on_close (csTrack x)\<rparr>) s) }) = Some (res, s')"
        using run False unfolding consume_def Let_def Some option.case engine prod.case s1_def [symmetric] s2_def [symmetric]
          s3 s4 bind.bind_lunit d_def [symmetric]
        by (auto simp: bind_eq_Some_conv)
      have tr4: "tr < length (sfTransports s4)" "tpRouter (sfTransports s4 ! tr) = ?r"
        using transport_kept [OF g tr] router_kept [OF g tr] by auto
      have g5: "good s4 s5" and c: "\<And>c. res1 = Inr c \<Longrightarrow> c < length (sfConsumers s5) \<and>
          csTransport (sfConsumers s5 ! c) = tr \<and> csId (sfConsumers s5 ! c) = cid"
        using new_consumer_good [OF good_wf [OF g] s5 tr4(1)] pr tr4(2) by auto
      have gs5: "good s s5" using g g5 by (rule good_trans)
      show ?thesis
      proof (cases res1)
        case (Inr c)
        note c = c [OF Inr]
        obtain err s6 m where s6: "add_consumer ?r c s5 = Some (err, s6)"
          and m: "nil_put cid c (tpConsumers (sfTransports s6 ! tr)) = Some m"
          and s': "res = Inr (c, err)" "s' = with_consumer c (\<lambda>x. x\<lparr>csTrack := track_on_close (csTrack x)\<rparr>)
            (with_transport tr (\<lambda>t. t\<lparr>tpConsumers := m\<rparr>) s6)"
          using rest Inr by (auto simp: Let_def bind_eq_Some_conv simp del: with_sel)
        have tr5: "tr < length (sfTransports s5)" "tpRouter (sfTransports s5 ! tr) = ?r"
          using transport_kept [OF gs5 tr] router_kept [OF gs5 tr] by auto
        have g6: "good s5 s6" using add_consumer_good [OF good_wf [OF gs5] s6] c tr5 by simp
        have gs6: "good s s6" using gs5 g6 by (rule good_trans)
        have c6: "c < length (sfConsumers s6)" "csTransport (sfConsumers s6 ! c) = tr" "csId (sfConsumers s6 ! c) = cid"
          using c g6 by (simp_all add: good_def grows_def)
        have tr6: "tr < length (sfTransports s6)" "tpRouter (sfTransports s6 ! tr) = ?r"
          using transport_kept [OF gs6 tr] router_kept [OF gs6 tr] by auto
        let ?s7 = "with_transport tr (\<lambda>t. t\<lparr>tpConsumers := m\<rparr>) s6"
        have "transport_ok s6 tr ((sfTransports s6 ! tr)\<lparr>tpConsumers := m\<rparr>)"
          using wf_transport [OF good_wf [OF gs6] tr6(1)] c6 nil_put_set [OF m] by (fastforce simp: transport_ok_def)
        then have g7: "good s6 ?s7" by (intro with_transport_good [OF good_wf [OF gs6]]) simp
        have "good ?s7 s'" unfolding s' by (intro with_consumer_good [OF good_wf [OF g7]]) simp
        then have "good s s'" using gs6 g7 by (blast intro: good_trans)
        moreover have "consumer_of s' ?r (csId (sfConsumers s' ! c), c)"
          using c6 tr6 by (simp add: consumer_of_def s' modify_nth)
        ultimately show ?thesis by (simp add: s')
      qed (use rest gs5 in auto)
    qed
  qed (use run good_refl [OF wf] in \<open>auto simp: consume_def Let_def\<close>)
qed

section \<open>Data channels\<close>

lemma transport_ok_data:
  "transport_ok s tr t \<Longrightarrow> in_heap (sfDataProducers s) (k, n) \<Longrightarrow> transport_ok s tr (t\<lparr>tpDataProducers := AList.update k n (tpDataProducers t)\<rparr>)"
  "transport_ok s tr t \<Longrightarrow> in_heap (sfDataConsumers s) (k, n) \<Longrightarrow> transport_ok s tr (t\<lparr>tpDataConsumers := AList.update k n (tpDataConsumers t)\<rparr>)"
  using Ball_update [of "tpDataProducers t" "in_heap (sfDataProducers s)" k n] Ball_update [of "tpDataConsumers t" "in_heap (sfDataConsumers s)" k n]
  by (simp_all add: transport_ok_def)

lemma router_ok_data:
  "router_ok s r x \<Longrightarrow> in_heap (sfDataProducers s) (k, n) \<Longrightarrow> router_ok s r (x\<lparr>roDataProducers := AList.update k n (roDataProducers x)\<rparr>)"
  "router_ok s r x \<Longrightarrow> in_heap (sfDataConsumers s) (k, n) \<Longrightarrow> router_ok s r (x\<lparr>roDataConsumers := AList.update k n (roDataConsumers x)\<rparr>)"
  using Ball_update [of "roDataProducers x" "in_heap (sfDataProducers s)" k n] Ball_update [of "roDataConsumers x" "in_heap (sfDataConsumers s)" k n]
  by (simp_all add: router_ok_def)

text \<open>A new object on a heap, entered into the router and the transport.\<close>

lemma enter_data_good:
  assumes "sfu_wf s" and "good s s1" and "in_heap (sfDataProducers s1) (k, n)"
  shows "good s (with_transport tr (\<lambda>t. t\<lparr>tpDataProducers := AList.update k' n (tpDataProducers t)\<rparr>)
    (with_router r (\<lambda>x. x\<lparr>roDataProducers := AList.update k n (roDataProducers x)\<rparr>) s1))"
proof -
  let ?s2 = "with_router r (\<lambda>x. x\<lparr>roDataProducers := AList.update k n (roDataProducers x)\<rparr>) s1"
  have 2: "good s1 ?s2"
    using assms(3) wf_router [OF good_wf [OF assms(2)]] router_ok_data(1) by (intro with_router_good [OF good_wf [OF assms(2)]]) blast
  have "good ?s2 (with_transport tr (\<lambda>t. t\<lparr>tpDataProducers := AList.update k' n (tpDataProducers t)\<rparr>) ?s2)"
    using assms(3) wf_transport [OF good_wf [OF 2]]
    by (intro with_transport_good [OF good_wf [OF 2]]) (simp add: transport_ok_data in_heap_def)
  then show ?thesis using assms(2) 2 by (blast intro: good_trans)
qed

lemma enter_data_consumer_good:
  assumes "sfu_wf s" and "good s s1" and "in_heap (sfDataConsumers s1) (k, n)"
  shows "good s (with_transport tr (\<lambda>t. t\<lparr>tpDataConsumers := AList.update k n (tpDataConsumers t)\<rparr>)
    (with_router r (\<lambda>x. x\<lparr>roDataConsumers := AList.update k n (roDataConsumers x)\<rparr>) s1))"
proof -
  let ?s2 = "with_router r (\<lambda>x. x\<lparr>roDataConsumers := AList.update k n (roDataConsumers x)\<rparr>) s1"
  have 2: "good s1 ?s2"
    using assms(3) wf_router [OF good_wf [OF assms(2)]] router_ok_data(2) by (intro with_router_good [OF good_wf [OF assms(2)]]) blast
  have "good ?s2 (with_transport tr (\<lambda>t. t\<lparr>tpDataConsumers := AList.update k n (tpDataConsumers t)\<rparr>) ?s2)"
    using assms(3) wf_transport [OF good_wf [OF 2]]
    by (intro with_transport_good [OF good_wf [OF 2]]) (simp add: transport_ok_data in_heap_def)
  then show ?thesis using assms(2) 2 by (blast intro: good_trans)
qed

lemma produce_data_good:
  assumes wf: "sfu_wf s" and run: "produce_data label p tr s = Some (res, s')" and tr: "tr < length (sfTransports s)"
  shows "good s s'"
proof (cases "map_of (tpDataProducers (sfTransports s ! tr)) (stStreamID p)")
  case None
  show ?thesis
  proof (cases "map_of (tpPending (sfTransports s ! tr)) (stStreamID p)")
    case (Some ch)
    obtain ident s1 where s1: "transport_next_id DataProducerID tr s = Some (ident, s1)"
      using run None Some by (auto simp: produce_data_def Let_def)
    have g1: "good s s1" using transport_next_id_good [OF wf s1] by blast
    define dp where "dp = \<lparr>dpId = ident, dpLabel = label, dpParameters = p, dpChannel = Some ch,
      dpOnMessage = Some (tpRouter (sfTransports s ! tr))\<rparr>"
    define s2 where "s2 = s1\<lparr>sfDataProducers := sfDataProducers s1 @ [dp]\<rparr>"
    have r: "tpRouter (sfTransports s ! tr) < length (sfRouters s1)"
      using transport_router [OF wf tr] g1 by (simp add: good_def grows_def)
    have "s2 = s1\<lparr>sfDataProducers := sfDataProducers s1 @ [dp], sfDataConsumers := sfDataConsumers s1\<rparr>" by (simp add: s2_def)
    moreover have "data_producer_ok s1 dp" using r by (simp add: data_producer_ok_def dp_def)
    ultimately have "good s1 s2"
      using data_objects_good [OF good_wf [OF g1], of "sfDataProducers s1 @ [dp]" "sfDataConsumers s1"] by auto
    then have g2: "good s s2" using g1 by (blast intro: good_trans)
    have "in_heap (sfDataProducers s2) (ident, length (sfDataProducers s1))" by (simp add: in_heap_def s2_def)
    from enter_data_good [OF wf g2 this, of tr "stStreamID p"] show ?thesis
      using run unfolding produce_data_def Let_def None Some s1 bind.bind_lunit prod.case option.case dp_def [symmetric] s2_def [symmetric]
      by auto
  qed (use run None good_refl [OF wf] in \<open>auto simp: produce_data_def Let_def\<close>)
qed (use run good_refl [OF wf] in \<open>auto simp: produce_data_def Let_def\<close>)

lemma consume_data_good:
  assumes wf: "sfu_wf s" and run: "consume_data made up pid tr s = Some (res, s')" and tr: "tr < length (sfTransports s)"
  shows "good s s' \<and> (\<forall>n. res = Inr n \<longrightarrow> n < length (sfDataConsumers s'))"
proof -
  let ?r = "tpRouter (sfTransports s ! tr)"
  show ?thesis
  proof (cases "\<exists>dp x. map_of (roDataProducers (sfRouters s ! ?r)) pid = Some dp \<and> made = Some x")
    case True
    then obtain dp ch limit where dp: "map_of (roDataProducers (sfRouters s ! ?r)) pid = Some dp" "made = Some (ch, limit)"
      by force
    obtain ident s1 dc0 where s1: "transport_next_id DataConsumerID tr s = Some (ident, s1)"
      and dc0: "new_data_consumer ident limit ch = Some dc0"
      using run by (auto simp: consume_data_def Let_def dp)
    have g1: "good s s1" using transport_next_id_good [OF wf s1] by blast
    define dc where "dc = (if up then dc0\<lparr>dqTransportConnected := True\<rparr> else dc0)"
    define s2 where "s2 = s1\<lparr>sfDataConsumers := sfDataConsumers s1 @ [dc]\<rparr>"
    let ?n = "length (sfDataConsumers s1)"
    have "s2 = s1\<lparr>sfDataProducers := sfDataProducers s1, sfDataConsumers := sfDataConsumers s1 @ [dc]\<rparr>" by (simp add: s2_def)
    then have "good s1 s2"
      using data_objects_good [OF good_wf [OF g1], of "sfDataProducers s1" "sfDataConsumers s1 @ [dc]"] by simp
    then have g2: "good s s2" using g1 by (blast intro: good_trans)
    have heap: "in_heap (sfDataConsumers s2) (ident, ?n)" by (simp add: in_heap_def s2_def)
    have s': "res = Inr ?n \<and> s' = with_transport tr (\<lambda>t. t\<lparr>tpDataConsumers := AList.update ident ?n (tpDataConsumers t)\<rparr>)
        (with_router ?r (\<lambda>x. x\<lparr>roDataConsumers := AList.update ident ?n (roDataConsumers x)\<rparr>) s2)"
      using run unfolding consume_data_def Let_def dp option.case prod.case s1 bind.bind_lunit dc0 dc_def [symmetric] s2_def [symmetric]
      by (auto simp: bind_eq_Some_conv)
    show ?thesis using enter_data_consumer_good [OF wf g2 heap, of tr ?r] s' by (simp add: s2_def)
  qed (use run good_refl [OF wf] in \<open>auto simp: consume_data_def Let_def split: option.splits\<close>)
qed

lemma data_producers_update_good:
  assumes "sfu_wf s" and "\<And>d. dpOnMessage (f d) = dpOnMessage d"
  shows "good s (s\<lparr>sfDataProducers := modify n f (sfDataProducers s)\<rparr>)"
proof -
  have "data_producer_ok s d \<or> d \<in> set (sfDataProducers s)" if "d \<in> set (modify n f (sfDataProducers s))" for d
  proof -
    have "data_producer_ok s (f (sfDataProducers s ! n))" if "n < length (sfDataProducers s)"
      using assms nth_mem [OF that] by (simp add: data_producer_ok_def sfu_wf_def)
    then show ?thesis using set_modify [OF that] by auto
  qed
  then have "good s (s\<lparr>sfDataProducers := modify n f (sfDataProducers s), sfDataConsumers := sfDataConsumers s\<rparr>)"
    by (intro data_objects_good [OF assms(1)]) auto
  then show ?thesis by simp
qed

lemma on_data_channel_good:
  assumes wf: "sfu_wf s" and run: "on_data_channel ch tr s = Some s'"
  shows "good s s'"
  using run by (auto simp: on_data_channel_def intro!: data_producers_update_good [OF wf] with_transport_plain [OF wf] split: option.splits)

lemma data_consumers_update_good:
  assumes "sfu_wf s" and "length dcs = length (sfDataConsumers s)"
  shows "good s (s\<lparr>sfDataConsumers := dcs\<rparr>)"
proof -
  have "good s (s\<lparr>sfDataProducers := sfDataProducers s, sfDataConsumers := dcs\<rparr>)"
    using assms by (intro data_objects_good) auto
  then show ?thesis by simp
qed

lemma length_fold_modify: "length (fold (\<lambda>(k, d). modify d g) kvs xs) = length xs"
  by (induction kvs arbitrary: xs) auto

lemma data_producer_message_good: "sfu_wf s \<Longrightarrow> good s (data_producer_message dp msg s)"
  by (auto simp: data_producer_message_def on_data_channel_message_def length_fold_modify good_refl
      intro: data_consumers_update_good split: option.split)

section \<open>Connecting and closing\<close>

lemma with_transport_then:
  assumes "good s s0" and "\<And>t. tpId (f t) = tpId t \<and> tpRouter (f t) = tpRouter t \<and> transport_ok s0 tr (f t) = transport_ok s0 tr t"
  shows "good s (with_transport tr f s0)"
  using good_trans [OF assms(1) with_transport_plain [OF good_wf [OF assms(1)] assms(2)]] .

lemma transport_connect_good:
  fixes s s' :: "('bk, 'nq, 'tw, 'me, 'a) sfu"
  assumes wf: "sfu_wf s" and run: "transport_connect out tr s = (up, s')"
  shows "good s s'"
proof -
  let ?I = "\<lambda>b. with_transport tr (\<lambda>t. t\<lparr>tpIceUp := b\<rparr>)"
  let ?D = "\<lambda>b. with_transport tr (\<lambda>t. t\<lparr>tpDtlsUp := b\<rparr>)"
  have ice: "good s s0 \<Longrightarrow> good s (?I b s0)" for b and s0 :: "('bk, 'nq, 'tw, 'me, 'a) sfu"
    by (erule with_transport_then) simp
  have dtls: "good s s0 \<Longrightarrow> good s (?D b s0)" for b and s0 :: "('bk, 'nq, 'tw, 'me, 'a) sfu"
    by (erule with_transport_then) simp
  have sctp: "good s s0 \<Longrightarrow> good s (with_transport tr (\<lambda>t. t\<lparr>tpSctpUp := b\<rparr>) s0)" for b and s0 :: "('bk, 'nq, 'tw, 'me, 'a) sfu"
    by (erule with_transport_then) simp
  note ice1 = ice [OF good_refl [OF wf], of True]
  note dtls1 = dtls [OF ice1, of True]
  show ?thesis
    using run good_refl [OF wf] ice [OF ice1, of False] dtls [OF ice [OF dtls1, of False], of False] sctp [OF dtls1, of True]
    by (simp add: transport_connect_def Let_def split: if_splits)
qed

lemma producer_close_good: "sfu_wf s \<Longrightarrow> good s (producer_close pr s)"
  unfolding producer_close_def using wf_producer by (intro with_producer_good) auto

lemma consumer_close_good: "sfu_wf s \<Longrightarrow> good s (consumer_close c s)"
  unfolding consumer_close_def by (intro with_consumer_good) auto

lemma fold_good: "sfu_wf s \<Longrightarrow> (\<And>x s. sfu_wf s \<Longrightarrow> good s (f x s)) \<Longrightarrow> good s (fold f xs s)"
proof (induction xs arbitrary: s)
  case (Cons x xs)
  have "good s (f x s)" using Cons.prems by blast
  then show ?case using Cons.IH [OF good_wf] Cons.prems(2) by (auto intro: good_trans)
qed (simp add: good_refl)

lemma transport_close_good:
  assumes wf: "sfu_wf s"
  shows "good s (transport_close tr s)"
proof (cases "tpClosed (sfTransports s ! tr)")
  case False
  define s1 where "s1 = with_transport tr (\<lambda>t. t\<lparr>tpClosed := True\<rparr>) s"
  define s2 where "s2 = fold (\<lambda>(_, pr). producer_close pr) (case tpProducers (sfTransports s ! tr) of None \<Rightarrow> [] | Some ps \<Rightarrow> ps) s1"
  define s3 where "s3 = fold (\<lambda>(_, c). consumer_close c) (case tpConsumers (sfTransports s ! tr) of None \<Rightarrow> [] | Some cs \<Rightarrow> cs) s2"
  have g1: "good s s1" unfolding s1_def by (intro with_transport_plain [OF wf]) simp
  have g2: "good s1 s2" unfolding s2_def by (rule fold_good [OF good_wf [OF g1]]) (auto intro: producer_close_good)
  have g3: "good s2 s3" unfolding s3_def by (rule fold_good [OF good_wf [OF g2]]) (auto intro: consumer_close_good)
  have "good s3 (with_transport tr (\<lambda>t. t\<lparr>tpProducers := None, tpConsumers := None, tpIceUp := False, tpDtlsUp := False,
      tpSctpUp := False\<rparr>) s3)"
    using wf_transport [OF good_wf [OF g3]] by (intro with_transport_good [OF good_wf [OF g3]]) (auto simp: transport_ok_def)
  then show ?thesis
    using g1 g2 g3 False by (auto simp: transport_close_def Let_def s1_def [symmetric] s2_def [symmetric] s3_def [symmetric] intro: good_trans)
qed (simp add: transport_close_def good_refl [OF wf])

lemma on_ice_state_good:
  assumes wf: "sfu_wf s"
  shows "good s (on_ice_state st tr s)"
proof -
  have "good s (with_transport tr (\<lambda>t. t\<lparr>tpCloseOnce := True\<rparr>) s)" by (intro with_transport_plain [OF wf]) simp
  from good_trans [OF this transport_close_good [OF good_wf [OF this]]]
  show ?thesis using good_refl [OF wf] by (simp add: on_ice_state_def)
qed

section \<open>Media\<close>

text \<open>What a step changes of the streams belongs to one room.\<close>

definition touches :: "nat \<Rightarrow> ('bk, 'nq, 'tw, 'me, 'a) sfu \<Rightarrow> ('bk, 'nq, 'tw, 'me, 'a) sfu \<Rightarrow> bool" where
  "touches r s s' \<longleftrightarrow> sfRouters s' = sfRouters s \<and> sfTransports s' = sfTransports s \<and>
     length (sfProducers s') = length (sfProducers s) \<and> length (sfConsumers s') = length (sfConsumers s) \<and>
     (\<forall>pr. sfProducers s' ! pr = sfProducers s ! pr \<or>
       tpRouter (sfTransports s ! pdTransport (sfProducers s ! pr)) = r \<and> pdTransport (sfProducers s' ! pr) = pdTransport (sfProducers s ! pr)) \<and>
     (\<forall>c. sfConsumers s' ! c = sfConsumers s ! c \<or>
       tpRouter (sfTransports s ! csTransport (sfConsumers s ! c)) = r \<and> csTransport (sfConsumers s' ! c) = csTransport (sfConsumers s ! c))"

lemma touches_refl [simp]: "touches r s s"
  by (simp add: touches_def)

lemma touches_trans: "touches r a b \<Longrightarrow> touches r b c \<Longrightarrow> touches r a c"
  unfolding touches_def by metis

lemma touches_factory [simp]: "touches r s (s'\<lparr>sfFactory := f\<rparr>) = touches r s s'" "touches r (s\<lparr>sfFactory := f\<rparr>) s' = touches r s s'"
  by (simp_all add: touches_def)

lemma modify_out: "n \<noteq> k \<Longrightarrow> modify k f xs ! n = xs ! n"
  by (simp add: modify_def)

lemma touches_consumer:
  assumes "tpRouter (sfTransports s ! csTransport (sfConsumers s ! c)) = r" and "\<And>x. csTransport (f x) = csTransport x"
  shows "touches r s (with_consumer c f s)"
proof -
  have "modify c f (sfConsumers s) ! n = sfConsumers s ! n \<or> n = c \<and> csTransport (modify c f (sfConsumers s) ! n) = csTransport (sfConsumers s ! n)" for n
    using assms(2) by (cases "n = c"; cases "c < length (sfConsumers s)") (simp_all add: modify_def not_less list_update_beyond)
  then show ?thesis using assms(1) by (auto simp: touches_def)
qed

lemma touches_producer:
  assumes "tpRouter (sfTransports s ! pdTransport (sfProducers s ! pr)) = r" and "\<And>p. pdTransport (f p) = pdTransport p"
  shows "touches r s (with_producer pr f s)"
proof -
  have "modify pr f (sfProducers s) ! n = sfProducers s ! n \<or> n = pr \<and> pdTransport (modify pr f (sfProducers s) ! n) = pdTransport (sfProducers s ! n)" for n
    using assms(2) by (cases "n = pr"; cases "pr < length (sfProducers s)") (simp_all add: modify_def not_less list_update_beyond)
  then show ?thesis using assms(1) by (auto simp: touches_def)
qed

lemma buffer_heap_good:
  assumes "sfu_wf s" and "length bs = length (fcBufferHeap (sfFactory s))"
  shows "good s (s\<lparr>sfFactory := (sfFactory s)\<lparr>fcBufferHeap := bs\<rparr>\<rparr>)"
  using assms factory_good factory_refs_heap [OF wf_factory] by blast

lemma on_track_good:
  assumes wf: "sfu_wf s" and run: "on_track op c s = Some (res, s')"
  shows "good s s' \<and> touches (tpRouter (sfTransports s ! csTransport (sfConsumers s ! c))) s s'"
proof -
  obtain bn d b where s': "s' = with_consumer c (\<lambda>x. x\<lparr>csTrack := d\<rparr>)
      (s\<lparr>sfFactory := (sfFactory s)\<lparr>fcBufferHeap := (fcBufferHeap (sfFactory s))[bn := b]\<rparr>\<rparr>)" (is "_ = with_consumer c _ ?s1")
    using run by (auto simp: on_track_def)
  have g1: "good s ?s1" by (intro buffer_heap_good [OF wf]) simp
  have "good ?s1 s'" unfolding s' by (intro with_consumer_good [OF good_wf [OF g1]]) simp
  moreover have "touches (tpRouter (sfTransports s ! csTransport (sfConsumers s ! c))) ?s1 s'"
    unfolding s' by (intro touches_consumer) simp_all
  ultimately show ?thesis using g1 by (auto intro: good_trans)
qed

lemma consumer_write_good:
  assumes "sfu_wf s" and "consumer_write lib now ep c s = Some (res, s')"
  shows "good s s' \<and> touches (tpRouter (sfTransports s ! csTransport (sfConsumers s ! c))) s s'"
  using assms(2) on_track_good [OF assms(1), of _ c res s'] good_refl [OF assms(1)] by (auto simp: consumer_write_def split: if_splits)

lemma forward_to_good:
  assumes "sfu_wf s" and "forward_to lib now r ep cids s = Some s'" and "r < length (sfRouters s)"
  shows "good s s' \<and> touches r s s'"
  using assms
proof (induction cids arbitrary: s)
  case (Cons cid cids)
  show ?case
  proof (cases "nil_get (roConsumers (sfRouters s ! r)) cid")
    case (Some c)
    obtain res s1 where 1: "consumer_write lib now ep c s = Some (res, s1)" and 2: "forward_to lib now r ep cids s1 = Some s'"
      using Cons.prems(2) Some by auto
    have "consumer_of s r (cid, c)"
      using wf_router [OF Cons.prems(1,3)] nil_get_mem [OF Some] by (auto simp: router_ok_def)
    then have 3: "good s s1" "touches r s s1" using consumer_write_good [OF Cons.prems(1) 1] by (auto simp: consumer_of_def)
    then have "good s1 s' \<and> touches r s1 s'" using Cons.IH [OF good_wf 2] Cons.prems(3) by (simp add: touches_def)
    then show ?thesis using 3 by (auto intro: good_trans touches_trans)
  qed (use Cons.prems good_refl in auto)
qed (simp add: good_refl)

lemma on_rtp_packet_good:
  assumes "sfu_wf s" and "on_rtp_packet lib now r pid ep s = Some s'" and "r < length (sfRouters s)"
  shows "good s s' \<and> touches r s s'"
  using assms(2) forward_to_good [OF assms(1) _ assms(3), of lib now ep _ s'] good_refl [OF assms(1)] by (auto simp: on_rtp_packet_def split: option.splits)

lemma stop_reading_good:
  assumes wf: "sfu_wf s"
  shows "good s (producer_close pr (with_producer pr (\<lambda>p. p\<lparr>pdReading := False\<rparr>) s)) \<and>
    touches (tpRouter (sfTransports s ! pdTransport (sfProducers s ! pr))) s (producer_close pr (with_producer pr (\<lambda>p. p\<lparr>pdReading := False\<rparr>) s))"
proof -
  let ?s1 = "with_producer pr (\<lambda>p. p\<lparr>pdReading := False\<rparr>) s"
  have 1: "good s ?s1" using wf_producer [OF wf] by (intro with_producer_good [OF wf]) (simp add: producer_ok_def)
  have "touches (tpRouter (sfTransports s ! pdTransport (sfProducers s ! pr))) s ?s1" by (rule touches_producer) simp_all
  moreover have "pdTransport (modify pr (pdReading_update (\<lambda>_. False)) (sfProducers s) ! pr) = pdTransport (sfProducers s ! pr)"
    by (cases "pr < length (sfProducers s)") (simp_all add: modify_def not_less list_update_beyond)
  then have "touches (tpRouter (sfTransports s ! pdTransport (sfProducers s ! pr))) ?s1 (producer_close pr ?s1)"
    unfolding producer_close_def by (intro touches_producer) simp_all
  ultimately show ?thesis using 1 producer_close_good [OF good_wf [OF 1]] by (blast intro: good_trans touches_trans)
qed

lemma read_rtp_round_good:
  assumes wf: "sfu_wf s" and run: "read_rtp_round lib now pr s = Some s'" and pr: "pr < length (sfProducers s)"
  shows "good s s' \<and> touches (tpRouter (sfTransports s ! pdTransport (sfProducers s ! pr))) s s'"
proof -
  let ?p = "sfProducers s ! pr"
  have p: "producer_ok s ?p" using wf_producer [OF wf pr] .
  consider "\<not> pdReading ?p" | "pdReading ?p" "pdClosed ?p" | "pdReading ?p" "\<not> pdClosed ?p" by blast
  then show ?thesis
  proof cases
    case 3
    obtain bn res b where bn: "pdBuffer ?p = Some bn"
      and read: "read_extended (tlMedia (slTrack lib)) (slMaxPktSize lib) (fcBufferHeap (sfFactory s) ! bn) = Some (res, b)"
      using run 3 by (auto simp: read_rtp_round_def Let_def)
    define s1 where "s1 = s\<lparr>sfFactory := (sfFactory s)\<lparr>fcBufferHeap := (fcBufferHeap (sfFactory s))[bn := b]\<rparr>\<rparr>"
    have g1: "good s s1" unfolding s1_def by (intro buffer_heap_good [OF wf]) simp
    have same: "sfRouters s1 = sfRouters s" "sfTransports s1 = sfTransports s" "sfProducers s1 = sfProducers s"
        "touches r s1 x = touches r s x" for r x
      by (simp_all add: s1_def)
    have run: "(case res of Wait \<Rightarrow> Some s1
        | Return (Inl e) \<Rightarrow> Some (producer_close pr (with_producer pr (\<lambda>p. p\<lparr>pdReading := False\<rparr>) s1))
        | Return (Inr ep) \<Rightarrow> (case pdOnRTP ?p of None \<Rightarrow> Some s1
             | Some r \<Rightarrow> if pdPaused ?p then Some s1 else on_rtp_packet lib now r (pdId ?p) ep s1)) = Some s'"
      using run 3 unfolding read_rtp_round_def Let_def bn bind.bind_lunit read prod.case s1_def [symmetric] by simp
    have ts1: "touches r s s1" for r by (simp add: s1_def)
    have stop: "good s1 x \<and> touches (tpRouter (sfTransports s ! pdTransport ?p)) s1 x"
      if "x = producer_close pr (with_producer pr (\<lambda>p. p\<lparr>pdReading := False\<rparr>) s1)" for x
      using stop_reading_good [OF good_wf [OF g1], of pr] that by (simp add: same)
    have fwd: "good s1 x \<and> touches (tpRouter (sfTransports s ! pdTransport ?p)) s1 x"
      if "pdOnRTP ?p = Some r" "on_rtp_packet lib now r (pdId ?p) ep s1 = Some x" for x r ep
    proof -
      have "r = tpRouter (sfTransports s ! pdTransport ?p)" "pdTransport ?p < length (sfTransports s)"
        using p that(1) by (simp_all add: producer_ok_def)
      then show ?thesis
        using on_rtp_packet_good [OF good_wf [OF g1] that(2)] transport_router [OF wf] by (simp add: same)
    qed
    have "s' = s1 \<or> (good s1 s' \<and> touches (tpRouter (sfTransports s ! pdTransport ?p)) s1 s')"
      using run stop fwd by (auto split: poll.splits sum.splits option.splits if_splits)
    then show ?thesis using g1 ts1 by (auto simp: same(4) intro: good_trans)
  qed (use run stop_reading_good [OF wf] good_refl [OF wf] in \<open>auto simp: read_rtp_round_def Let_def\<close>)
qed

section \<open>Feedback and reports\<close>

lemma run_panic_good:
  assumes "sfu_wf s" and "run_panic f xs s = Some s'" and "\<And>x a b. sfu_wf a \<Longrightarrow> f x a = Some b \<Longrightarrow> good a b"
  shows "good s s'"
  using assms(1,2)
proof (induction xs arbitrary: s)
  case (Cons x xs)
  obtain s1 where 1: "f x s = Some s1" "run_panic f xs s1 = Some s'" using Cons.prems(2) by auto
  have "good s s1" using assms(3) Cons.prems(1) 1(1) by blast
  then show ?case using Cons.IH [OF good_wf 1(2)] by (blast intro: good_trans)
qed (simp add: good_refl)

lemma producer_handle_rtcp_good:
  assumes wf: "sfu_wf s" and run: "producer_handle_rtcp lib now raw pr s = Some s'"
  shows "good s s'"
proof (cases "rtcpUnmarshal (slTrack lib) raw")
  case (Some pkts)
  have step: "good a b" if "sfu_wf a" "(case pkt of SenderReport sr \<Rightarrow> do {
       bn \<leftarrow> pdBuffer (sfProducers a ! pr);
       f \<leftarrow> factory_on_buffer (Some \<circ> set_sender_report_data (tlMedia (slTrack lib)) now (repRTPTime sr) (repNTPTime sr)) bn (sfFactory a);
       Some (a\<lparr>sfFactory := f\<rparr>) } | _ \<Rightarrow> Some a) = Some b" for pkt a b
    using that(2) factory_good [OF that(1)] factory_on_buffer_refs [OF _ wf_factory [OF that(1)]] good_refl [OF that(1)]
    by (auto split: rtcp_packet.splits)
  show ?thesis using run_panic_good [OF wf _ step] run by (simp add: producer_handle_rtcp_def Some)
qed (use run good_refl [OF wf] in \<open>simp add: producer_handle_rtcp_def\<close>)

lemma take_estimate_good: "sfu_wf s \<Longrightarrow> good s (take_estimate c call s)"
  by (auto simp: take_estimate_def handle_remb_def good_refl intro!: with_consumer_good split: track_call.split)

lemma consumer_handle_rtcp_good:
  assumes wf: "sfu_wf s" and run: "consumer_handle_rtcp lib now raw c s = Some s'"
  shows "good s s'"
proof -
  obtain u s1 calls where 1: "on_track (\<lambda>d b. map_option (Pair ()) (handle_rtcp (slTrack lib) now raw d b)) c s = Some (u, s1)"
    and s': "s' = fold (take_estimate c) calls s1"
    using run by (auto simp: consumer_handle_rtcp_def Let_def)
  have "good s s1" using on_track_good [OF wf 1] by blast
  from good_trans [OF this fold_good [OF good_wf [OF this], of "take_estimate c" calls]] show ?thesis
    by (simp add: s' take_estimate_good)
qed

lemma deliver_rtcp_good:
  assumes "sfu_wf s" and "deliver_rtcp lib now rn raw s = Some s'"
  shows "good s s'"
  using assms producer_handle_rtcp_good consumer_handle_rtcp_good good_refl [OF assms(1)]
  by (auto simp: deliver_rtcp_def split: sum.splits option.splits packet_handler.splits)

lemma write_rtcp_good: "sfu_wf s \<Longrightarrow> good s (write_rtcp pkts tr s)"
  unfolding write_rtcp_def by (rule with_transport_plain) simp_all

lemma producer_send_rtcp_good: "sfu_wf s \<Longrightarrow> good s (producer_send_rtcp pkts pr s)"
  by (simp add: producer_send_rtcp_def good_refl write_rtcp_good)

lemma write_reports_good:
  assumes wf: "sfu_wf s" and run: "write_reports lib now c s = Some s'"
  shows "good s s'"
proof -
  have "good s (fold (\<lambda>pkts. write_rtcp pkts tr) xs s)" for tr xs by (rule fold_good [OF wf write_rtcp_good])
  then show ?thesis
    using run good_refl [OF wf] by (auto simp: write_reports_def Let_def split: if_splits option.splits)
qed

lemma stream_switches_good:
  assumes "sfu_wf s"
  shows "good s (producer_pause b pr s)" "good s (consumer_resume c s)" "good s (consumer_pause c s)"
  unfolding producer_pause_def consumer_resume_def consumer_pause_def
  using assms wf_producer by (auto intro!: with_producer_good with_consumer_good)

end
