(* ===== verification/SystemSpec.thy ===== *)
theory SystemSpec
  imports System ReferencesKept SignallingSpec
begin

text \<open>
  Every step of the running server keeps its references well formed: those of its media objects
  (\<^verbatim>\<open>ReferencesKept\<close>), and those of rooms and peers, shown here operation by operation.
\<close>

section \<open>The references of rooms and peers\<close>

definition peer_ok :: "('bk, 'nq, 'tw, 'me, 'a) sfu \<Rightarrow> peer \<Rightarrow> bool" where
  "peer_ok s p \<longleftrightarrow> peRouter p < length (sfRouters s) \<and> Ball (set (peTransports p)) (transport_of s (peRouter p)) \<and>
     Ball (set (peProducers p)) (producer_of s (peRouter p)) \<and> Ball (set (peConsumers p)) (consumer_of s (peRouter p)) \<and>
     Ball (set (peDataConsumers p)) (in_heap (sfDataConsumers s))"

definition peer_of :: "('bk, 'nq, 'tw, 'me, 'a) server \<Rightarrow> nat \<Rightarrow> u64 \<times> nat \<Rightarrow> bool" where
  "peer_of v r = (\<lambda>(k, pe). pe < length (svPeerHeap v) \<and> peId (svPeerHeap v ! pe) = k \<and> peRouter (svPeerHeap v ! pe) = r)"

definition room_ok :: "('bk, 'nq, 'tw, 'me, 'a) server \<Rightarrow> room \<Rightarrow> bool" where
  "room_ok v x \<longleftrightarrow> rmRouter x < length (sfRouters (svSfu v)) \<and> Ball (set (rmPeers x)) (peer_of v (rmRouter x))"

definition server_wf :: "('bk, 'nq, 'tw, 'me, 'a) server \<Rightarrow> bool" where
  "server_wf v \<longleftrightarrow> sfu_wf (svSfu v) \<and> Ball (set (svRooms v)) (in_heap (svRoomHeap v)) \<and>
     Ball (set (svRoomHeap v)) (room_ok v) \<and> Ball (set (svPeerHeap v)) (peer_ok (svSfu v))"

text \<open>What a step keeps of the rooms and the peers.\<close>

definition server_grows :: "('bk, 'nq, 'tw, 'me, 'a) server \<Rightarrow> ('bk, 'nq, 'tw, 'me, 'a) server \<Rightarrow> bool" where
  "server_grows v v' \<longleftrightarrow>
     (\<forall>rm < length (svRoomHeap v). rm < length (svRoomHeap v') \<and> rmRouter (svRoomHeap v' ! rm) = rmRouter (svRoomHeap v ! rm)) \<and>
     (\<forall>pe < length (svPeerHeap v). pe < length (svPeerHeap v') \<and> peId (svPeerHeap v' ! pe) = peId (svPeerHeap v ! pe) \<and>
       peRouter (svPeerHeap v' ! pe) = peRouter (svPeerHeap v ! pe))"

definition server_good :: "('bk, 'nq, 'tw, 'me, 'a) server \<Rightarrow> ('bk, 'nq, 'tw, 'me, 'a) server \<Rightarrow> bool" where
  "server_good v v' \<longleftrightarrow> server_wf v' \<and> server_grows v v'"

lemma server_good_refl: "server_wf v \<Longrightarrow> server_good v v"
  by (simp add: server_good_def server_grows_def)

lemma server_good_trans: "server_good a b \<Longrightarrow> server_good b c \<Longrightarrow> server_good a c"
  by (auto simp: server_good_def server_grows_def)

lemma server_good_wf: "server_good v v' \<Longrightarrow> server_wf v'"
  by (simp add: server_good_def)

lemma peer_ok_grows:
  assumes "grows s s'" and "peer_ok s p"
  shows "peer_ok s' p"
proof -
  have "length (sfRouters s) \<le> length (sfRouters s')" using assms(1) by (simp add: grows_def)
  then have "peRouter p < length (sfRouters s')" using assms(2) by (auto simp: peer_ok_def)
  then show ?thesis using assms(2) unfolding peer_ok_def by (blast intro: of_grows [OF assms(1)])
qed

lemma server_parts:
  assumes "server_wf v"
  shows "sfu_wf (svSfu v)" "pe < length (svPeerHeap v) \<Longrightarrow> peer_ok (svSfu v) (svPeerHeap v ! pe)"
    "rm < length (svRoomHeap v) \<Longrightarrow> room_ok v (svRoomHeap v ! rm)"
  using assms by (simp_all add: server_wf_def)

lemma with_sfu_good:
  assumes "server_wf v" and "good (svSfu v) s"
  shows "server_good v (v\<lparr>svSfu := s\<rparr>)"
proof -
  have g: "grows (svSfu v) s" using assms(2) by (simp add: good_def)
  have "room_ok (v\<lparr>svSfu := s\<rparr>) x" if "room_ok v x" for x
    using that g by (auto simp: room_ok_def peer_of_def grows_def)
  then show ?thesis
    using assms peer_ok_grows [OF g] by (auto simp: server_good_def server_grows_def server_wf_def good_def)
qed

lemma with_peer_good:
  assumes "server_wf v" and "pe < length (svPeerHeap v) \<Longrightarrow> peer_ok (svSfu v) (f (svPeerHeap v ! pe)) \<and>
      peId (f (svPeerHeap v ! pe)) = peId (svPeerHeap v ! pe) \<and> peRouter (f (svPeerHeap v ! pe)) = peRouter (svPeerHeap v ! pe)"
  shows "server_good v (with_peer pe f v)"
proof -
  have grows: "server_grows v (with_peer pe f v)"
    using assms(2) by (auto simp: server_grows_def with_peer_def modify_nth)
  have "room_ok (with_peer pe f v) x" if "room_ok v x" for x
    using that grows by (auto simp: room_ok_def peer_of_def server_grows_def with_peer_def)
  then have "server_wf (with_peer pe f v)"
    using assms by (auto simp: server_wf_def with_peer_def dest!: set_modify)
  then show ?thesis using grows by (simp add: server_good_def)
qed

lemma in_heap_modify [simp]: "in_heap (modify k f xs) = in_heap xs"
  by (simp add: in_heap_def)

lemma with_room_good:
  assumes "server_wf v" and "rm < length (svRoomHeap v) \<Longrightarrow> room_ok v (f (svRoomHeap v ! rm)) \<and>
      rmRouter (f (svRoomHeap v ! rm)) = rmRouter (svRoomHeap v ! rm)"
  shows "server_good v (with_room rm f v)"
proof -
  have room: "room_ok (with_room rm f v) x = room_ok v x" for x
    by (auto simp: room_ok_def peer_of_def with_room_def)
  then have "server_wf (with_room rm f v)"
    using assms room by (auto simp: server_wf_def with_room_def dest!: set_modify)
  then show ?thesis using assms(2) by (auto simp: server_good_def server_grows_def with_room_def modify_nth)
qed

lemma add_peer_object_good:
  assumes "server_wf v" and "peer_ok (svSfu v) p"
  shows "server_good v (v\<lparr>svPeerHeap := svPeerHeap v @ [p]\<rparr>)"
proof -
  have "room_ok (v\<lparr>svPeerHeap := svPeerHeap v @ [p]\<rparr>) x" if "room_ok v x" for x
    using that by (auto simp: room_ok_def peer_of_def nth_append)
  then show ?thesis using assms by (auto simp: server_good_def server_grows_def server_wf_def nth_append)
qed

section \<open>The operations of peers\<close>

lemma peer_ok_entries:
  "peer_ok s p \<Longrightarrow> transport_of s (peRouter p) (k, n) \<Longrightarrow> peer_ok s (p\<lparr>peTransports := AList.update k n (peTransports p)\<rparr>)"
  "peer_ok s p \<Longrightarrow> producer_of s (peRouter p) (k, n) \<Longrightarrow> peer_ok s (p\<lparr>peProducers := AList.update k n (peProducers p)\<rparr>)"
  "peer_ok s p \<Longrightarrow> consumer_of s (peRouter p) (k, n) \<Longrightarrow> peer_ok s (p\<lparr>peConsumers := AList.update k n (peConsumers p)\<rparr>)"
  "peer_ok s p \<Longrightarrow> in_heap (sfDataConsumers s) (k, n) \<Longrightarrow> peer_ok s (p\<lparr>peDataConsumers := AList.update k n (peDataConsumers p)\<rparr>)"
  using Ball_update [of "peTransports p" "transport_of s (peRouter p)" k n] Ball_update [of "peProducers p" "producer_of s (peRouter p)" k n]
    Ball_update [of "peConsumers p" "consumer_of s (peRouter p)" k n] Ball_update [of "peDataConsumers p" "in_heap (sfDataConsumers s)" k n]
  by (simp_all add: peer_ok_def)

lemma peer_transport:
  assumes "server_wf v" and "pe < length (svPeerHeap v)" and "get_transport_for b pe v = Some tr"
  shows "tr < length (sfTransports (svSfu v)) \<and> tpRouter (sfTransports (svSfu v) ! tr) = peRouter (svPeerHeap v ! pe)"
proof -
  obtain k where "(k, tr) \<in> set (peTransports (svPeerHeap v ! pe))"
    using assms(3) by (auto simp: get_transport_for_def find_Some_iff) (metis nth_mem)
  then show ?thesis using server_parts(2) [OF assms(1,2)] by (auto simp: peer_ok_def transport_of_def)
qed

text \<open>Changing the server's objects, and then the entry of one of them for the peer.\<close>

lemma sfu_then_peer_good:
  assumes "server_wf v" and "good (svSfu v) s" and "pe < length (svPeerHeap v)"
    and "peer_ok s (svPeerHeap v ! pe) \<Longrightarrow> peer_ok s (f (svPeerHeap v ! pe))"
    and "\<And>p. peId (f p) = peId p \<and> peRouter (f p) = peRouter p"
  shows "server_good v (with_peer pe f (v\<lparr>svSfu := s\<rparr>))"
proof -
  have 1: "server_good v (v\<lparr>svSfu := s\<rparr>)" using with_sfu_good [OF assms(1,2)] .
  have "peer_ok s (svPeerHeap v ! pe)" using server_parts(2) [OF server_good_wf [OF 1], of pe] assms(3) by simp
  then have "server_good (v\<lparr>svSfu := s\<rparr>) (with_peer pe f (v\<lparr>svSfu := s\<rparr>))"
    using assms(4,5) by (intro with_peer_good [OF server_good_wf [OF 1]]) simp
  then show ?thesis using 1 by (blast intro: server_good_trans)
qed

lemma peer_create_transport_good:
  assumes wf: "server_wf v" and run: "peer_create_transport lib out consuming pe v = Some (res, v')" and pe: "pe < length (svPeerHeap v)"
  shows "server_good v v'"
proof -
  let ?p = "svPeerHeap v ! pe"
  obtain res1 s where s: "new_webrtc_transport lib out (Some consuming) (peRouter ?p) (svSfu v) = Some (res1, s)"
    using run by (auto simp: peer_create_transport_def)
  have r: "peRouter ?p < length (sfRouters (svSfu v))" using server_parts(2) [OF wf pe] by (simp add: peer_ok_def)
  note new = new_webrtc_transport_good [OF server_parts(1) [OF wf] s r]
  have "server_good v (with_peer pe (\<lambda>p. p\<lparr>peTransports := AList.update (tpId (sfTransports s ! tr)) tr (peTransports p)\<rparr>) (v\<lparr>svSfu := s\<rparr>))"
    if "res1 = Inr tr" for tr
    using new that by (intro sfu_then_peer_good [OF wf _ pe]) (auto intro: peer_ok_entries)
  then show ?thesis
    using run new with_sfu_good [OF wf, of s] by (auto simp: peer_create_transport_def s Let_def split: sum.splits)
qed

lemma peer_connect_transport_good:
  assumes wf: "server_wf v" and run: "peer_connect_transport out ident pe v = (res, v')"
  shows "server_good v v'"
  using run server_good_refl [OF wf] with_sfu_good [OF wf transport_connect_good [OF server_parts(1) [OF wf]]]
  by (auto simp: peer_connect_transport_def split: option.splits prod.splits)

lemma peer_close_transport_good:
  assumes wf: "server_wf v" and run: "peer_close_transport ok ident pe v = (res, v')"
  shows "server_good v v'"
  using run server_good_refl [OF wf] with_sfu_good [OF wf transport_close_good [OF server_parts(1) [OF wf]]]
  by (auto simp: peer_close_transport_def split: option.splits)

lemma peer_produce_good:
  assumes wf: "server_wf v" and run: "peer_produce lib now ident outcome kind prm pe v = Some (res, v')" and pe: "pe < length (svPeerHeap v)"
  shows "server_good v v'"
proof (cases "get_transport_for False pe v")
  case (Some tr)
  note tr = peer_transport [OF wf pe Some]
  show ?thesis
  proof (cases "kind \<noteq> ''video'' \<and> kind \<noteq> ''audio''")
    case False
    let ?kind = "if kind = ''video'' then VideoMediaKind else AudioMediaKind"
    obtain res1 s where s: "produce lib now ident outcome ?kind prm tr (svSfu v) = Some (res1, s)"
      using run Some False by (auto simp: peer_produce_def)
    note new = produce_good [OF server_parts(1) [OF wf] s tr [THEN conjunct1]]
    have "server_good v (with_peer pe (\<lambda>p. p\<lparr>peProducers := AList.update (pdId (sfProducers s ! pr)) pr (peProducers p)\<rparr>) (v\<lparr>svSfu := s\<rparr>))"
      if "res1 = Inr pr" for pr
      using new that tr by (intro sfu_then_peer_good [OF wf _ pe]) (auto intro: peer_ok_entries)
    then show ?thesis
      using run False new with_sfu_good [OF wf, of s] by (auto simp: peer_produce_def Some s Let_def split: sum.splits)
  qed (use run Some server_good_refl [OF wf] in \<open>auto simp: peer_produce_def\<close>)
qed (use run server_good_refl [OF wf] in \<open>auto simp: peer_produce_def\<close>)

lemma peer_consume_good:
  assumes wf: "server_wf v" and run: "peer_consume lib now ident outcome pr paused pe v = Some (res, v')" and pe: "pe < length (svPeerHeap v)"
  shows "server_good v v' \<and> (\<forall>c. res = Inr c \<longrightarrow> pe < length (svPeerHeap v') \<and>
    consumer_of (svSfu v') (peRouter (svPeerHeap v' ! pe)) (csId (sfConsumers (svSfu v') ! c), c))"
proof (cases "get_transport_for True pe v")
  case (Some tr)
  note tr = peer_transport [OF wf pe Some]
  obtain res1 s where s: "consume lib now ident outcome (pdId (sfProducers (svSfu v) ! pr)) paused tr (svSfu v) = Some (res1, s)"
    using run Some by (auto simp: peer_consume_def)
  note new = consume_good [OF server_parts(1) [OF wf] s tr [THEN conjunct1]]
  have v': "v' = v\<lparr>svSfu := s\<rparr>" and res: "\<And>c. res = Inr c \<Longrightarrow> res1 = Inr (c, None)"
    using run by (auto simp: peer_consume_def Some s Let_def split: sum.splits option.splits)
  show ?thesis using with_sfu_good [OF wf, of s] new tr pe res by (auto simp: v')
qed (use run server_good_refl [OF wf] in \<open>auto simp: peer_consume_def\<close>)

lemma peer_produce_data_good:
  assumes wf: "server_wf v" and run: "peer_produce_data label prm pe v = Some (res, v')" and pe: "pe < length (svPeerHeap v)"
  shows "server_good v v'"
proof (cases "get_transport_for False pe v")
  case (Some tr)
  obtain res1 s where s: "produce_data label prm tr (svSfu v) = Some (res1, s)" and v': "v' = v\<lparr>svSfu := s\<rparr>"
    using run Some by (auto simp: peer_produce_data_def)
  show ?thesis
    using with_sfu_good [OF wf produce_data_good [OF server_parts(1) [OF wf] s]] peer_transport [OF wf pe Some] by (simp add: v')
qed (use run server_good_refl [OF wf] in \<open>auto simp: peer_produce_data_def\<close>)

lemma peer_consume_data_good:
  assumes wf: "server_wf v" and run: "peer_consume_data made up pid pe v = Some (res, v')" and pe: "pe < length (svPeerHeap v)"
  shows "server_good v v' \<and> (\<forall>n. res = Inr n \<longrightarrow> n < length (sfDataConsumers (svSfu v')))"
proof (cases "get_transport_for True pe v")
  case (Some tr)
  obtain res1 s where s: "consume_data made up pid tr (svSfu v) = Some (res1, s)"
    using run Some by (auto simp: peer_consume_data_def)
  have v': "v' = v\<lparr>svSfu := s\<rparr>" and res: "\<And>n. res = Inr n \<Longrightarrow> res1 = Inr n"
    using run by (auto simp: peer_consume_data_def Some s split: sum.splits)
  show ?thesis
    using with_sfu_good [OF wf, of s] consume_data_good [OF server_parts(1) [OF wf] s] peer_transport [OF wf pe Some] res by (auto simp: v')
qed (use run server_good_refl [OF wf] in \<open>auto simp: peer_consume_data_def\<close>)

section \<open>Rooms and messages\<close>

lemma add_peer_good:
  assumes wf: "server_wf v" and run: "add_peer ident rm v = (pe, v')" and rm: "rm < length (svRoomHeap v)"
  shows "server_good v v' \<and> pe < length (svPeerHeap v') \<and> peRouter (svPeerHeap v' ! pe) = rmRouter (svRoomHeap v ! rm)"
proof -
  define v1 where "v1 = (case get_peer ident rm v of None \<Rightarrow> v | Some pe \<Rightarrow> with_peer pe peer_close v)"
  have "peer_ok s (peer_close p) = peer_ok s p" for s :: "('a, 'b, 'c, 'd, 'e) sfu" and p
    by (simp add: peer_ok_def peer_close_def)
  then have 1: "server_good v v1"
    using server_good_refl [OF wf] server_parts(2) [OF wf] by (auto simp: v1_def peer_close_def intro!: with_peer_good [OF wf] split: option.split)
  have same: "svRoomHeap v1 = svRoomHeap v" "svSfu v1 = svSfu v" by (auto simp: v1_def with_peer_def split: option.split)
  let ?p = "new_peer ident (rmRouter (svRoomHeap v ! rm))"
  let ?v2 = "v1\<lparr>svPeerHeap := svPeerHeap v1 @ [?p]\<rparr>"
  have run': "pe = length (svPeerHeap v1)" "v' = set_peer ident pe rm ?v2"
    using run by (auto simp: add_peer_def Let_def v1_def [symmetric] same)
  have "rmRouter (svRoomHeap v ! rm) < length (sfRouters (svSfu v))" using server_parts(3) [OF wf rm] by (simp add: room_ok_def)
  then have 2: "server_good v1 ?v2"
    by (intro add_peer_object_good [OF server_good_wf [OF 1]]) (simp add: peer_ok_def new_peer_def same)
  have new: "peer_of ?v2 (rmRouter (svRoomHeap v ! rm)) (ident, pe)" by (simp add: peer_of_def run'(1) new_peer_def)
  have "room_ok ?v2 ((svRoomHeap v ! rm)\<lparr>rmPeers := AList.update ident pe (rmPeers (svRoomHeap v ! rm))\<rparr>)"
    using server_parts(3) [OF server_good_wf [OF 2], of rm] rm new
      Ball_update [of "rmPeers (svRoomHeap v ! rm)" "peer_of ?v2 (rmRouter (svRoomHeap v ! rm))" ident pe] by (simp add: room_ok_def same)
  then have "server_good ?v2 v'"
    unfolding run'(2) set_peer_def by (intro with_room_good [OF server_good_wf [OF 2]]) (simp add: same)
  then show ?thesis using 1 2 by (auto intro: server_good_trans simp: run' set_peer_def with_room_def new_peer_def)
qed

lemma create_or_get_room_good:
  assumes wf: "server_wf v" and run: "create_or_get_room lib ident v = Some (rm, v')"
  shows "server_good v v' \<and> rm < length (svRoomHeap v')"
proof (cases "map_of (svRooms v) ident")
  case None
  obtain r s where s: "new_router lib (svSfu v) = Some (r, s)"
    and v': "rm = length (svRoomHeap v)" "v' = v\<lparr>svSfu := s\<rparr>\<lparr>svRoomHeap := svRoomHeap v @ [new_room ident r], svRooms := AList.update ident rm (svRooms v)\<rparr>"
    using run None by (auto simp: create_or_get_room_def Let_def)
  note new = new_router_good [OF server_parts(1) [OF wf] s]
  have 1: "server_good v (v\<lparr>svSfu := s\<rparr>)" using with_sfu_good [OF wf] new by blast
  have room: "room_ok v' x = room_ok (v\<lparr>svSfu := s\<rparr>) x" for x by (auto simp: room_ok_def peer_of_def v'(2))
  have "room_ok v' (new_room ident r)" using new by (simp add: room_ok_def new_room_def v'(2))
  moreover have "Ball (set (svRooms v')) (in_heap (svRoomHeap v'))"
    using Ball_update [of "svRooms v" "in_heap (svRoomHeap v')" ident rm] wf by (fastforce simp: v' server_wf_def in_heap_def)
  ultimately have "server_wf v'"
    using server_good_wf [OF 1] room unfolding server_wf_def by (auto simp: v'(2))
  then show ?thesis using 1 by (auto simp: server_good_def server_grows_def v' nth_append)
next
  case (Some x)
  then have "in_heap (svRoomHeap v) (ident, x)" using wf by (auto simp: server_wf_def dest: map_of_SomeD)
  then show ?thesis using run Some server_good_refl [OF wf] by (auto simp: create_or_get_room_def in_heap_def)
qed

lemma open_connection_good:
  assumes wf: "server_wf v" and run: "open_connection lib roomId peerId v = Some (Inr ((rm, pe), v'))"
  shows "server_good v v' \<and> rm < length (svRoomHeap v') \<and> pe < length (svPeerHeap v') \<and>
    peRouter (svPeerHeap v' ! pe) = rmRouter (svRoomHeap v' ! rm)"
proof -
  obtain rm1 v1 where some: "create_or_get_room lib (word_of_int (fst (atoi roomId))) v = Some (rm1, v1)"
    using run by (auto simp: open_connection_def split: if_splits)
  have "rm1 = rm" and 2: "add_peer (word_of_int (fst (atoi peerId))) rm v1 = (pe, v')"
    using run some by (auto simp: open_connection_def Let_def split: if_splits prod.splits)
  then have 1: "create_or_get_room lib (word_of_int (fst (atoi roomId))) v = Some (rm, v1)" using some by simp
  note g1 = create_or_get_room_good [OF wf 1]
  note g2 = add_peer_good [OF server_good_wf [OF g1 [THEN conjunct1]] 2]
  have "rmRouter (svRoomHeap v' ! rm) = rmRouter (svRoomHeap v1 ! rm)" "rm < length (svRoomHeap v')"
    using g1 g2 by (auto simp: server_good_def server_grows_def)
  then show ?thesis using g1 g2 by (auto intro: server_good_trans)
qed

text \<open>A handler keeps the server well formed, if it does not panic.\<close>

definition keeps_wf :: "('bk, 'nq, 'tw, 'me, 'a) server \<Rightarrow> ('x \<times> ('bk, 'nq, 'tw, 'me, 'a) server) option \<Rightarrow> bool" where
  "keeps_wf v h \<longleftrightarrow> (\<forall>res v'. h = Some (res, v') \<longrightarrow> server_good v v')"

lemma keeps_wf_simps [simp]: "keeps_wf v None" "keeps_wf v (Some p) \<longleftrightarrow> server_good v (snd p)"
  by (auto simp: keeps_wf_def split: prod.splits) (metis prod.collapse)

lemma keeps_wf_bind:
  assumes "keeps_wf v m" and "\<And>res v'. m = Some (res, v') \<Longrightarrow> server_good v v' \<Longrightarrow> keeps_wf v (f (res, v'))"
  shows "keeps_wf v (Option.bind m f)"
  using assms by (cases m) (auto simp: keeps_wf_def)

lemma handlers_keep_wf:
  assumes wf: "server_wf v" and pe: "pe < length (svPeerHeap v)"
  shows "keeps_wf v (handle_create lib enc out c pe v)" "keeps_wf v (handle_connect out ident pe v)"
    "keeps_wf v (handle_close out ident pe v)" "keeps_wf v (handle_produce lib enc now out kp pe v)"
    "keeps_wf v (handle_produce_data enc lp pe v)" "keeps_wf v (handle_toggle ip pe v)" "keeps_wf v (handle_resume cid pe v)"
proof -
  show "keeps_wf v (handle_create lib enc out c pe v)"
    unfolding handle_create_def using peer_create_transport_good [OF wf _ pe, of lib "outTransport out" c]
    by (intro keeps_wf_bind) (auto simp: keeps_wf_def Let_def split: sum.splits)
  show "keeps_wf v (handle_connect out ident pe v)"
    using peer_connect_transport_good [OF wf] by (auto simp: handle_connect_def split: prod.split)
  show "keeps_wf v (handle_close out ident pe v)"
    using peer_close_transport_good [OF wf] by (auto simp: handle_close_def split: prod.split)
  show "keeps_wf v (handle_produce lib enc now out kp pe v)"
    unfolding handle_produce_def using peer_produce_good [OF wf _ pe, of lib now "outIdent out" "outReceiver out" "fst kp" "snd kp"]
    by (intro keeps_wf_bind) (auto simp: keeps_wf_def split: sum.splits)
  show "keeps_wf v (handle_produce_data enc lp pe v)"
    unfolding handle_produce_data_def using peer_produce_data_good [OF wf _ pe, of "fst lp" "snd lp"]
    by (intro keeps_wf_bind) (auto simp: keeps_wf_def split: sum.splits)
  show "keeps_wf v (handle_toggle ip pe v)"
    using server_good_refl [OF wf] with_sfu_good [OF wf stream_switches_good(1) [OF server_parts(1) [OF wf]]]
    by (auto simp: handle_toggle_def split: option.split)
  show "keeps_wf v (handle_resume cid pe v)"
    using server_good_refl [OF wf] with_sfu_good [OF wf stream_switches_good(2) [OF server_parts(1) [OF wf]]]
    by (auto simp: handle_resume_def split: option.split)
qed

lemma handle_consume_keeps_wf:
  assumes wf: "server_wf v" and pe: "pe < length (svPeerHeap v)"
  shows "keeps_wf v (handle_consume lib enc now out ip pe v)"
proof (cases "map_of (peProducers (svPeerHeap v ! pe)) (fst ip)")
  case (Some pr)
  have enter: "server_good v (with_peer pe (\<lambda>p. p\<lparr>peConsumers := AList.update (csId (sfConsumers (svSfu v1) ! c)) c (peConsumers p)\<rparr>) v1)"
    if run: "peer_consume lib now (outIdent out) (outSender out) pr (snd ip) pe v = Some (Inr c, v1)" for c v1
  proof -
    note g = peer_consume_good [OF wf run pe]
    have wf1: "server_wf v1" using g by (auto intro: server_good_wf)
    have "server_good v1 (with_peer pe (\<lambda>p. p\<lparr>peConsumers := AList.update (csId (sfConsumers (svSfu v1) ! c)) c (peConsumers p)\<rparr>) v1)"
      using g server_parts(2) [OF wf1] by (intro with_peer_good [OF wf1]) (auto intro: peer_ok_entries)
    then show ?thesis using g by (auto intro: server_good_trans)
  qed
  show ?thesis
    unfolding handle_consume_def Some option.case
    using peer_consume_good [OF wf _ pe, of lib now "outIdent out" "outSender out" pr "snd ip"] enter
    by (intro keeps_wf_bind) (auto simp: keeps_wf_def Let_def split: sum.splits)
qed (simp add: handle_consume_def server_good_refl [OF wf])

lemma handle_consume_data_keeps_wf:
  assumes wf: "server_wf v" and pe: "pe < length (svPeerHeap v)"
  shows "keeps_wf v (handle_consume_data enc out pid pe v)"
proof -
  have enter: "server_good v (with_peer pe (\<lambda>p. p\<lparr>peDataConsumers := AList.update (dqId (sfDataConsumers (svSfu v1) ! n)) n (peDataConsumers p)\<rparr>) v1)"
    if run: "peer_consume_data (outChannel out) (outUp out) pid pe v = Some (Inr n, v1)" for n v1
  proof -
    note g = peer_consume_data_good [OF wf run pe]
    have wf1: "server_wf v1" using g by (auto intro: server_good_wf)
    have "server_good v1 (with_peer pe (\<lambda>p. p\<lparr>peDataConsumers := AList.update (dqId (sfDataConsumers (svSfu v1) ! n)) n (peDataConsumers p)\<rparr>) v1)"
      using g server_parts(2) [OF wf1] by (intro with_peer_good [OF wf1]) (auto intro: peer_ok_entries simp: in_heap_def)
    then show ?thesis using g by (auto intro: server_good_trans)
  qed
  show ?thesis
    unfolding handle_consume_data_def using peer_consume_data_good [OF wf _ pe, of "outChannel out" "outUp out" pid] enter
    by (intro keeps_wf_bind) (auto simp: keeps_wf_def Let_def split: sum.splits)
qed

lemma handle_join_keeps_wf:
  assumes "server_wf v" and "rm < length (svRoomHeap v)"
  shows "keeps_wf v (handle_join enc ident rm v)"
  using add_peer_good [OF assms(1) _ assms(2), of ident] by (auto simp: handle_join_def split: prod.split)

lemma message_keeps_wf:
  assumes wf: "server_wf v" and rm: "rm < length (svRoomHeap v)" and pe: "pe < length (svPeerHeap v)"
    and run: "ws_handle lib js enc now out msg rm pe v = Some (res, v')"
  shows "server_good v v'"
proof -
  have "keeps_wf v (handle_incoming_message lib js enc now out msg rm pe v)"
    using handlers_keep_wf [OF wf pe] handle_consume_keeps_wf [OF wf pe] handle_consume_data_keeps_wf [OF wf pe]
      handle_join_keeps_wf [OF wf rm] server_good_refl [OF wf]
    by (cases "message_type_of (msgMethod msg)") (simp_all add: handle_incoming_message_def with_payload_def split: option.split)
  then show ?thesis using run by (auto simp: ws_handle_def keeps_wf_def)
qed

section \<open>The running server\<close>

definition connection_ok :: "('bk, 'nq, 'tw, 'me, 'a) server \<Rightarrow> nat \<times> nat \<Rightarrow> bool" where
  "connection_ok v = (\<lambda>(rm, pe). rm < length (svRoomHeap v) \<and> pe < length (svPeerHeap v) \<and>
     peRouter (svPeerHeap v ! pe) = rmRouter (svRoomHeap v ! rm))"

definition system_wf :: "('bk, 'nq, 'tw, 'me, 'a) system \<Rightarrow> bool" where
  "system_wf y \<longleftrightarrow> server_wf (syServer y) \<and> Ball (set (syConnections y)) (connection_ok (syServer y))"

lemma connection_ok_good: "server_good v v' \<Longrightarrow> connection_ok v e \<Longrightarrow> connection_ok v' e"
  by (auto simp: connection_ok_def server_good_def server_grows_def)

lemma system_wf_server:
  assumes "system_wf y" and "server_good (syServer y) v" and "set cs \<subseteq> set (syConnections y)"
  shows "system_wf (y\<lparr>syServer := v, syConnections := cs\<rparr>)"
  using assms connection_ok_good [OF assms(2)] server_good_wf [OF assms(2)] by (auto simp: system_wf_def)

lemma system_wf_sfu:
  assumes "system_wf y" and "good (sfu_of y) s"
  shows "system_wf (in_sfu s y)"
proof -
  have "server_good (syServer y) ((syServer y)\<lparr>svSfu := s\<rparr>)"
    using assms by (intro with_sfu_good) (auto simp: system_wf_def sfu_of_def)
  from system_wf_server [OF assms(1) this order_refl] show ?thesis by (simp add: in_sfu_def)
qed

lemma system_wf_factory: "system_wf y \<Longrightarrow> factory_refs (sfu_of y) f \<Longrightarrow> system_wf (in_factory f y)"
  unfolding in_factory_def by (intro system_wf_sfu factory_good) (auto simp: system_wf_def server_wf_def sfu_of_def)

lemma system_sfu: "system_wf y \<Longrightarrow> sfu_wf (sfu_of y)"
  by (simp add: system_wf_def server_wf_def sfu_of_def)

lemma retransmit_round_good: "sfu_wf s \<Longrightarrow> retransmit_round lib now n c s = Some (u, s') \<Longrightarrow> good s s'"
  using on_track_good by (fastforce simp: retransmit_round_def)

lemma server_step_wf:
  assumes "server_step lib js enc y y'" and wf: "system_wf y"
  shows "system_wf y'"
proof -
  note sfu = system_sfu [OF wf] and refs = wf_factory [OF system_sfu [OF wf]]
  show ?thesis
  using assms(1)
proof cases
  case (enter roomId peerId conn v)
  obtain rm pe where conn: "conn = (rm, pe)" by fastforce
  have g: "server_good (syServer y) v \<and> connection_ok v conn"
    using open_connection_good [of "syServer y"] enter(2) wf by (auto simp: conn connection_ok_def system_wf_def)
  have "system_wf (y\<lparr>syServer := v, syConnections := syConnections y\<rparr>)" using system_wf_server [OF wf] g by blast
  then show ?thesis using g by (simp add: enter(1) system_wf_def)
next
  case (message rm pe now out msg rs goes_on v)
  have "connection_ok (syServer y) (rm, pe)" using wf message(2) by (auto simp: system_wf_def)
  then have "server_good (syServer y) v"
    using message_keeps_wf [OF _ _ _ message(3)] wf by (auto simp: system_wf_def connection_ok_def)
  then show ?thesis unfolding message(1) by (intro system_wf_server [OF wf]) (simp_all add: set_remove1_subset)
next
  case (leave conn)
  have "system_wf (y\<lparr>syServer := syServer y, syConnections := remove1 conn (syConnections y)\<rparr>)"
    using wf by (intro system_wf_server [OF wf] server_good_refl) (simp_all add: system_wf_def set_remove1_subset)
  then show ?thesis by (simp add: leave)
next
  case (source pt ssrc h f)
  show ?thesis using get_or_new_refs [OF refs, of pt ssrc] source(2) by (simp add: source(1) system_wf_factory [OF wf])
next
  case (packet now raw bn f)
  show ?thesis using factory_on_buffer_refs [OF packet(2) refs] by (simp add: packet(1) system_wf_factory [OF wf])
next
  case (close_buffer now bn f)
  show ?thesis using factory_close_buffer_refs [OF close_buffer(2) refs] by (simp add: close_buffer(1) system_wf_factory [OF wf])
next
  case (close_reader rn f)
  show ?thesis using factory_close_reader_refs [OF close_reader(2) refs] by (simp add: close_reader(1) system_wf_factory [OF wf])
next
  case (rtcp rn now raw s)
  show ?thesis unfolding rtcp(1) by (rule system_wf_sfu [OF wf deliver_rtcp_good [OF sfu rtcp(3)]])
next
  case (read pr now s)
  show ?thesis unfolding read(1) by (rule system_wf_sfu [OF wf read_rtp_round_good [OF sfu read(3) read(2), THEN conjunct1]])
next
  case (feedback pr bn pkts)
  show ?thesis unfolding feedback(1) by (rule system_wf_sfu [OF wf producer_send_rtcp_good [OF sfu]])
next
  case (report c now s)
  show ?thesis unfolding report(1) by (rule system_wf_sfu [OF wf write_reports_good [OF sfu report(3)]])
next
  case (retransmit c now n u s)
  show ?thesis unfolding retransmit(1) by (rule system_wf_sfu [OF wf retransmit_round_good [OF sfu retransmit(3)]])
next
  case (ice tr st)
  show ?thesis unfolding ice(1) by (rule system_wf_sfu [OF wf on_ice_state_good [OF sfu]])
next
  case (channel tr ch s)
  show ?thesis unfolding channel(1) by (rule system_wf_sfu [OF wf on_data_channel_good [OF sfu channel(3)]])
next
  case (data dp raw)
  show ?thesis unfolding data(1) by (rule system_wf_sfu [OF wf data_producer_message_good [OF sfu]])
next
  case (channel_open dc)
  show ?thesis unfolding channel_open(1) by (intro system_wf_sfu [OF wf data_consumers_update_good [OF sfu]]) simp
  qed
qed

end
