(* ===== verification/ServerSpec.thy ===== *)
theory ServerSpec
  imports SystemSpec
begin

text \<open>
  Properties of the running server: its references, the separation of its rooms, what closing a
  transport ends, and what two streams of the same source share.
\<close>

section \<open>References\<close>

lemma start_wf: "system_wf start_system"
  by (simp add: system_wf_def start_system_def server_wf_def new_server_def sfu_wf_def new_sfu_def factory_refs_def
      create_buffer_factory_def)

lemma reachable_wf: "reachable lib js enc y \<Longrightarrow> system_wf y"
  by (induction rule: reachable.induct) (auto intro: start_wf server_step_wf)


text \<open>A client enters, makes a transport and produces a stream, of which the transport has announced the source.\<close>

definition publisher_json :: "nat json_lib" where
  "publisher_json = sample_json\<lparr>parseCreate := \<lambda>s. Some False\<rparr>"

abbreviation sample_reachable :: "(u8 list list, u16 list, u16 list, nat, nat) system \<Rightarrow> bool" where
  "sample_reachable \<equiv> reachable sample_sfu_lib publisher_json (\<lambda>_. True)"

definition sample_enter :: "(u8 list list, u16 list, u16 list, nat, nat) system option" where
  "sample_enter = (case open_connection sample_sfu_lib ''1'' ''5'' (syServer start_system) of
     Some (Inr (conn, v)) \<Rightarrow> Some (start_system\<lparr>syServer := v, syConnections := [conn]\<rparr>)
   | _ \<Rightarrow> None)"

definition sample_ask ::
  "u8 \<Rightarrow> (u8 list list, u16 list, u16 list, nat, nat) system \<Rightarrow> (u8 list list, u16 list, u16 list, nat, nat) system option"
where
  "sample_ask n y = (if (0, 0) \<in> set (syConnections y) then
     case ws_handle sample_sfu_lib publisher_json (\<lambda>_. True) 0 sample_outcomes \<lparr>msgMethod = n, msgIsError = False, msgPayload = []\<rparr> 0 0
         (syServer y) of
       Some ((rs, True), v) \<Rightarrow> Some (y\<lparr>syServer := v, syConnections := syConnections y\<rparr>)
     | _ \<Rightarrow> None
   else None)"

definition sample_source ::
  "packet_type \<Rightarrow> u32 \<Rightarrow> (u8 list list, u16 list, u16 list, nat, nat) system \<Rightarrow> (u8 list list, u16 list, u16 list, nat, nat) system"
where
  "sample_source pt ssrc y = in_factory (snd (get_or_new pt ssrc (sfFactory (sfu_of y)))) y"

definition sample_producing :: "(u8 list list, u16 list, u16 list, nat, nat) system option" where
  "sample_producing = do {
     y \<leftarrow> sample_enter;
     y \<leftarrow> sample_ask 3 y;
     sample_ask 6 (sample_source RTCPBufferPacket 7 (sample_source RTPBufferPacket 7 y)) }"

lemma sample_enter_reachable: "sample_enter = Some y \<Longrightarrow> sample_reachable y"
  using server_step.enter [of sample_sfu_lib "''1''" "''5''" start_system] reachable.step [OF reachable.start]
  by (fastforce simp: sample_enter_def start_system_def split: option.splits sum.splits)

lemma sample_ask_reachable:
  assumes "sample_reachable y" and "sample_ask n y = Some y'"
  shows "sample_reachable y'"
proof -
  obtain rs v where "(0, 0) \<in> set (syConnections y)" "y' = y\<lparr>syServer := v, syConnections := syConnections y\<rparr>"
      "ws_handle sample_sfu_lib publisher_json (\<lambda>_. True) 0 sample_outcomes \<lparr>msgMethod = n, msgIsError = False, msgPayload = []\<rparr> 0 0
         (syServer y) = Some ((rs, True), v)"
    using assms(2) by (auto simp: sample_ask_def split: if_splits option.splits bool.splits)
  then have "server_step sample_sfu_lib publisher_json (\<lambda>_. True) y y'"
    using server_step.message [of 0 0 y sample_sfu_lib publisher_json "\<lambda>_. True" 0 sample_outcomes _ rs True v] by simp
  then show ?thesis by (rule reachable.step [OF assms(1)])
qed

lemma sample_source_reachable: "sample_reachable y \<Longrightarrow> sample_reachable (sample_source pt ssrc y)"
  unfolding sample_source_def by (rule reachable.step, assumption, rule server_step.source, rule prod.collapse [symmetric])

lemma sample_producing_reachable: "sample_producing = Some y \<Longrightarrow> sample_reachable y"
  by (auto simp: sample_producing_def bind_eq_Some_conv
      intro: sample_ask_reachable [OF sample_source_reachable [OF sample_source_reachable [OF sample_ask_reachable [OF sample_enter_reachable]]]])

lemma sample_producing_runs:
  "map_option (\<lambda>y. (map pdReading (sfProducers (sfu_of y)), map tpProducers (sfTransports (sfu_of y)), map tpClosed (sfTransports (sfu_of y))))
     sample_producing = Some ([True], [Some [(1, 0)]], [False])"
  by code_simp


section \<open>Rooms\<close>

text \<open>The room of a stream: the router of its transport.\<close>

definition producer_room :: "('bk, 'nq, 'tw, 'me, 'a) sfu \<Rightarrow> nat \<Rightarrow> nat" where
  "producer_room s pr = tpRouter (sfTransports s ! pdTransport (sfProducers s ! pr))"

definition consumer_room :: "('bk, 'nq, 'tw, 'me, 'a) sfu \<Rightarrow> nat \<Rightarrow> nat" where
  "consumer_room s c = tpRouter (sfTransports s ! csTransport (sfConsumers s ! c))"

text \<open>
  C3: a packet stays in its room. When a producer of the running server reads a packet and forwards it,
  every consumer of another room, with the track it sends on, and every producer of another room is as it
  was; and a consumer, whenever it was made, consumes a producer of its own room.
\<close>

theorem rooms_isolated:
  assumes "reachable lib js enc y" and "s = sfu_of y" and "pr < length (sfProducers s)"
    and "read_rtp_round lib now pr s = Some s'"
  shows "(\<forall>c. consumer_room s c \<noteq> producer_room s pr \<longrightarrow> sfConsumers s' ! c = sfConsumers s ! c) \<and>
    (\<forall>q. producer_room s q \<noteq> producer_room s pr \<longrightarrow> sfProducers s' ! q = sfProducers s ! q) \<and>
    sfRouters s' = sfRouters s \<and> sfTransports s' = sfTransports s \<and>
    (\<forall>c < length (sfConsumers s). producer_room s (csProducer (sfConsumers s ! c)) = consumer_room s c)"
proof -
  have wf: "sfu_wf s" using system_sfu [OF reachable_wf [OF assms(1)]] by (simp add: assms(2))
  have "touches (producer_room s pr) s s'"
    using read_rtp_round_good [OF wf assms(4,3)] by (simp add: producer_room_def)
  moreover have "\<forall>c < length (sfConsumers s). producer_room s (csProducer (sfConsumers s ! c)) = consumer_room s c"
    using wf_consumer [OF wf] by (simp add: consumer_ok_def producer_room_def consumer_room_def)
  ultimately show ?thesis unfolding touches_def producer_room_def consumer_room_def by metis
qed

theorem rooms_isolated_witness:
  "\<exists>y s'. sample_producing = Some y \<and> read_rtp_round sample_sfu_lib 5 0 (sfu_of y) = Some s' \<and>
    (\<forall>c. consumer_room (sfu_of y) c \<noteq> producer_room (sfu_of y) 0 \<longrightarrow> sfConsumers s' ! c = sfConsumers (sfu_of y) ! c)"
proof -
  have "Option.bind sample_producing (\<lambda>y. map_option (\<lambda>s'. map pdReading (sfProducers s')) (read_rtp_round sample_sfu_lib 5 0 (sfu_of y))) = Some [True]"
    by code_simp
  then obtain y s' where y: "sample_producing = Some y" "read_rtp_round sample_sfu_lib 5 0 (sfu_of y) = Some s'"
    by (auto simp: bind_eq_Some_conv)
  have "map pdReading (sfProducers (sfu_of y)) = [True]" using sample_producing_runs by (simp add: y(1))
  then have "0 < length (sfProducers (sfu_of y))" by auto
  then show ?thesis using rooms_isolated [OF sample_producing_reachable [OF y(1)] refl _ y(2)] y by blast
qed

section \<open>Closing a transport\<close>

lemma close_producers:
  fixes s :: "('bk, 'nq, 'tw, 'me, 'a) sfu" and ps :: "(u64 \<times> nat) list"
  defines "s' \<equiv> fold (\<lambda>(_, pr). producer_close pr) ps s"
  shows "length (sfProducers s') = length (sfProducers s)"
    "n < length (sfProducers s) \<Longrightarrow> n \<in> snd ` set ps \<Longrightarrow> pdClosed (sfProducers s' ! n) \<and>
      pdReading (sfProducers s' ! n) = pdReading (sfProducers s ! n)"
    "n \<notin> snd ` set ps \<Longrightarrow> sfProducers s' ! n = sfProducers s ! n"
    "sfConsumers s' = sfConsumers s" "sfTransports s' = sfTransports s"
proof -
  have "length (sfProducers s') = length (sfProducers s) \<and> sfConsumers s' = sfConsumers s \<and> sfTransports s' = sfTransports s \<and>
      (\<forall>n < length (sfProducers s). pdReading (sfProducers s' ! n) = pdReading (sfProducers s ! n) \<and>
        (pdClosed (sfProducers s ! n) \<or> n \<in> snd ` set ps \<longrightarrow> pdClosed (sfProducers s' ! n))) \<and>
      (\<forall>n. n \<notin> snd ` set ps \<longrightarrow> sfProducers s' ! n = sfProducers s ! n)"
    unfolding s'_def
  proof (induction ps arbitrary: s)
    case (Cons p ps)
    let ?s = "producer_close (snd p) s"
    have "length (sfProducers ?s) = length (sfProducers s)" "sfConsumers ?s = sfConsumers s" "sfTransports ?s = sfTransports s"
      by (simp_all add: producer_close_def)
    moreover have "pdReading (sfProducers ?s ! n) = pdReading (sfProducers s ! n) \<and>
        (pdClosed (sfProducers s ! n) \<or> n = snd p \<longrightarrow> pdClosed (sfProducers ?s ! n))" if "n < length (sfProducers s)" for n
      using that by (simp add: producer_close_def modify_nth)
    moreover have "sfProducers ?s ! n = sfProducers s ! n" if "n \<noteq> snd p" for n
      using that by (simp add: producer_close_def modify_out)
    ultimately show ?case using Cons.IH [of ?s] by (auto simp: split_beta)
  qed simp
  then show "length (sfProducers s') = length (sfProducers s)"
    "n < length (sfProducers s) \<Longrightarrow> n \<in> snd ` set ps \<Longrightarrow> pdClosed (sfProducers s' ! n) \<and>
      pdReading (sfProducers s' ! n) = pdReading (sfProducers s ! n)"
    "n \<notin> snd ` set ps \<Longrightarrow> sfProducers s' ! n = sfProducers s ! n"
    "sfConsumers s' = sfConsumers s" "sfTransports s' = sfTransports s"
    by blast+
qed

lemma close_consumers:
  fixes s :: "('bk, 'nq, 'tw, 'me, 'a) sfu" and cs :: "(u64 \<times> nat) list"
  defines "s' \<equiv> fold (\<lambda>(_, c). consumer_close c) cs s"
  shows "length (sfConsumers s') = length (sfConsumers s)"
    "n < length (sfConsumers s) \<Longrightarrow> n \<in> snd ` set cs \<Longrightarrow> csClosed (sfConsumers s' ! n)"
    "n \<notin> snd ` set cs \<Longrightarrow> sfConsumers s' ! n = sfConsumers s ! n"
    "sfProducers s' = sfProducers s" "sfTransports s' = sfTransports s"
proof -
  have "length (sfConsumers s') = length (sfConsumers s) \<and> sfProducers s' = sfProducers s \<and> sfTransports s' = sfTransports s \<and>
      (\<forall>n < length (sfConsumers s). csClosed (sfConsumers s ! n) \<or> n \<in> snd ` set cs \<longrightarrow> csClosed (sfConsumers s' ! n)) \<and>
      (\<forall>n. n \<notin> snd ` set cs \<longrightarrow> sfConsumers s' ! n = sfConsumers s ! n)"
    unfolding s'_def
  proof (induction cs arbitrary: s)
    case (Cons p cs)
    let ?s = "consumer_close (snd p) s"
    have "length (sfConsumers ?s) = length (sfConsumers s)" "sfProducers ?s = sfProducers s" "sfTransports ?s = sfTransports s"
      by (simp_all add: consumer_close_def)
    moreover have "csClosed (sfConsumers s ! n) \<or> n = snd p \<longrightarrow> csClosed (sfConsumers ?s ! n)" if "n < length (sfConsumers s)" for n
      using that by (simp add: consumer_close_def modify_nth)
    moreover have "sfConsumers ?s ! n = sfConsumers s ! n" if "n \<noteq> snd p" for n
      using that by (simp add: consumer_close_def modify_out)
    ultimately show ?case using Cons.IH [of ?s] by (auto simp: split_beta)
  qed simp
  then show "length (sfConsumers s') = length (sfConsumers s)"
    "n < length (sfConsumers s) \<Longrightarrow> n \<in> snd ` set cs \<Longrightarrow> csClosed (sfConsumers s' ! n)"
    "n \<notin> snd ` set cs \<Longrightarrow> sfConsumers s' ! n = sfConsumers s ! n"
    "sfProducers s' = sfProducers s" "sfTransports s' = sfTransports s"
    by blast+
qed



text \<open>A closed transport makes no stream: its maps are gone, and entering one panics.\<close>

lemma add_producer_transports: "add_producer lib now r pr s = Some (err, s') \<Longrightarrow> sfTransports s' = sfTransports s"
  by (auto simp: add_producer_def Let_def split: option.splits prod.splits)

lemma next_id_maps:
  "transport_next_id k tr s = Some (n, s') \<Longrightarrow> tpProducers (sfTransports s' ! tr) = tpProducers (sfTransports s ! tr) \<and>
    tpConsumers (sfTransports s' ! tr) = tpConsumers (sfTransports s ! tr)"
  by (cases "tr < length (sfTransports s)") (auto simp: transport_next_id_def modify_nth modify_def not_less list_update_beyond)

lemma produce_stream_needs_map:
  assumes "tpProducers (sfTransports s ! tr) = None" and "tr < length (sfTransports s)"
  shows "produce_stream lib now ident ssrc codec kind prm tr s \<noteq> Some (Inr pr, s')"
proof
  assume run: "produce_stream lib now ident ssrc codec kind prm tr s = Some (Inr pr, s')"
  define s1 where "s1 = with_transport tr (\<lambda>t. if tpTwcc t = None then t\<lparr>tpTwcc := Some (slNewTwcc lib ssrc)\<rparr> else t) s"
  obtain pid s2 where s2: "transport_next_id RTPProducerID tr s1 = Some (pid, s2)"
    using run unfolding produce_stream_def Let_def s1_def [symmetric] by (auto simp: bind_eq_Some_conv)
  have none: "tpProducers (sfTransports s2 ! tr) = None"
    using next_id_maps [OF s2] assms by (simp add: s1_def modify_nth)
  define s3 where "s3 = s2\<lparr>sfProducers := sfProducers s2 @
       [new_producer lib pid ident ssrc codec kind prm tr (tpTwcc (sfTransports s2 ! tr))]\<rparr>"
  have "sfTransports s3 = sfTransports s2" by (simp add: s3_def)
  then show False
    using run none unfolding produce_stream_def Let_def s1_def [symmetric] s2 bind.bind_lunit prod.case s3_def [symmetric]
    by (auto simp: nil_put_def bind_eq_Some_conv dest!: add_producer_transports split: option.splits)
qed

lemma new_consumer_transports: "new_consumer now outcome cid pr d tr paused s = Some (res, s') \<Longrightarrow> sfTransports s' = sfTransports s"
  by (auto simp: new_consumer_def Let_def split: sender_outcome.splits if_splits)

lemma add_consumer_transports: "add_consumer r c s = Some (err, s') \<Longrightarrow> sfTransports s' = sfTransports s"
  by (auto simp: add_consumer_def Let_def split: option.splits)

lemma consume_needs_map:
  assumes "tpConsumers (sfTransports s ! tr) = None" and "tr < length (sfTransports s)"
  shows "consume lib now ident outcome pid paused tr s \<noteq> Some (Inr res, s')"
proof
  assume run: "consume lib now ident outcome pid paused tr s = Some (Inr res, s')"
  obtain pr where pr: "nil_get (roProducers (sfRouters s ! tpRouter (sfTransports s ! tr))) pid = Some pr"
    using run by (auto simp: consume_def Let_def split: option.splits)
  let ?p = "sfProducers s ! pr"
  obtain ok me where me: "setup_consumer_media_engine (slEngine lib) (slConsts lib)
      (parameters_from_ortc (slPrinting lib) (receive_to_parameters (pdParameters ?p))) (pdKind ?p) (tpEngine (sfTransports s ! tr)) = (ok, me)"
    by force
  define s1 where "s1 = with_transport tr (\<lambda>t. t\<lparr>tpBwe := True\<rparr>) (with_transport tr (\<lambda>t. t\<lparr>tpEngine := me\<rparr>) s)"
  have s1: "tpConsumers (sfTransports s1 ! tr) = None" using assms by (simp add: s1_def modify_nth)
  obtain mid s2 where s2: "transport_next_id MidID tr s1 = Some (mid, s2)"
    using run unfolding consume_def Let_def pr option.case me prod.case s1_def [symmetric]
    by (auto simp: bind_eq_Some_conv split: if_splits)
  obtain cid s3 where s3: "transport_next_id RTPConsumerID tr s2 = Some (cid, s3)"
    using run unfolding consume_def Let_def pr option.case me prod.case s1_def [symmetric] s2 bind.bind_lunit
    by (auto simp: bind_eq_Some_conv split: if_splits)
  have none: "tpConsumers (sfTransports s3 ! tr) = None" using next_id_maps [OF s2] next_id_maps [OF s3] s1 by simp
  let ?d = "on_transport_cc_feedback (new_down_track now ident (pdStreamID ?p) mid (pdCodec ?p) 500)"
  obtain a s4 where s4: "new_consumer now outcome cid pr ?d tr paused s3 = Some (a, s4)"
    using run unfolding consume_def Let_def pr option.case me prod.case s1_def [symmetric] s2 s3 bind.bind_lunit
    by (auto simp: bind_eq_Some_conv split: if_splits)
  show False
  proof (cases a)
    case (Inl e)
    then show False
      using run unfolding consume_def Let_def pr option.case me prod.case s1_def [symmetric] s2 s3 s4 bind.bind_lunit
      by (simp split: if_splits)
  next
    case (Inr c)
    obtain err s5 where s5: "add_consumer (tpRouter (sfTransports s ! tr)) c s4 = Some (err, s5)"
      using run unfolding consume_def Let_def pr option.case me prod.case s1_def [symmetric] s2 s3 s4 Inr sum.case bind.bind_lunit
      by (auto simp: bind_eq_Some_conv split: if_splits)
    have "tpConsumers (sfTransports s5 ! tr) = None"
      using none new_consumer_transports [OF s4] add_consumer_transports [OF s5] by simp
    then show False
      using run unfolding consume_def Let_def pr option.case me prod.case s1_def [symmetric] s2 s3 s4 s5 Inr sum.case bind.bind_lunit
      by (simp add: nil_put_def split: if_splits)
  qed
qed

text \<open>
  C40: a transport that was closed makes no stream again. Its maps are set to \<^verbatim>\<open>nil\<close>, so \<^verbatim>\<open>Produce\<close> and
  \<^verbatim>\<open>Consume\<close> either answer an error on the way or panic where they enter the new stream, by then made and
  running, into the map; neither ever returns one.
\<close>

theorem closed_transport_makes_no_stream:
  assumes "tr < length (sfTransports s)" and "\<not> tpClosed (sfTransports s ! tr)" and "s' = transport_close tr s"
  shows "produce lib now ident ro kind prm tr s' \<noteq> Some (Inr pr, s2) \<and>
    consume lib now ident so pid paused tr s' \<noteq> Some (Inr res, s2)"
proof -
  have gone: "tr < length (sfTransports s')" "tpProducers (sfTransports s' ! tr) = None" "tpConsumers (sfTransports s' ! tr) = None"
    using assms by (simp_all add: transport_close_def Let_def close_consumers(5) close_producers(5) modify_nth)
  have "produce lib now ident ro kind prm tr s' \<noteq> Some (Inr pr, s2)"
    using produce_stream_needs_map [of "with_transport tr (tpEngine_update (\<lambda>_. me)) s'" tr for me] gone
    by (simp add: produce_def Let_def modify_nth split: prod.split receiver_outcome.split)
  then show ?thesis using consume_needs_map [OF gone(3,1)] by blast
qed

theorem closed_transport_makes_no_stream_witness:
  "produce_first (transport_close 0 sample_room) = None"
proof -
  have "0 < length (sfTransports sample_room)" "\<not> tpClosed (sfTransports sample_room ! 0)"
    by (simp_all add: sample_room_def make_transport_def)
  note none = closed_transport_makes_no_stream [OF this refl, THEN conjunct1, of sample_sfu_lib 1 "''p''" "Receives 7 sample_opus"
      CodecAudio sample_receive, folded produce_first_def]
  have "case produce_first (transport_close 0 sample_room) of Some (Inl e, _) \<Rightarrow> False | _ \<Rightarrow> True" by code_simp
  then show ?thesis using none by (auto split: option.splits sum.splits) blast
qed

section \<open>Streams of one source\<close>

text \<open>What the factory keeps while a producer is added.\<close>

lemma factory_on_buffer_maps:
  "factory_on_buffer op n f = Some f' \<Longrightarrow> fcBuffers f' = fcBuffers f \<and> fcReaders f' = fcReaders f \<and> fcReaderHeap f' = fcReaderHeap f"
  by (auto simp: factory_on_buffer_def)

lemma factory_on_packet_maps:
  "factory_on_packet h n f = Some f' \<Longrightarrow> fcBuffers f' = fcBuffers f \<and> fcReaders f' = fcReaders f \<and> n < length (fcReaderHeap f) \<and>
    rdOnPacket (fcReaderHeap f' ! n) = Some h"
  by (auto simp: factory_on_packet_def go_index_eq_Some_iff reader_on_packet_def)

lemma add_producer_source:
  assumes "add_producer lib now r pr s = Some (None, s')" and "pr < length (sfProducers s)"
  shows "fcBuffers (sfFactory s) (pdSSRC (sfProducers s ! pr)) \<noteq> None \<and>
    pdBuffer (sfProducers s' ! pr) = fcBuffers (sfFactory s) (pdSSRC (sfProducers s ! pr)) \<and>
    (\<forall>q. q \<noteq> pr \<longrightarrow> sfProducers s' ! q = sfProducers s ! q) \<and> length (sfProducers s') = length (sfProducers s) \<and>
    fcBuffers (sfFactory s') = fcBuffers (sfFactory s) \<and> fcReaders (sfFactory s') = fcReaders (sfFactory s) \<and>
    (\<exists>rn. fcReaders (sfFactory s) (pdSSRC (sfProducers s ! pr)) = Some rn \<and>
      rdOnPacket (fcReaderHeap (sfFactory s') ! rn) = Some (ToProducer pr))"
  using assms
  by (auto simp: add_producer_def Let_def get_buffer_pair_def modify_nth modify_out
      dest!: factory_on_buffer_maps factory_on_packet_maps split: option.splits prod.splits)

text \<open>The new producer of a source has its buffer, and the handler of its reader.\<close>

definition takes_source :: "u32 \<Rightarrow> ('bk, 'nq, 'tw, 'me, 'a) sfu \<Rightarrow> nat \<Rightarrow> ('bk, 'nq, 'tw, 'me, 'a) sfu \<Rightarrow> bool" where
  "takes_source ssrc s pr s' \<longleftrightarrow>
     pr = length (sfProducers s) \<and> length (sfProducers s') = Suc pr \<and> (\<forall>q < pr. sfProducers s' ! q = sfProducers s ! q) \<and>
     pdBuffer (sfProducers s' ! pr) = fcBuffers (sfFactory s) ssrc \<and> fcBuffers (sfFactory s) ssrc \<noteq> None \<and>
     fcBuffers (sfFactory s') = fcBuffers (sfFactory s) \<and>
     (\<exists>rn. fcReaders (sfFactory s') ssrc = Some rn \<and> rdOnPacket (fcReaderHeap (sfFactory s') ! rn) = Some (ToProducer pr))"

lemma takes_source_transport: "takes_source ssrc (with_transport tr f s) pr s' = takes_source ssrc s pr s'"
  by (simp add: takes_source_def)

lemma produce_stream_source:
  assumes "produce_stream lib now ident ssrc codec kind prm tr s = Some (Inr pr, s')"
  shows "takes_source ssrc s pr s'"
proof -
  define s1 where "s1 = with_transport tr (\<lambda>t. if tpTwcc t = None then t\<lparr>tpTwcc := Some (slNewTwcc lib ssrc)\<rparr> else t) s"
  obtain pid s2 where s2: "transport_next_id RTPProducerID tr s1 = Some (pid, s2)"
    using assms unfolding produce_stream_def Let_def s1_def [symmetric] by (auto simp: bind_eq_Some_conv)
  have same: "sfProducers s2 = sfProducers s" "sfFactory s2 = sfFactory s" using s2 by (auto simp: transport_next_id_def s1_def)
  define p where "p = new_producer lib pid ident ssrc codec kind prm tr (tpTwcc (sfTransports s2 ! tr))"
  define s3 where "s3 = s2\<lparr>sfProducers := sfProducers s2 @ [p]\<rparr>"
  have s3: "sfProducers s3 = sfProducers s @ [p]" "sfFactory s3 = sfFactory s" "pdSSRC p = ssrc" "sfTransports s3 = sfTransports s2"
    by (simp_all add: s3_def same p_def new_producer_def)
  have eq: "produce_stream lib now ident ssrc codec kind prm tr s =
    Option.bind (add_producer lib now (tpRouter (sfTransports s3 ! tr)) (length (sfProducers s2)) s3) (\<lambda>(err, s4). case err of
       Some e \<Rightarrow> Some (Inl e, s4)
     | None \<Rightarrow> Option.bind (nil_put pid (length (sfProducers s2)) (tpProducers (sfTransports
           (with_producer (length (sfProducers s2)) (\<lambda>p. p\<lparr>pdReading := True\<rparr>) s4) ! tr)))
         (\<lambda>m. Some (Inr (length (sfProducers s2)), with_transport tr (\<lambda>t. t\<lparr>tpProducers := m\<rparr>)
           (with_producer (length (sfProducers s2)) (\<lambda>p. p\<lparr>pdReading := True\<rparr>) s4))))"
    unfolding produce_stream_def Let_def s1_def [symmetric] s2 bind.bind_lunit prod.case p_def [symmetric] s3_def [symmetric]
    by (rule refl)
  obtain err s4 where s4: "add_producer lib now (tpRouter (sfTransports s3 ! tr)) (length (sfProducers s2)) s3 = Some (err, s4)"
    using assms unfolding eq by (cases "add_producer lib now (tpRouter (sfTransports s3 ! tr)) (length (sfProducers s2)) s3") auto
  have "err = None" using assms unfolding eq s4 by (cases err) simp_all
  note s4 = s4 [unfolded this same]
  obtain m where res: "pr = length (sfProducers s)"
      "s' = with_transport tr (\<lambda>t. t\<lparr>tpProducers := m\<rparr>) (with_producer (length (sfProducers s)) (\<lambda>p. p\<lparr>pdReading := True\<rparr>) s4)"
    using assms unfolding eq same s4 bind.bind_lunit prod.case option.case by (auto simp: bind_eq_Some_conv)
  note added = add_producer_source [OF s4]
  let ?n = "length (sfProducers s)"
  have ssrc: "pdSSRC (sfProducers s3 ! ?n) = ssrc" "?n < length (sfProducers s3)" using s3 by simp_all
  have s': "sfProducers s' = modify ?n (\<lambda>p. p\<lparr>pdReading := True\<rparr>) (sfProducers s4)" "sfFactory s' = sfFactory s4"
    by (simp_all add: res(2))
  note added = added [OF ssrc(2), unfolded ssrc(1) s3(2)]
  have "length (sfProducers s4) = Suc ?n" using added s3(1) by simp
  moreover have "sfProducers s4 ! q = sfProducers s ! q" if "q < ?n" for q
    using added that s3(1) by (simp add: nth_append)
  ultimately show ?thesis using added unfolding takes_source_def res(1) s' by (simp add: modify_nth)
qed

lemma produce_source:
  assumes "produce lib now ident (Receives ssrc codec) kind prm tr s = Some (Inr pr, s')"
  shows "takes_source ssrc s pr s'"
proof -
  obtain me where "produce_stream lib now ident ssrc codec kind prm tr (with_transport tr (\<lambda>t. t\<lparr>tpEngine := me\<rparr>) s) = Some (Inr pr, s')"
    using assms by (auto simp: produce_def Let_def split: prod.splits if_splits)
  from produce_stream_source [OF this] show ?thesis by (simp only: takes_source_transport)
qed

text \<open>
  C20: the buffers are found by the number of their source, which clients choose, and the factory is one for
  all rooms. When two clients, of one room or of two, produce a stream with the same number, the producers
  share one buffer: each packet of either client reaches the one of the two reading loops that takes it
  first, and the sender reports of both clients go to the second producer.
\<close>

theorem streams_of_one_source_share:
  assumes "produce lib t1 i1 (Receives ssrc c1) k1 prm1 tr1 s = Some (Inr p1, s1)"
    and "produce lib t2 i2 (Receives ssrc c2) k2 prm2 tr2 s1 = Some (Inr p2, s2)"
  shows "p1 \<noteq> p2 \<and> pdBuffer (sfProducers s2 ! p1) \<noteq> None \<and> pdBuffer (sfProducers s2 ! p1) = pdBuffer (sfProducers s2 ! p2) \<and>
    (\<exists>rn. get_rtcp_reader ssrc (sfFactory s2) = Some rn \<and>
      (\<forall>now raw. rdClosed (fcReaderHeap (sfFactory s2) ! rn) \<or> deliver_rtcp lib now rn raw s2 = producer_handle_rtcp lib now raw p2 s2))"
proof -
  have e1: "p1 = length (sfProducers s)" "length (sfProducers s1) = Suc p1" "pdBuffer (sfProducers s1 ! p1) = fcBuffers (sfFactory s) ssrc"
      "fcBuffers (sfFactory s) ssrc \<noteq> None" "fcBuffers (sfFactory s1) = fcBuffers (sfFactory s)"
    using produce_source [OF assms(1)] by (auto simp: takes_source_def)
  have e2: "p2 = length (sfProducers s1)" "\<forall>q < p2. sfProducers s2 ! q = sfProducers s1 ! q"
      "pdBuffer (sfProducers s2 ! p2) = fcBuffers (sfFactory s1) ssrc"
    using produce_source [OF assms(2)] by (auto simp: takes_source_def)
  obtain rn where rn: "fcReaders (sfFactory s2) ssrc = Some rn" "rdOnPacket (fcReaderHeap (sfFactory s2) ! rn) = Some (ToProducer p2)"
    using produce_source [OF assms(2)] by (auto simp: takes_source_def)
  have lt: "p1 < p2" using e1(2) e2(1) by simp
  then have "sfProducers s2 ! p1 = sfProducers s1 ! p1" using e2(2) by blast
  then have "pdBuffer (sfProducers s2 ! p1) \<noteq> None" "pdBuffer (sfProducers s2 ! p1) = pdBuffer (sfProducers s2 ! p2)"
    using e1(3,4,5) e2(3) by simp_all
  moreover have "rdClosed (fcReaderHeap (sfFactory s2) ! rn) \<or> deliver_rtcp lib now rn raw s2 = producer_handle_rtcp lib now raw p2 s2" for now raw
    using rn by (simp add: deliver_rtcp_def reader_write_def)
  ultimately show ?thesis using lt rn(1) unfolding get_rtcp_reader_def by blast
qed

definition sample_two_rooms :: "(u8 list list, u16 list, u16 list, nat, nat) sfu" where
  "sample_two_rooms = sample_room\<lparr>sfRouters := map (\<lambda>n. make_router n \<lparr>capCodecs = [], capHeaderExtensions = []\<rparr>) [1, 2],
     sfTransports := [make_transport 1 0 0 sample_caps (Some False), make_transport 1 1 0 sample_caps (Some False)]\<rparr>"

definition produce_again where
  "produce_again = produce sample_sfu_lib 2 ''q'' (Receives 7 sample_opus) CodecAudio sample_receive 1"

theorem streams_of_one_source_share_witness:
  "\<exists>s1 s2. produce_first sample_two_rooms = Some (Inr 0, s1) \<and> produce_again s1 = Some (Inr 1, s2) \<and>
    producer_room s2 0 = 0 \<and> producer_room s2 1 = 1 \<and>
    pdBuffer (sfProducers s2 ! 0) \<noteq> None \<and> pdBuffer (sfProducers s2 ! 0) = pdBuffer (sfProducers s2 ! 1)"
proof -
  have "Option.bind (produce_first sample_two_rooms) (\<lambda>(a, s). map_option (\<lambda>(b, s2). (a, b, producer_room s2 0, producer_room s2 1)) (produce_again s))
      = Some (Inr 0, Inr 1, 0, 1)"
    by code_simp
  then obtain s1 s2 where run: "produce_first sample_two_rooms = Some (Inr 0, s1)" "produce_again s1 = Some (Inr 1, s2)"
      "producer_room s2 0 = 0" "producer_room s2 1 = 1"
    by (auto simp: bind_eq_Some_conv)
  then show ?thesis
    using streams_of_one_source_share [OF run(1,2) [unfolded produce_first_def produce_again_def]] by blast
qed

end
