(* ===== verification/Saver.thy ===== *)
theory Saver
  imports GoRuntime Interfaces MediaEngine
begin

unbundle bit_operations_syntax

text \<open>
  Recording a stream into a file (\<^verbatim>\<open>pkg/saver/webm.go\<close>, and \<^verbatim>\<open>Router.storeConsumerData\<close> that uses it).
  The sample builders and the writer of the file are libraries: a builder takes packets and gives up
  samples, the writer takes blocks. The result of a push is \<open>None\<close> when its loop never ends, and
  \<open>Some None\<close> when it panics.
\<close>

section \<open>The saver\<close>

record media_sample =
  smData :: "u8 list"
  smDuration :: duration

record webm_block =
  bkKey :: bool
  bkTime :: int
  bkData :: "u8 list"

record ('p, 'b) saver_lib =
  sbPush :: "'p \<Rightarrow> 'b \<Rightarrow> 'b"
  sbPop :: "'b \<Rightarrow> media_sample option \<times> 'b"
  wrOpens :: "int \<Rightarrow> int \<Rightarrow> bool"
  wrAccepts :: "webm_block \<Rightarrow> bool"

text \<open>The entries of the file's header: what kind of track each is, and the size of the video.\<close>

record webm_track =
  trName :: string
  trNumber :: u64
  trUID :: u64
  trCodecID :: string
  trType :: u64
  trDefaultDuration :: u64
  trAudio :: "(nat \<times> nat) option"
  trVideo :: "(u64 \<times> u64) option"

definition track_entries :: "int \<Rightarrow> int \<Rightarrow> webm_track list" where
  "track_entries width height =
     [\<lparr>trName = ''Audio'', trNumber = 1, trUID = 12345, trCodecID = ''A_OPUS'', trType = 2, trDefaultDuration = 20000000,
        trAudio = Some (48000, 2), trVideo = None\<rparr>,
      \<lparr>trName = ''Video'', trNumber = 2, trUID = 67890, trCodecID = ''V_VP8'', trType = 1, trDefaultDuration = 33333333,
        trAudio = None, trVideo = Some (word_of_int width, word_of_int height)\<rparr>]"

text \<open>A writer is the list of the blocks that its track of the file holds.\<close>

record 'b webm_saver =
  swAudioWriter :: "webm_block list option"
  swVideoWriter :: "webm_block list option"
  swHeader :: "webm_track list option"
  swAudioBuilder :: 'b
  swVideoBuilder :: 'b
  swAudioTimestamp :: duration
  swVideoTimestamp :: duration

definition new_webm_saver :: "'b \<Rightarrow> 'b \<Rightarrow> 'b webm_saver" where
  "new_webm_saver ba bv = \<lparr>swAudioWriter = None, swVideoWriter = None, swHeader = None, swAudioBuilder = ba,
     swVideoBuilder = bv, swAudioTimestamp = 0, swVideoTimestamp = 0\<rparr>"

text \<open>Opening the file empties it.\<close>

definition init_writer :: "('p, 'b) saver_lib \<Rightarrow> int \<Rightarrow> int \<Rightarrow> 'b webm_saver \<Rightarrow> 'b webm_saver option" where
  "init_writer lib width height s =
     (if wrOpens lib width height
      then Some (s\<lparr>swHeader := Some (track_entries width height), swAudioWriter := Some [], swVideoWriter := Some []\<rparr>) else None)"

definition write_block :: "('p, 'b) saver_lib \<Rightarrow> webm_block \<Rightarrow> webm_block list \<Rightarrow> webm_block list option" where
  "write_block lib blk w = (if wrAccepts lib blk then Some (w @ [blk]) else None)"

definition audio_sample :: "('p, 'b) saver_lib \<Rightarrow> media_sample \<Rightarrow> 'b webm_saver \<Rightarrow> 'b webm_saver option" where
  "audio_sample lib x s = (case swAudioWriter s of
     None \<Rightarrow> Some s
   | Some w \<Rightarrow> do {
       let t = wrap64 (swAudioTimestamp s + smDuration x);
       w \<leftarrow> write_block lib \<lparr>bkKey = True, bkTime = milliseconds t, bkData = smData x\<rparr> w;
       Some (s\<lparr>swAudioTimestamp := t, swAudioWriter := Some w\<rparr>) })"

text \<open>The width and the height in the header of a key frame; a frame that is too short panics.\<close>

definition frame_size :: "u8 list \<Rightarrow> (int \<times> int) option" where
  "frame_size bytes = do {
     b6 \<leftarrow> go_index bytes 6;
     b7 \<leftarrow> go_index bytes 7;
     b8 \<leftarrow> go_index bytes 8;
     b9 \<leftarrow> go_index bytes 9;
     let raw = (ucast b6 :: u64) OR push_bit 8 (ucast b7) OR push_bit 16 (ucast b8) OR push_bit 24 (ucast b9);
     Some (uint (raw AND 0x3FFF), uint (drop_bit 16 raw AND 0x3FFF)) }"

definition video_sample :: "('p, 'b) saver_lib \<Rightarrow> media_sample \<Rightarrow> 'b webm_saver \<Rightarrow> 'b webm_saver option" where
  "video_sample lib x s = do {
     b0 \<leftarrow> go_index (smData x) 0;
     let key = (b0 AND 1 = 0);
     s \<leftarrow> (if key then do {
         (width, height) \<leftarrow> frame_size (smData x);
         if swVideoWriter s = None \<or> swAudioWriter s = None then init_writer lib width height s else Some s }
       else Some s);
     (case swVideoWriter s of
        None \<Rightarrow> Some s
      | Some w \<Rightarrow> do {
          let t = wrap64 (swVideoTimestamp s + smDuration x);
          w \<leftarrow> write_block lib \<lparr>bkKey = key, bkTime = milliseconds t, bkData = smData x\<rparr> w;
          Some (s\<lparr>swVideoTimestamp := t, swVideoWriter := Some w\<rparr>) }) }"

text \<open>The loops that take the samples out of a builder until it has none.\<close>

partial_function (option) drain_audio :: "('p, 'b) saver_lib \<Rightarrow> 'b webm_saver \<Rightarrow> 'b webm_saver option option" where
  [code]: "drain_audio lib s =
     (case fst (sbPop lib (swAudioBuilder s)) of
        None \<Rightarrow> Some (Some (s\<lparr>swAudioBuilder := snd (sbPop lib (swAudioBuilder s))\<rparr>))
      | Some x \<Rightarrow> (case audio_sample lib x (s\<lparr>swAudioBuilder := snd (sbPop lib (swAudioBuilder s))\<rparr>) of
          None \<Rightarrow> Some None
        | Some s' \<Rightarrow> drain_audio lib s'))"

partial_function (option) drain_video :: "('p, 'b) saver_lib \<Rightarrow> 'b webm_saver \<Rightarrow> 'b webm_saver option option" where
  [code]: "drain_video lib s =
     (case fst (sbPop lib (swVideoBuilder s)) of
        None \<Rightarrow> Some (Some (s\<lparr>swVideoBuilder := snd (sbPop lib (swVideoBuilder s))\<rparr>))
      | Some x \<Rightarrow> (case video_sample lib x (s\<lparr>swVideoBuilder := snd (sbPop lib (swVideoBuilder s))\<rparr>) of
          None \<Rightarrow> Some None
        | Some s' \<Rightarrow> drain_video lib s'))"

definition push_opus :: "('p, 'b) saver_lib \<Rightarrow> 'p \<Rightarrow> 'b webm_saver \<Rightarrow> 'b webm_saver option option" where
  "push_opus lib p s = drain_audio lib (s\<lparr>swAudioBuilder := sbPush lib p (swAudioBuilder s)\<rparr>)"

definition push_vp8 :: "('p, 'b) saver_lib \<Rightarrow> 'p \<Rightarrow> 'b webm_saver \<Rightarrow> 'b webm_saver option option" where
  "push_vp8 lib p s = drain_video lib (s\<lparr>swVideoBuilder := sbPush lib p (swVideoBuilder s)\<rparr>)"

text \<open>\<^verbatim>\<open>Close\<close>: closing a writer may fail, which panics.\<close>

definition saver_close :: "bool \<Rightarrow> bool \<Rightarrow> 'b webm_saver \<Rightarrow> 'b webm_saver option" where
  "saver_close audio_closes video_closes s =
     (if swAudioWriter s \<noteq> None \<and> \<not> audio_closes then None
      else if swVideoWriter s \<noteq> None \<and> \<not> video_closes then None
      else Some s)"

text \<open>\<^verbatim>\<open>Router.storeConsumerData\<close>: the saver it makes, and what it does with a packet of the consumer.\<close>

definition store_consumer_data :: "('p, 'b) saver_lib \<Rightarrow> 'b \<Rightarrow> 'b \<Rightarrow> 'b webm_saver option" where
  "store_consumer_data lib ba bv = init_writer lib 0 0 (new_webm_saver ba bv)"

definition store_packet :: "('p, 'b) saver_lib \<Rightarrow> media_kind \<Rightarrow> 'p \<Rightarrow> 'b webm_saver \<Rightarrow> 'b webm_saver option option" where
  "store_packet lib kind p s =
     (if kind = AudioMediaKind then push_opus lib p s
      else if kind = VideoMediaKind then push_vp8 lib p s else Some (Some s))"

end
