(* ===== verification/SaverSpec.thy ===== *)
theory SaverSpec
  imports Saver
begin

unbundle bit_operations_syntax

text \<open>
  What a recording holds: nothing before the first key frame of the video, and from there every sample of
  both tracks in its order, with the running time of its track.
\<close>

section \<open>From packets to samples\<close>

datatype sample_event = AudioSample media_sample | VideoSample media_sample

datatype 'p pushed = Opus 'p | VP8 'p

fun take_sample :: "('p, 'b) saver_lib \<Rightarrow> sample_event \<Rightarrow> 'b webm_saver \<Rightarrow> 'b webm_saver option" where
  "take_sample lib (AudioSample x) = audio_sample lib x"
| "take_sample lib (VideoSample x) = video_sample lib x"

fun push_all :: "('p, 'b) saver_lib \<Rightarrow> 'p pushed list \<Rightarrow> 'b webm_saver \<Rightarrow> 'b webm_saver option option" where
  "push_all lib [] s = Some (Some s)"
| "push_all lib (p # ps) s = (case (case p of Opus p \<Rightarrow> push_opus lib p s | VP8 p \<Rightarrow> push_vp8 lib p s) of
     Some (Some s') \<Rightarrow> push_all lib ps s'
   | r \<Rightarrow> r)"

text \<open>
  A builder has a queue of finished samples, which \<^verbatim>\<open>Pop\<close> takes one by one until it answers \<^verbatim>\<open>nil\<close>.
\<close>

definition drains :: "('p, 'b) saver_lib \<Rightarrow> ('b \<Rightarrow> media_sample list) \<Rightarrow> bool" where
  "drains lib ready \<longleftrightarrow> (\<forall>b. case ready b of
     [] \<Rightarrow> fst (sbPop lib b) = None
   | x # xs \<Rightarrow> fst (sbPop lib b) = Some x \<and> ready (snd (sbPop lib b)) = xs)"

definition drained :: "('p, 'b) saver_lib \<Rightarrow> ('b \<Rightarrow> media_sample list) \<Rightarrow> 'b \<Rightarrow> 'b" where
  "drained lib ready b = ((\<lambda>b. snd (sbPop lib b)) ^^ Suc (length (ready b))) b"

text \<open>The samples that the two builders give up while packets are pushed.\<close>

fun arrivals :: "('p, 'b) saver_lib \<Rightarrow> ('b \<Rightarrow> media_sample list) \<Rightarrow> 'p pushed list \<Rightarrow> 'b \<Rightarrow> 'b \<Rightarrow> sample_event list" where
  "arrivals lib ready [] ba bv = []"
| "arrivals lib ready (Opus p # ps) ba bv = (let b = sbPush lib p ba in
     map AudioSample (ready b) @ arrivals lib ready ps (drained lib ready b) bv)"
| "arrivals lib ready (VP8 p # ps) ba bv = (let b = sbPush lib p bv in
     map VideoSample (ready b) @ arrivals lib ready ps ba (drained lib ready b))"

text \<open>The samples do not depend on the builders.\<close>

definition with_builders :: "'b \<Rightarrow> 'b \<Rightarrow> 'b webm_saver \<Rightarrow> 'b webm_saver" where
  "with_builders ba bv s = s\<lparr>swAudioBuilder := ba, swVideoBuilder := bv\<rparr>"

lemma with_builders_sel [simp]:
  "swAudioBuilder (with_builders ba bv s) = ba" "swVideoBuilder (with_builders ba bv s) = bv"
  "(with_builders ba bv s)\<lparr>swAudioBuilder := ba'\<rparr> = with_builders ba' bv s"
  "(with_builders ba bv s)\<lparr>swVideoBuilder := bv'\<rparr> = with_builders ba bv' s"
  "with_builders ba bv (with_builders ba' bv' s) = with_builders ba bv s"
  "swAudioWriter (with_builders ba bv s) = swAudioWriter s" "swVideoWriter (with_builders ba bv s) = swVideoWriter s"
  "swHeader (with_builders ba bv s) = swHeader s"
  by (simp_all add: with_builders_def)

lemma audio_sample_builders:
  "audio_sample lib x (with_builders ba bv s) = map_option (with_builders ba bv) (audio_sample lib x s)"
  by (auto simp: audio_sample_def with_builders_def Let_def bind_map_option map_option_bind comp_def intro!: bind_option_cong split: option.split)

lemma video_sample_builders:
  "video_sample lib x (with_builders ba bv s) = map_option (with_builders ba bv) (video_sample lib x s)"
  by (cases "go_index (smData x) 0"; cases "frame_size (smData x)"; cases "swVideoWriter s"; cases "swAudioWriter s")
    (auto simp: video_sample_def with_builders_def Let_def init_writer_def write_block_def split: prod.split)

lemma drains_pop:
  assumes "drains lib ready"
  shows "ready b = [] \<Longrightarrow> fst (sbPop lib b) = None"
    "ready b = x # xs \<Longrightarrow> fst (sbPop lib b) = Some x \<and> ready (snd (sbPop lib b)) = xs"
  using assms by (auto simp: drains_def split: list.splits)

lemma drained_pop:
  assumes "drains lib ready" and "ready b = x # xs"
  shows "drained lib ready b = drained lib ready (snd (sbPop lib b))"
  using drains_pop(2) [OF assms] assms(2) by (simp add: drained_def funpow_Suc_right del: funpow.simps)

lemma drain_audio_runs:
  assumes "drains lib ready"
  shows "drain_audio lib (with_builders ba bv s) =
    Some (map_option (with_builders (drained lib ready ba) bv) (run_panic (take_sample lib) (map AudioSample (ready ba)) s))"
proof (induction "ready ba" arbitrary: ba s)
  case Nil
  then have "ready ba = []" by simp
  then show ?case using drains_pop(1) [OF assms, of ba] by (subst drain_audio.simps) (simp add: drained_def)
next
  case (Cons x xs)
  have ba: "ready ba = x # xs" using Cons.hyps(2) by simp
  note pop = drains_pop(2) [OF assms ba]
  show ?case
    using Cons.hyps(1) [of "snd (sbPop lib ba)"] drained_pop [OF assms ba] pop ba
    by (subst drain_audio.simps) (auto simp: audio_sample_builders option.map_comp split: option.split)
qed

lemma drain_video_runs:
  assumes "drains lib ready"
  shows "drain_video lib (with_builders ba bv s) =
    Some (map_option (with_builders ba (drained lib ready bv)) (run_panic (take_sample lib) (map VideoSample (ready bv)) s))"
proof (induction "ready bv" arbitrary: bv s)
  case Nil
  then have "ready bv = []" by simp
  then show ?case using drains_pop(1) [OF assms, of bv] by (subst drain_video.simps) (simp add: drained_def)
next
  case (Cons x xs)
  have bv: "ready bv = x # xs" using Cons.hyps(2) by simp
  note pop = drains_pop(2) [OF assms bv]
  show ?case
    using Cons.hyps(1) [of "snd (sbPop lib bv)"] drained_pop [OF assms bv] pop bv
    by (subst drain_video.simps) (auto simp: video_sample_builders option.map_comp split: option.split)
qed

lemma push_runs:
  assumes "drains lib ready"
  shows "push_opus lib p (with_builders ba bv s) = (let b = sbPush lib p ba in
      Some (map_option (with_builders (drained lib ready b) bv) (run_panic (take_sample lib) (map AudioSample (ready b)) s)))"
    "push_vp8 lib p (with_builders ba bv s) = (let b = sbPush lib p bv in
      Some (map_option (with_builders ba (drained lib ready b)) (run_panic (take_sample lib) (map VideoSample (ready b)) s)))"
  using drain_audio_runs [OF assms] drain_video_runs [OF assms] by (simp_all add: push_opus_def push_vp8_def Let_def)

lemma push_all_runs:
  assumes "drains lib ready"
  shows "\<exists>ba' bv'. push_all lib ps (with_builders ba bv s) =
    Some (map_option (with_builders ba' bv') (run_panic (take_sample lib) (arrivals lib ready ps ba bv) s))"
proof (induction ps arbitrary: ba bv s)
  case Nil
  show ?case by (intro exI [of _ ba] exI [of _ bv]) simp
next
  case (Cons p ps)
  show ?case
  proof (cases p)
    case (Opus q)
    then show ?thesis
      using Cons.IH [of "drained lib ready (sbPush lib q ba)" bv] push_runs(1) [OF assms, of q ba bv s]
      by (cases "run_panic (take_sample lib) (map AudioSample (ready (sbPush lib q ba))) s") (auto simp: Let_def run_panic_append)
  next
    case (VP8 q)
    then show ?thesis
      using Cons.IH [of ba "drained lib ready (sbPush lib q bv)"] push_runs(2) [OF assms, of q ba bv s]
      by (cases "run_panic (take_sample lib) (map VideoSample (ready (sbPush lib q bv))) s") (auto simp: Let_def run_panic_append)
  qed
qed

section \<open>What is recorded\<close>

text \<open>The blocks of a track whose samples are \<open>xs\<close>, with the running time from \<open>t\<close>.\<close>

fun recording :: "(media_sample \<Rightarrow> bool) \<Rightarrow> duration \<Rightarrow> media_sample list \<Rightarrow> webm_block list" where
  "recording key t [] = []"
| "recording key t (x # xs) =
     \<lparr>bkKey = key x, bkTime = milliseconds (wrap64 (t + smDuration x)), bkData = smData x\<rparr> #
     recording key (wrap64 (t + smDuration x)) xs"

definition key_frame :: "media_sample \<Rightarrow> bool" where
  "key_frame x \<longleftrightarrow> smData x \<noteq> [] \<and> smData x ! 0 AND 1 = 0"

fun sample_ok :: "sample_event \<Rightarrow> bool" where
  "sample_ok (AudioSample x) \<longleftrightarrow> True"
| "sample_ok (VideoSample x) \<longleftrightarrow> smData x \<noteq> [] \<and> (key_frame x \<longrightarrow> 10 \<le> length (smData x))"

fun starts_recording :: "sample_event \<Rightarrow> bool" where
  "starts_recording (AudioSample x) \<longleftrightarrow> False"
| "starts_recording (VideoSample x) \<longleftrightarrow> key_frame x"

fun audio_of :: "sample_event list \<Rightarrow> media_sample list" where
  "audio_of [] = []"
| "audio_of (AudioSample x # es) = x # audio_of es"
| "audio_of (VideoSample x # es) = audio_of es"

fun video_of :: "sample_event list \<Rightarrow> media_sample list" where
  "video_of [] = []"
| "video_of (AudioSample x # es) = video_of es"
| "video_of (VideoSample x # es) = x # video_of es"

text \<open>The library opens the file and accepts every block.\<close>

definition writes :: "('p, 'b) saver_lib \<Rightarrow> bool" where
  "writes lib \<longleftrightarrow> (\<forall>w h. wrOpens lib w h) \<and> (\<forall>blk. wrAccepts lib blk)"

lemma frame_size_long: "10 \<le> length bytes \<Longrightarrow> \<exists>w h. frame_size bytes = Some (w, h)"
  by (simp add: frame_size_def go_mem Let_def)

lemma frame_size_short: "length bytes < 10 \<Longrightarrow> frame_size bytes = None"
  by (auto simp: frame_size_def go_index_def)

lemma first_byte: "go_index bytes 0 = (if bytes = [] then None else Some (bytes ! 0))"
  by (simp add: go_index_def)

lemma record_open:
  assumes "writes lib"
  shows "swAudioWriter s = Some wa \<Longrightarrow> swVideoWriter s = Some wv \<Longrightarrow>
    (if list_all sample_ok evs
     then \<exists>s'. run_panic (take_sample lib) evs s = Some s' \<and> swHeader s' = swHeader s \<and>
       swAudioWriter s' = Some (wa @ recording (\<lambda>x. True) (swAudioTimestamp s) (audio_of evs)) \<and>
       swVideoWriter s' = Some (wv @ recording key_frame (swVideoTimestamp s) (video_of evs))
     else run_panic (take_sample lib) evs s = None)"
proof (induction evs arbitrary: s wa wv)
  case (Cons e evs)
  show ?case
  proof (cases e)
    case (AudioSample x)
    let ?t = "wrap64 (swAudioTimestamp s + smDuration x)"
    let ?w = "wa @ [\<lparr>bkKey = True, bkTime = milliseconds ?t, bkData = smData x\<rparr>]"
    have "audio_sample lib x s = Some (s\<lparr>swAudioTimestamp := ?t, swAudioWriter := Some ?w\<rparr>)"
      using Cons.prems assms by (simp add: audio_sample_def Let_def write_block_def writes_def)
    then show ?thesis
      using Cons.IH [of "s\<lparr>swAudioTimestamp := ?t, swAudioWriter := Some ?w\<rparr>" ?w wv] Cons.prems
      by (cases "list_all sample_ok evs") (auto simp: AudioSample)
  next
    case (VideoSample x)
    let ?t = "wrap64 (swVideoTimestamp s + smDuration x)"
    let ?w = "wv @ [\<lparr>bkKey = key_frame x, bkTime = milliseconds ?t, bkData = smData x\<rparr>]"
    have "video_sample lib x s = (if sample_ok e then Some (s\<lparr>swVideoTimestamp := ?t, swVideoWriter := Some ?w\<rparr>) else None)"
      using Cons.prems assms frame_size_long [of "smData x"] frame_size_short [of "smData x"]
      by (auto simp: VideoSample video_sample_def first_byte Let_def write_block_def writes_def key_frame_def)
    then show ?thesis
      using Cons.IH [of "s\<lparr>swVideoTimestamp := ?t, swVideoWriter := Some ?w\<rparr>" wa ?w] Cons.prems
      by (cases "list_all sample_ok evs") (auto simp: VideoSample)
  qed
qed simp

lemma record_closed:
  assumes "writes lib"
  shows "swAudioWriter s = None \<Longrightarrow> swVideoWriter s = None \<Longrightarrow> \<not> list_ex starts_recording evs \<Longrightarrow>
    run_panic (take_sample lib) evs s = (if list_all sample_ok evs then Some s else None)"
proof (induction evs)
  case (Cons e evs)
  have "take_sample lib e s = (if sample_ok e then Some s else None)"
    using Cons.prems by (cases e) (auto simp: audio_sample_def video_sample_def first_byte key_frame_def)
  then show ?case using Cons by auto
qed simp

text \<open>The key frame that a recording starts with gives the size of the file, and is its first block.\<close>

lemma record_starts:
  assumes "writes lib" and "swAudioWriter s = None" and "swVideoWriter s = None" and "key_frame x"
  shows "video_sample lib x s = (if sample_ok (VideoSample x)
    then Some (s\<lparr>swHeader := map_option (\<lambda>(w, h). track_entries w h) (frame_size (smData x)), swAudioWriter := Some [], swVideoWriter :=
      Some [\<lparr>bkKey = True, bkTime = milliseconds (wrap64 (swVideoTimestamp s + smDuration x)), bkData = smData x\<rparr>],
      swVideoTimestamp := wrap64 (swVideoTimestamp s + smDuration x)\<rparr>) else None)"
  using assms frame_size_long [of "smData x"] frame_size_short [of "smData x"]
  by (auto simp: video_sample_def first_byte key_frame_def init_writer_def write_block_def writes_def Let_def)

text \<open>
  C21: what a file holds after any packets of both tracks. A frame without a byte, or a key frame that is
  shorter than its header, panics. Otherwise the file is not even opened before the first key frame of the
  video, and what comes before it is lost; its header has the size of that frame, and from there on each
  track holds all its samples in their order, stamped with the running time of its own track.
\<close>

theorem recording_exact:
  assumes "drains lib ready" and "writes lib"
    and "evs = arrivals lib ready ps ba bv" and "rest = dropWhile (Not \<circ> starts_recording) evs"
  shows "if list_all sample_ok evs
    then \<exists>s'. push_all lib ps (new_webm_saver ba bv) = Some (Some s') \<and>
      (case rest of
         [] \<Rightarrow> swAudioWriter s' = None \<and> swVideoWriter s' = None
       | first # later \<Rightarrow> (\<exists>x. first = VideoSample x \<and> key_frame x \<and> swHeader s' = map_option (\<lambda>(w, h). track_entries w h) (frame_size (smData x))) \<and>
           swAudioWriter s' = Some (recording (\<lambda>x. True) 0 (audio_of rest)) \<and>
           swVideoWriter s' = Some (recording key_frame 0 (video_of rest)))
    else push_all lib ps (new_webm_saver ba bv) = Some None"
proof -
  let ?new = "new_webm_saver ba bv"
  define quiet where "quiet = takeWhile (Not \<circ> starts_recording) evs"
  obtain ba' bv' where push: "push_all lib ps ?new = Some (map_option (with_builders ba' bv') (run_panic (take_sample lib) evs ?new))"
    using push_all_runs [OF assms(1), of ps ba bv ?new] by (auto simp: assms(3) with_builders_def new_webm_saver_def)
  have new: "swAudioWriter ?new = None" "swVideoWriter ?new = None" "swAudioTimestamp ?new = 0" "swVideoTimestamp ?new = 0"
    by (simp_all add: new_webm_saver_def)
  have evs: "evs = quiet @ rest" by (simp add: assms(4) quiet_def)
  have "\<not> list_ex starts_recording quiet" by (auto simp: quiet_def list_ex_iff dest: set_takeWhileD)
  note no_key = record_closed [OF assms(2) new(1,2) this]
  show ?thesis
  proof (cases rest)
    case Nil
    then have "quiet = evs" using evs by (metis append_Nil2)
    then have "run_panic (take_sample lib) evs ?new = (if list_all sample_ok evs then Some ?new else None)" using no_key by metis
    then show ?thesis using push new Nil by simp
  next
    case (Cons first later)
    have "starts_recording first" using Cons assms(4) by (metis comp_apply dropWhile_eq_Cons_conv)
    then obtain x where x: "first = VideoSample x" "key_frame x" by (cases first) auto
    let ?t = "wrap64 (0 + smDuration x)"
    let ?s1 = "?new\<lparr>swHeader := map_option (\<lambda>(w, h). track_entries w h) (frame_size (smData x)), swAudioWriter := Some [],
      swVideoWriter := Some [\<lparr>bkKey = True, bkTime = milliseconds ?t, bkData = smData x\<rparr>], swVideoTimestamp := ?t\<rparr>"
    have start: "video_sample lib x ?new = (if sample_ok first then Some ?s1 else None)"
      using record_starts [OF assms(2) new(1,2) x(2)] by (simp add: x(1) new)
    note later = record_open [OF assms(2), of ?s1 "[]" _ later]
    have run: "run_panic (take_sample lib) evs ?new =
        (if list_all sample_ok quiet \<and> sample_ok first then run_panic (take_sample lib) later ?s1 else None)"
      unfolding evs using no_key start by (simp add: run_panic_append Cons x(1))
    have ok: "list_all sample_ok evs \<longleftrightarrow> list_all sample_ok quiet \<and> sample_ok first \<and> list_all sample_ok later"
      by (simp add: evs Cons)
    show ?thesis
    proof (cases "list_all sample_ok evs")
      case True
      then obtain s' where s': "run_panic (take_sample lib) evs ?new = Some s'" "swHeader s' = map_option (\<lambda>(w, h). track_entries w h) (frame_size (smData x))"
          "swAudioWriter s' = Some (recording (\<lambda>x. True) 0 (audio_of later))"
          "swVideoWriter s' = Some (\<lparr>bkKey = True, bkTime = milliseconds ?t, bkData = smData x\<rparr> # recording key_frame ?t (video_of later))"
        using later run ok new by auto
      then show ?thesis using push True x Cons by (auto intro!: exI [of _ "with_builders ba' bv' s'"])
    next
      case False
      then have "run_panic (take_sample lib) evs ?new = None" using later run ok by auto
      then show ?thesis using push False by simp
    qed
  qed
qed

text \<open>A builder whose packets are whole samples.\<close>

definition sample_saver_lib :: "(media_sample, media_sample list) saver_lib" where
  "sample_saver_lib = \<lparr>sbPush = \<lambda>p b. b @ [p], sbPop = \<lambda>b. (case b of [] \<Rightarrow> (None, []) | x # xs \<Rightarrow> (Some x, xs)),
     wrOpens = \<lambda>w h. True, wrAccepts = \<lambda>blk. True\<rparr>"

definition sample_frame :: "u8 \<Rightarrow> media_sample" where
  "sample_frame n = \<lparr>smData = [n, 0, 0, 157, 1, 42, 64, 1, 240, 0], smDuration = 40000000\<rparr>"

theorem recording_exact_witness:
  "\<exists>s'. push_all sample_saver_lib [VP8 (sample_frame 1), Opus (sample_frame 7), VP8 (sample_frame 0), Opus (sample_frame 9), VP8 (sample_frame 3)]
      (new_webm_saver [] []) = Some (Some s') \<and> swHeader s' = Some (track_entries 320 240) \<and>
    map_option (map bkTime) (swAudioWriter s') = Some [40] \<and> map_option (map bkTime) (swVideoWriter s') = Some [40, 80]"
proof -
  let ?ps = "[VP8 (sample_frame 1), Opus (sample_frame 7), VP8 (sample_frame 0), Opus (sample_frame 9), VP8 (sample_frame 3)]"
  let ?evs = "[VideoSample (sample_frame 1), AudioSample (sample_frame 7), VideoSample (sample_frame 0), AudioSample (sample_frame 9),
    VideoSample (sample_frame 3)]"
  have lib: "drains sample_saver_lib id" "writes sample_saver_lib"
    by (auto simp: drains_def writes_def sample_saver_lib_def split: list.split)
  have evs: "?evs = arrivals sample_saver_lib id ?ps [] []" by code_simp
  have rest: "drop 2 ?evs = dropWhile (Not \<circ> starts_recording) ?evs" by code_simp
  have ok: "list_all sample_ok ?evs" by code_simp
  have size: "frame_size (smData (sample_frame 0)) = Some (320, 240)" by code_simp
  have times: "map bkTime (recording (\<lambda>x. True) 0 (audio_of (drop 2 ?evs))) = [40]"
      "map bkTime (recording key_frame 0 (video_of (drop 2 ?evs))) = [40, 80]"
    by code_simp+
  show ?thesis
    using recording_exact [OF lib evs rest] ok size times by auto
qed

text \<open>
  \<^verbatim>\<open>storeConsumerData\<close> opens the file at once: its size is 0 by 0 for good, and the video need not start
  with a key frame.
\<close>

lemma stored_without_size:
  assumes "writes lib" and "list_all sample_ok evs"
  shows "\<exists>s s'. store_consumer_data lib ba bv = Some s \<and> run_panic (take_sample lib) evs s = Some s' \<and>
    swHeader s' = Some (track_entries 0 0) \<and> swVideoWriter s' = Some (recording key_frame 0 (video_of evs))"
proof -
  let ?s = "(new_webm_saver ba bv)\<lparr>swHeader := Some (track_entries 0 0), swAudioWriter := Some [], swVideoWriter := Some []\<rparr>"
  have "store_consumer_data lib ba bv = Some ?s"
    using assms(1) by (simp add: store_consumer_data_def init_writer_def writes_def)
  then show ?thesis using record_open [OF assms(1), of ?s "[]" "[]" evs] assms(2) by (auto simp: new_webm_saver_def)
qed

end
