(* ===== verification/Helpers.thy ===== *)
theory Helpers
  imports GoRuntime
begin

unbundle bit_operations_syntax

text \<open>
  The helpers of \<^verbatim>\<open>pkg/rtc/utils.go\<close> that no other theory holds: rewriting the descriptor of a VP8 payload,
  random names, and the atomic flag.
\<close>

section \<open>The descriptor of a VP8 payload\<close>

definition modify_vp8_temporal_payload :: "u8 list \<Rightarrow> int \<Rightarrow> int \<Rightarrow> u16 \<Rightarrow> u8 \<Rightarrow> bool \<Rightarrow> u8 list option" where
  "modify_vp8_temporal_payload payload picIDIdx tlz0Idx picID tlz0ID mBit = do {
     let pid0 = (ucast (drop_bit 8 picID) :: u8);
     let pid1 = (ucast picID :: u8);
     payload \<leftarrow> go_update payload picIDIdx pid0;
     payload \<leftarrow> (if mBit then do {
         b \<leftarrow> go_index payload picIDIdx;
         payload \<leftarrow> go_update payload picIDIdx (b OR 0x80);
         go_update payload (picIDIdx + 1) pid1 }
       else Some payload);
     go_update payload tlz0Idx tlz0ID }"

lemma bit_128: "bit (0x80 :: 'n :: len word) k \<longleftrightarrow> k = 7 \<and> 7 < LENGTH('n)"
proof -
  have "(0x80 :: 'n word) = push_bit 7 1" by simp
  then show ?thesis by (simp only: bit_push_bit_iff bit_1_iff) (auto simp: possible_bit_word)
qed

lemma bit_128_int: "bit (0x80 :: int) k \<longleftrightarrow> k = 7"
proof -
  have "(0x80 :: int) = push_bit 7 1" by simp
  then show ?thesis by (simp only: bit_push_bit_iff bit_1_iff) auto
qed

text \<open>A picture id of 15 bits is written as a reader of the descriptor takes it apart.\<close>

lemma long_picture_id_written:
  assumes "0 \<le> i" and "i + 1 < j" and "j < int (length payload)"
  shows "\<exists>out. modify_vp8_temporal_payload payload i j picID tl0 True = Some out \<and>
    push_bit 8 (ucast (out ! nat i) AND 0x7F) OR ucast (out ! nat (i + 1)) = picID AND 0x7FFF \<and>
    out ! nat j = tl0 \<and> length out = length payload"
proof -
  have n: "nat i < length payload" "nat (i + 1) = Suc (nat i)" "Suc (nat i) < nat j" "nat j < length payload"
    using assms by simp_all
  have join: "push_bit 8 (ucast ((ucast (drop_bit 8 picID) :: u8) OR 0x80) AND 0x7F) OR ucast (ucast picID :: u8) = picID AND 0x7FFF"
  proof -
    have masks: "(0x7F :: u16) = mask 7" "(0x7FFF :: u16) = mask 15"
      by (simp_all add: mask_eq_exp_minus_1)
    show ?thesis
      unfolding masks by (rule bit_word_eqI) (auto simp: bit_simps bit_128 bit_128_int)
  qed
  show ?thesis
    using assms n join by (simp add: modify_vp8_temporal_payload_def go_mem Let_def nth_list_update)
qed

text \<open>A picture id of 7 bits is lost: the byte that is written is the other one, which is 0.\<close>

lemma short_picture_id_lost:
  assumes "0 \<le> i" and "i < j" and "j < int (length payload)" and "unat picID < 128"
  shows "\<exists>out. modify_vp8_temporal_payload payload i j picID tl0 False = Some out \<and> out ! nat i = 0"
proof -
  have "drop_bit 8 picID = 0" using assms(4) by (simp add: word_unat_eq_iff unat_drop_bit_eq) (simp add: drop_bit_nat_def)
  then show ?thesis
    using assms by (simp add: modify_vp8_temporal_payload_def go_mem Let_def nth_list_update)
qed

section \<open>Random names\<close>

definition letters :: string where
  "letters = ''abcdefghijklmnopqrstuvwxyzABCDEFGHIJKLMNOPQRSTUVWXYZ''"

text \<open>\<open>random\<close> is what the generator of the system delivers; where it fails early, the bytes stay 0. A negative length panics.\<close>

definition generate_random_string :: "u8 list \<Rightarrow> int \<Rightarrow> string option" where
  "generate_random_string random n =
     (if n < 0 then None
      else Some (map (\<lambda>b. letters ! unat (b mod of_nat (length letters))) (take (nat n) (random @ replicate (nat n) 0))))"

lemma random_string_letters:
  assumes "0 \<le> n"
  shows "\<exists>s. generate_random_string random n = Some s \<and> int (length s) = n \<and> set s \<subseteq> set letters"
proof -
  have len: "length letters = 52" by (simp add: letters_def)
  have "unat (b mod 52) < 52" for b :: u8
    by (simp add: unat_mod)
  then show ?thesis using assms len by (auto simp: generate_random_string_def)
qed

section \<open>The atomic flag\<close>

type_synonym atomic_bool = u32

definition atomic_bool_set :: "bool \<Rightarrow> atomic_bool \<Rightarrow> bool \<times> atomic_bool" where
  "atomic_bool_set value a = (if value then (a = 0, 1) else (a = 1, 0))"

definition atomic_bool_get :: "atomic_bool \<Rightarrow> bool" where
  "atomic_bool_get a \<longleftrightarrow> a \<noteq> 0"

text \<open>Of several calls that set the flag, one is told that it was the first.\<close>

lemma atomic_bool_set_once:
  assumes "a \<in> {0, 1}" and "atomic_bool_set value a = (swapped, a')"
  shows "atomic_bool_get a' = value \<and> swapped = (atomic_bool_get a \<noteq> value) \<and> a' \<in> {0, 1}"
  using assms by (auto simp: atomic_bool_set_def atomic_bool_get_def split: if_splits)

end
