(* ===== verification/Spec2Isabelle.thy ===== *)
theory Spec2Isabelle
  imports Vp8 Keyframe ReportsSpec SequencerStore PacketMeta FpsSpec BufferNacks BufferControl MediaEngine SignallingSpec
    Pipeline ServerSpec SaverSpec Helpers
begin

text \<open>
  A verification library for go-ortc, a selective forwarding unit for WebRTC media: publishers send their
  audio and video to the server, which forwards the packets to the subscribers of the same room.

  \<^bold>\<open>The program.\<close>
  A client opens a web socket (\<^verbatim>\<open>cmd/ws.go\<close>), which puts a peer into a room (\<^verbatim>\<open>cmd/peer.go\<close>, \<^verbatim>\<open>cmd/room.go\<close>);
  its messages make, connect and close transports, and produce and consume streams. A room has a router
  (\<^verbatim>\<open>pkg/rtc/router.go\<close>), a router has transports (\<^verbatim>\<open>webrtc_transport.go\<close>), and these have producers and
  consumers of media (\<^verbatim>\<open>producer.go\<close>, \<^verbatim>\<open>consumer.go\<close>) and of data (\<^verbatim>\<open>data_producer.go\<close>,
  \<^verbatim>\<open>data_consumer.go\<close>). The packets of a source come into a buffer (\<^verbatim>\<open>pkg/buffer/buffer.go\<close>) that the
  factory of the server made for it (\<^verbatim>\<open>factory.go\<close>); the buffer keeps statistics (\<^verbatim>\<open>rtpstats.go\<close>), frame
  rates (\<^verbatim>\<open>fps.go\<close>) and the audio level (\<^verbatim>\<open>pkg/audio/audiolevel.go\<close>), and asks the sender for lost packets
  and key frames. The reading loop of a producer takes the packets out and hands them to the router, which
  writes them to each consumer's down track (\<^verbatim>\<open>downtrack.go\<close>). The down track rewrites and sends them, and
  answers the negative acknowledgements of its subscriber from a sequencer (\<^verbatim>\<open>sequencer.go\<close>) that records
  what was sent. Parameters are negotiated in the form of \<^verbatim>\<open>rtp_parameters.go\<close> and \<^verbatim>\<open>mediaengine.go\<close>.

  \<^bold>\<open>The theories.\<close> A model theory has the names of the code; the theories named after it with \<^verbatim>\<open>Spec\<close> and
  the like hold its properties.
    \<^item> \<^verbatim>\<open>Prelude\<close>, \<^verbatim>\<open>GoRuntime\<close>, \<^verbatim>\<open>GoStrings\<close>: words, checked reads and panics, serial numbers, time, division,
      IEEE floating point, strings. \<^verbatim>\<open>Interfaces\<close>: the contracts that components share, as locales (a format
      with reader and writer, a component with an invariant, one that does not panic, a source of
      identifiers); each component interprets them on its own operations. \<^verbatim>\<open>Rtp\<close>: the packet structures.
    \<^item> \<^verbatim>\<open>Vp8\<close>, \<^verbatim>\<open>Keyframe\<close>: \<^verbatim>\<open>buffer/helpers.go\<close>; the VP8 descriptor's reader and writer with their round trip
      and the absence of panics, the key frame detectors of H.264 and AV1.
    \<^item> \<^verbatim>\<open>Layers\<close>, \<^verbatim>\<open>Fps\<close>, \<^verbatim>\<open>FpsSpec\<close>: \<^verbatim>\<open>videolayer.go\<close>, \<^verbatim>\<open>fps.go\<close>. \<^verbatim>\<open>AudioLevel\<close>: \<^verbatim>\<open>audiolevel.go\<close>.
    \<^item> \<^verbatim>\<open>RtpStats\<close>, \<^verbatim>\<open>RtpReports\<close>: the two halves of \<^verbatim>\<open>rtpstats.go\<close>. \<^verbatim>\<open>StatsRing\<close>, \<^verbatim>\<open>StatsSpec\<close>: the abstract
      receiver, a set of numbers, that \<open>Update\<close> implements. \<^verbatim>\<open>StatsSafe\<close>: no run panics. \<^verbatim>\<open>ReportsSpec\<close>: the
      reception report against exact counts.
    \<^item> \<^verbatim>\<open>Buffer\<close>, \<^verbatim>\<open>BufferSpec\<close>, \<^verbatim>\<open>BufferNacks\<close>, \<^verbatim>\<open>BufferControl\<close>: \<^verbatim>\<open>buffer.go\<close>; early packets are replayed, no run
      panics, only missing numbers are asked for. \<^verbatim>\<open>Factory\<close>: \<^verbatim>\<open>factory.go\<close>, \<^verbatim>\<open>rtcpreader.go\<close>; the entries are
      the live objects.
    \<^item> \<^verbatim>\<open>Sequencer\<close>, \<^verbatim>\<open>SequencerSpec\<close>, \<^verbatim>\<open>SequencerStore\<close>, \<^verbatim>\<open>PacketMeta\<close>: \<^verbatim>\<open>sequencer.go\<close> as a store of recent packets.
    \<^item> \<^verbatim>\<open>DownTrack\<close>, \<^verbatim>\<open>DownTrackSpec\<close>, \<^verbatim>\<open>DownTrackStream\<close>: \<^verbatim>\<open>downtrack.go\<close> and the codec search of \<^verbatim>\<open>utils.go\<close>; what is
      sent for what comes in, what a retransmission sends. \<^verbatim>\<open>Helpers\<close>: the rest of \<^verbatim>\<open>utils.go\<close>.
    \<^item> \<^verbatim>\<open>Params\<close>, \<^verbatim>\<open>ParamsSpec\<close>, \<^verbatim>\<open>MediaEngine\<close>: \<^verbatim>\<open>rtp_parameters.go\<close>, \<^verbatim>\<open>mediaengine.go\<close>.
    \<^item> \<^verbatim>\<open>Sfu\<close>, \<^verbatim>\<open>Transport\<close>, \<^verbatim>\<open>SfuSpec\<close>: \<^verbatim>\<open>sfu.go\<close>, \<^verbatim>\<open>router.go\<close>, \<^verbatim>\<open>webrtc_transport.go\<close>, \<^verbatim>\<open>producer.go\<close>, \<^verbatim>\<open>consumer.go\<close>,
      \<^verbatim>\<open>data_producer.go\<close>, \<^verbatim>\<open>data_consumer.go\<close>, \<^verbatim>\<open>sctp_parameters.go\<close>. The record \<open>sfu\<close> holds all media objects;
      the way of a packet from its producer to the consumers, identifiers, reports. \<^verbatim>\<open>Pipeline\<close>: from a buffer's
      queue through the reading loop and the router to what the subscribers are sent.
    \<^item> \<^verbatim>\<open>Rooms\<close>, \<^verbatim>\<open>Signalling\<close>, \<^verbatim>\<open>SignallingSpec\<close>: \<^verbatim>\<open>cmd/peer.go\<close>, \<^verbatim>\<open>cmd/room.go\<close>, \<^verbatim>\<open>cmd/ws.go\<close>. The record \<open>server\<close> adds
      rooms and peers to an \<open>sfu\<close>; which messages are answered.
    \<^item> \<^verbatim>\<open>References\<close>, \<^verbatim>\<open>ReferencesKept\<close>: the references between media objects, kept by every operation.
      \<^verbatim>\<open>System\<close>: the running server as a step relation, with the states it reaches. \<^verbatim>\<open>SystemSpec\<close>,
      \<^verbatim>\<open>ServerSpec\<close>: every step keeps the references; packets stay in their room; what closing ends.
    \<^item> \<^verbatim>\<open>Saver\<close>, \<^verbatim>\<open>SaverSpec\<close>: \<^verbatim>\<open>pkg/saver/webm.go\<close> and the debugging aid of the router; what a recording holds.

  \<^bold>\<open>How the code is modelled.\<close>
    \<^item> Operations are functions on records of the code's fields. A panic is \<open>None\<close>, an error a value of a
      sum or option type; every return of the code is a branch. A function that the code ends with an
      error after changing the state returns the changed state with it.
    \<^item> Objects that the code shares through pointers live in growing lists, and a reference is a position.
      A Go map is a partial function, or a list of pairs where a loop visits it; the order of the pairs
      stands for any order of the visit, since theorems hold for all lists. A map that the code sets to
      \<^verbatim>\<open>nil\<close> is optional, and writing to it then panics.
    \<^item> Integers are words of their width. The Go type \<^verbatim>\<open>int\<close> is an unbounded integer where it holds an index or
      a length, with the wrap-around of 64 bits written out where it can overflow. Floating point follows
      IEEE 754 on rationals, rounded after each operation.
    \<^item> Time is an argument: an operation reads the clock once. What libraries answer is an argument too: the
      parsers and transports of pion, the queues of lost numbers, the store of packets and the responder of
      mediatransportutil, the JSON decoder. They enter as records of functions, or as the outcome of one
      call; what a theorem needs of them is a hypothesis with a witness. A feedback responder belongs to
      one buffer of the model, where the code shares one per transport.
    \<^item> A method that holds a lock is one step. Goroutines are separate operations (\<open>read_rtp_round\<close>,
      \<open>write_reports\<close>, \<open>retransmit_round\<close>), which \<open>server_step\<close> interleaves in any order with messages and
      arriving packets. It allows more than the code does, so what holds in every state it reaches holds of
      the code as modelled. A step that panics is none; panics are the subject of other theorems.
    \<^item> What an operation sends or calls is appended to a list in its state. Writing RTCP is always accepted.

  \<^bold>\<open>Bounds.\<close>
  Loops are structural recursions or have a termination proof; where the code's loop may not end
  (\<open>wrap_up\<close> and \<open>wrap_down\<close> of the sequencer, \<open>drain_audio\<close> and \<open>drain_video\<close> of the saver) it is a partial
  function, and that it ends is proved: for the sequencer from its invariant, for the saver from the
  builder's queue being finite. No fuel is used. The bounds of the rings, of 2048 numbers in the
  statistics and of the length given to the sequencer, are those of the code.

  \<^bold>\<open>Not modelled.\<close>
    \<^item> \<^verbatim>\<open>pkg/logger\<close>, \<^verbatim>\<open>errors.go\<close>, and the methods that print statistics: texts only.
    \<^item> \<^verbatim>\<open>cmd/main.go\<close>, \<^verbatim>\<open>pkg/rtc/config.go\<close>: starting the HTTP listener, and constants for pion's settings.
    \<^item> \<^verbatim>\<open>pkg/rtc/testutils\<close> and \<^verbatim>\<open>streamstats.go\<close>: test data, and a type that nothing uses.
    \<^item> Getters of a field; the pools of memory, and the sharing of a packet's bytes between a buffer and its
      readers; upgrading a web socket and reading its frames; strings outside ASCII where spaces are trimmed.
\<close>

end
